(* ===== verification/Prelude.thy ===== *)
theory Prelude
  imports Main "HOL-Library.Word" "HOL-Library.Sublist" "HOL-Library.Char_ord"
    "HOL-Library.List_Lexorder"
begin

text \<open>
  What every component of the development shares: the machine integers and the byte strings of
  Go, its error values (sentinels, wrapped errors, the dead-letter mark), the functions of the
  packages strings and strconv the services call, and the parameters that stand for code
  outside the repository (google/uuid, the Unicode case tables) with their laws as a locale.
  The generic lemmas on folds, sums and maps that the component proofs use are here as well.
\<close>

named_theorems err_simps \<open>how errors.Is sees through the error constructors\<close>
named_theorems text_simps \<open>trimming and case mapping of normal strings\<close>
named_theorems word_facts \<open>signed readings of the machine arithmetic the code does\<close>

section \<open>Machine integers\<close>

text \<open>Go's int32 and int64 are two's complement words: arithmetic wraps, comparisons are signed.\<close>

type_synonym int32 = "32 word"
type_synonym int64 = "64 word"
type_synonym uuid = "128 word"

text \<open>Instants are nanoseconds since 1970-01-01 00:00:00 UTC; the zone of a Go time.Time is
  never observed, since the code converts with UTC() before it stores or formats one.\<close>

type_synonym time = int

definition int64_of_int32 :: "int32 \<Rightarrow> int64" where
  "int64_of_int32 q = word_of_int (sint q)"

lemma sint_range64: "- (2 ^ 63) \<le> sint (a :: int64)" "sint (a :: int64) < 2 ^ 63"
  using sint_ge [of a] sint_lt [of a] by simp_all

lemma sint_range32: "- (2 ^ 31) \<le> sint (a :: int32)" "sint (a :: int32) < 2 ^ 31"
  using sint_ge [of a] sint_lt [of a] by simp_all

lemma sint_of_int64 [word_facts]:
  "- (2 ^ 63) \<le> k \<Longrightarrow> k < 2 ^ 63 \<Longrightarrow> sint (word_of_int k :: int64) = k"
  by (simp add: sint_sbintrunc' signed_take_bit_int_eq_self)

lemma sint_int64_of_int32 [simp]: "sint (int64_of_int32 q) = sint q"
proof -
  have "- (2 ^ 63) \<le> sint q" "sint q < 2 ^ 63"
    using sint_range32 [of q] by simp_all
  then show ?thesis
    unfolding int64_of_int32_def by (rule sint_of_int64)
qed

lemma sint_add64 [word_facts]:
  "- (2 ^ 63) \<le> sint a + sint b \<Longrightarrow> sint a + sint b < 2 ^ 63 \<Longrightarrow>
   sint (a + b :: int64) = sint a + sint b"
  by (simp add: sint_word_ariths signed_take_bit_int_eq_self)

lemma sint_sub64 [word_facts]:
  "- (2 ^ 63) \<le> sint a - sint b \<Longrightarrow> sint a - sint b < 2 ^ 63 \<Longrightarrow>
   sint (a - b :: int64) = sint a - sint b"
  by (simp add: sint_word_ariths signed_take_bit_int_eq_self)

lemma sint_mul64 [word_facts]:
  "- (2 ^ 63) \<le> sint a * sint b \<Longrightarrow> sint a * sint b < 2 ^ 63 \<Longrightarrow>
   sint (a * b :: int64) = sint a * sint b"
  by (simp add: sint_word_ariths signed_take_bit_int_eq_self)

lemma sless64 [simp]: "(a :: int64) <s b \<longleftrightarrow> sint a < sint b"
  by (simp add: word_sless_alt)

lemma sle64 [simp]: "(a :: int64) \<le>s b \<longleftrightarrow> sint a \<le> sint b"
  by (simp add: word_sle_eq)

lemma sless32 [simp]: "(a :: int32) <s b \<longleftrightarrow> sint a < sint b"
  by (simp add: word_sless_alt)

lemma sle32 [simp]: "(a :: int32) \<le>s b \<longleftrightarrow> sint a \<le> sint b"
  by (simp add: word_sle_eq)

section \<open>Error values\<close>

text \<open>
  An error is a sentinel of the service's package, a sentinel wrapped with a text
  (\<open>fmt.Errorf("%w: ...", Err...)\<close>), an error that comes out of a library call, an error
  wrapped with a prefix (\<open>fmt.Errorf("save saga: %w", err)\<close>), or an error marked permanent by
  deadletter.Permanent, which wraps both ErrPermanent and the cause. The texts are the constant
  parts of the messages; the values the source interpolates are left out.
\<close>

datatype 's err =
    Sentinel 's
  | Detailf 's string
  | Foreign string
  | Wrapf string "'s err"
  | Permanentf "'s err"

text \<open>errors.Is walks the chain of wrapped errors.\<close>

primrec errors_Is :: "'s err \<Rightarrow> 's \<Rightarrow> bool" where
  "errors_Is (Sentinel t) s = (t = s)"
| "errors_Is (Detailf t m) s = (t = s)"
| "errors_Is (Foreign m) s = False"
| "errors_Is (Wrapf p e) s = errors_Is e s"
| "errors_Is (Permanentf e) s = errors_Is e s"

text \<open>errors.Is for the one sentinel of the deadletter packages, ErrPermanent.\<close>

primrec is_permanent :: "'s err \<Rightarrow> bool" where
  "is_permanent (Sentinel t) = False"
| "is_permanent (Detailf t m) = False"
| "is_permanent (Foreign m) = False"
| "is_permanent (Wrapf p e) = is_permanent e"
| "is_permanent (Permanentf e) = True"

lemmas [err_simps] = errors_Is.simps is_permanent.simps

lemma map_sum_id_Inr [simp]:
  "map_sum id f x = Inr y \<longleftrightarrow> (\<exists>a. x = Inr a \<and> y = f a)"
  "map_sum id f x = Inl e \<longleftrightarrow> x = Inl e"
  by (cases x; auto)+

section \<open>Finding rows\<close>

lemma find_append: "find P (xs @ ys) = (case find P xs of None \<Rightarrow> find P ys | Some x \<Rightarrow> Some x)"
  by (induction xs) auto

lemma find_unique: "distinct (map f xs) \<Longrightarrow> x \<in> set xs \<Longrightarrow> find (\<lambda>y. f y = f x) xs = Some x"
  by (induction xs) (auto simp: rev_image_eqI)

section \<open>Strings\<close>

text \<open>
  A Go string is a sequence of bytes, so \<open>length\<close> is \<open>len\<close>. strings.TrimSpace removes
  leading and trailing Unicode white space; the white space characters are listed by their
  UTF-8 encodings.
\<close>

definition white_space :: "string list" where
  "white_space =
     map (\<lambda>n. [char_of n]) [9::nat, 10, 11, 12, 13, 32]
     @ map (\<lambda>n. [char_of (194::nat), char_of n]) [133::nat, 160]
     @ [map char_of [225::nat, 154, 128]]
     @ map (\<lambda>n. map char_of [226, 128, n]) ([128::nat ..< 139] @ [168, 169, 175])
     @ [map char_of [226::nat, 129, 159], map char_of [227::nat, 128, 128]]"

function strip :: "string list \<Rightarrow> string \<Rightarrow> string" where
  "strip ws s =
     (case find (\<lambda>w. w \<noteq> [] \<and> prefix w s) ws of
        None \<Rightarrow> s
      | Some w \<Rightarrow> strip ws (drop (length w) s))"
  by pat_completeness auto
termination
  by (relation "measure (\<lambda>(ws, s). length s)")
     (auto simp: find_Some_iff prefix_def)

declare strip.simps [simp del]

definition TrimSpace :: "string \<Rightarrow> string" where
  "TrimSpace s = rev (strip (map rev white_space) (rev (strip white_space s)))"

definition is_ascii :: "string \<Rightarrow> bool" where
  "is_ascii s = list_all (\<lambda>c. of_char c < (128 :: nat)) s"

definition upper_char :: "char \<Rightarrow> char" where
  "upper_char c = (if 97 \<le> (of_char c :: nat) \<and> of_char c \<le> (122 :: nat)
                   then char_of ((of_char c :: nat) - 32) else c)"

definition lower_char :: "char \<Rightarrow> char" where
  "lower_char c = (if 65 \<le> (of_char c :: nat) \<and> of_char c \<le> (90 :: nat)
                   then char_of ((of_char c :: nat) + 32) else c)"

lemma strip_suffix: "suffix (strip ws s) s"
proof (induction ws s rule: strip.induct)
  case (1 ws s)
  show ?case
  proof (cases "find (\<lambda>w. w \<noteq> [] \<and> prefix w s) ws")
    case None
    then show ?thesis by (simp add: strip.simps [of ws s])
  next
    case (Some w)
    with 1 have "suffix (strip ws (drop (length w) s)) (drop (length w) s)" by simp
    then show ?thesis
      using Some by (simp add: strip.simps [of ws s])
        (metis suffix_drop suffix_order.trans)
  qed
qed

lemma strip_no_prefix: "w \<in> set ws \<Longrightarrow> w \<noteq> [] \<Longrightarrow> \<not> prefix w (strip ws s)"
proof (induction ws s rule: strip.induct)
  case (1 ws s)
  then show ?case
  proof (cases "find (\<lambda>w. w \<noteq> [] \<and> prefix w s) ws")
    case None
    then have "strip ws s = s" by (simp add: strip.simps [of ws s])
    moreover from None "1.prems" have "\<not> prefix w s" by (auto simp: find_None_iff)
    ultimately show ?thesis by simp
  next
    case (Some v)
    then have "strip ws s = strip ws (drop (length v) s)" by (simp add: strip.simps [of ws s])
    with "1.IH" [OF Some "1.prems"] show ?thesis by simp
  qed
qed

lemma strip_id: "(\<And>w. w \<in> set ws \<Longrightarrow> w \<noteq> [] \<Longrightarrow> \<not> prefix w s) \<Longrightarrow> strip ws s = s"
proof -
  assume "\<And>w. w \<in> set ws \<Longrightarrow> w \<noteq> [] \<Longrightarrow> \<not> prefix w s"
  then have "find (\<lambda>w. w \<noteq> [] \<and> prefix w s) ws = None"
    by (auto simp: find_None_iff)
  then show ?thesis by (simp add: strip.simps [of ws s])
qed

text \<open>Trimming twice is trimming once: the right trim leaves a prefix of the left-trimmed text.\<close>

lemma TrimSpace_idem [simp]: "TrimSpace (TrimSpace s) = TrimSpace s"
proof -
  let ?l = "strip white_space s"
  let ?r = "strip (map rev white_space) (rev ?l)"
  have pre: "prefix (rev ?r) ?l"
    using strip_suffix [of "map rev white_space" "rev ?l"] by (simp add: suffix_to_prefix)
  have left: "strip white_space (rev ?r) = rev ?r"
  proof (rule strip_id)
    fix w assume w: "w \<in> set white_space" "w \<noteq> []"
    show "\<not> prefix w (rev ?r)"
      using strip_no_prefix [OF w, of s] pre by (meson prefix_order.trans)
  qed
  have right: "strip (map rev white_space) ?r = ?r"
    by (rule strip_id) (rule strip_no_prefix)
  show ?thesis by (simp add: TrimSpace_def left right)
qed

lemma length_strip: "length (strip ws s) \<le> length s"
  by (rule suffix_length_le [OF strip_suffix])

lemma length_TrimSpace: "length (TrimSpace s) \<le> length s"
  unfolding TrimSpace_def
  by (metis length_rev length_strip order_trans)

lemma TrimSpace_Nil [simp]: "TrimSpace [] = []"
  using length_TrimSpace [of "[]"] by simp

text \<open>The texts Postgres takes: without the character NUL.\<close>

definition pg_text :: "string \<Rightarrow> bool" where
  "pg_text s = list_all (\<lambda>c. c \<noteq> CHR 0x00) s"

lemma pg_text_simps [simp]:
  "pg_text []" "pg_text (c # s) \<longleftrightarrow> c \<noteq> CHR 0x00 \<and> pg_text s"
  "pg_text (s @ t) \<longleftrightarrow> pg_text s \<and> pg_text t" "pg_text (rev s) = pg_text s"
  by (simp_all add: pg_text_def list_all_iff) blast

lemma pg_text_sub:
  "pg_text s \<Longrightarrow> pg_text (take n s)" "pg_text s \<Longrightarrow> pg_text (drop n s)"
  "pg_text s \<Longrightarrow> pg_text (dropWhile P s)"
  by (auto simp: pg_text_def list_all_iff dest: in_set_takeD in_set_dropD set_dropWhileD)

lemma TrimSpace_pg_text: "pg_text s \<Longrightarrow> pg_text (TrimSpace s)"
proof -
  have "pg_text t" if "suffix t s" "pg_text s" for s t :: string
    using that by (auto simp: suffix_def)
  note sub = this [OF strip_suffix]
  assume "pg_text s"
  then have "pg_text (strip (map rev white_space) (rev (strip white_space s)))"
    by (intro sub) (simp add: sub)
  then show ?thesis by (simp add: TrimSpace_def)
qed

text \<open>A text that starts and ends with a printable ASCII character is its own trimming.\<close>

definition plain_char :: "char \<Rightarrow> bool" where
  "plain_char c = (33 \<le> (of_char c :: nat) \<and> (of_char c :: nat) < 127)"

section \<open>Code outside the repository\<close>

text \<open>
  google/uuid and the Unicode case tables are parameters: \<open>uuid_Parse\<close> is uuid.Parse (\<open>None\<close>
  for its error), \<open>uuid_String\<close> is UUID.String, \<open>uuid_New k\<close> is the \<open>k\<close>-th value uuid.New
  returns, \<open>unicode_ToUpper\<close> is strings.ToUpper on strings that are not ASCII, and
  \<open>pg_uuid\<close> is the text Postgres gives back for a text stored in a column of type UUID (\<open>None\<close>
  where it rejects the text).
\<close>

record golib =
  uuid_Parse :: "string \<Rightarrow> uuid option"
  uuid_String :: "uuid \<Rightarrow> string"
  uuid_New :: "nat \<Rightarrow> uuid"
  unicode_ToUpper :: "string \<Rightarrow> string"
  pg_uuid :: "string \<Rightarrow> string option"

definition ToUpper :: "golib \<Rightarrow> string \<Rightarrow> string" where
  "ToUpper L s = (if is_ascii s then map upper_char s else unicode_ToUpper L s)"

text \<open>The documented laws the code relies on, and what follows from them.\<close>

locale uuid_laws =
  fixes L :: golib
  assumes parse_string: "uuid_Parse L (uuid_String L u) = Some u"
    and pg_uuid_string: "pg_uuid L (uuid_String L u) = Some (uuid_String L u)"
    and string_text: "pg_text (uuid_String L u)" and string_nonempty: "uuid_String L u \<noteq> []"
    and string_trim: "TrimSpace (uuid_String L u) = uuid_String L u"
    and string_segment: "CHR ''/'' \<notin> set (uuid_String L u)"
begin

lemma string_inj: "uuid_String L u = uuid_String L v \<longleftrightarrow> u = v"
  by (metis option.inject parse_string)

end

locale golib_laws = uuid_laws +
  assumes upper_idem: "ToUpper L (ToUpper L s) = ToUpper L s"
    and upper_trim: "TrimSpace s = s \<Longrightarrow> TrimSpace (ToUpper L s) = ToUpper L s"
begin

lemma upper_trim_normal:
  "TrimSpace (ToUpper L (TrimSpace s)) = ToUpper L (TrimSpace s)"
  by (simp add: upper_trim)

end

end
