(* ===== verification/Digits.thy ===== *)
theory Digits
  imports Prelude
begin

text \<open>
  Positional notation, shared by the decimal numbers of messages and timestamps and by the
  hexadecimal form of a UUID: fixed-width digit lists, their value, and the two readings of a
  digit as a character. At the end a concrete \<open>golib\<close>, which shows that the laws assumed of the
  library parameters can hold, and on which the witnesses of the development run.
\<close>

section \<open>Digit lists\<close>

primrec digits :: "nat \<Rightarrow> nat \<Rightarrow> nat \<Rightarrow> nat list" where
  "digits b 0 n = []"
| "digits b (Suc k) n = digits b k (n div b) @ [n mod b]"

definition undigits :: "nat \<Rightarrow> nat list \<Rightarrow> nat" where
  "undigits b ds = foldl (\<lambda>a d. a * b + d) 0 ds"

lemma length_digits [simp]: "length (digits b k n) = k"
  by (induction k arbitrary: n) auto

lemma digits_less: "0 < b \<Longrightarrow> d \<in> set (digits b k n) \<Longrightarrow> d < b"
  by (induction k arbitrary: n) auto

lemma undigits_digits: "undigits b (digits b k n) = n mod b ^ k"
proof (induction k arbitrary: n)
  case 0
  then show ?case by (simp add: undigits_def)
next
  case (Suc k)
  have "undigits b (digits b (Suc k) n) = (n div b mod b ^ k) * b + n mod b"
    using Suc [of "n div b"] by (simp add: undigits_def)
  also have "\<dots> = n mod (b * b ^ k)"
    by (simp add: mod_mult2_eq mult.commute)
  finally show ?case by simp
qed

lemma undigits_digits_small: "n < b ^ k \<Longrightarrow> undigits b (digits b k n) = n"
  by (simp add: undigits_digits)

section \<open>Digits as characters\<close>

definition digit_char :: "nat \<Rightarrow> char" where
  "digit_char d = (if d < 10 then char_of (48 + d) else char_of (87 + d))"

definition char_digit :: "nat \<Rightarrow> char \<Rightarrow> nat option" where
  "char_digit b c =
     (let n = of_char c :: nat;
          d = (if 48 \<le> n \<and> n \<le> 57 then Some (n - 48)
               else if 97 \<le> n \<and> n \<le> 102 then Some (n - 87)
               else if 65 \<le> n \<and> n \<le> 70 then Some (n - 55) else None)
      in case d of None \<Rightarrow> None | Some v \<Rightarrow> if v < b then Some v else None)"

lemma char_digit_digit_char: "b \<le> 16 \<Longrightarrow> d < b \<Longrightarrow> char_digit b (digit_char d) = Some d"
  by (auto simp: char_digit_def digit_char_def Let_def)

fun read_digits :: "nat \<Rightarrow> string \<Rightarrow> nat list option" where
  "read_digits b [] = Some []"
| "read_digits b (c # cs) =
     (case char_digit b c of None \<Rightarrow> None
      | Some d \<Rightarrow> map_option (Cons d) (read_digits b cs))"

lemma read_digits_map:
  "b \<le> 16 \<Longrightarrow> (\<And>d. d \<in> set ds \<Longrightarrow> d < b) \<Longrightarrow> read_digits b (map digit_char ds) = Some ds"
  by (induction ds) (auto simp: char_digit_digit_char)

definition padded :: "nat \<Rightarrow> nat \<Rightarrow> nat \<Rightarrow> string" where
  "padded b k n = map digit_char (digits b k n)"

definition unpad :: "nat \<Rightarrow> string \<Rightarrow> nat option" where
  "unpad b s = map_option (undigits b) (read_digits b s)"

lemma length_padded [simp]: "length (padded b k n) = k"
  by (simp add: padded_def)

lemma unpad_padded: "0 < b \<Longrightarrow> b \<le> 16 \<Longrightarrow> n < b ^ k \<Longrightarrow> unpad b (padded b k n) = Some n"
  by (simp add: padded_def unpad_def read_digits_map digits_less undigits_digits_small)

lemma digit_char_nonzero: "d < 100 \<Longrightarrow> digit_char d \<noteq> CHR 0x00"
proof
  assume "d < 100" "digit_char d = CHR 0x00"
  then have "(of_char (digit_char d) :: nat) = 0" "d < 100" by simp_all
  then show False by (simp add: digit_char_def split: if_splits)
qed

lemma padded_pg_text [simp]: "0 < b \<Longrightarrow> b \<le> 16 \<Longrightarrow> pg_text (padded b k n)"
proof -
  assume "0 < b" "b \<le> 16"
  then have "d < 100" if "d \<in> set (digits b k n)" for d
    using digits_less [OF \<open>0 < b\<close> that] by simp
  then show ?thesis
    unfolding padded_def pg_text_def list_all_iff by (auto dest: digit_char_nonzero)
qed

text \<open>Decimal numbers of any size, as the verb \<open>%d\<close> prints them.\<close>

fun show_nat :: "nat \<Rightarrow> string" where
  "show_nat n = (if n < 10 then [digit_char n] else show_nat (n div 10) @ [digit_char (n mod 10)])"

declare show_nat.simps [simp del]

definition show_int :: "int \<Rightarrow> string" where
  "show_int k = (if k < 0 then CHR ''-'' # show_nat (nat (- k)) else show_nat (nat k))"

lemma show_nat_pg_text [simp]: "pg_text (show_nat n)"
proof (induction n rule: show_nat.induct)
  case (1 n)
  then show ?case
    by (subst show_nat.simps) (simp add: digit_char_nonzero)
qed

section \<open>A concrete library\<close>

text \<open>UUIDs in the 36-character form; upper case on ASCII only.\<close>

definition hex_uuid :: "uuid \<Rightarrow> string" where
  "hex_uuid u =
     (let s = padded 16 32 (unat u)
      in take 8 s @ ''-'' @ take 4 (drop 8 s) @ ''-'' @ take 4 (drop 12 s) @ ''-''
         @ take 4 (drop 16 s) @ ''-'' @ drop 20 s)"

definition unhex_uuid :: "string \<Rightarrow> uuid option" where
  "unhex_uuid s =
     (if length s = 36 \<and> s ! 8 = CHR ''-'' \<and> s ! 13 = CHR ''-'' \<and> s ! 18 = CHR ''-''
         \<and> s ! 23 = CHR ''-''
      then map_option word_of_nat
             (unpad 16 (take 8 s @ take 4 (drop 9 s) @ take 4 (drop 14 s) @ take 4 (drop 19 s)
                        @ drop 24 s))
      else None)"

lemma dashes_cut:
  assumes "length s = 32"
  defines "t \<equiv> take 8 s @ ''-'' @ take 4 (drop 8 s) @ ''-'' @ take 4 (drop 12 s) @ ''-''
             @ take 4 (drop 16 s) @ ''-'' @ drop 20 s"
  shows "length t = 36" "t ! 8 = CHR ''-''" "t ! 13 = CHR ''-''" "t ! 18 = CHR ''-''"
    "t ! 23 = CHR ''-''"
    "take 8 t @ take 4 (drop 9 t) @ take 4 (drop 14 t) @ take 4 (drop 19 t) @ drop 24 t = s"
proof -
  have s: "s = take 8 s @ take 4 (drop 8 s) @ take 4 (drop 12 s) @ take 4 (drop 16 s) @ drop 20 s"
    using append_take_drop_id [of 8 s] append_take_drop_id [of 4 "drop 8 s"]
      append_take_drop_id [of 4 "drop 12 s"] append_take_drop_id [of 4 "drop 16 s"]
    by (simp add: drop_drop)
  show "length t = 36" "t ! 8 = CHR ''-''" "t ! 13 = CHR ''-''" "t ! 18 = CHR ''-''"
    "t ! 23 = CHR ''-''"
    using assms(1) by (simp_all add: t_def nth_append)
  show "take 8 t @ take 4 (drop 9 t) @ take 4 (drop 14 t) @ take 4 (drop 19 t) @ drop 24 t = s"
    using assms(1) s by (simp add: t_def)
qed

lemma unhex_hex_uuid: "unhex_uuid (hex_uuid u) = Some u"
proof -
  let ?s = "padded 16 32 (unat u)"
  have "unat u < 2 ^ LENGTH(128)" by (rule unsigned_less)
  then have "unat u < 16 ^ 32" by simp
  then have "unpad 16 ?s = Some (unat u)" by (intro unpad_padded) simp_all
  then show ?thesis
    unfolding unhex_uuid_def hex_uuid_def Let_def
    by (simp only: dashes_cut [of ?s, OF length_padded] if_True simp_thms) simp
qed

definition std_lib :: golib where
  "std_lib = \<lparr>uuid_Parse = unhex_uuid, uuid_String = hex_uuid, uuid_New = (\<lambda>k. word_of_nat (Suc k)),
     unicode_ToUpper = id, pg_uuid = (\<lambda>s. map_option hex_uuid (unhex_uuid s))\<rparr>"

lemma upper_char_idem: "upper_char (upper_char c) = upper_char c"
  by (auto simp: upper_char_def)

lemma upper_char_less: "of_char c < (128 :: nat) \<Longrightarrow> of_char (upper_char c) < (128 :: nat)"
  by (auto simp: upper_char_def)

lemma ToUpper_ascii: "is_ascii s \<Longrightarrow> ToUpper L s = map upper_char s"
  by (simp add: ToUpper_def)

lemma is_ascii_upper: "is_ascii s \<Longrightarrow> is_ascii (map upper_char s)"
  by (auto simp: is_ascii_def list_all_iff upper_char_less)

text \<open>A string is trimmed when no white space character starts it or ends it.\<close>

lemma TrimSpace_idI:
  assumes "\<And>w. w \<in> set white_space \<Longrightarrow> \<not> prefix w s" "\<And>w. w \<in> set white_space \<Longrightarrow> \<not> suffix w s"
  shows "TrimSpace s = s"
proof -
  have "strip white_space s = s" by (rule strip_id) (rule assms(1))
  moreover have "strip (map rev white_space) (rev s) = rev s"
    by (rule strip_id) (auto simp: suffix_to_prefix [symmetric] dest: assms(2))
  ultimately show ?thesis by (simp add: TrimSpace_def)
qed

lemma white_space_nonempty: "w \<in> set white_space \<Longrightarrow> w \<noteq> []"
  by (auto simp: white_space_def)

lemma TrimSpace_idD:
  assumes "TrimSpace s = s" and w: "w \<in> set white_space"
  shows "\<not> prefix w s" "\<not> suffix w s"
proof -
  let ?l = "strip white_space s"
  have r: "s = rev (strip (map rev white_space) (rev ?l))"
    using assms(1) by (simp add: TrimSpace_def)
  have "length s \<le> length ?l"
    using r length_strip [of "map rev white_space" "rev ?l"] by (metis length_rev)
  then have l: "?l = s"
    using strip_suffix [of white_space s] by (metis length_strip le_antisym suffix_def append_eq_append_conv append_Nil self_append_conv2)
  show "\<not> prefix w s"
    using strip_no_prefix [OF w white_space_nonempty [OF w], of s] l by simp
  have "rev w \<in> set (map rev white_space)" "rev w \<noteq> []"
    using w white_space_nonempty by auto
  then have "\<not> prefix (rev w) (strip (map rev white_space) (rev ?l))"
    by (rule strip_no_prefix)
  then have "\<not> prefix (rev w) (rev s)" using r by (metis rev_rev_ident)
  then show "\<not> suffix w s" by (simp add: suffix_to_prefix)
qed

lemma white_space_not_plain: "w \<in> set white_space \<Longrightarrow> \<not> plain_char (hd w) \<and> \<not> plain_char (last w)"
  by (auto simp: white_space_def plain_char_def)

lemma TrimSpace_plain [text_simps]:
  assumes "plain_char c" and "plain_char (last (c # s))"
  shows "TrimSpace (c # s) = c # s"
proof (rule TrimSpace_idI)
  fix w assume w: "w \<in> set white_space"
  show "\<not> prefix w (c # s)"
    using white_space_not_plain [OF w] white_space_nonempty [OF w] assms(1)
    by (auto simp: prefix_def) (metis append_eq_Cons_conv list.sel(1))
  show "\<not> suffix w (c # s)"
    using white_space_not_plain [OF w] white_space_nonempty [OF w] assms(2)
    by (metis last_appendR suffix_def)
qed

lemma TrimSpace_plain_ends:
  "s \<noteq> [] \<Longrightarrow> plain_char (hd s) \<Longrightarrow> plain_char (last s) \<Longrightarrow> TrimSpace s = s"
  by (metis TrimSpace_plain list.exhaust_sel)

lemma digit_char_plain: "d < 16 \<Longrightarrow> plain_char (digit_char d)"
  by (auto simp: plain_char_def digit_char_def)

lemma hex_uuid_ends: "plain_char (hd (hex_uuid u))" "plain_char (last (hex_uuid u))"
proof -
  let ?s = "padded 16 32 (unat u)"
  have plain: "plain_char c" if "c \<in> set ?s" for c
    using that digits_less [of 16] by (auto simp: padded_def digit_char_plain)
  have len: "length ?s = 32" by simp
  then have ne: "?s \<noteq> []" by (metis length_0_conv zero_neq_numeral)
  have "hd (hex_uuid u) = hd ?s" "last (hex_uuid u) = last ?s"
    using len ne by (simp_all add: hex_uuid_def Let_def hd_append last_append last_drop)
  then show "plain_char (hd (hex_uuid u))" "plain_char (last (hex_uuid u))"
    using plain hd_in_set [OF ne] last_in_set [OF ne] by simp_all
qed

lemma digit_char_no_slash: "d < 16 \<Longrightarrow> digit_char d \<noteq> CHR ''/''"
proof
  assume "d < 16" "digit_char d = CHR ''/''"
  then have "(of_char (digit_char d) :: nat) = 47" "d < 16" by simp_all
  then show False by (simp add: digit_char_def split: if_splits)
qed

lemma hex_uuid_segment: "CHR ''/'' \<notin> set (hex_uuid u)"
proof -
  let ?s = "padded 16 32 (unat u)"
  have "CHR ''/'' \<notin> set ?s"
    using digits_less [of 16] digit_char_no_slash by (fastforce simp: padded_def)
  moreover have "set (hex_uuid u) \<subseteq> insert CHR ''-'' (set ?s)"
    unfolding hex_uuid_def Let_def by (auto dest: in_set_takeD in_set_dropD)
  ultimately show ?thesis by auto
qed

lemma white_space_cases:
  "w \<in> set white_space \<Longrightarrow>
   (\<exists>n. w = [char_of n] \<and> n \<in> {9::nat, 10, 11, 12, 13, 32})
   \<or> ((128 :: nat) \<le> of_char (hd w) \<and> (128 :: nat) \<le> of_char (last w))"
  by (auto simp: white_space_def)

lemma upper_char_space: "upper_char c = char_of n \<Longrightarrow> n \<in> {9::nat, 10, 11, 12, 13, 32} \<Longrightarrow> c = char_of n"
  by (auto simp: upper_char_def split: if_splits)

lemma upper_trim_ascii:
  assumes trim: "TrimSpace s = s" and asc: "is_ascii s"
  shows "TrimSpace (map upper_char s) = map upper_char s"
proof (rule TrimSpace_idI)
  have low: "\<And>c. c \<in> set s \<Longrightarrow> of_char (upper_char c) < (128 :: nat)"
    using asc by (auto simp: is_ascii_def list_all_iff upper_char_less)
  fix w assume w: "w \<in> set white_space"
  from white_space_nonempty [OF w] have ne: "w \<noteq> []" .
  show "\<not> prefix w (map upper_char s)"
  proof
    assume pre: "prefix w (map upper_char s)"
    then have sne: "s \<noteq> []" and hd: "hd w = upper_char (hd s)"
      using ne by (auto simp: prefix_def hd_append hd_map)
        (metis hd_append2 hd_map list.map_disc_iff append_is_Nil_conv)
    with low [of "hd s"] have "of_char (hd w) < (128 :: nat)" by simp
    with white_space_cases [OF w] obtain n where n: "w = [char_of n]" "n \<in> {9::nat, 10, 11, 12, 13, 32}"
      by auto
    with hd upper_char_space [of "hd s" n] have "hd s = char_of n" by simp
    then have "prefix w s" using sne n by (cases s) auto
    with TrimSpace_idD(1) [OF trim w] show False ..
  qed
  show "\<not> suffix w (map upper_char s)"
  proof
    assume suf: "suffix w (map upper_char s)"
    then have sne: "s \<noteq> []" and la: "last w = upper_char (last s)"
      using ne by (auto simp: suffix_def)
        (metis last_appendR last_map list.map_disc_iff append_is_Nil_conv)
    with low [of "last s"] have "of_char (last w) < (128 :: nat)" by simp
    with white_space_cases [OF w] obtain n where n: "w = [char_of n]" "n \<in> {9::nat, 10, 11, 12, 13, 32}"
      by auto
    with la upper_char_space [of "last s" n] have "last s = char_of n" by simp
    then have "suffix w s" using sne n by (metis append_butlast_last_id suffixI)
    with TrimSpace_idD(2) [OF trim w] show False ..
  qed
qed

interpretation std: golib_laws std_lib
proof unfold_locales
  show "uuid_Parse std_lib (uuid_String std_lib u) = Some u" for u
    by (simp add: std_lib_def unhex_hex_uuid)
  show "pg_uuid std_lib (uuid_String std_lib u) = Some (uuid_String std_lib u)" for u
    by (simp add: std_lib_def unhex_hex_uuid)
  show "pg_text (uuid_String std_lib u)" and ne: "uuid_String std_lib u \<noteq> []" for u
    by (simp_all add: std_lib_def hex_uuid_def Let_def pg_text_sub)
  show "TrimSpace (uuid_String std_lib u) = uuid_String std_lib u" for u
    using ne [of u] hex_uuid_ends [of u] by (simp add: std_lib_def TrimSpace_plain_ends)
  show "CHR ''/'' \<notin> set (uuid_String std_lib u)" for u
    by (simp add: std_lib_def hex_uuid_segment)
  show "ToUpper std_lib (ToUpper std_lib s) = ToUpper std_lib s" for s
    by (simp add: ToUpper_def is_ascii_upper upper_char_idem std_lib_def)
  show "TrimSpace s = s \<Longrightarrow> TrimSpace (ToUpper std_lib s) = ToUpper std_lib s" for s
    by (auto simp: ToUpper_def upper_trim_ascii std_lib_def)
qed

end
