(* ===== verification/Json.thy ===== *)
theory Json
  imports Digits
begin

text \<open>
  The part of encoding/json the services use. A JSON text is modelled by the value it denotes:
  \<open>body = None\<close> is a byte string that is not JSON, \<open>Some j\<close> one that parses to \<open>j\<close>.
  A decoder takes the JSON value and the Go value it is decoded into (null leaves it alone,
  a struct field absent from the object keeps its value), and returns \<open>None\<close> where
  json.Unmarshal reports an UnmarshalTypeError. Struct fields match keys without regard to
  ASCII case, and later entries of an object overwrite earlier ones. Strings are the UTF-8
  texts the decoder of the request produced, so that marshalling them changes nothing.
\<close>

datatype json =
    JNull
  | JBool bool
  | JInt int
  | JFrac string
  | JStr string
  | JArr "json list"
  | JObj "(string \<times> json) list"

text \<open>\<open>JInt\<close> is a number written as an integer literal, \<open>JFrac\<close> any other number.\<close>

type_synonym body = "json option"
type_synonym 'a dec = "json \<Rightarrow> 'a \<Rightarrow> 'a option"

definition fold_eq :: "string \<Rightarrow> string \<Rightarrow> bool" where
  "fold_eq a b = (map lower_char a = map lower_char b)"

fun dec_string :: "string dec" where
  "dec_string JNull a = Some a"
| "dec_string (JStr s) a = Some s"
| "dec_string _ a = None"

fun dec_bool :: "bool dec" where
  "dec_bool JNull a = Some a"
| "dec_bool (JBool b) a = Some b"
| "dec_bool _ a = None"

fun dec_int64 :: "int64 dec" where
  "dec_int64 JNull a = Some a"
| "dec_int64 (JInt i) a = (if - (2 ^ 63) \<le> i \<and> i < 2 ^ 63 then Some (word_of_int i) else None)"
| "dec_int64 _ a = None"

fun dec_int32 :: "int32 dec" where
  "dec_int32 JNull a = Some a"
| "dec_int32 (JInt i) a = (if - (2 ^ 31) \<le> i \<and> i < 2 ^ 31 then Some (word_of_int i) else None)"
| "dec_int32 _ a = None"

text \<open>A list decoder starts each element from the zero value; null makes the slice nil.\<close>

fun dec_elems :: "'a dec \<Rightarrow> 'a \<Rightarrow> json list \<Rightarrow> 'a list option" where
  "dec_elems d z [] = Some []"
| "dec_elems d z (j # js) =
     (case d j z of None \<Rightarrow> None | Some a \<Rightarrow> map_option (Cons a) (dec_elems d z js))"

fun dec_list :: "'a dec \<Rightarrow> 'a \<Rightarrow> 'a list dec" where
  "dec_list d z JNull a = Some []"
| "dec_list d z (JArr js) a = dec_elems d z js"
| "dec_list d z _ a = None"

text \<open>One struct field: every entry of the object whose key matches, in order.\<close>

fun dec_field :: "string \<Rightarrow> 'a dec \<Rightarrow> (string \<times> json) list \<Rightarrow> 'a \<Rightarrow> 'a option" where
  "dec_field k d [] a = Some a"
| "dec_field k d ((k', j) # kvs) a =
     (if fold_eq k k' then (case d j a of None \<Rightarrow> None | Some a' \<Rightarrow> dec_field k d kvs a')
      else dec_field k d kvs a)"

text \<open>A struct: null is a no-op, an object decodes its fields, anything else is an error.\<close>

fun dec_struct :: "((string \<times> json) list \<Rightarrow> 'a \<Rightarrow> 'a option) \<Rightarrow> 'a dec" where
  "dec_struct f JNull a = Some a"
| "dec_struct f (JObj kvs) a = f kvs a"
| "dec_struct f _ a = None"

text \<open>The whole body into a zero value.\<close>

definition json_Unmarshal :: "'a dec \<Rightarrow> 'a \<Rightarrow> body \<Rightarrow> 'a option" where
  "json_Unmarshal d z b = (case b of None \<Rightarrow> None | Some j \<Rightarrow> d j z)"

text \<open>DisallowUnknownFields: every key of the object is a field of the struct.\<close>

fun known_keys :: "string list \<Rightarrow> json \<Rightarrow> bool" where
  "known_keys ks (JObj kvs) = list_all (\<lambda>(k, j). list_ex (\<lambda>f. fold_eq f k) ks) kvs"
| "known_keys ks _ = True"

text \<open>
  What Postgres stores: a TEXT value and every string of a JSONB value must be free of the
  character NUL.
\<close>

fun pg_json :: "json \<Rightarrow> bool" where
  "pg_json (JStr s) = pg_text s"
| "pg_json (JArr js) = list_all pg_json js"
| "pg_json (JObj kvs) = list_all (\<lambda>(k, j). pg_text k \<and> pg_json j) kvs"
| "pg_json _ = True"

section \<open>Encoding\<close>

definition enc_int64 :: "int64 \<Rightarrow> json" where
  "enc_int64 a = JInt (sint a)"

definition enc_int32 :: "int32 \<Rightarrow> json" where
  "enc_int32 a = JInt (sint a)"

lemma dec_enc_int64 [simp]: "dec_int64 (enc_int64 a) z = Some a"
  using sint_range64 [of a] by (simp add: enc_int64_def)

lemma dec_enc_int32 [simp]: "dec_int32 (enc_int32 a) z = Some a"
  using sint_range32 [of a] by (simp add: enc_int32_def)

lemma dec_elems_map:
  "(\<And>x. x \<in> set xs \<Longrightarrow> d (e x) z = Some x) \<Longrightarrow> dec_elems d z (map e xs) = Some xs"
  by (induction xs) auto

lemma dec_field_here:
  "fold_eq k k' \<Longrightarrow> d j a = Some v \<Longrightarrow> dec_field k d ((k', j) # kvs) a = dec_field k d kvs v"
  by simp

lemma dec_field_other:
  "\<not> fold_eq k k' \<Longrightarrow> dec_field k d ((k', j) # kvs) a = dec_field k d kvs a"
  by simp

lemma fold_eq_refl [simp]: "fold_eq a a"
  by (simp add: fold_eq_def)

lemma fold_eq_Cons [simp]:
  "fold_eq (c # a) (d # b) \<longleftrightarrow> lower_char c = lower_char d \<and> fold_eq a b"
  "fold_eq (c # a) [] = False" "fold_eq [] (d # b) = False"
  by (auto simp: fold_eq_def)

end
