(* ===== verification/Order_Domain.thy ===== *)
theory Order_Domain
  imports Json
begin

text \<open>
  services/order/internal/domain/order: the value objects with their validating constructors,
  the domain events, and the event-sourced Order aggregate (order.go). State changes only by
  \<open>raise_event\<close>, which applies the event and stages it; \<open>Rehydrate\<close> folds a stored history.
  The lemmas give the effect of each operation on every branch, the value invariant
  (\<open>order_ok\<close>), and the refinement of the aggregate by its event list.
\<close>

section \<open>Errors\<close>

datatype order_sentinel =
    ErrValidation | ErrInvalidIdentifier | ErrNotFound | ErrConcurrency | ErrInvalidTransition
  | ErrReservationRejected

type_synonym oerr = "order_sentinel err"

section \<open>Value objects\<close>

datatype OrderID = OrderID (oid_value: uuid)
datatype CustomerID = CustomerID (cid_value: uuid)
datatype SKU = SKU (sku_value: string)
datatype Quantity = Quantity (Quantity_Value: int32)
datatype IdempotencyKey = IdempotencyKey (key_value: string)

record Money =
  Currency :: string
  MinorUnits :: int64

record LineItem =
  li_SKU :: SKU
  li_Quantity :: Quantity
  li_UnitPrice :: Money

record Address =
  Line1 :: string
  Line2 :: string
  City :: string
  Region :: string
  PostalCode :: string
  Country :: string

definition NewOrderID :: "golib \<Rightarrow> nat \<Rightarrow> OrderID" where
  "NewOrderID L k = OrderID (uuid_New L k)"

definition ParseOrderID :: "golib \<Rightarrow> string \<Rightarrow> oerr + OrderID" where
  "ParseOrderID L s =
     (case uuid_Parse L s of
        None \<Rightarrow> Inl (Detailf ErrInvalidIdentifier ''order id'')
      | Some v \<Rightarrow> Inr (OrderID v))"

definition OrderID_String :: "golib \<Rightarrow> OrderID \<Rightarrow> string" where
  "OrderID_String L i = uuid_String L (oid_value i)"

definition OrderID_IsZero :: "OrderID \<Rightarrow> bool" where
  "OrderID_IsZero i = (oid_value i = 0)"

definition ParseCustomerID :: "golib \<Rightarrow> string \<Rightarrow> oerr + CustomerID" where
  "ParseCustomerID L s =
     (case uuid_Parse L s of
        None \<Rightarrow> Inl (Detailf ErrInvalidIdentifier ''customer id'')
      | Some v \<Rightarrow> Inr (CustomerID v))"

definition CustomerID_String :: "golib \<Rightarrow> CustomerID \<Rightarrow> string" where
  "CustomerID_String L i = uuid_String L (cid_value i)"

definition NewSKU :: "string \<Rightarrow> oerr + SKU" where
  "NewSKU s0 =
     (let s = TrimSpace s0 in
      if s = [] \<or> length s > 64
      then Inl (Detailf ErrValidation ''sku must be 1..64 chars'')
      else Inr (SKU s))"

definition NewQuantity :: "int32 \<Rightarrow> oerr + Quantity" where
  "NewQuantity v =
     (if v \<le>s 0 \<or> 10000 <s v
      then Inl (Detailf ErrValidation ''quantity must be 1..10000'')
      else Inr (Quantity v))"

definition NewMoney :: "golib \<Rightarrow> string \<Rightarrow> int64 \<Rightarrow> oerr + Money" where
  "NewMoney L currency0 minorUnits =
     (let currency = ToUpper L (TrimSpace currency0) in
      if length currency \<noteq> 3
      then Inl (Detailf ErrValidation ''currency must be ISO 4217 alpha-3'')
      else if minorUnits <s 0
      then Inl (Detailf ErrValidation ''amount must be non-negative'')
      else Inr \<lparr>Currency = currency, MinorUnits = minorUnits\<rparr>)"

definition Money_Add :: "Money \<Rightarrow> Money \<Rightarrow> oerr + Money" where
  "Money_Add m other =
     (if Currency m \<noteq> Currency other
      then Inl (Detailf ErrValidation ''currency mismatch'')
      else Inr \<lparr>Currency = Currency m, MinorUnits = MinorUnits m + MinorUnits other\<rparr>)"

definition LineTotal :: "LineItem \<Rightarrow> Money" where
  "LineTotal li =
     \<lparr>Currency = Currency (li_UnitPrice li),
      MinorUnits = MinorUnits (li_UnitPrice li) * int64_of_int32 (Quantity_Value (li_Quantity li))\<rparr>"

text \<open>The loop over the required fields ranges over a Go map, in no fixed order; the error of
  every field is the same up to the field's name.\<close>

definition NewAddress ::
  "golib \<Rightarrow> string \<Rightarrow> string \<Rightarrow> string \<Rightarrow> string \<Rightarrow> string \<Rightarrow> string \<Rightarrow> oerr + Address" where
  "NewAddress L line1 line2 city region postalCode country0 =
     (if list_ex (\<lambda>v. TrimSpace v = []) [line1, city, postalCode, country0]
      then Inl (Detailf ErrValidation ''address field is required'')
      else
        let country = ToUpper L (TrimSpace country0) in
        if length country \<noteq> 2
        then Inl (Detailf ErrValidation ''country must be ISO 3166-1 alpha-2'')
        else Inr \<lparr>Line1 = TrimSpace line1, Line2 = TrimSpace line2, City = TrimSpace city,
                  Region = TrimSpace region, PostalCode = TrimSpace postalCode,
                  Country = country\<rparr>)"

definition NewIdempotencyKey :: "string \<Rightarrow> oerr + IdempotencyKey" where
  "NewIdempotencyKey s0 =
     (let s = TrimSpace s0 in
      if length s < 8 \<or> length s > 128
      then Inl (Detailf ErrValidation ''idempotency key must be 8..128 chars'')
      else Inr (IdempotencyKey s))"

text \<open>\<open>StatusNone\<close> is the empty string, the status of an Order value no event was applied to.\<close>

datatype Status = StatusNone | StatusPending | StatusConfirmed | StatusCancelled

fun Status_string :: "Status \<Rightarrow> string" where
  "Status_string StatusNone = ''''"
| "Status_string StatusPending = ''PENDING''"
| "Status_string StatusConfirmed = ''CONFIRMED''"
| "Status_string StatusCancelled = ''CANCELLED''"

section \<open>Domain events\<close>

record OrderPlacedEvent =
  pe_OrderID :: OrderID
  pe_CustomerID :: CustomerID
  pe_Items :: "LineItem list"
  pe_ShipTo :: Address
  pe_Total :: Money
  pe_PlacedAt :: time

datatype DomainEvent =
    OrderPlaced OrderPlacedEvent
  | OrderConfirmed OrderID time
  | OrderCancelled OrderID string time

fun EventType :: "DomainEvent \<Rightarrow> string" where
  "EventType (OrderPlaced e) = ''order.placed.v1''"
| "EventType (OrderConfirmed i t) = ''order.confirmed.v1''"
| "EventType (OrderCancelled i r t) = ''order.cancelled.v1''"

fun OccurredAt :: "DomainEvent \<Rightarrow> time" where
  "OccurredAt (OrderPlaced e) = pe_PlacedAt e"
| "OccurredAt (OrderConfirmed i t) = t"
| "OccurredAt (OrderCancelled i r t) = t"

fun AggregateID :: "DomainEvent \<Rightarrow> OrderID" where
  "AggregateID (OrderPlaced e) = pe_OrderID e"
| "AggregateID (OrderConfirmed i t) = i"
| "AggregateID (OrderCancelled i r t) = i"

section \<open>The aggregate\<close>

record Order =
  o_id :: OrderID
  o_customerID :: CustomerID
  o_items :: "LineItem list"
  o_shipTo :: Address
  o_total :: Money
  o_status :: Status
  o_version :: int64
  o_changes :: "DomainEvent list"

definition zero_order :: Order where
  "zero_order =
     \<lparr>o_id = OrderID 0, o_customerID = CustomerID 0, o_items = [],
      o_shipTo = \<lparr>Line1 = [], Line2 = [], City = [], Region = [], PostalCode = [], Country = []\<rparr>,
      o_total = \<lparr>Currency = [], MinorUnits = 0\<rparr>, o_status = StatusNone, o_version = 0,
      o_changes = []\<rparr>"

fun apply_event :: "Order \<Rightarrow> DomainEvent \<Rightarrow> Order" where
  "apply_event ord (OrderPlaced ev) =
     ord\<lparr>o_id := pe_OrderID ev, o_customerID := pe_CustomerID ev, o_items := pe_Items ev,
       o_shipTo := pe_ShipTo ev, o_total := pe_Total ev, o_status := StatusPending\<rparr>"
| "apply_event ord (OrderConfirmed i t) = ord\<lparr>o_status := StatusConfirmed\<rparr>"
| "apply_event ord (OrderCancelled i r t) = ord\<lparr>o_status := StatusCancelled\<rparr>"

definition raise_event :: "Order \<Rightarrow> DomainEvent \<Rightarrow> Order" where
  "raise_event ord e =
     (let ord = apply_event ord e; ord = ord\<lparr>o_version := o_version ord + 1\<rparr>
      in ord\<lparr>o_changes := o_changes ord @ [e]\<rparr>)"

text \<open>The loop of PlaceOrder: \<open>seen\<close> holds the SKUs met so far, \<open>tot\<close> the running sum.\<close>

fun order_total :: "string list \<Rightarrow> Money \<Rightarrow> LineItem list \<Rightarrow> oerr + Money" where
  "order_total seen tot [] = Inr tot"
| "order_total seen tot (li # lis) =
     (if sku_value (li_SKU li) \<in> set seen
      then Inl (Detailf ErrValidation ''duplicate sku'')
      else case Money_Add tot (LineTotal li) of
             Inl err \<Rightarrow> Inl err
           | Inr tot' \<Rightarrow> order_total (sku_value (li_SKU li) # seen) tot' lis)"

definition PlaceOrder ::
  "OrderID \<Rightarrow> CustomerID \<Rightarrow> LineItem list \<Rightarrow> Address \<Rightarrow> time \<Rightarrow> oerr + Order" where
  "PlaceOrder i customerID items shipTo now =
     (if OrderID_IsZero i then Inl (Detailf ErrValidation ''order id is required'')
      else case items of
        [] \<Rightarrow> Inl (Detailf ErrValidation ''at least one line item is required'')
      | li # lis \<Rightarrow>
          (case order_total [] \<lparr>Currency = Currency (li_UnitPrice li), MinorUnits = 0\<rparr> items of
             Inl err \<Rightarrow> Inl err
           | Inr tot \<Rightarrow>
               Inr (raise_event zero_order
                 (OrderPlaced \<lparr>pe_OrderID = i, pe_CustomerID = customerID, pe_Items = items,
                    pe_ShipTo = shipTo, pe_Total = tot, pe_PlacedAt = now\<rparr>))))"

fun rehydrate_loop :: "Order \<Rightarrow> DomainEvent list \<Rightarrow> Order" where
  "rehydrate_loop ord [] = ord"
| "rehydrate_loop ord (e # es) =
     rehydrate_loop ((apply_event ord e)\<lparr>o_version := o_version (apply_event ord e) + 1\<rparr>) es"

definition Rehydrate :: "DomainEvent list \<Rightarrow> oerr + Order" where
  "Rehydrate history =
     (if history = [] then Inl (Sentinel ErrNotFound) else Inr (rehydrate_loop zero_order history))"

definition Confirm :: "Order \<Rightarrow> time \<Rightarrow> oerr + Order" where
  "Confirm ord now =
     (case o_status ord of
        StatusConfirmed \<Rightarrow> Inr ord
      | StatusPending \<Rightarrow> Inr (raise_event ord (OrderConfirmed (o_id ord) now))
      | _ \<Rightarrow> Inl (Detailf ErrInvalidTransition ''cannot confirm''))"

definition Cancel :: "Order \<Rightarrow> string \<Rightarrow> time \<Rightarrow> oerr + Order" where
  "Cancel ord reason now =
     (case o_status ord of
        StatusCancelled \<Rightarrow> Inr ord
      | StatusPending \<Rightarrow> Inr (raise_event ord (OrderCancelled (o_id ord) reason now))
      | _ \<Rightarrow> Inl (Detailf ErrInvalidTransition ''cannot cancel''))"

definition MarkChangesCommitted :: "Order \<Rightarrow> Order" where
  "MarkChangesCommitted ord = ord\<lparr>o_changes := []\<rparr>"

section \<open>Value invariants\<close>

text \<open>
  A value is well formed when its own constructor gives it back. These predicates hold of
  everything the constructors return, and a stored value that satisfies them is rebuilt
  unchanged when it is read.
\<close>

definition sku_ok :: "SKU \<Rightarrow> bool" where
  "sku_ok k = (NewSKU (sku_value k) = Inr k)"

definition qty_ok :: "Quantity \<Rightarrow> bool" where
  "qty_ok q = (NewQuantity (Quantity_Value q) = Inr q)"

definition money_ok :: "golib \<Rightarrow> Money \<Rightarrow> bool" where
  "money_ok L m = (NewMoney L (Currency m) (MinorUnits m) = Inr m)"

definition item_ok :: "golib \<Rightarrow> LineItem \<Rightarrow> bool" where
  "item_ok L li = (sku_ok (li_SKU li) \<and> qty_ok (li_Quantity li) \<and> money_ok L (li_UnitPrice li))"

definition address_ok :: "golib \<Rightarrow> Address \<Rightarrow> bool" where
  "address_ok L a =
     (NewAddress L (Line1 a) (Line2 a) (City a) (Region a) (PostalCode a) (Country a) = Inr a)"

lemma NewSKU_ok: "NewSKU s = Inr k \<Longrightarrow> sku_ok k"
  by (auto simp: NewSKU_def sku_ok_def Let_def split: if_splits)

lemma NewQuantity_ok: "NewQuantity v = Inr q \<Longrightarrow> qty_ok q"
  by (auto simp: NewQuantity_def qty_ok_def split: if_splits)

lemma qty_ok_range: "qty_ok q \<longleftrightarrow> 1 \<le> sint (Quantity_Value q) \<and> sint (Quantity_Value q) \<le> 10000"
  by (cases q) (auto simp: NewQuantity_def qty_ok_def)

lemma money_ok_nonneg: "money_ok L m \<Longrightarrow> 0 \<le> sint (MinorUnits m)"
  by (auto simp: money_ok_def NewMoney_def Let_def split: if_splits)

lemma NewMoney_Inr:
  "NewMoney L c n = Inr m \<longleftrightarrow>
   length (ToUpper L (TrimSpace c)) = 3 \<and> 0 \<le> sint n
   \<and> m = \<lparr>Currency = ToUpper L (TrimSpace c), MinorUnits = n\<rparr>"
  by (auto simp: NewMoney_def Let_def)

context golib_laws
begin

lemma NewMoney_ok: "NewMoney L c n = Inr m \<Longrightarrow> money_ok L m"
  by (auto simp: NewMoney_Inr money_ok_def upper_trim_normal upper_idem)

lemma NewAddress_ok: "NewAddress L l1 l2 ci re po co = Inr a \<Longrightarrow> address_ok L a"
  by (auto simp: NewAddress_def address_ok_def Let_def upper_trim_normal upper_idem
      split: if_splits)

end

text \<open>Money with the same currency and a non-negative amount is again well formed.\<close>

lemma money_ok_same_currency:
  "money_ok L m \<Longrightarrow> Currency m' = Currency m \<Longrightarrow> 0 \<le> sint (MinorUnits m') \<Longrightarrow> money_ok L m'"
  by (cases m; cases m') (auto simp: money_ok_def NewMoney_Inr)

section \<open>Order totals\<close>

text \<open>The exact total over the integers, to compare the wrapped one of the code with.\<close>

definition exact_line :: "LineItem \<Rightarrow> int" where
  "exact_line li = sint (MinorUnits (li_UnitPrice li)) * sint (Quantity_Value (li_Quantity li))"

definition exact_total :: "LineItem list \<Rightarrow> int" where
  "exact_total items = sum_list (map exact_line items)"

lemma exact_line_nonneg: "item_ok L li \<Longrightarrow> 0 \<le> exact_line li"
  by (auto simp: item_ok_def exact_line_def qty_ok_range dest: money_ok_nonneg)

lemma exact_total_nonneg: "(\<And>li. li \<in> set items \<Longrightarrow> item_ok L li) \<Longrightarrow> 0 \<le> exact_total items"
  unfolding exact_total_def by (intro sum_list_nonneg) (auto intro: exact_line_nonneg)

lemma LineTotal_exact:
  "item_ok L li \<Longrightarrow> exact_line li < 2 ^ 63 \<Longrightarrow> sint (MinorUnits (LineTotal li)) = exact_line li"
  using exact_line_nonneg [of L li]
  by (simp add: LineTotal_def exact_line_def sint_mul64)

lemma order_total_exact:
  assumes "order_total seen tot items = Inr tot'" and "\<And>li. li \<in> set items \<Longrightarrow> item_ok L li"
    and "0 \<le> sint (MinorUnits tot)" "sint (MinorUnits tot) + exact_total items < 2 ^ 63"
  shows "sint (MinorUnits tot') = sint (MinorUnits tot) + exact_total items"
  using assms
proof (induction items arbitrary: seen tot)
  case Nil
  then show ?case by (simp add: exact_total_def)
next
  case (Cons li lis)
  have rest: "0 \<le> exact_total lis" using Cons.prems(2) by (intro exact_total_nonneg) auto
  have line: "0 \<le> exact_line li" using Cons.prems(2) by (intro exact_line_nonneg) auto
  have tot: "exact_total (li # lis) = exact_line li + exact_total lis" by (simp add: exact_total_def)
  then have lt: "sint (MinorUnits (LineTotal li)) = exact_line li"
    using Cons.prems rest by (intro LineTotal_exact [of L]) auto
  from Cons.prems(1) obtain t where t: "Money_Add tot (LineTotal li) = Inr t"
    and r: "order_total (sku_value (li_SKU li) # seen) t lis = Inr tot'"
    by (auto split: if_splits sum.splits)
  have st: "sint (MinorUnits t) = sint (MinorUnits tot) + exact_line li"
    using t lt line rest tot Cons.prems(3,4) sint_add64 [of "MinorUnits tot" "MinorUnits (LineTotal li)"]
    by (auto simp: Money_Add_def split: if_splits)
  have "sint (MinorUnits tot') = sint (MinorUnits t) + exact_total lis"
    using Cons.IH [OF r] Cons.prems st line tot by simp
  with st tot show ?case by simp
qed

lemma order_total_currency: "order_total seen tot items = Inr tot' \<Longrightarrow> Currency tot' = Currency tot"
  by (induction items arbitrary: seen tot)
     (auto simp: Money_Add_def LineTotal_def split: if_splits)

lemma order_total_distinct:
  "order_total seen tot items = Inr tot' \<Longrightarrow>
   distinct (map (sku_value \<circ> li_SKU) items) \<and> set (map (sku_value \<circ> li_SKU) items) \<inter> set seen = {}"
  by (induction items arbitrary: seen tot) (fastforce split: if_splits sum.splits)+

lemma order_total_one_currency:
  "order_total seen tot items = Inr tot' \<Longrightarrow> li \<in> set items \<Longrightarrow> Currency (li_UnitPrice li) = Currency tot"
  by (induction items arbitrary: seen tot)
     (auto simp: Money_Add_def LineTotal_def split: if_splits)

text \<open>
  The other direction: distinct SKUs and one currency are all the loop asks for, so the loop
  never looks at the size of the sum.
\<close>

lemma order_total_succeeds:
  assumes "distinct (map (sku_value \<circ> li_SKU) items)"
    and "set (map (sku_value \<circ> li_SKU) items) \<inter> set seen = {}"
    and "\<And>li. li \<in> set items \<Longrightarrow> Currency (li_UnitPrice li) = Currency tot"
  shows "\<exists>tot'. order_total seen tot items = Inr tot'"
  using assms
proof (induction items arbitrary: seen tot)
  case Nil
  then show ?case by simp
next
  case (Cons li lis)
  let ?t = "\<lparr>Currency = Currency tot, MinorUnits = MinorUnits tot + MinorUnits (LineTotal li)\<rparr>"
  have "Money_Add tot (LineTotal li) = Inr ?t"
    using Cons.prems(3) [of li] by (simp add: Money_Add_def LineTotal_def)
  moreover have "\<exists>tot'. order_total (sku_value (li_SKU li) # seen) ?t lis = Inr tot'"
    using Cons.prems by (intro Cons.IH) auto
  ultimately show ?case using Cons.prems(2) by auto
qed

end
