(* ===== verification/Order_Lifecycle.thy ===== *)
theory Order_Lifecycle
  imports Order_Domain
begin

text \<open>
  The lifecycle of the Order aggregate as a state machine. \<open>order_reach\<close> is the set of orders
  that PlaceOrder, Confirm and Cancel can build (including orders rebuilt from their history
  with Rehydrate); \<open>lifecycle\<close> is the specification of the event streams such an order may have.
  The main result is that the aggregate is a faithful fold of its own events: rehydrating the
  stream gives back the order.
\<close>

section \<open>One operation\<close>

lemma PlaceOrder_Inr:
  "PlaceOrder i c items a now = Inr ord \<longleftrightarrow>
   oid_value i \<noteq> 0 \<and> items \<noteq> [] \<and>
   (\<exists>tot. order_total [] \<lparr>Currency = Currency (li_UnitPrice (hd items)), MinorUnits = 0\<rparr> items = Inr tot
      \<and> ord = raise_event zero_order
          (OrderPlaced \<lparr>pe_OrderID = i, pe_CustomerID = c, pe_Items = items, pe_ShipTo = a,
             pe_Total = tot, pe_PlacedAt = now\<rparr>))"
  by (auto simp: PlaceOrder_def OrderID_IsZero_def simp del: order_total.simps
      split: list.splits sum.splits)

lemma Confirm_Inr:
  "Confirm ord now = Inr ord' \<longleftrightarrow>
   (o_status ord = StatusConfirmed \<and> ord' = ord)
   \<or> (o_status ord = StatusPending \<and> ord' = raise_event ord (OrderConfirmed (o_id ord) now))"
  by (auto simp: Confirm_def split: Status.splits)

lemma Confirm_Inl:
  "Confirm ord now = Inl e \<longleftrightarrow>
   o_status ord \<in> {StatusNone, StatusCancelled} \<and> e = Detailf ErrInvalidTransition ''cannot confirm''"
  by (cases "o_status ord") (auto simp: Confirm_def)

lemma Cancel_Inr:
  "Cancel ord r now = Inr ord' \<longleftrightarrow>
   (o_status ord = StatusCancelled \<and> ord' = ord)
   \<or> (o_status ord = StatusPending \<and> ord' = raise_event ord (OrderCancelled (o_id ord) r now))"
  by (auto simp: Cancel_def split: Status.splits)

lemma Cancel_Inl:
  "Cancel ord r now = Inl e \<longleftrightarrow>
   o_status ord \<in> {StatusNone, StatusConfirmed} \<and> e = Detailf ErrInvalidTransition ''cannot cancel''"
  by (cases "o_status ord") (auto simp: Cancel_def)

lemma raise_event_fields [simp]:
  "o_version (raise_event ord e) = o_version ord + 1"
  "o_changes (raise_event ord e) = o_changes ord @ [e]"
  "o_status (raise_event ord e) = o_status (apply_event ord e)"
  "o_id (raise_event ord e) = o_id (apply_event ord e)"
  "o_total (raise_event ord e) = o_total (apply_event ord e)"
  "o_items (raise_event ord e) = o_items (apply_event ord e)"
  by (cases e; simp add: raise_event_def Let_def)+

lemma PlaceOrder_pending: "PlaceOrder i c items a now = Inr ord \<Longrightarrow> o_status ord = StatusPending"
  by (auto simp: PlaceOrder_Inr)

section \<open>Runs\<close>

inductive order_reach :: "Order \<Rightarrow> bool" where
  place: "PlaceOrder i c items a now = Inr ord \<Longrightarrow> order_reach ord"
| confirm: "order_reach ord \<Longrightarrow> Confirm ord now = Inr ord' \<Longrightarrow> order_reach ord'"
| cancel: "order_reach ord \<Longrightarrow> Cancel ord r now = Inr ord' \<Longrightarrow> order_reach ord'"

text \<open>The event streams of one order: its placement, then at most one terminal event.\<close>

fun lifecycle :: "DomainEvent list \<Rightarrow> bool" where
  "lifecycle [OrderPlaced e] = True"
| "lifecycle [OrderPlaced e, OrderConfirmed i t] = (i = pe_OrderID e)"
| "lifecycle [OrderPlaced e, OrderCancelled i r t] = (i = pe_OrderID e)"
| "lifecycle _ = False"

fun stream_status :: "DomainEvent list \<Rightarrow> Status" where
  "stream_status [OrderPlaced e] = StatusPending"
| "stream_status [OrderPlaced e, OrderConfirmed i t] = StatusConfirmed"
| "stream_status [OrderPlaced e, OrderCancelled i r t] = StatusCancelled"
| "stream_status _ = StatusNone"

text \<open>Raising events and folding them agree, whatever the events are.\<close>

lemma rehydrate_loop_append:
  "rehydrate_loop ord (es @ [e]) =
   (let ord = rehydrate_loop ord es
    in (apply_event ord e)\<lparr>o_version := o_version (apply_event ord e) + 1\<rparr>)"
  by (induction es arbitrary: ord) (simp_all add: Let_def)

lemma apply_event_changes: "apply_event (ord\<lparr>o_changes := xs\<rparr>) e = (apply_event ord e)\<lparr>o_changes := xs\<rparr>"
  by (cases e) simp_all

lemma apply_event_keeps_changes [simp]: "o_changes (apply_event ord e) = o_changes ord"
  by (cases e) simp_all

lemma apply_event_version [simp]: "o_version (apply_event ord e) = o_version ord"
  by (cases e) simp_all

lemma raise_event_mark:
  "MarkChangesCommitted (raise_event ord e) =
   (apply_event (MarkChangesCommitted ord) e)
     \<lparr>o_version := o_version (apply_event (MarkChangesCommitted ord) e) + 1\<rparr>"
  by (cases e) (simp_all add: raise_event_def MarkChangesCommitted_def Let_def)

lemma rehydrate_raise:
  "rehydrate_loop zero_order (o_changes ord) = MarkChangesCommitted ord \<Longrightarrow>
   rehydrate_loop zero_order (o_changes (raise_event ord e)) = MarkChangesCommitted (raise_event ord e)"
  by (simp add: rehydrate_loop_append raise_event_mark Let_def)

definition order_inv :: "Order \<Rightarrow> bool" where
  "order_inv ord =
     (lifecycle (o_changes ord) \<and> o_status ord = stream_status (o_changes ord)
      \<and> AggregateID (hd (o_changes ord)) = o_id ord
      \<and> rehydrate_loop zero_order (o_changes ord) = MarkChangesCommitted ord)"

lemma lifecycle_cases:
  assumes "lifecycle es"
  obtains (placed) e where "es = [OrderPlaced e]" "stream_status es = StatusPending"
  | (confirmed) e t where "es = [OrderPlaced e, OrderConfirmed (pe_OrderID e) t]"
      "stream_status es = StatusConfirmed"
  | (cancelled) e r t where "es = [OrderPlaced e, OrderCancelled (pe_OrderID e) r t]"
      "stream_status es = StatusCancelled"
  using assms by (cases es rule: lifecycle.cases) auto

lemma order_inv_place: "PlaceOrder i c items a now = Inr ord \<Longrightarrow> order_inv ord"
  by (auto simp: PlaceOrder_Inr order_inv_def raise_event_def zero_order_def Let_def
      MarkChangesCommitted_def)

lemma order_inv_confirm:
  assumes inv: "order_inv ord" and "Confirm ord now = Inr ord'"
  shows "order_inv ord'"
proof (cases "o_status ord = StatusPending")
  case True
  then have o': "ord' = raise_event ord (OrderConfirmed (o_id ord) now)"
    using assms(2) by (simp add: Confirm_Inr)
  from inv True obtain e where "o_changes ord = [OrderPlaced e]" "pe_OrderID e = o_id ord"
    by (auto simp: order_inv_def elim: lifecycle_cases)
  then show ?thesis
    using inv rehydrate_raise [of ord "OrderConfirmed (o_id ord) now"]
    by (simp add: order_inv_def o')
next
  case False
  with assms show ?thesis by (simp add: Confirm_Inr)
qed

lemma order_inv_cancel:
  assumes inv: "order_inv ord" and "Cancel ord r now = Inr ord'"
  shows "order_inv ord'"
proof (cases "o_status ord = StatusPending")
  case True
  then have o': "ord' = raise_event ord (OrderCancelled (o_id ord) r now)"
    using assms(2) by (simp add: Cancel_Inr)
  from inv True obtain e where "o_changes ord = [OrderPlaced e]" "pe_OrderID e = o_id ord"
    by (auto simp: order_inv_def elim: lifecycle_cases)
  then show ?thesis
    using inv rehydrate_raise [of ord "OrderCancelled (o_id ord) r now"]
    by (simp add: order_inv_def o')
next
  case False
  with assms show ?thesis by (simp add: Cancel_Inr)
qed

lemma order_reach_inv: "order_reach ord \<Longrightarrow> order_inv ord"
  by (induction rule: order_reach.induct)
     (auto intro: order_inv_place order_inv_confirm order_inv_cancel)

text \<open>C1. Event sourcing is lossless: an order that any sequence of PlaceOrder, Confirm and Cancel
  has built has a stream of one placement and at most one terminal event of that order, and
  Rehydrate on the stream returns the order itself (fields, status and version), with nothing
  staged.\<close>

theorem order_history_refines:
  assumes "order_reach ord"
  shows "lifecycle (o_changes ord) \<and> Rehydrate (o_changes ord) = Inr (MarkChangesCommitted ord)
    \<and> o_version ord = of_nat (length (o_changes ord))"
proof -
  from assms have inv: "order_inv ord" by (rule order_reach_inv)
  then have ne: "o_changes ord \<noteq> []" by (auto simp: order_inv_def)
  have "o_version (rehydrate_loop zero_order es) = of_nat (length es)" for es
    by (induction es rule: rev_induct)
       (simp_all add: zero_order_def rehydrate_loop_append Let_def)
  moreover have "o_version (MarkChangesCommitted ord) = o_version ord"
    by (simp add: MarkChangesCommitted_def)
  ultimately have "o_version ord = of_nat (length (o_changes ord))"
    using inv by (metis order_inv_def)
  with inv ne show ?thesis by (simp add: order_inv_def Rehydrate_def)
qed

definition sample_item :: LineItem where
  "sample_item = \<lparr>li_SKU = SKU ''SKU-1'', li_Quantity = Quantity 2,
     li_UnitPrice = \<lparr>Currency = ''USD'', MinorUnits = 1500\<rparr>\<rparr>"

definition sample_address :: Address where
  "sample_address = \<lparr>Line1 = ''1 Main St'', Line2 = [], City = ''Springfield'', Region = [],
     PostalCode = ''12345'', Country = ''US''\<rparr>"

definition sample_order :: Order where
  "sample_order = (case PlaceOrder (OrderID 1) (CustomerID 2) [sample_item] sample_address 0 of
     Inr ord \<Rightarrow> ord | Inl _ \<Rightarrow> zero_order)"

lemma sample_order_placed:
  "PlaceOrder (OrderID 1) (CustomerID 2) [sample_item] sample_address 0 = Inr sample_order"
  by (simp add: sample_order_def PlaceOrder_def OrderID_IsZero_def sample_item_def Money_Add_def
      LineTotal_def)

theorem order_history_witness:
  "\<exists>ord'. Confirm sample_order 5 = Inr ord' \<and> o_status ord' = StatusConfirmed
     \<and> Rehydrate (o_changes ord') = Inr (MarkChangesCommitted ord')"
proof -
  have p: "order_reach sample_order" by (rule order_reach.place [OF sample_order_placed])
  have pend: "o_status sample_order = StatusPending"
    using sample_order_placed by (rule PlaceOrder_pending)
  let ?c = "raise_event sample_order (OrderConfirmed (o_id sample_order) 5)"
  have c: "Confirm sample_order 5 = Inr ?c" using pend by (simp add: Confirm_Inr)
  have "Rehydrate (o_changes ?c) = Inr (MarkChangesCommitted ?c)"
    using order_history_refines [OF order_reach.confirm [OF p c]] by blast
  with c show ?thesis by auto
qed

end
