(* ===== verification/Wire_Time.thy ===== *)
theory Wire_Time
  imports Digits
begin

text \<open>
  The timestamps on the wire: \<open>FormatTime\<close> and the parse of
  \<open>2006-01-02T15:04:05.000Z07:00\<close> (services/order/internal/contracts/order_events.go), and the
  RFC 3339 form with nanoseconds in which encoding/json stores a time.Time in the event store.
  The calendar is the proleptic Gregorian one from year 0; the instants of the model are those
  of the years 0 to 9999, which is what the layouts can express. The round-trip lemmas say what
  a timestamp loses on the wire (everything below the millisecond) and in the store (nothing).
\<close>

section \<open>The calendar\<close>

definition leap :: "nat \<Rightarrow> bool" where
  "leap y = (4 dvd y \<and> (100 dvd y \<longrightarrow> 400 dvd y))"

text \<open>Days from 0000-01-01 to the first day of year \<open>y\<close>.\<close>

definition days_before_year :: "nat \<Rightarrow> nat" where
  "days_before_year y = 365 * y + (y + 3) div 4 + (y + 399) div 400 - (y + 99) div 100"

definition month_lengths :: "nat \<Rightarrow> nat list" where
  "month_lengths y = [31, if leap y then 29 else 28, 31, 30, 31, 30, 31, 31, 30, 31, 30, 31]"

lemma div_step:
  fixes y n :: nat
  assumes "0 < n"
  shows "(y + n) div n = (y + (n - 1)) div n + (if n dvd y then 1 else 0)"
proof -
  from assms have eq: "y + n = Suc (y + (n - 1))" by simp
  have "(y + n) mod n = y mod n" by simp
  then have "Suc (y + (n - 1)) div n
      = (if y mod n = 0 then Suc ((y + (n - 1)) div n) else (y + (n - 1)) div n)"
    by (metis div_Suc eq)
  with eq show ?thesis by (simp add: dvd_eq_mod_eq_0)
qed

lemma sub_step:
  fixes a b c p q r :: nat
  assumes "b \<le> a" "q \<le> p"
  shows "365 + (a + p) + (c + r) - (b + q) = a + c - b + 365 + (p + r - q)"
  using assms by linarith

lemma leap_count:
  "(B \<Longrightarrow> A) \<Longrightarrow> (C \<Longrightarrow> B) \<Longrightarrow>
   (if A then 1 else 0) + (if C then 1 else 0) - (if B then 1 else 0)
   = (if A \<and> (B \<longrightarrow> C) then 1 else 0 :: nat)"
  by (cases A; cases B; cases C) simp_all

lemma indicator_le: "(B \<Longrightarrow> A) \<Longrightarrow> (if B then 1 else 0) \<le> (if A then 1 else 0 :: nat)"
  by (cases A; cases B) simp_all

lemma days_before_year_Suc:
  "days_before_year (Suc y) = days_before_year y + 365 + (if leap y then 1 else 0)"
proof -
  have le: "(y + 99) div 100 \<le> 365 * y + (y + 3) div 4" by linarith
  have steps: "(Suc y + 3) div 4 = (y + 3) div 4 + (if 4 dvd y then 1 else 0)"
    "(Suc y + 99) div 100 = (y + 99) div 100 + (if 100 dvd y then 1 else 0)"
    "(Suc y + 399) div 400 = (y + 399) div 400 + (if 400 dvd y then 1 else 0)"
    using div_step [of 4 y] div_step [of 100 y] div_step [of 400 y] by simp_all
  have "(4 :: nat) dvd 100" "(100 :: nat) dvd 400" by simp_all
  then have dvds: "100 dvd y \<Longrightarrow> 4 dvd y" "400 dvd y \<Longrightarrow> 100 dvd y"
    by (meson dvd_trans)+
  let ?p = "if 4 dvd y then 1 else 0 :: nat" and ?q = "if 100 dvd y then 1 else 0 :: nat"
    and ?r = "if 400 dvd y then 1 else 0 :: nat"
  have "?q \<le> ?p" by (rule indicator_le [OF dvds(1)])
  have eq: "365 * Suc y + ((y + 3) div 4 + ?p) = 365 + ((365 * y + (y + 3) div 4) + ?p)"
    by (simp only: mult_Suc_right add.assoc)
  have pqr: "?p + ?r - ?q = (if leap y then 1 else 0)"
    unfolding leap_def by (rule leap_count [OF dvds])
  have "365 * Suc y + ((y + 3) div 4 + ?p) + ((y + 399) div 400 + ?r) - ((y + 99) div 100 + ?q)
      = 365 * y + (y + 3) div 4 + (y + 399) div 400 - (y + 99) div 100 + 365 + (?p + ?r - ?q)"
    unfolding eq by (rule sub_step [OF le \<open>?q \<le> ?p\<close>])
  then show ?thesis
    unfolding days_before_year_def steps pqr .
qed

lemma sum_month_lengths: "sum_list (month_lengths y) = 365 + (if leap y then 1 else 0)"
  by (simp add: month_lengths_def)

lemma days_before_year_le: "days_before_year y \<le> 366 * y"
  by (induction y) (auto simp: days_before_year_Suc, simp add: days_before_year_def)

lemma days_before_year_mono: "y \<le> z \<Longrightarrow> days_before_year y \<le> days_before_year z"
  by (induction rule: dec_induct) (auto simp: days_before_year_Suc)

function year_of :: "nat \<Rightarrow> nat \<Rightarrow> nat" where
  "year_of y d = (if days_before_year (Suc y) \<le> d then year_of (Suc y) d else y)"
  by pat_completeness auto
termination
proof (relation "measure (\<lambda>(y, d). Suc d - days_before_year y)", simp)
  fix y d assume "days_before_year (Suc y) \<le> d"
  then show "((Suc y, d), (y, d)) \<in> measure (\<lambda>(y, d). Suc d - days_before_year y)"
    by (simp add: days_before_year_Suc)
qed

declare year_of.simps [simp del]

lemma year_of_spec:
  "days_before_year y \<le> d \<Longrightarrow>
   days_before_year (year_of y d) \<le> d \<and> d < days_before_year (Suc (year_of y d))"
proof (induction y d rule: year_of.induct)
  case (1 y d)
  then show ?case by (cases "days_before_year (Suc y) \<le> d") (simp_all add: year_of.simps [of y d])
qed

fun month_of :: "nat list \<Rightarrow> nat \<Rightarrow> nat \<Rightarrow> nat \<times> nat" where
  "month_of [] m r = (m, r)"
| "month_of (l # ls) m r = (if r < l then (m, r) else month_of ls (Suc m) (r - l))"

lemma month_of_spec:
  "month_of ls m0 r = (m, q) \<Longrightarrow> r < sum_list ls \<Longrightarrow>
   m0 \<le> m \<and> m < m0 + length ls \<and> q < ls ! (m - m0) \<and> sum_list (take (m - m0) ls) + q = r"
proof (induction ls arbitrary: m0 r)
  case Nil
  then show ?case by simp
next
  case (Cons l ls)
  show ?case
  proof (cases "r < l")
    case True
    with Cons.prems show ?thesis by simp
  next
    case False
    with Cons.prems Cons.IH [of "Suc m0" "r - l"]
    have *: "Suc m0 \<le> m" "m < Suc m0 + length ls" "q < ls ! (m - Suc m0)"
      "sum_list (take (m - Suc m0) ls) + q = r - l" by auto
    then have "m - m0 = Suc (m - Suc m0)" by simp
    with * False show ?thesis by simp
  qed
qed

definition civil_of_days :: "nat \<Rightarrow> nat \<times> nat \<times> nat" where
  "civil_of_days d =
     (let y = year_of (d div 366) d; (m, r) = month_of (month_lengths y) 1 (d - days_before_year y)
      in (y, m, Suc r))"

definition days_of_civil :: "nat \<Rightarrow> nat \<Rightarrow> nat \<Rightarrow> nat" where
  "days_of_civil y m d = days_before_year y + sum_list (take (m - 1) (month_lengths y)) + (d - 1)"

lemma civil_of_days_spec:
  assumes "civil_of_days n = (y, m, d)"
  shows "days_of_civil y m d = n" "1 \<le> m" "m \<le> 12" "1 \<le> d" "d \<le> month_lengths y ! (m - 1)"
    "days_before_year y \<le> n"
proof -
  have "days_before_year (n div 366) \<le> n"
    using days_before_year_le [of "n div 366"] by linarith
  from year_of_spec [OF this] assms
  have y: "days_before_year y \<le> n" "n < days_before_year (Suc y)"
    by (auto simp: civil_of_days_def Let_def split: prod.splits)
  obtain r where r: "month_of (month_lengths y) 1 (n - days_before_year y) = (m, r)" "d = Suc r"
    using assms by (auto simp: civil_of_days_def Let_def split: prod.splits)
  have "n - days_before_year y < sum_list (month_lengths y)"
    using y by (auto simp: sum_month_lengths days_before_year_Suc)
  from month_of_spec [OF r(1) this] r(2) y
  show "days_of_civil y m d = n" "1 \<le> m" "m \<le> 12" "1 \<le> d" "d \<le> month_lengths y ! (m - 1)"
    "days_before_year y \<le> n"
    by (auto simp: days_of_civil_def month_lengths_def)
qed

section \<open>Formatting\<close>

text \<open>Nanoseconds from 0000-01-01 to the Unix epoch.\<close>

definition epoch_ns :: int where
  "epoch_ns = 719528 * 86400 * 1000000000"

definition instant_ok :: "time \<Rightarrow> bool" where
  "instant_ok t = (0 \<le> t + epoch_ns \<and> t + epoch_ns < 3652425 * 86400 * 1000000000)"

definition date_time :: "nat \<Rightarrow> string" where
  "date_time sec =
     (let (y, m, d) = civil_of_days (sec div 86400); s = sec mod 86400
      in (if y < 10000 then padded 10 4 y else show_nat y) @ ''-'' @ padded 10 2 m @ ''-''
         @ padded 10 2 d @ ''T'' @ padded 10 2 (s div 3600) @ '':'' @ padded 10 2 (s div 60 mod 60)
         @ '':'' @ padded 10 2 (s mod 60))"

definition FormatTime :: "time \<Rightarrow> string" where
  "FormatTime t =
     (let n = nat (t + epoch_ns)
      in date_time (n div 1000000000) @ ''.'' @ padded 10 3 (n mod 1000000000 div 1000000) @ ''Z'')"

text \<open>The stored form: the fraction without trailing zeros, and no point when it is zero.\<close>

definition trim_zeros :: "string \<Rightarrow> string" where
  "trim_zeros s = rev (dropWhile (\<lambda>c. c = CHR ''0'') (rev s))"

definition format_nano :: "time \<Rightarrow> string" where
  "format_nano t =
     (let n = nat (t + epoch_ns); f = trim_zeros (padded 10 9 (n mod 1000000000))
      in date_time (n div 1000000000) @ (if f = [] then [] else ''.'' @ f) @ ''Z'')"

section \<open>Parsing\<close>

definition get_digits :: "nat \<Rightarrow> string \<Rightarrow> (nat \<times> string) option" where
  "get_digits k s =
     (if length s < k then None
      else case unpad 10 (take k s) of None \<Rightarrow> None | Some v \<Rightarrow> Some (v, drop k s))"

fun get_char :: "char \<Rightarrow> string \<Rightarrow> string option" where
  "get_char c [] = None"
| "get_char c (x # xs) = (if x = c then Some xs else None)"

text \<open>The hour of a layout may be one digit unless the parse is strict.\<close>

definition get_hour :: "bool \<Rightarrow> string \<Rightarrow> (nat \<times> string) option" where
  "get_hour strict s =
     (case get_digits 2 s of Some r \<Rightarrow> Some r | None \<Rightarrow> if strict then None else get_digits 1 s)"

definition is_digit :: "char \<Rightarrow> bool" where
  "is_digit c = (char_digit 10 c \<noteq> None)"

text \<open>The fraction: three digits after a point or a comma for the layout \<open>.000\<close>; for the
  stored form an optional point with any number of digits, of which nine count.\<close>

definition get_fraction :: "bool \<Rightarrow> string \<Rightarrow> (nat \<times> string) option" where
  "get_fraction strict s =
     (if strict then
        (case s of
           [] \<Rightarrow> Some (0, s)
         | c # r \<Rightarrow>
             if c \<noteq> CHR ''.'' then Some (0, s)
             else let ds = takeWhile is_digit r in
               if ds = [] then None
               else (case unpad 10 (take 9 (ds @ replicate 9 (CHR ''0''))) of
                       None \<Rightarrow> None | Some v \<Rightarrow> Some (v, dropWhile is_digit r)))
      else
        (case s of
           [] \<Rightarrow> None
         | c # r \<Rightarrow>
             if c = CHR ''.'' \<or> c = CHR '',''
             then map_option (\<lambda>(v, r). (v * 1000000, r)) (get_digits 3 r) else None))"

definition get_zone :: "bool \<Rightarrow> string \<Rightarrow> int option" where
  "get_zone strict s =
     (case s of
        [] \<Rightarrow> None
      | c # r \<Rightarrow>
          if c = CHR ''Z'' then (if r = [] then Some 0 else None)
          else if c = CHR ''+'' \<or> c = CHR ''-'' then
            (case get_digits 2 r of None \<Rightarrow> None | Some (h, r) \<Rightarrow>
             (case get_char (CHR '':'') r of None \<Rightarrow> None | Some r \<Rightarrow>
              (case get_digits 2 r of None \<Rightarrow> None | Some (m, r) \<Rightarrow>
                 if r \<noteq> [] \<or> (if strict then h \<ge> 24 \<or> m \<ge> 60 else h > 24 \<or> m > 60) then None
                 else Some ((if c = CHR ''+'' then 1 else -1) * int (h * 3600 + m * 60)))))
          else None)"

definition parse_date :: "string \<Rightarrow> ((nat \<times> nat \<times> nat) \<times> string) option" where
  "parse_date s =
     Option.bind (get_digits 4 s) (\<lambda>(y, s).
     Option.bind (get_char (CHR ''-'') s) (\<lambda>s.
     Option.bind (get_digits 2 s) (\<lambda>(m, s).
     Option.bind (get_char (CHR ''-'') s) (\<lambda>s.
     Option.bind (get_digits 2 s) (\<lambda>(d, s). Some ((y, m, d), s))))))"

definition parse_clock :: "bool \<Rightarrow> string \<Rightarrow> ((nat \<times> nat \<times> nat) \<times> string) option" where
  "parse_clock strict s =
     Option.bind (get_hour strict s) (\<lambda>(h, s).
     Option.bind (get_char (CHR '':'') s) (\<lambda>s.
     Option.bind (get_digits 2 s) (\<lambda>(m, s).
     Option.bind (get_char (CHR '':'') s) (\<lambda>s.
     Option.bind (get_digits 2 s) (\<lambda>(sec, s). Some ((h, m, sec), s))))))"

definition instant_of :: "nat \<times> nat \<times> nat \<Rightarrow> nat \<times> nat \<times> nat \<Rightarrow> nat \<Rightarrow> int \<Rightarrow> time" where
  "instant_of date clock f z =
     (case date of (y, m, d) \<Rightarrow> case clock of (h, mi, sec) \<Rightarrow>
        (int (days_of_civil y m d) * 86400 + int (h * 3600 + mi * 60 + sec) - z) * 1000000000
        + int f - epoch_ns)"

definition date_valid :: "nat \<times> nat \<times> nat \<Rightarrow> bool" where
  "date_valid date =
     (case date of (y, m, d) \<Rightarrow> 1 \<le> m \<and> m \<le> 12 \<and> 1 \<le> d \<and> d \<le> month_lengths y ! (m - 1))"

definition clock_valid :: "nat \<times> nat \<times> nat \<Rightarrow> bool" where
  "clock_valid clock = (case clock of (h, mi, sec) \<Rightarrow> h < 24 \<and> mi < 60 \<and> sec < 60)"

definition parse_time :: "bool \<Rightarrow> string \<Rightarrow> time option" where
  "parse_time strict s =
     Option.bind (parse_date s) (\<lambda>(date, s).
     Option.bind (get_char (CHR ''T'') s) (\<lambda>s.
     Option.bind (parse_clock strict s) (\<lambda>(clock, s).
     Option.bind (get_fraction strict s) (\<lambda>(f, s).
     Option.bind (get_zone strict s) (\<lambda>z.
       if date_valid date \<and> clock_valid clock then Some (instant_of date clock f z) else None)))))"

section \<open>Round trips\<close>

lemma get_digits_padded: "n < 10 ^ k \<Longrightarrow> get_digits k (padded 10 k n @ s) = Some (n, s)"
  by (simp add: get_digits_def unpad_padded)

lemma parse_date_format:
  assumes "y < 10000" "m < 100" "d < 100"
  shows "parse_date (padded 10 4 y @ CHR ''-'' # padded 10 2 m @ CHR ''-'' # padded 10 2 d @ s)
    = Some ((y, m, d), s)"
  using assms by (simp add: parse_date_def get_digits_padded)

lemma parse_clock_format:
  assumes "h < 100" "m < 100" "sec < 100"
  shows "parse_clock strict (padded 10 2 h @ CHR '':'' # padded 10 2 m @ CHR '':'' # padded 10 2 sec @ s)
    = Some ((h, m, sec), s)"
  using assms by (simp add: parse_clock_def get_hour_def get_digits_padded)

lemma instant_nat: "instant_ok t \<Longrightarrow> int (nat (t + epoch_ns)) = t + epoch_ns"
  by (simp add: instant_ok_def)

lemma instant_year:
  assumes "instant_ok t" and "civil_of_days (nat (t + epoch_ns) div 1000000000 div 86400) = (y, m, d)"
  shows "y < 10000"
proof (rule ccontr)
  let ?n = "nat (t + epoch_ns) div 1000000000 div 86400"
  assume "\<not> y < 10000"
  then have "days_before_year 10000 \<le> days_before_year y" by (intro days_before_year_mono) simp
  also have "\<dots> \<le> ?n" by (rule civil_of_days_spec(6) [OF assms(2)])
  finally have "3652425 \<le> ?n" by (simp add: days_before_year_def)
  moreover have "?n < 3652425"
    using assms(1) by (simp add: instant_ok_def div_less_iff_less_mult nat_less_iff)
  ultimately show False by simp
qed

lemma day_le_31: "1 \<le> m \<Longrightarrow> m \<le> 12 \<Longrightarrow> month_lengths y ! (m - 1) \<le> 31"
proof -
  assume "1 \<le> m" "m \<le> 12"
  then have "month_lengths y ! (m - 1) \<in> set (month_lengths y)"
    by (intro nth_mem) (simp add: month_lengths_def)
  then show ?thesis by (auto simp: month_lengths_def split: if_splits)
qed

lemma mod_split: "k dvd m \<Longrightarrow> n mod m = n mod m div k * k + n mod k" for n m k :: nat
  by (metis div_mult_mod_eq mod_mod_cancel)

lemma int_split: "int n = int (n div k) * int k + int (n mod k)" for n k :: nat
  by (simp flip: of_nat_mult of_nat_add)

lemma clock_split: "s = s div 3600 * 3600 + s div 60 mod 60 * 60 + s mod 60" for s :: nat
proof -
  have "s div 3600 = s div 60 div 60" by (simp add: div_mult2_eq [symmetric])
  moreover have "s div 60 = s div 60 div 60 * 60 + s div 60 mod 60" by simp
  moreover have "s = s div 60 * 60 + s mod 60" by simp
  ultimately show ?thesis by linarith
qed

definition clock_of :: "nat \<Rightarrow> nat \<times> nat \<times> nat" where
  "clock_of s = (s div 3600, s div 60 mod 60, s mod 60)"

lemma instant_clock:
  "instant_of (y, m, d) (clock_of s) f 0
   = (int (days_of_civil y m d) * 86400 + int s) * 1000000000 + int f - epoch_ns"
  by (simp only: instant_of_def clock_of_def prod.case clock_split [symmetric] diff_0_right)

lemma clock_of_valid: "s < 86400 \<Longrightarrow> clock_valid (clock_of s)"
  by (simp add: clock_valid_def clock_of_def div_less_iff_less_mult)

lemma instant_arith:
  fixes N S R D s t e f :: int
  assumes "N = S * 1000000000 + R" "S = D * 86400 + s" "N = t + e"
  shows "(D * 86400 + s) * 1000000000 + f - e = t - R + f"
  using assms by simp

lemma instant_of_civil:
  assumes ok: "instant_ok t" and n: "n = nat (t + epoch_ns)"
    and c: "civil_of_days (n div 1000000000 div 86400) = (y, m, d)"
  shows "instant_of (y, m, d) (clock_of (n div 1000000000 mod 86400)) f 0
    = t - int (n mod 1000000000) + int f"
  unfolding instant_clock
proof (rule instant_arith)
  show "int n = int (n div 1000000000) * 1000000000 + int (n mod 1000000000)"
    using int_split [of n 1000000000] unfolding of_nat_numeral .
  show "int (n div 1000000000) = int (days_of_civil y m d) * 86400 + int (n div 1000000000 mod 86400)"
    using int_split [of "n div 1000000000" 86400]
    unfolding civil_of_days_spec(1) [OF c] of_nat_numeral .
  show "int n = t + epoch_ns"
    unfolding n by (rule instant_nat [OF ok])
qed

text \<open>Both layouts share the date and the clock; what follows the seconds is left to the caller.\<close>

lemma parse_date_time:
  assumes "y < 10000" "1 \<le> m" "m \<le> 12" "1 \<le> d" "d \<le> month_lengths y ! (m - 1)"
    and c: "civil_of_days (sec div 86400) = (y, m, d)" and clk: "clock_of (sec mod 86400) = (h, mi, se)"
    and f: "get_fraction strict rest = Some (f, ''Z'')"
  shows "parse_time strict (date_time sec @ rest) = Some (instant_of (y, m, d) (h, mi, se) f 0)"
proof -
  have md: "m < 100" "d < 100" using assms day_le_31 [of m y] by linarith+
  have valid: "clock_valid (h, mi, se)"
    unfolding clk [symmetric] by (rule clock_of_valid) simp
  then have hms: "h < 100" "mi < 100" "se < 100" by (simp_all add: clock_valid_def)
  have dt: "date_time sec @ rest
      = padded 10 4 y @ CHR ''-'' # padded 10 2 m @ CHR ''-'' # padded 10 2 d @
        CHR ''T'' # padded 10 2 h @ CHR '':'' # padded 10 2 mi @ CHR '':'' # padded 10 2 se @ rest"
    using c clk assms(1) by (simp add: date_time_def clock_of_def Let_def)
  have dv: "date_valid (y, m, d)" using assms by (simp add: date_valid_def)
  show ?thesis
    unfolding dt parse_time_def
    using dv valid
    by (simp add: parse_date_format [OF assms(1) md] parse_clock_format [OF hms] f get_zone_def)
qed

lemma parse_time_date_time:
  assumes ok: "instant_ok t" and n: "n = nat (t + epoch_ns)"
    and f: "get_fraction strict rest = Some (f, ''Z'')"
  shows "parse_time strict (date_time (n div 1000000000) @ rest)
    = Some (t - int (n mod 1000000000) + int f)"
proof -
  obtain y m d where c: "civil_of_days (n div 1000000000 div 86400) = (y, m, d)"
    by (metis prod_cases3)
  obtain h mi se where k: "clock_of (n div 1000000000 mod 86400) = (h, mi, se)"
    by (metis prod_cases3)
  have y: "y < 10000" using instant_year [OF ok] c n by blast
  from parse_date_time [OF y civil_of_days_spec(2-5) [OF c] c k f]
    instant_of_civil [OF ok n c, of f]
  show ?thesis unfolding k by metis
qed

text \<open>On the wire a timestamp is truncated to the millisecond.\<close>

lemma ms_digits: "n mod 1000000000 div 1000000 < 10 ^ 3" for n :: nat
  by (simp add: div_less_iff_less_mult)

lemma fraction_ms: "v < 10 ^ 3 \<Longrightarrow> get_fraction False (CHR ''.'' # padded 10 3 v @ s) = Some (v * 1000000, s)"
  by (simp add: get_fraction_def get_digits_padded)

lemma FormatTime_parts:
  "FormatTime t = date_time (nat (t + epoch_ns) div 1000000000)
     @ CHR ''.'' # padded 10 3 (nat (t + epoch_ns) mod 1000000000 div 1000000) @ ''Z''"
  by (simp add: FormatTime_def Let_def)

lemma truncate_arith: "R = V + W \<Longrightarrow> t - R + V = t - W" for R V W t :: int
  by simp

lemma parse_FormatTime:
  assumes ok: "instant_ok t"
  shows "parse_time False (FormatTime t) = Some (t - (t + epoch_ns) mod 1000000)"
proof -
  let ?n = "nat (t + epoch_ns)"
  let ?ms = "?n mod 1000000000 div 1000000"
  have p: "parse_time False (FormatTime t) = Some (t - int (?n mod 1000000000) + int (?ms * 1000000))"
    unfolding FormatTime_parts by (rule parse_time_date_time [OF ok refl fraction_ms [OF ms_digits]])
  have "int (?n mod 1000000000) = int (?ms * 1000000) + int (?n mod 1000000)"
    unfolding of_nat_add [symmetric] by (rule arg_cong [where f = int], rule mod_split) simp
  moreover have "int (?n mod 1000000) = (t + epoch_ns) mod 1000000"
    unfolding zmod_int instant_nat [OF ok] of_nat_numeral ..
  ultimately have "t - int (?n mod 1000000000) + int (?ms * 1000000) = t - (t + epoch_ns) mod 1000000"
    by (metis truncate_arith)
  with p show ?thesis by (rule trans [OF _ arg_cong [where f = Some]])
qed

text \<open>In the store nothing is lost: the zeros that were cut off are read back.\<close>

lemma trim_zeros_append: "s = trim_zeros s @ replicate (length s - length (trim_zeros s)) (CHR ''0'')"
proof -
  let ?z = "takeWhile (\<lambda>c. c = CHR ''0'') (rev s)"
  have "rev s = ?z @ dropWhile (\<lambda>c. c = CHR ''0'') (rev s)" by simp
  then have s: "s = trim_zeros s @ rev ?z" unfolding trim_zeros_def by (metis rev_append rev_rev_ident)
  have "\<And>c. c \<in> set ?z \<Longrightarrow> c = CHR ''0''" by (auto dest: set_takeWhileD)
  then have "rev ?z = replicate (length ?z) (CHR ''0'')"
    by (metis length_rev replicate_eqI set_rev)
  moreover have "length ?z = length s - length (trim_zeros s)"
    using s by (metis add_diff_cancel_left' length_append length_rev)
  ultimately show ?thesis using s by simp
qed

lemma is_digit_digit_char: "d < 10 \<Longrightarrow> is_digit (digit_char d)"
  by (simp add: is_digit_def char_digit_digit_char)

lemma trim_zeros_digits:
  assumes "c \<in> set (trim_zeros (padded 10 k n))"
  shows "is_digit c"
proof -
  from assms have "c \<in> set (padded 10 k n)"
    using trim_zeros_append [of "padded 10 k n"] by (metis Un_iff set_append)
  then show ?thesis
    by (auto simp: padded_def intro!: is_digit_digit_char dest: digits_less [rotated])
qed

lemma fraction_nano:
  assumes "v < 10 ^ 9"
  defines "f \<equiv> trim_zeros (padded 10 9 v)"
  shows "get_fraction True ((if f = [] then [] else CHR ''.'' # f) @ ''Z'') = Some (v, ''Z'')"
proof -
  have all: "list_all is_digit f"
    unfolding list_all_iff f_def using trim_zeros_digits by blast
  then have tw: "takeWhile is_digit (f @ ''Z'') = f" "dropWhile is_digit (f @ ''Z'') = ''Z''"
    by (simp_all add: list_all_iff is_digit_def char_digit_def)
  have len: "length f \<le> 9"
    using trim_zeros_append [of "padded 10 9 v"]
    unfolding f_def by (metis le_add1 length_append length_padded)
  have whole: "padded 10 9 v = f @ replicate (9 - length f) (CHR ''0'')"
    using trim_zeros_append [of "padded 10 9 v"] by (simp add: f_def)
  then have "take 9 (f @ replicate 9 (CHR ''0'')) = padded 10 9 v"
    using len by simp
  then have num: "unpad 10 (take 9 (f @ replicate 9 (CHR ''0''))) = Some v"
    using unpad_padded [of 10 v 9] assms(1) by simp
  show ?thesis
  proof (cases "f = []")
    case True
    with num have "v = 0" by (simp add: unpad_def char_digit_def undigits_def numeral_eq_Suc)
    with True show ?thesis by (simp add: get_fraction_def)
  next
    case False
    then have "(if f = [] then [] else CHR ''.'' # f) @ ''Z'' = CHR ''.'' # (f @ ''Z'')" by simp
    then show ?thesis using False tw num by (simp add: get_fraction_def Let_def)
  qed
qed

lemma format_nano_parts:
  "format_nano t = date_time (nat (t + epoch_ns) div 1000000000) @
     ((if trim_zeros (padded 10 9 (nat (t + epoch_ns) mod 1000000000)) = [] then []
       else CHR ''.'' # trim_zeros (padded 10 9 (nat (t + epoch_ns) mod 1000000000))) @ ''Z'')"
  by (simp add: format_nano_def Let_def)

lemma ns_digits: "n mod 1000000000 < 10 ^ 9" for n :: nat
  by simp

lemma parse_format_nano:
  assumes ok: "instant_ok t"
  shows "parse_time True (format_nano t) = Some t"
proof -
  have "parse_time True (format_nano t)
      = Some (t - int (nat (t + epoch_ns) mod 1000000000) + int (nat (t + epoch_ns) mod 1000000000))"
    unfolding format_nano_parts
    by (rule parse_time_date_time [OF ok refl fraction_nano [OF ns_digits]])
  then show ?thesis by (simp only: diff_add_cancel)
qed

text \<open>Formatted times are texts a database takes.\<close>

lemma date_time_pg_text [simp]: "pg_text (date_time s)"
  by (simp add: date_time_def Let_def split: prod.splits)

lemma FormatTime_pg_text [simp]: "pg_text (FormatTime t)"
  by (simp add: FormatTime_def Let_def)

lemma format_nano_pg_text [simp]: "pg_text (format_nano t)"
  by (simp add: format_nano_def Let_def trim_zeros_def pg_text_sub)

end
