(* ===== verification/Order_Contracts.thy ===== *)
theory Order_Contracts
  imports Order_Domain Wire_Time
begin

text \<open>
  services/order/internal/contracts/order_events.go: the integration events of the order
  stream with their JSON codecs. The lemmas are the round trips: an event that is marshalled is
  unmarshalled to itself.
\<close>

section \<open>Integration events\<close>

definition TopicOrderEvents :: string where "TopicOrderEvents = ''orders.events''"
definition TypeOrderPlaced :: string where "TypeOrderPlaced = ''order.placed.v1''"
definition TypeOrderConfirmed :: string where "TypeOrderConfirmed = ''order.confirmed.v1''"
definition TypeOrderCancelled :: string where "TypeOrderCancelled = ''order.cancelled.v1''"
definition HeaderEventType :: string where "HeaderEventType = ''event-type''"
definition HeaderContentType :: string where "HeaderContentType = ''content-type''"
definition HeaderEventID :: string where "HeaderEventID = ''event-id''"

record WireLine =
  wl_SKU :: string
  wl_Quantity :: int32
  wl_UnitPriceMinor :: int64

record WireAddress =
  wa_Line1 :: string
  wa_Line2 :: string
  wa_City :: string
  wa_Region :: string
  wa_PostalCode :: string
  wa_Country :: string

record OrderPlacedV1 =
  op_OrderID :: string
  op_CustomerID :: string
  op_Items :: "WireLine list"
  op_ShipTo :: WireAddress
  op_TotalMinor :: int64
  op_Currency :: string
  op_PlacedAt :: string

record OrderConfirmedV1 =
  oc_OrderID :: string
  oc_ConfirmedAt :: string

record OrderCancelledV1 =
  ox_OrderID :: string
  ox_Reason :: string
  ox_CancelledAt :: string

definition ParsePlacedAt :: "OrderPlacedV1 \<Rightarrow> oerr + time" where
  "ParsePlacedAt e =
     (case parse_time False (op_PlacedAt e) of
        None \<Rightarrow> Inl (Wrapf ''parse placedAt'' (Foreign ''time.Parse''))
      | Some t \<Rightarrow> Inr t)"

definition enc_line :: "WireLine \<Rightarrow> json" where
  "enc_line l =
     JObj [(''sku'', JStr (wl_SKU l)), (''quantity'', enc_int32 (wl_Quantity l)),
           (''unitPriceMinor'', enc_int64 (wl_UnitPriceMinor l))]"

definition dec_line :: "WireLine dec" where
  "dec_line = dec_struct (\<lambda>kvs l.
     Option.bind (dec_field ''sku'' dec_string kvs (wl_SKU l)) (\<lambda>s.
     Option.bind (dec_field ''quantity'' dec_int32 kvs (wl_Quantity l)) (\<lambda>q.
     Option.bind (dec_field ''unitPriceMinor'' dec_int64 kvs (wl_UnitPriceMinor l)) (\<lambda>u.
       Some \<lparr>wl_SKU = s, wl_Quantity = q, wl_UnitPriceMinor = u\<rparr>))))"

definition zero_line :: WireLine where
  "zero_line = \<lparr>wl_SKU = [], wl_Quantity = 0, wl_UnitPriceMinor = 0\<rparr>"

definition enc_address :: "WireAddress \<Rightarrow> json" where
  "enc_address a =
     JObj [(''line1'', JStr (wa_Line1 a)), (''line2'', JStr (wa_Line2 a)), (''city'', JStr (wa_City a)),
           (''region'', JStr (wa_Region a)), (''postalCode'', JStr (wa_PostalCode a)),
           (''country'', JStr (wa_Country a))]"

definition dec_address :: "WireAddress dec" where
  "dec_address = dec_struct (\<lambda>kvs a.
     Option.bind (dec_field ''line1'' dec_string kvs (wa_Line1 a)) (\<lambda>l1.
     Option.bind (dec_field ''line2'' dec_string kvs (wa_Line2 a)) (\<lambda>l2.
     Option.bind (dec_field ''city'' dec_string kvs (wa_City a)) (\<lambda>ci.
     Option.bind (dec_field ''region'' dec_string kvs (wa_Region a)) (\<lambda>re.
     Option.bind (dec_field ''postalCode'' dec_string kvs (wa_PostalCode a)) (\<lambda>po.
     Option.bind (dec_field ''country'' dec_string kvs (wa_Country a)) (\<lambda>co.
       Some \<lparr>wa_Line1 = l1, wa_Line2 = l2, wa_City = ci, wa_Region = re, wa_PostalCode = po,
             wa_Country = co\<rparr>)))))))"

definition zero_address :: WireAddress where
  "zero_address = \<lparr>wa_Line1 = [], wa_Line2 = [], wa_City = [], wa_Region = [], wa_PostalCode = [],
                   wa_Country = []\<rparr>"

text \<open>json.Marshal does not fail on structs of strings and integers.\<close>

definition Marshal_OrderPlaced :: "OrderPlacedV1 \<Rightarrow> body" where
  "Marshal_OrderPlaced e = Some (
     JObj [(''orderId'', JStr (op_OrderID e)), (''customerId'', JStr (op_CustomerID e)),
           (''items'', JArr (map enc_line (op_Items e))), (''shipTo'', enc_address (op_ShipTo e)),
           (''totalMinor'', enc_int64 (op_TotalMinor e)), (''currency'', JStr (op_Currency e)),
           (''placedAt'', JStr (op_PlacedAt e))])"

definition dec_OrderPlaced :: "OrderPlacedV1 dec" where
  "dec_OrderPlaced = dec_struct (\<lambda>kvs e.
     Option.bind (dec_field ''orderId'' dec_string kvs (op_OrderID e)) (\<lambda>i.
     Option.bind (dec_field ''customerId'' dec_string kvs (op_CustomerID e)) (\<lambda>c.
     Option.bind (dec_field ''items'' (dec_list dec_line zero_line) kvs (op_Items e)) (\<lambda>its.
     Option.bind (dec_field ''shipTo'' dec_address kvs (op_ShipTo e)) (\<lambda>sh.
     Option.bind (dec_field ''totalMinor'' dec_int64 kvs (op_TotalMinor e)) (\<lambda>t.
     Option.bind (dec_field ''currency'' dec_string kvs (op_Currency e)) (\<lambda>cur.
     Option.bind (dec_field ''placedAt'' dec_string kvs (op_PlacedAt e)) (\<lambda>p.
       Some \<lparr>op_OrderID = i, op_CustomerID = c, op_Items = its, op_ShipTo = sh, op_TotalMinor = t,
             op_Currency = cur, op_PlacedAt = p\<rparr>))))))))"

definition zero_OrderPlaced :: OrderPlacedV1 where
  "zero_OrderPlaced = \<lparr>op_OrderID = [], op_CustomerID = [], op_Items = [], op_ShipTo = zero_address,
     op_TotalMinor = 0, op_Currency = [], op_PlacedAt = []\<rparr>"

definition UnmarshalOrderPlaced :: "body \<Rightarrow> oerr + OrderPlacedV1" where
  "UnmarshalOrderPlaced raw =
     (case json_Unmarshal dec_OrderPlaced zero_OrderPlaced raw of
        None \<Rightarrow> Inl (Wrapf ''unmarshal order.placed.v1'' (Foreign ''json.Unmarshal''))
      | Some e \<Rightarrow> Inr e)"

definition Marshal_OrderConfirmed :: "OrderConfirmedV1 \<Rightarrow> body" where
  "Marshal_OrderConfirmed e = Some (
     JObj [(''orderId'', JStr (oc_OrderID e)), (''confirmedAt'', JStr (oc_ConfirmedAt e))])"

definition dec_OrderConfirmed :: "OrderConfirmedV1 dec" where
  "dec_OrderConfirmed = dec_struct (\<lambda>kvs e.
     Option.bind (dec_field ''orderId'' dec_string kvs (oc_OrderID e)) (\<lambda>i.
     Option.bind (dec_field ''confirmedAt'' dec_string kvs (oc_ConfirmedAt e)) (\<lambda>c.
       Some \<lparr>oc_OrderID = i, oc_ConfirmedAt = c\<rparr>)))"

definition UnmarshalOrderConfirmed :: "body \<Rightarrow> oerr + OrderConfirmedV1" where
  "UnmarshalOrderConfirmed raw =
     (case json_Unmarshal dec_OrderConfirmed \<lparr>oc_OrderID = [], oc_ConfirmedAt = []\<rparr> raw of
        None \<Rightarrow> Inl (Wrapf ''unmarshal order.confirmed.v1'' (Foreign ''json.Unmarshal''))
      | Some e \<Rightarrow> Inr e)"

definition Marshal_OrderCancelled :: "OrderCancelledV1 \<Rightarrow> body" where
  "Marshal_OrderCancelled e = Some (
     JObj [(''orderId'', JStr (ox_OrderID e)), (''reason'', JStr (ox_Reason e)),
           (''cancelledAt'', JStr (ox_CancelledAt e))])"

definition dec_OrderCancelled :: "OrderCancelledV1 dec" where
  "dec_OrderCancelled = dec_struct (\<lambda>kvs e.
     Option.bind (dec_field ''orderId'' dec_string kvs (ox_OrderID e)) (\<lambda>i.
     Option.bind (dec_field ''reason'' dec_string kvs (ox_Reason e)) (\<lambda>r.
     Option.bind (dec_field ''cancelledAt'' dec_string kvs (ox_CancelledAt e)) (\<lambda>c.
       Some \<lparr>ox_OrderID = i, ox_Reason = r, ox_CancelledAt = c\<rparr>))))"

definition UnmarshalOrderCancelled :: "body \<Rightarrow> oerr + OrderCancelledV1" where
  "UnmarshalOrderCancelled raw =
     (case json_Unmarshal dec_OrderCancelled \<lparr>ox_OrderID = [], ox_Reason = [], ox_CancelledAt = []\<rparr> raw of
        None \<Rightarrow> Inl (Wrapf ''unmarshal order.cancelled.v1'' (Foreign ''json.Unmarshal''))
      | Some e \<Rightarrow> Inr e)"

section \<open>Round trips of the integration events\<close>

lemma lower_char_of [simp]:
  "n < 256 \<Longrightarrow> lower_char (char_of n) = char_of (if 65 \<le> n \<and> n \<le> 90 then n + 32 else n)" for n :: nat
  by (simp add: lower_char_def)

lemmas field_simps_json = fold_eq_def lower_char_def json_Unmarshal_def

lemma dec_enc_line [simp]: "dec_line (enc_line l) z = Some l"
  by (simp add: dec_line_def enc_line_def field_simps_json)

lemma dec_enc_address [simp]: "dec_address (enc_address a) z = Some a"
  by (simp add: dec_address_def enc_address_def field_simps_json)

lemma Unmarshal_Marshal_OrderPlaced [simp]: "UnmarshalOrderPlaced (Marshal_OrderPlaced e) = Inr e"
  by (simp add: UnmarshalOrderPlaced_def Marshal_OrderPlaced_def dec_OrderPlaced_def
      zero_OrderPlaced_def dec_elems_map field_simps_json)

lemma Unmarshal_Marshal_OrderConfirmed [simp]:
  "UnmarshalOrderConfirmed (Marshal_OrderConfirmed e) = Inr e"
  by (simp add: UnmarshalOrderConfirmed_def Marshal_OrderConfirmed_def dec_OrderConfirmed_def
      field_simps_json)

lemma Unmarshal_Marshal_OrderCancelled [simp]:
  "UnmarshalOrderCancelled (Marshal_OrderCancelled e) = Inr e"
  by (simp add: UnmarshalOrderCancelled_def Marshal_OrderCancelled_def dec_OrderCancelled_def
      field_simps_json)

end
