(* ===== verification/Order_Codec.thy ===== *)
theory Order_Codec
  imports Order_Lifecycle Order_Contracts
begin

text \<open>
  services/order/internal/infra/postgres/codec.go: the representation of the domain events in
  the event store. \<open>encodeEvent\<close> and \<open>decodeEvent\<close> are translated field by field over the JSON
  values of \<open>Json\<close>. The lemmas show that decoding an encoded well-formed event gives it back,
  for each kind of event, and what happens to an event whose total has wrapped.
\<close>

section \<open>Stored records\<close>

record storedLineItem =
  sl_SKU :: string
  sl_Quantity :: int32
  sl_UnitPriceMinor :: int64
  sl_Currency :: string

record storedAddress =
  sa_Line1 :: string
  sa_Line2 :: string
  sa_City :: string
  sa_Region :: string
  sa_PostalCode :: string
  sa_Country :: string

record storedOrderPlaced =
  sp_OrderID :: string
  sp_CustomerID :: string
  sp_Items :: "storedLineItem list"
  sp_ShipTo :: storedAddress
  sp_TotalMinor :: int64
  sp_Currency :: string
  sp_PlacedAt :: time

record storedOrderConfirmed =
  sc_OrderID :: string
  sc_ConfirmedAt :: time

record storedOrderCancelled =
  sx_OrderID :: string
  sx_Reason :: string
  sx_CancelledAt :: time

text \<open>A time.Time is written as an RFC 3339 text with nanoseconds and read back strictly; the
  zero value is the first instant of the year 1.\<close>

definition zero_time :: time where
  "zero_time = - 62135596800000000000"

definition enc_time :: "time \<Rightarrow> json" where
  "enc_time t = JStr (format_nano t)"

fun dec_time :: "time dec" where
  "dec_time JNull t = Some t"
| "dec_time (JStr s) t = parse_time True s"
| "dec_time _ t = None"

lemma dec_enc_time [simp]: "instant_ok t \<Longrightarrow> dec_time (enc_time t) z = Some t"
  by (simp add: enc_time_def parse_format_nano)

definition enc_storedLine :: "storedLineItem \<Rightarrow> json" where
  "enc_storedLine l =
     JObj [(''sku'', JStr (sl_SKU l)), (''quantity'', enc_int32 (sl_Quantity l)),
           (''unitPriceMinor'', enc_int64 (sl_UnitPriceMinor l)), (''currency'', JStr (sl_Currency l))]"

definition dec_storedLine :: "storedLineItem dec" where
  "dec_storedLine = dec_struct (\<lambda>kvs l.
     Option.bind (dec_field ''sku'' dec_string kvs (sl_SKU l)) (\<lambda>s.
     Option.bind (dec_field ''quantity'' dec_int32 kvs (sl_Quantity l)) (\<lambda>q.
     Option.bind (dec_field ''unitPriceMinor'' dec_int64 kvs (sl_UnitPriceMinor l)) (\<lambda>u.
     Option.bind (dec_field ''currency'' dec_string kvs (sl_Currency l)) (\<lambda>c.
       Some \<lparr>sl_SKU = s, sl_Quantity = q, sl_UnitPriceMinor = u, sl_Currency = c\<rparr>)))))"

definition zero_storedLine :: storedLineItem where
  "zero_storedLine = \<lparr>sl_SKU = [], sl_Quantity = 0, sl_UnitPriceMinor = 0, sl_Currency = []\<rparr>"

text \<open>The struct has no field tags: the keys are the names of the Go fields.\<close>

definition enc_storedAddress :: "storedAddress \<Rightarrow> json" where
  "enc_storedAddress a =
     JObj [(''Line1'', JStr (sa_Line1 a)), (''Line2'', JStr (sa_Line2 a)), (''City'', JStr (sa_City a)),
           (''Region'', JStr (sa_Region a)), (''PostalCode'', JStr (sa_PostalCode a)),
           (''Country'', JStr (sa_Country a))]"

definition dec_storedAddress :: "storedAddress dec" where
  "dec_storedAddress = dec_struct (\<lambda>kvs a.
     Option.bind (dec_field ''Line1'' dec_string kvs (sa_Line1 a)) (\<lambda>l1.
     Option.bind (dec_field ''Line2'' dec_string kvs (sa_Line2 a)) (\<lambda>l2.
     Option.bind (dec_field ''City'' dec_string kvs (sa_City a)) (\<lambda>ci.
     Option.bind (dec_field ''Region'' dec_string kvs (sa_Region a)) (\<lambda>re.
     Option.bind (dec_field ''PostalCode'' dec_string kvs (sa_PostalCode a)) (\<lambda>po.
     Option.bind (dec_field ''Country'' dec_string kvs (sa_Country a)) (\<lambda>co.
       Some \<lparr>sa_Line1 = l1, sa_Line2 = l2, sa_City = ci, sa_Region = re, sa_PostalCode = po,
             sa_Country = co\<rparr>)))))))"

definition zero_storedAddress :: storedAddress where
  "zero_storedAddress = \<lparr>sa_Line1 = [], sa_Line2 = [], sa_City = [], sa_Region = [],
     sa_PostalCode = [], sa_Country = []\<rparr>"

definition enc_storedPlaced :: "storedOrderPlaced \<Rightarrow> json" where
  "enc_storedPlaced p =
     JObj [(''orderId'', JStr (sp_OrderID p)), (''customerId'', JStr (sp_CustomerID p)),
           (''items'', JArr (map enc_storedLine (sp_Items p))),
           (''shipTo'', enc_storedAddress (sp_ShipTo p)), (''totalMinor'', enc_int64 (sp_TotalMinor p)),
           (''currency'', JStr (sp_Currency p)), (''placedAt'', enc_time (sp_PlacedAt p))]"

definition dec_storedPlaced :: "storedOrderPlaced dec" where
  "dec_storedPlaced = dec_struct (\<lambda>kvs p.
     Option.bind (dec_field ''orderId'' dec_string kvs (sp_OrderID p)) (\<lambda>i.
     Option.bind (dec_field ''customerId'' dec_string kvs (sp_CustomerID p)) (\<lambda>c.
     Option.bind (dec_field ''items'' (dec_list dec_storedLine zero_storedLine) kvs (sp_Items p)) (\<lambda>its.
     Option.bind (dec_field ''shipTo'' dec_storedAddress kvs (sp_ShipTo p)) (\<lambda>sh.
     Option.bind (dec_field ''totalMinor'' dec_int64 kvs (sp_TotalMinor p)) (\<lambda>t.
     Option.bind (dec_field ''currency'' dec_string kvs (sp_Currency p)) (\<lambda>cur.
     Option.bind (dec_field ''placedAt'' dec_time kvs (sp_PlacedAt p)) (\<lambda>at.
       Some \<lparr>sp_OrderID = i, sp_CustomerID = c, sp_Items = its, sp_ShipTo = sh, sp_TotalMinor = t,
             sp_Currency = cur, sp_PlacedAt = at\<rparr>))))))))"

definition zero_storedPlaced :: storedOrderPlaced where
  "zero_storedPlaced = \<lparr>sp_OrderID = [], sp_CustomerID = [], sp_Items = [],
     sp_ShipTo = zero_storedAddress, sp_TotalMinor = 0, sp_Currency = [], sp_PlacedAt = zero_time\<rparr>"

definition enc_storedConfirmed :: "storedOrderConfirmed \<Rightarrow> json" where
  "enc_storedConfirmed p =
     JObj [(''orderId'', JStr (sc_OrderID p)), (''confirmedAt'', enc_time (sc_ConfirmedAt p))]"

definition dec_storedConfirmed :: "storedOrderConfirmed dec" where
  "dec_storedConfirmed = dec_struct (\<lambda>kvs p.
     Option.bind (dec_field ''orderId'' dec_string kvs (sc_OrderID p)) (\<lambda>i.
     Option.bind (dec_field ''confirmedAt'' dec_time kvs (sc_ConfirmedAt p)) (\<lambda>at.
       Some \<lparr>sc_OrderID = i, sc_ConfirmedAt = at\<rparr>)))"

definition enc_storedCancelled :: "storedOrderCancelled \<Rightarrow> json" where
  "enc_storedCancelled p =
     JObj [(''orderId'', JStr (sx_OrderID p)), (''reason'', JStr (sx_Reason p)),
           (''cancelledAt'', enc_time (sx_CancelledAt p))]"

definition dec_storedCancelled :: "storedOrderCancelled dec" where
  "dec_storedCancelled = dec_struct (\<lambda>kvs p.
     Option.bind (dec_field ''orderId'' dec_string kvs (sx_OrderID p)) (\<lambda>i.
     Option.bind (dec_field ''reason'' dec_string kvs (sx_Reason p)) (\<lambda>r.
     Option.bind (dec_field ''cancelledAt'' dec_time kvs (sx_CancelledAt p)) (\<lambda>at.
       Some \<lparr>sx_OrderID = i, sx_Reason = r, sx_CancelledAt = at\<rparr>))))"

lemma dec_enc_storedLine [simp]: "dec_storedLine (enc_storedLine l) z = Some l"
  by (simp add: dec_storedLine_def enc_storedLine_def field_simps_json)

lemma dec_enc_storedAddress [simp]: "dec_storedAddress (enc_storedAddress a) z = Some a"
  by (simp add: dec_storedAddress_def enc_storedAddress_def field_simps_json)

lemma dec_enc_storedPlaced [simp]:
  "instant_ok (sp_PlacedAt p) \<Longrightarrow> dec_storedPlaced (enc_storedPlaced p) z = Some p"
  by (simp add: dec_storedPlaced_def enc_storedPlaced_def dec_elems_map field_simps_json)

lemma dec_enc_storedConfirmed [simp]:
  "instant_ok (sc_ConfirmedAt p) \<Longrightarrow> dec_storedConfirmed (enc_storedConfirmed p) z = Some p"
  by (simp add: dec_storedConfirmed_def enc_storedConfirmed_def field_simps_json)

lemma dec_enc_storedCancelled [simp]:
  "instant_ok (sx_CancelledAt p) \<Longrightarrow> dec_storedCancelled (enc_storedCancelled p) z = Some p"
  by (simp add: dec_storedCancelled_def enc_storedCancelled_def field_simps_json)

section \<open>encodeEvent\<close>

definition stored_of_line :: "LineItem \<Rightarrow> storedLineItem" where
  "stored_of_line it =
     \<lparr>sl_SKU = sku_value (li_SKU it), sl_Quantity = Quantity_Value (li_Quantity it),
      sl_UnitPriceMinor = MinorUnits (li_UnitPrice it), sl_Currency = Currency (li_UnitPrice it)\<rparr>"

definition stored_of_placed :: "golib \<Rightarrow> OrderPlacedEvent \<Rightarrow> storedOrderPlaced" where
  "stored_of_placed L ev =
     \<lparr>sp_OrderID = OrderID_String L (pe_OrderID ev),
      sp_CustomerID = CustomerID_String L (pe_CustomerID ev),
      sp_Items = map stored_of_line (pe_Items ev),
      sp_ShipTo =
        \<lparr>sa_Line1 = Line1 (pe_ShipTo ev), sa_Line2 = Line2 (pe_ShipTo ev), sa_City = City (pe_ShipTo ev),
         sa_Region = Region (pe_ShipTo ev), sa_PostalCode = PostalCode (pe_ShipTo ev),
         sa_Country = Country (pe_ShipTo ev)\<rparr>,
      sp_TotalMinor = MinorUnits (pe_Total ev), sp_Currency = Currency (pe_Total ev),
      sp_PlacedAt = pe_PlacedAt ev\<rparr>"

text \<open>json.Marshal fails only where Time.MarshalJSON does, on a year outside 0..9999.\<close>

fun encodeEvent :: "golib \<Rightarrow> DomainEvent \<Rightarrow> oerr + string \<times> body" where
  "encodeEvent L (OrderPlaced ev) =
     (if instant_ok (pe_PlacedAt ev)
      then Inr (EventType (OrderPlaced ev), Some (enc_storedPlaced (stored_of_placed L ev)))
      else Inl (Wrapf ''marshal order.placed'' (Foreign ''json.Marshal'')))"
| "encodeEvent L (OrderConfirmed i t) =
     (if instant_ok t
      then Inr (EventType (OrderConfirmed i t),
                Some (enc_storedConfirmed \<lparr>sc_OrderID = OrderID_String L i, sc_ConfirmedAt = t\<rparr>))
      else Inl (Wrapf ''marshal order.confirmed'' (Foreign ''json.Marshal'')))"
| "encodeEvent L (OrderCancelled i r t) =
     (if instant_ok t
      then Inr (EventType (OrderCancelled i r t),
                Some (enc_storedCancelled \<lparr>sx_OrderID = OrderID_String L i, sx_Reason = r,
                                           sx_CancelledAt = t\<rparr>))
      else Inl (Wrapf ''marshal order.cancelled'' (Foreign ''json.Marshal'')))"

section \<open>decodeEvent\<close>

definition decode_line :: "golib \<Rightarrow> storedLineItem \<Rightarrow> oerr + LineItem" where
  "decode_line L it =
     (case NewSKU (sl_SKU it) of
        Inl err \<Rightarrow> Inl err
      | Inr sku \<Rightarrow>
     (case NewQuantity (sl_Quantity it) of
        Inl err \<Rightarrow> Inl err
      | Inr qty \<Rightarrow>
     (case NewMoney L (sl_Currency it) (sl_UnitPriceMinor it) of
        Inl err \<Rightarrow> Inl err
      | Inr price \<Rightarrow> Inr \<lparr>li_SKU = sku, li_Quantity = qty, li_UnitPrice = price\<rparr>)))"

fun decode_lines :: "golib \<Rightarrow> storedLineItem list \<Rightarrow> oerr + LineItem list" where
  "decode_lines L [] = Inr []"
| "decode_lines L (it # its) =
     (case decode_line L it of
        Inl err \<Rightarrow> Inl err
      | Inr li \<Rightarrow> map_sum id (Cons li) (decode_lines L its))"

definition decode_placed :: "golib \<Rightarrow> storedOrderPlaced \<Rightarrow> oerr + DomainEvent" where
  "decode_placed L p =
     (case ParseOrderID L (sp_OrderID p) of
        Inl err \<Rightarrow> Inl err
      | Inr orderID \<Rightarrow>
     (case ParseCustomerID L (sp_CustomerID p) of
        Inl err \<Rightarrow> Inl err
      | Inr customerID \<Rightarrow>
     (case decode_lines L (sp_Items p) of
        Inl err \<Rightarrow> Inl err
      | Inr items \<Rightarrow>
     (case NewAddress L (sa_Line1 (sp_ShipTo p)) (sa_Line2 (sp_ShipTo p)) (sa_City (sp_ShipTo p))
             (sa_Region (sp_ShipTo p)) (sa_PostalCode (sp_ShipTo p)) (sa_Country (sp_ShipTo p)) of
        Inl err \<Rightarrow> Inl err
      | Inr addr \<Rightarrow>
     (case NewMoney L (sp_Currency p) (sp_TotalMinor p) of
        Inl err \<Rightarrow> Inl err
      | Inr tot \<Rightarrow>
          Inr (OrderPlaced \<lparr>pe_OrderID = orderID, pe_CustomerID = customerID, pe_Items = items,
                            pe_ShipTo = addr, pe_Total = tot, pe_PlacedAt = sp_PlacedAt p\<rparr>))))))"

definition decodeEvent :: "golib \<Rightarrow> string \<Rightarrow> body \<Rightarrow> oerr + DomainEvent" where
  "decodeEvent L eventType raw =
     (if eventType = ''order.placed.v1'' then
        (case json_Unmarshal dec_storedPlaced zero_storedPlaced raw of
           None \<Rightarrow> Inl (Wrapf ''unmarshal order.placed'' (Foreign ''json.Unmarshal''))
         | Some p \<Rightarrow> decode_placed L p)
      else if eventType = ''order.confirmed.v1'' then
        (case json_Unmarshal dec_storedConfirmed \<lparr>sc_OrderID = [], sc_ConfirmedAt = zero_time\<rparr> raw of
           None \<Rightarrow> Inl (Wrapf ''unmarshal order.confirmed'' (Foreign ''json.Unmarshal''))
         | Some p \<Rightarrow>
             (case ParseOrderID L (sc_OrderID p) of
                Inl err \<Rightarrow> Inl err
              | Inr i \<Rightarrow> Inr (OrderConfirmed i (sc_ConfirmedAt p))))
      else if eventType = ''order.cancelled.v1'' then
        (case json_Unmarshal dec_storedCancelled
                \<lparr>sx_OrderID = [], sx_Reason = [], sx_CancelledAt = zero_time\<rparr> raw of
           None \<Rightarrow> Inl (Wrapf ''unmarshal order.cancelled'' (Foreign ''json.Unmarshal''))
         | Some p \<Rightarrow>
             (case ParseOrderID L (sx_OrderID p) of
                Inl err \<Rightarrow> Inl err
              | Inr i \<Rightarrow> Inr (OrderCancelled i (sx_Reason p) (sx_CancelledAt p))))
      else Inl (Foreign ''unknown stored event type''))"

section \<open>Round trip\<close>

fun event_ok :: "golib \<Rightarrow> DomainEvent \<Rightarrow> bool" where
  "event_ok L (OrderPlaced e) =
     (list_all (item_ok L) (pe_Items e) \<and> address_ok L (pe_ShipTo e) \<and> money_ok L (pe_Total e)
      \<and> instant_ok (pe_PlacedAt e))"
| "event_ok L (OrderConfirmed i t) = instant_ok t"
| "event_ok L (OrderCancelled i r t) = instant_ok t"

lemma decode_line_ok: "item_ok L it \<Longrightarrow> decode_line L (stored_of_line it) = Inr it"
  by (cases it) (auto simp: item_ok_def sku_ok_def qty_ok_def money_ok_def decode_line_def
      stored_of_line_def)

lemma decode_lines_ok:
  "list_all (item_ok L) its \<Longrightarrow> decode_lines L (map stored_of_line its) = Inr its"
  by (induction its) (simp_all add: decode_line_ok)

context uuid_laws
begin

lemma Parse_OrderID_String [simp]: "ParseOrderID L (OrderID_String L i) = Inr i"
  by (simp add: ParseOrderID_def OrderID_String_def parse_string)

lemma Parse_CustomerID_String [simp]: "ParseCustomerID L (CustomerID_String L i) = Inr i"
  by (simp add: ParseCustomerID_def CustomerID_String_def parse_string)

lemma decode_encode:
  assumes "event_ok L e"
  shows "\<exists>p. encodeEvent L e = Inr (EventType e, p) \<and> decodeEvent L (EventType e) p = Inr e"
  using assms
  by (cases e)
     (simp_all add: decodeEvent_def json_Unmarshal_def decode_placed_def stored_of_placed_def
       decode_lines_ok address_ok_def money_ok_def)

text \<open>A placement whose total is negative is encoded without complaint and never decoded again.\<close>

lemma decode_negative_total:
  assumes "list_all (item_ok L) (pe_Items e)" "address_ok L (pe_ShipTo e)"
    and "sint (MinorUnits (pe_Total e)) < 0" "length (ToUpper L (TrimSpace (Currency (pe_Total e)))) = 3"
    and "instant_ok (pe_PlacedAt e)"
  shows "\<exists>p. encodeEvent L (OrderPlaced e) = Inr (EventType (OrderPlaced e), p)
    \<and> decodeEvent L (EventType (OrderPlaced e)) p
        = Inl (Detailf ErrValidation ''amount must be non-negative'')"
  using assms
  by (simp add: decodeEvent_def json_Unmarshal_def decode_placed_def stored_of_placed_def
       decode_lines_ok address_ok_def NewMoney_def Let_def)

end

end
