(* ===== verification/Effects.thy ===== *)
theory Effects
  imports Json
begin

text \<open>
  How the development models statements that can fail. A service runs against a \<open>world\<close>: its
  database, a counter of the identifiers uuid.New has handed out, and a script of what happens
  to the next calls to a server. A call is carried out (\<open>Fine\<close>), fails before it has any effect
  (\<open>Failed\<close>), or is carried out while its reply is lost (\<open>ReplyLost\<close>), so the caller sees an
  error. An empty script is a run without faults. \<open>pgx_tx\<close> is a Postgres transaction in pgx:
  Begin, the statements, then Commit, or the deferred Rollback on every early return.
  \<open>w_sent\<close> is the log of messages the brokers have accepted, oldest first; what is accepted stays,
  whatever happens to the transaction the message was sent from.
\<close>

datatype fault = Fine | Failed | ReplyLost

type_synonym headers = "(string \<times> string) list"

text \<open>kafka.Message of segmentio/kafka-go.\<close>

record message =
  msg_Topic :: string
  msg_Key :: string
  msg_Value :: body
  msg_Headers :: headers

record 'db world =
  w_db :: 'db
  w_uuids :: nat
  w_faults :: "fault list"
  w_sent :: "message list"

text \<open>A program over some state, and a program of a service over its world.\<close>

type_synonym ('w, 's, 'a) prog = "'w \<Rightarrow> ('s err + 'a) \<times> 'w"
type_synonym ('db, 's, 'a) act = "('db world, 's, 'a) prog"

named_theorems act_simps \<open>running the combinators\<close>

definition next_fault :: "('db, 'z) world_scheme \<Rightarrow> fault \<times> ('db, 'z) world_scheme" where
  "next_fault w = (case w_faults w of [] \<Rightarrow> (Fine, w) | f # fs \<Rightarrow> (f, w\<lparr>w_faults := fs\<rparr>))"

definition ok :: "'a \<Rightarrow> ('w, 's, 'a) prog" where
  "ok a w = (Inr a, w)"

definition fail :: "'s err \<Rightarrow> ('w, 's, 'a) prog" where
  "fail e w = (Inl e, w)"

definition and_then :: "('w, 's, 'a) prog \<Rightarrow> ('a \<Rightarrow> ('w, 's, 'b) prog) \<Rightarrow> ('w, 's, 'b) prog" where
  "and_then m f w = (case m w of (Inl e, w') \<Rightarrow> (Inl e, w') | (Inr a, w') \<Rightarrow> f a w')"

definition of_result :: "'s err + 'a \<Rightarrow> ('w, 's, 'a) prog" where
  "of_result r w = (r, w)"

text \<open>fmt.Errorf("p: %w", err) around the error of a call.\<close>

definition map_err :: "('s err \<Rightarrow> 's err) \<Rightarrow> ('w, 's, 'a) prog \<Rightarrow> ('w, 's, 'a) prog" where
  "map_err h m w = (case m w of (Inl e, w') \<Rightarrow> (Inl (h e), w') | (Inr a, w') \<Rightarrow> (Inr a, w'))"

abbreviation wrap_err :: "string \<Rightarrow> ('w, 's, 'a) prog \<Rightarrow> ('w, 's, 'a) prog" where
  "wrap_err p \<equiv> map_err (Wrapf p)"

definition new_uuid :: "golib \<Rightarrow> (('db, 'z) world_scheme, 's, uuid) prog" where
  "new_uuid L w = (Inr (uuid_New L (w_uuids w)), w\<lparr>w_uuids := w_uuids w + 1\<rparr>)"

text \<open>
  One statement: \<open>f\<close> gives its effect on the database and its result, or the error the server
  answers with (a violated constraint), which leaves the database alone.
\<close>

definition db_stmt :: "('db \<Rightarrow> 's err + 'a \<times> 'db) \<Rightarrow> ('db, 's, 'a) act" where
  "db_stmt f w =
     (case next_fault w of
        (Fine, w') \<Rightarrow> (case f (w_db w') of Inl e \<Rightarrow> (Inl e, w') | Inr (a, d) \<Rightarrow> (Inr a, w'\<lparr>w_db := d\<rparr>))
      | (Failed, w') \<Rightarrow> (Inl (Foreign ''pgx''), w')
      | (ReplyLost, w') \<Rightarrow>
          (Inl (Foreign ''pgx''), (case f (w_db w') of Inl e \<Rightarrow> w' | Inr (a, d) \<Rightarrow> w'\<lparr>w_db := d\<rparr>)))"

text \<open>
  A transaction. \<open>bw\<close> says how the caller wraps the error of Begin, \<open>cw\<close> how it wraps the error of
  Commit, given the result it was about to return.
\<close>

definition pgx_tx ::
  "('s err \<Rightarrow> 's err) \<Rightarrow> ('a \<Rightarrow> 's err \<Rightarrow> 's err) \<Rightarrow> ('db, 's, 'a) act \<Rightarrow> ('db, 's, 'a) act"
where
  "pgx_tx bw cw body w =
     (case next_fault w of
        (Fine, w1) \<Rightarrow>
          (case body w1 of
             (Inl e, w2) \<Rightarrow> (Inl e, w2\<lparr>w_db := w_db w1\<rparr>)
           | (Inr a, w2) \<Rightarrow>
               (case next_fault w2 of
                  (Fine, w3) \<Rightarrow> (Inr a, w3)
                | (Failed, w3) \<Rightarrow> (Inl (cw a (Foreign ''pgx'')), w3\<lparr>w_db := w_db w1\<rparr>)
                | (ReplyLost, w3) \<Rightarrow> (Inl (cw a (Foreign ''pgx'')), w3)))
      | (_, w1) \<Rightarrow> (Inl (bw (Foreign ''pgx'')), w1))"

abbreviation db_tx :: "('a \<Rightarrow> 's err \<Rightarrow> 's err) \<Rightarrow> ('db, 's, 'a) act \<Rightarrow> ('db, 's, 'a) act" where
  "db_tx \<equiv> pgx_tx (Wrapf ''begin tx'')"

text \<open>A statement that only asks the server whether it is still there (rows.Err).\<close>

definition db_ping :: "('db, 's, unit) act" where
  "db_ping = db_stmt (\<lambda>d. Inr ((), d))"

text \<open>A call of a broker that hands it \<open>ms\<close>.\<close>

definition broker_call :: "message list \<Rightarrow> (('db, 'z) world_scheme, 's, unit) prog" where
  "broker_call ms w =
     (case next_fault w of
        (Fine, w') \<Rightarrow> (Inr (), w'\<lparr>w_sent := w_sent w' @ ms\<rparr>)
      | (Failed, w') \<Rightarrow> (Inl (Foreign ''kafka''), w')
      | (ReplyLost, w') \<Rightarrow> (Inl (Foreign ''kafka''), w'\<lparr>w_sent := w_sent w' @ ms\<rparr>))"

text \<open>
  kafka.Writer.WriteMessages: every message is handed over, whatever became of those before it, and
  the answer is an error if one of them failed. So a broker may have accepted any part of a batch
  that is reported as failed.
\<close>

fun WriteMessages :: "message list \<Rightarrow> (('db, 'z) world_scheme, 's, unit) prog" where
  "WriteMessages [] = ok ()"
| WriteMessages_Cons: "WriteMessages (m # ms) =
     (\<lambda>w. case broker_call [m] w of (r, w1) \<Rightarrow>
        (case WriteMessages ms w1 of (rs, w2) \<Rightarrow> (case r of Inl e \<Rightarrow> Inl e | Inr _ \<Rightarrow> rs, w2)))"

declare WriteMessages_Cons [simp del]

fun for_each :: "('x \<Rightarrow> ('w, 's, unit) prog) \<Rightarrow> 'x list \<Rightarrow> ('w, 's, unit) prog" where
  "for_each f [] = ok ()"
| "for_each f (x # xs) = and_then (f x) (\<lambda>_. for_each f xs)"

declare ok_def [act_simps] fail_def [act_simps] and_then_def [act_simps] of_result_def [act_simps]
  map_err_def [act_simps] db_ping_def [act_simps] broker_call_def [act_simps] new_uuid_def [act_simps] db_stmt_def [act_simps] pgx_tx_def [act_simps]

lemma next_fault_db: "next_fault w = (f, w') \<Longrightarrow> w_db w' = w_db w"
  by (auto simp: next_fault_def split: list.splits)

lemma next_fault_uuids: "next_fault w = (f, w') \<Longrightarrow> w_uuids w' = w_uuids w"
  by (auto simp: next_fault_def split: list.splits)

lemma next_fault_sent: "next_fault w = (f, w') \<Longrightarrow> w_sent w' = w_sent w"
  by (auto simp: next_fault_def split: list.splits)

lemma next_fault_calm [simp]: "w_faults w = [] \<Longrightarrow> next_fault w = (Fine, w)"
  by (simp add: next_fault_def)

text \<open>One message, and batches that went through.\<close>

lemma WriteMessages_one [simp]: "WriteMessages [m] = broker_call [m]"
  by (intro ext) (auto simp: WriteMessages_Cons ok_def split: prod.split sum.split)

lemma broker_call_Inr:
  "broker_call ms w = (Inr (), w') \<Longrightarrow> w_sent w' = w_sent w @ ms \<and> w_db w' = w_db w \<and> w_uuids w' = w_uuids w"
  by (auto simp: broker_call_def next_fault_sent next_fault_db next_fault_uuids split: fault.splits prod.splits)

lemma WriteMessages_ConsE:
  assumes "WriteMessages (m # ms) w = (r, w' :: ('db, 'z) world_scheme)"
  obtains r1 r2 :: "'s err + unit" and w1 where "broker_call [m] w = (r1, w1)" "WriteMessages ms w1 = (r2, w')"
    "r = (case r1 of Inl e \<Rightarrow> Inl e | Inr _ \<Rightarrow> r2)"
proof -
  obtain r1 :: "'s err + unit" and w1 where 1: "broker_call [m] w = (r1, w1)" by fastforce
  obtain r2 :: "'s err + unit" and w2 where 2: "WriteMessages ms w1 = (r2, w2)" by fastforce
  from 1 2 assms show thesis by (intro that [of r1 w1 r2]) (simp_all add: WriteMessages_Cons)
qed

lemma WriteMessages_Inr:
  "WriteMessages ms w = (Inr () :: 's err + unit, w') \<Longrightarrow>
    w_sent w' = w_sent w @ ms \<and> w_db w' = w_db w \<and> w_uuids w' = w_uuids w"
proof (induction ms arbitrary: w)
  case (Cons m ms)
  from Cons.prems obtain r1 r2 :: "'s err + unit" and w1 where 1: "broker_call [m] w = (r1, w1)"
    and 2: "WriteMessages ms w1 = (r2, w')" and r: "Inr () = (case r1 of Inl e \<Rightarrow> Inl e | Inr _ \<Rightarrow> r2)"
    by (rule WriteMessages_ConsE)
  from r have "r1 = Inr ()" "r2 = Inr ()" by (auto split: sum.splits)
  with 1 2 broker_call_Inr [of "[m]" w w1] Cons.IH [of w1] show ?case by simp
qed (simp add: ok_def)

lemma WriteMessages_calm: "w_faults w = [] \<Longrightarrow> WriteMessages ms w = (Inr (), w\<lparr>w_sent := w_sent w @ ms\<rparr>)"
  by (induction ms arbitrary: w) (simp_all add: WriteMessages_Cons broker_call_def ok_def)

text \<open>
  A transaction is all or nothing: it succeeds with the database its body leaves, or it fails
  and the database is as before, unless the body ran to its end and only the answer to Commit
  was lost.
\<close>

lemma db_tx_atomic:
  assumes "pgx_tx bw cw body w = (r, w')"
  obtains (committed) a w1 w2 where "r = Inr a" "body w1 = (Inr a, w2)" "w_db w1 = w_db w"
      "w_uuids w1 = w_uuids w" "w_db w' = w_db w2" "w_sent w1 = w_sent w" "w_sent w' = w_sent w2"
  | (rolled_back) e where "r = Inl e" "w_db w' = w_db w"
  | (reply_lost) a w1 w2 where "r = Inl (cw a (Foreign ''pgx''))"
      "body w1 = (Inr a, w2)" "w_db w1 = w_db w" "w_uuids w1 = w_uuids w" "w_db w' = w_db w2"
      "w_sent w1 = w_sent w" "w_sent w' = w_sent w2"
proof (cases "next_fault w")
  case (Pair f w1)
  have same: "w_db w1 = w_db w" "w_uuids w1 = w_uuids w" "w_sent w1 = w_sent w"
    using Pair by (simp_all add: next_fault_uuids next_fault_db next_fault_sent)
  show ?thesis
  proof (cases f)
    case Fine
    obtain r2 w2 where b: "body w1 = (r2, w2)" by fastforce
    show ?thesis
    proof (cases r2)
      case (Inl e)
      with b Fine Pair assms same show ?thesis by (intro rolled_back) (auto simp: pgx_tx_def)
    next
      case (Inr a)
      obtain f2 w3 where n: "next_fault w2 = (f2, w3)" by fastforce
      show ?thesis
      proof (cases f2)
        case Fine' : Fine
        show ?thesis
          by (rule committed [of a w1 w2])
             (use assms Pair Fine b Inr n Fine' same in \<open>auto simp: pgx_tx_def next_fault_db next_fault_sent\<close>)
      next
        case Failed
        show ?thesis
          by (rule rolled_back)
             (use assms Pair Fine b Inr n Failed same in \<open>auto simp: pgx_tx_def\<close>)
      next
        case ReplyLost
        show ?thesis
          by (rule reply_lost [of a w1 w2])
             (use assms Pair Fine b Inr n ReplyLost same in \<open>auto simp: pgx_tx_def next_fault_db next_fault_sent\<close>)
      qed
    qed
  next
    case Failed
    with Pair assms same show ?thesis by (intro rolled_back) (auto simp: pgx_tx_def)
  next
    case ReplyLost
    with Pair assms same show ?thesis by (intro rolled_back) (auto simp: pgx_tx_def)
  qed
qed

text \<open>A statement that answers with a result was carried out.\<close>

lemma db_stmt_Inr:
  "db_stmt f w = (Inr a, w') \<Longrightarrow> f (w_db w) = Inr (a, w_db w') \<and> w_uuids w' = w_uuids w"
  by (auto simp: db_stmt_def next_fault_def split: fault.splits sum.splits list.splits prod.splits)

lemma db_stmt_calm: "w_faults w = [] \<Longrightarrow>
   db_stmt f w = (case f (w_db w) of Inl e \<Rightarrow> (Inl e, w) | Inr (a, d) \<Rightarrow> (Inr a, w\<lparr>w_db := d\<rparr>))"
  by (simp add: db_stmt_def split: sum.splits)

text \<open>An invariant of the database that every statement of a program keeps is kept by it.\<close>

definition preserves :: "('db \<Rightarrow> bool) \<Rightarrow> ('db, 's, 'a) act \<Rightarrow> bool" where
  "preserves P m = (\<forall>w. P (w_db w) \<longrightarrow> P (w_db (snd (m w))))"

named_theorems preserving \<open>programs that keep an invariant of the database\<close>

lemma preservesD: "preserves P m \<Longrightarrow> P (w_db w) \<Longrightarrow> m w = (r, w') \<Longrightarrow> P (w_db w')"
  unfolding preserves_def by (metis snd_conv)

lemma preserves_pure [preserving]:
  "preserves P (ok a)" "preserves P (fail e)" "preserves P (of_result r)" "preserves P (new_uuid L)"
  by (simp_all add: preserves_def act_simps)

lemma preserves_and_then [preserving]:
  "preserves P m \<Longrightarrow> (\<And>a. preserves P (f a)) \<Longrightarrow> preserves P (and_then m f)"
  by (fastforce simp: preserves_def and_then_def split: prod.splits sum.splits)

lemma preserves_map_err [preserving]: "preserves P m \<Longrightarrow> preserves P (map_err h m)"
  by (fastforce simp: preserves_def map_err_def split: prod.splits sum.splits)

lemma preserves_db_stmt [preserving]:
  "(\<And>d a d'. P d \<Longrightarrow> f d = Inr (a, d') \<Longrightarrow> P d') \<Longrightarrow> preserves P (db_stmt f)"
  by (auto simp: preserves_def db_stmt_def next_fault_def split: list.splits fault.splits sum.splits prod.splits)

lemma preserves_db_ping [preserving]: "preserves P db_ping"
  unfolding db_ping_def by (rule preserves_db_stmt) simp

lemma preserves_broker_call [preserving]: "preserves P (broker_call ms)"
  by (auto simp: preserves_def broker_call_def next_fault_def
      split: list.splits fault.splits prod.splits)

lemma preserves_WriteMessages [preserving]: "preserves P (WriteMessages ms :: (_, 's, unit) act)"
proof (induction ms)
  case (Cons m ms)
  show ?case unfolding preserves_def
  proof (intro allI impI)
    fix w :: "'a world" assume P: "P (w_db w)"
    obtain r w' where run: "(WriteMessages (m # ms) :: ('a, 's, unit) act) w = (r, w')" by fastforce
    then obtain r1 r2 :: "'s err + unit" and w1 where 1: "broker_call [m] w = (r1, w1)"
      and 2: "WriteMessages ms w1 = (r2, w')" by (rule WriteMessages_ConsE)
    have "P (w_db w1)" by (rule preservesD [OF preserves_broker_call _ 1]) (rule P)
    from preservesD [OF Cons.IH this 2]
    show "P (w_db (snd ((WriteMessages (m # ms) :: ('a, 's, unit) act) w)))" by (simp add: run)
  qed
qed (simp add: preserves_def ok_def)

lemma preserves_db_tx [preserving]: "preserves P m \<Longrightarrow> preserves P (pgx_tx bw cw m)"
  unfolding preserves_def
proof (intro allI impI)
  fix w :: "'a world" assume m: "\<forall>w. P (w_db w) \<longrightarrow> P (w_db (snd (m w)))" and p: "P (w_db w)"
  obtain r w' where t: "pgx_tx bw cw m w = (r, w')" by fastforce
  show "P (w_db (snd (pgx_tx bw cw m w)))"
    using t by (cases rule: db_tx_atomic) (use m p t in \<open>metis snd_conv\<close>)+
qed

lemma preserves_for_each [preserving]:
  "(\<And>x. x \<in> set xs \<Longrightarrow> preserves P (f x)) \<Longrightarrow> preserves P (for_each f xs)"
  by (induction xs) (auto intro!: preserving)

text \<open>Nothing that was sent is unsent.\<close>

definition sent_grows :: "(('db, 'z) world_scheme, 's, 'a) prog \<Rightarrow> bool" where
  "sent_grows m = (\<forall>w. prefix (w_sent w) (w_sent (snd (m w))))"

named_theorems sending \<open>programs that only add to the log of sent messages\<close>

lemma sent_grows_pure [sending]:
  "sent_grows (ok a)" "sent_grows (fail e)" "sent_grows (of_result r)" "sent_grows (new_uuid L)"
  by (simp_all add: sent_grows_def act_simps)

lemma sent_grows_and_then [sending]:
  "sent_grows m \<Longrightarrow> (\<And>a. sent_grows (f a)) \<Longrightarrow> sent_grows (and_then m f)"
  unfolding sent_grows_def and_then_def
  by (auto split: prod.splits sum.splits) (metis prefix_order.trans snd_conv)+

lemma sent_grows_map_err [sending]: "sent_grows m \<Longrightarrow> sent_grows (map_err h m)"
  unfolding sent_grows_def map_err_def by (auto split: prod.splits sum.splits) (metis snd_conv)+

lemma sent_grows_db_stmt [sending]: "sent_grows (db_stmt f)"
  by (auto simp: sent_grows_def db_stmt_def next_fault_sent split: fault.splits sum.splits prod.splits)

lemma sent_grows_db_ping [sending]: "sent_grows db_ping"
  unfolding db_ping_def by (rule sent_grows_db_stmt)

lemma sent_grows_broker_call [sending]: "sent_grows (broker_call ms)"
  by (auto simp: sent_grows_def broker_call_def next_fault_sent split: fault.splits prod.splits)

lemma sent_grows_WriteMessages [sending]:
  "sent_grows (WriteMessages ms :: (('db, 'z) world_scheme, 's, unit) prog)"
proof (induction ms)
  case (Cons m ms)
  show ?case unfolding sent_grows_def
  proof
    fix w :: "('db, 'z) world_scheme"
    let ?W = "\<lambda>ms. WriteMessages ms :: (('db, 'z) world_scheme, 's, unit) prog"
    obtain r w' where run: "?W (m # ms) w = (r, w')" by fastforce
    then obtain r1 r2 :: "'s err + unit" and w1 where 1: "broker_call [m] w = (r1, w1)" and 2: "?W ms w1 = (r2, w')"
      by (rule WriteMessages_ConsE)
    have "prefix (w_sent w) (w_sent w1)" using sent_grows_broker_call [of "[m]"] 1 unfolding sent_grows_def by (metis snd_conv)
    moreover have "prefix (w_sent w1) (w_sent w')" using Cons.IH 2 unfolding sent_grows_def by (metis snd_conv)
    ultimately show "prefix (w_sent w) (w_sent (snd (?W (m # ms) w)))" by (simp add: run)
  qed
qed (simp add: sent_grows_def ok_def)

lemma sent_grows_for_each [sending]: "(\<And>x. sent_grows (f x)) \<Longrightarrow> sent_grows (for_each f xs)"
  by (induction xs) (auto intro!: sending)

lemma sent_grows_db_tx [sending]:
  assumes "sent_grows m" shows "sent_grows (pgx_tx bw cw m)"
  unfolding sent_grows_def
proof
  fix w :: "'a world"
  obtain f w1 where f: "next_fault w = (f, w1)" by fastforce
  obtain r w2 where m: "m w1 = (r, w2)" by fastforce
  obtain f2 w3 where f2: "next_fault w2 = (f2, w3)" by fastforce
  have "prefix (w_sent w) (w_sent w3)" "prefix (w_sent w) (w_sent w2)" "w_sent w1 = w_sent w"
    using assms m next_fault_sent [OF f] next_fault_sent [OF f2]
    unfolding sent_grows_def by (metis snd_conv)+
  then show "prefix (w_sent w) (w_sent (snd (pgx_tx bw cw m w)))"
    by (simp add: pgx_tx_def f m f2 split: fault.split sum.split)
qed

section \<open>Successful runs\<close>

text \<open>A program that returned a result went through each of its steps successfully.\<close>

named_theorems run_Inr \<open>what a successful run of a combinator says of its parts\<close>

lemma and_then_Inr [run_Inr]:
  "and_then m f w = (Inr b, w') \<longleftrightarrow> (\<exists>a w1. m w = (Inr a, w1) \<and> f a w1 = (Inr b, w'))"
  by (auto simp: and_then_def split: prod.splits sum.splits)

lemma map_err_Inr [run_Inr]: "map_err h m w = (Inr a, w') \<longleftrightarrow> m w = (Inr a, w')"
  by (auto simp: map_err_def split: prod.splits sum.splits)

lemma simple_Inr [run_Inr]:
  "ok a w = (Inr b, w') \<longleftrightarrow> b = a \<and> w' = w"
  "fail e w = (Inr b, w') \<longleftrightarrow> False"
  "of_result r w = (Inr b, w') \<longleftrightarrow> r = Inr b \<and> w' = w"
  by (auto simp: ok_def fail_def of_result_def)

lemma new_uuid_Inr [run_Inr]:
  "new_uuid L w = (Inr u, w') \<longleftrightarrow> u = uuid_New L (w_uuids w) \<and> w' = w\<lparr>w_uuids := w_uuids w + 1\<rparr>"
  by (auto simp: new_uuid_def)

lemma for_each_Cons_Inr [run_Inr]:
  "for_each f (x # xs) w = (Inr (), w') \<longleftrightarrow> (\<exists>w1. f x w = (Inr (), w1) \<and> for_each f xs w1 = (Inr (), w'))"
  by (simp add: and_then_Inr)

lemma for_each_Nil [run_Inr]: "for_each f [] w = (r, w') \<longleftrightarrow> r = Inr () \<and> w' = w"
  by (auto simp: ok_def)

text \<open>In a run without faults the combinators are transparent.\<close>

lemma calm_simps [simp]:
  "w_faults (w\<lparr>w_db := d\<rparr>) = w_faults w" "w_faults (w\<lparr>w_uuids := n\<rparr>) = w_faults w"
  by simp_all

end
