(* ===== verification/Order_Ports.thy ===== *)
theory Order_Ports
  imports Order_Codec Effects "HOL-Library.AList"
begin

text \<open>
  The types the order service's components exchange: services/order/internal/app/ports.go
  (outbox messages and records, the read model), services/order/internal/app/saga/instance.go
  and ports.go (the durable saga record, the requests to inventory and payment), and the
  trace context that infra/tracing carries into message headers.
\<close>

section \<open>Outbox and read model\<close>

record OutboxMessage =
  om_AggregateID :: string
  om_EventID :: string
  om_Topic :: string
  om_EventType :: string
  om_Payload :: body
  om_Headers :: headers

record OutboxRecord =
  or_ID :: int64
  or_EventID :: string
  or_AggregateID :: string
  or_Topic :: string
  or_EventType :: string
  or_Payload :: body
  or_Headers :: headers

record OrderProjection =
  pj_OrderID :: string
  pj_CustomerID :: string
  pj_Status :: string
  pj_TotalMinor :: int64
  pj_Currency :: string
  pj_Version :: int64
  pj_PlacedAt :: time

section \<open>Saga types\<close>

text \<open>\<open>StateOther\<close> is any other text in the column, which no statement of the service writes.\<close>

datatype SagaState =
    StateStarted | StateReserved | StatePaid | StateCompleted | StateCancelled | StateOther string

fun SagaState_string :: "SagaState \<Rightarrow> string" where
  "SagaState_string StateStarted = ''STARTED''"
| "SagaState_string StateReserved = ''RESERVED''"
| "SagaState_string StatePaid = ''PAID''"
| "SagaState_string StateCompleted = ''COMPLETED''"
| "SagaState_string StateCancelled = ''CANCELLED''"
| "SagaState_string (StateOther s) = s"

definition SagaState_of :: "string \<Rightarrow> SagaState" where
  "SagaState_of s =
     (if s = ''STARTED'' then StateStarted
      else if s = ''RESERVED'' then StateReserved
      else if s = ''PAID'' then StatePaid
      else if s = ''COMPLETED'' then StateCompleted
      else if s = ''CANCELLED'' then StateCancelled
      else StateOther s)"

record Instance =
  in_OrderID :: string
  in_State :: SagaState
  in_ReservationHeld :: bool
  in_PaymentRef :: string
  in_Reason :: string

definition NewInstance :: "string \<Rightarrow> Instance" where
  "NewInstance orderID =
     \<lparr>in_OrderID = orderID, in_State = StateStarted, in_ReservationHeld = False,
      in_PaymentRef = [], in_Reason = []\<rparr>"

definition Terminal :: "Instance \<Rightarrow> bool" where
  "Terminal i = (in_State i = StateCompleted \<or> in_State i = StateCancelled)"

record ReserveLine =
  rl_SKU :: string
  rl_Quantity :: int32

record PaymentRequest =
  pr_OrderID :: string
  pr_AmountMinor :: int64
  pr_Currency :: string

record PaymentResult =
  py_Reference :: string
  py_Approved :: bool
  py_Decline :: string

text \<open>The empty-tag states round-trip through the text column.\<close>

lemma SagaState_of_string:
  "(\<And>s. st \<noteq> StateOther s) \<Longrightarrow> SagaState_of (SagaState_string st) = st"
  by (cases st) (simp_all add: SagaState_of_def)

section \<open>Trace context\<close>

text \<open>
  What the global propagator of OpenTelemetry adds to a carrier for the context of a call, and
  the trace id of the context's span (empty where it has none).
\<close>

record ctx =
  ctx_propagated :: headers
  ctx_traceID :: string

definition InjectToMap :: "ctx \<Rightarrow> headers \<Rightarrow> headers" where
  "InjectToMap C carrier = fold (\<lambda>(k, v). AList.update k v) (ctx_propagated C) carrier"

text \<open>kafkaHeaderCarrier of infra/tracing/kafka.go: the first header of a name wins.\<close>

fun carrier_Get :: "headers \<Rightarrow> string \<Rightarrow> string" where
  "carrier_Get [] key = []"
| "carrier_Get ((k, v) # hs) key = (if k = key then v else carrier_Get hs key)"

definition carrier_Keys :: "headers \<Rightarrow> string list" where
  "carrier_Keys hs = map fst hs"

end
