(* ===== verification/Order_Store.thy ===== *)
theory Order_Store
  imports Order_Ports
begin

text \<open>
  services/order/internal/infra/postgres: the tables of migrations 0001-0003 and the
  repositories over them. Every SQL statement is one \<open>db_stmt\<close>; its function is the statement's
  effect, with the constraints of the tables (primary keys, unique (order_id, version), unique
  outbox event ids), the conversion of texts to UUID columns, and the texts JSONB and TEXT
  columns reject. Rows keep the order of their insertion; columns the code never reads
  (recorded_at, created_at, updated_at) are left out, and the sequence of the outbox ids counts the rows.
\<close>

section \<open>Tables\<close>

record EventRow =
  er_EventID :: string
  er_OrderID :: string
  er_Version :: int64
  er_Type :: string
  er_Payload :: json
  er_OccurredAt :: time
  er_TraceID :: string

record OutboxRow =
  ob_ID :: int64
  ob_EventID :: string
  ob_AggregateID :: string
  ob_Topic :: string
  ob_Type :: string
  ob_Payload :: json
  ob_Headers :: json
  ob_TraceID :: string
  ob_Published :: bool

record order_db =
  t_events :: "EventRow list"
  t_outbox :: "OutboxRow list"
  t_idem :: "(string \<times> string) list"
  t_projections :: "(string \<times> OrderProjection) list"
  t_sagas :: "(string \<times> Instance) list"

definition empty_order_db :: order_db where
  "empty_order_db = \<lparr>t_events = [], t_outbox = [], t_idem = [], t_projections = [], t_sagas = []\<rparr>"

type_synonym 'a order_act = "(order_db, order_sentinel, 'a) act"

text \<open>TIMESTAMPTZ keeps microseconds.\<close>

definition pg_timestamp :: "time \<Rightarrow> time" where
  "pg_timestamp t = t - t mod 1000"

definition uniqueViolation :: string where
  "uniqueViolation = ''23505''"

text \<open>A parameter for a UUID column; the server rejects other texts.\<close>

definition with_uuid :: "golib \<Rightarrow> string \<Rightarrow> (string \<Rightarrow> 's err + 'a) \<Rightarrow> 's err + 'a" where
  "with_uuid L s f = (case pg_uuid L s of None \<Rightarrow> Inl (Foreign ''22P02'') | Some u \<Rightarrow> f u)"

definition pg_reject :: "bool \<Rightarrow> 's err + 'a \<Rightarrow> 's err + 'a" where
  "pg_reject good r = (if good then r else Inl (Foreign ''22P05''))"

section \<open>order_repository.go\<close>

definition select_events :: "golib \<Rightarrow> string \<Rightarrow> order_db \<Rightarrow> oerr + EventRow list \<times> order_db" where
  "select_events L i d =
     with_uuid L i (\<lambda>u. Inr (sort_key (\<lambda>r. sint (er_Version r))
                              (filter (\<lambda>r. er_OrderID r = u) (t_events d)), d))"

fun decode_rows :: "golib \<Rightarrow> EventRow list \<Rightarrow> oerr + DomainEvent list" where
  "decode_rows L [] = Inr []"
| "decode_rows L (r # rs) =
     (case decodeEvent L (er_Type r) (Some (er_Payload r)) of
        Inl err \<Rightarrow> Inl err
      | Inr ev \<Rightarrow> map_sum id (Cons ev) (decode_rows L rs))"

definition Order_Load :: "golib \<Rightarrow> OrderID \<Rightarrow> Order order_act" where
  "Order_Load L i =
     and_then (wrap_err ''query events'' (db_stmt (select_events L (OrderID_String L i)))) (\<lambda>rows.
     and_then (of_result (decode_rows L rows)) (\<lambda>history.
     and_then (wrap_err ''iterate events'' db_ping) (\<lambda>_.
       if history = [] then fail (Sentinel ErrNotFound) else of_result (Rehydrate history))))"

definition insert_event ::
  "golib \<Rightarrow> string \<Rightarrow> string \<Rightarrow> int64 \<Rightarrow> string \<Rightarrow> body \<Rightarrow> time \<Rightarrow> string \<Rightarrow> order_db \<Rightarrow> oerr + unit \<times> order_db"
where
  "insert_event L eventID aggID version eventType payload occurredAt traceID d =
     with_uuid L eventID (\<lambda>e. with_uuid L aggID (\<lambda>u.
       case payload of
         None \<Rightarrow> Inl (Foreign ''22P02'')
       | Some j \<Rightarrow>
           pg_reject (pg_text eventType \<and> pg_json j \<and> pg_text traceID)
             (if list_ex (\<lambda>r. er_EventID r = e \<or> (er_OrderID r = u \<and> er_Version r = version)) (t_events d)
              then Inl (Foreign uniqueViolation)
              else Inr ((), d\<lparr>t_events := t_events d @
                [\<lparr>er_EventID = e, er_OrderID = u, er_Version = version, er_Type = eventType,
                  er_Payload = j, er_OccurredAt = pg_timestamp occurredAt, er_TraceID = traceID\<rparr>]\<rparr>))))"

text \<open>errors.As with PgError and its code: a unique violation becomes ErrConcurrency.\<close>

definition save_error :: "oerr \<Rightarrow> oerr" where
  "save_error e = (if e = Foreign uniqueViolation then Sentinel ErrConcurrency else Wrapf ''insert event'' e)"

definition Save_event :: "golib \<Rightarrow> ctx \<Rightarrow> int64 \<Rightarrow> nat \<times> DomainEvent \<Rightarrow> unit order_act" where
  "Save_event L C expectedVersion = (\<lambda>(i, ev).
     and_then (of_result (encodeEvent L ev)) (\<lambda>(eventType, payload).
       let version = expectedVersion + of_nat i + 1 in
       and_then (new_uuid L) (\<lambda>u.
         map_err save_error
           (db_stmt (insert_event L (uuid_String L u) (OrderID_String L (AggregateID ev)) version
                       eventType payload (OccurredAt ev) (ctx_traceID C))))))"

definition enc_headers :: "headers \<Rightarrow> json" where
  "enc_headers hs = JObj (map (\<lambda>(k, v). (k, JStr v)) hs)"

definition insert_outbox ::
  "golib \<Rightarrow> string \<Rightarrow> OutboxMessage \<Rightarrow> string \<Rightarrow> order_db \<Rightarrow> oerr + unit \<times> order_db"
where
  "insert_outbox L eventID msg traceID d =
     with_uuid L eventID (\<lambda>e. with_uuid L (om_AggregateID msg) (\<lambda>a.
       case om_Payload msg of
         None \<Rightarrow> Inl (Foreign ''22P02'')
       | Some j \<Rightarrow>
           pg_reject (pg_text (om_Topic msg) \<and> pg_text (om_EventType msg) \<and> pg_json j
                      \<and> pg_json (enc_headers (om_Headers msg)) \<and> pg_text traceID)
             (if list_ex (\<lambda>r. ob_EventID r = e) (t_outbox d)
              then Inl (Foreign uniqueViolation)
              else Inr ((), d\<lparr>t_outbox := t_outbox d @
                [\<lparr>ob_ID = of_nat (length (t_outbox d)) + 1, ob_EventID = e, ob_AggregateID = a,
                  ob_Topic = om_Topic msg, ob_Type = om_EventType msg, ob_Payload = j,
                  ob_Headers = enc_headers (om_Headers msg), ob_TraceID = traceID,
                  ob_Published = False\<rparr>]\<rparr>))))"

definition Save_message :: "golib \<Rightarrow> ctx \<Rightarrow> OutboxMessage \<Rightarrow> unit order_act" where
  "Save_message L C msg =
     and_then (if om_EventID msg = [] then and_then (new_uuid L) (\<lambda>u. ok (uuid_String L u))
               else ok (om_EventID msg)) (\<lambda>eventID.
       wrap_err ''insert outbox'' (db_stmt (insert_outbox L eventID msg (ctx_traceID C))))"

definition Order_Save :: "golib \<Rightarrow> ctx \<Rightarrow> Order \<Rightarrow> int64 \<Rightarrow> OutboxMessage list \<Rightarrow> unit order_act" where
  "Order_Save L C agg expectedVersion outbox =
     (let changes = o_changes agg in
      if changes = [] then ok ()
      else db_tx (\<lambda>_. Wrapf ''commit tx'')
        (and_then (for_each (Save_event L C expectedVersion) (enumerate 0 changes)) (\<lambda>_.
           for_each (Save_message L C) outbox)))"

section \<open>idempotency.go\<close>

definition insert_key :: "golib \<Rightarrow> string \<Rightarrow> string \<Rightarrow> order_db \<Rightarrow> oerr + nat \<times> order_db" where
  "insert_key L key orderID d =
     with_uuid L orderID (\<lambda>u. pg_reject (pg_text key)
       (case map_of (t_idem d) key of
          Some _ \<Rightarrow> Inr (0, d)
        | None \<Rightarrow> Inr (1, d\<lparr>t_idem := t_idem d @ [(key, u)]\<rparr>)))"

definition Idempotency_Reserve :: "golib \<Rightarrow> string \<Rightarrow> string \<Rightarrow> (string \<times> bool) order_act" where
  "Idempotency_Reserve L key orderID =
     and_then (wrap_err ''insert idempotency key'' (db_stmt (insert_key L key orderID))) (\<lambda>affected.
       if affected = 1 then ok ([], False)
       else
         and_then (wrap_err ''read existing idempotency key''
                     (db_stmt (\<lambda>d. Inr (map_of (t_idem d) key, d)))) (\<lambda>existing.
           case existing of
             None \<Rightarrow> fail (Foreign ''idempotency key vanished after conflict'')
           | Some e \<Rightarrow> ok (e, True)))"

section \<open>relay_store.go\<close>

text \<open>
  \<open>locked\<close> are the ids of the rows that transactions of other relays hold: FOR UPDATE SKIP LOCKED
  passes over them.
\<close>

definition select_outbox :: "int64 list \<Rightarrow> int \<Rightarrow> order_db \<Rightarrow> oerr + OutboxRow list \<times> order_db" where
  "select_outbox locked batchSize d =
     (if batchSize < 0 then Inl (Foreign ''2201W'')
      else Inr (take (nat batchSize) (sort_key (\<lambda>r. sint (ob_ID r))
             (filter (\<lambda>r. \<not> ob_Published r \<and> ob_ID r \<notin> set locked) (t_outbox d))), d))"

fun dec_header_fields :: "(string \<times> json) list \<Rightarrow> headers option" where
  "dec_header_fields [] = Some []"
| "dec_header_fields ((k, j) # kvs) =
     (case dec_string j [] of
        None \<Rightarrow> None
      | Some v \<Rightarrow> map_option (\<lambda>hs. if k \<in> fst ` set hs then hs else (k, v) # hs) (dec_header_fields kvs))"

fun dec_headers :: "json \<Rightarrow> headers option" where
  "dec_headers JNull = Some []"
| "dec_headers (JObj kvs) = dec_header_fields kvs"
| "dec_headers _ = None"

definition scan_row :: "OutboxRow \<Rightarrow> oerr + OutboxRecord" where
  "scan_row r =
     (case dec_headers (ob_Headers r) of
        None \<Rightarrow> Inl (Wrapf ''decode outbox headers'' (Foreign ''json.Unmarshal''))
      | Some hs \<Rightarrow>
          Inr \<lparr>or_ID = ob_ID r, or_EventID = ob_EventID r, or_AggregateID = ob_AggregateID r,
               or_Topic = ob_Topic r, or_EventType = ob_Type r, or_Payload = Some (ob_Payload r),
               or_Headers = hs\<rparr>)"

fun scan_rows :: "OutboxRow list \<Rightarrow> oerr + OutboxRecord list" where
  "scan_rows [] = Inr []"
| "scan_rows (r # rs) =
     (case scan_row r of Inl err \<Rightarrow> Inl err | Inr rec \<Rightarrow> map_sum id (Cons rec) (scan_rows rs))"

definition mark_published :: "int64 list \<Rightarrow> order_db \<Rightarrow> oerr + unit \<times> order_db" where
  "mark_published ids d =
     Inr ((), d\<lparr>t_outbox := map (\<lambda>r. if ob_ID r \<in> set ids then r\<lparr>ob_Published := True\<rparr> else r) (t_outbox d)\<rparr>)"

definition DrainBatch ::
  "int64 list \<Rightarrow> int \<Rightarrow> (OutboxRecord list \<Rightarrow> unit order_act) \<Rightarrow> nat order_act" where
  "DrainBatch locked batchSize publish =
     db_tx (\<lambda>n. if n = 0 then id else Wrapf ''commit tx'')
       (and_then (wrap_err ''select outbox'' (db_stmt (select_outbox locked batchSize))) (\<lambda>rows.
        and_then (of_result (scan_rows rows)) (\<lambda>records.
        and_then (wrap_err ''iterate outbox'' db_ping) (\<lambda>_.
          if records = [] then ok 0
          else
            and_then (publish records) (\<lambda>_.
            and_then (wrap_err ''mark published'' (db_stmt (mark_published (map or_ID records)))) (\<lambda>_.
              ok (length records)))))))"

section \<open>projection_repository.go\<close>

definition upsert_projection :: "golib \<Rightarrow> OrderProjection \<Rightarrow> order_db \<Rightarrow> oerr + unit \<times> order_db" where
  "upsert_projection L p d =
     with_uuid L (pj_OrderID p) (\<lambda>u. with_uuid L (pj_CustomerID p) (\<lambda>c.
       pg_reject (pg_text (pj_Status p) \<and> pg_text (pj_Currency p))
         (let row = p\<lparr>pj_OrderID := u, pj_CustomerID := c, pj_PlacedAt := pg_timestamp (pj_PlacedAt p)\<rparr> in
          case map_of (t_projections d) u of
            None \<Rightarrow> Inr ((), d\<lparr>t_projections := AList.update u row (t_projections d)\<rparr>)
          | Some old \<Rightarrow>
              Inr ((), if pj_Version old \<le>s pj_Version p
                       then d\<lparr>t_projections := AList.update u row (t_projections d)\<rparr> else d))))"

definition UpsertOrderPlaced :: "golib \<Rightarrow> OrderProjection \<Rightarrow> unit order_act" where
  "UpsertOrderPlaced L p = wrap_err ''upsert projection'' (db_stmt (upsert_projection L p))"

definition update_status :: "golib \<Rightarrow> string \<Rightarrow> string \<Rightarrow> order_db \<Rightarrow> oerr + unit \<times> order_db" where
  "update_status L orderID status d =
     with_uuid L orderID (\<lambda>u. pg_reject (pg_text status)
       (case map_of (t_projections d) u of
          None \<Rightarrow> Inr ((), d)
        | Some old \<Rightarrow>
            Inr ((), d\<lparr>t_projections := AList.update u (old\<lparr>pj_Status := status\<rparr>) (t_projections d)\<rparr>)))"

definition UpdateStatus :: "golib \<Rightarrow> string \<Rightarrow> string \<Rightarrow> unit order_act" where
  "UpdateStatus L orderID status =
     wrap_err ''update projection status'' (db_stmt (update_status L orderID status))"

definition Projection_GetOrder :: "golib \<Rightarrow> string \<Rightarrow> OrderProjection order_act" where
  "Projection_GetOrder L orderID =
     and_then (wrap_err ''query projection''
                 (db_stmt (\<lambda>d. with_uuid L orderID (\<lambda>u. Inr (map_of (t_projections d) u, d))))) (\<lambda>row.
       case row of None \<Rightarrow> fail (Sentinel ErrNotFound) | Some p \<Rightarrow> ok p)"

section \<open>saga_repository.go\<close>

text \<open>The state column holds the text of the state: reading it back goes through \<open>SagaState_of\<close>.\<close>

definition Saga_Load :: "golib \<Rightarrow> string \<Rightarrow> Instance option order_act" where
  "Saga_Load L orderID =
     wrap_err ''load saga''
       (db_stmt (\<lambda>d. with_uuid L orderID (\<lambda>u. Inr (map_of (t_sagas d) u, d))))"

definition upsert_saga :: "golib \<Rightarrow> Instance \<Rightarrow> order_db \<Rightarrow> oerr + unit \<times> order_db" where
  "upsert_saga L inst d =
     with_uuid L (in_OrderID inst) (\<lambda>u.
       pg_reject (pg_text (SagaState_string (in_State inst)) \<and> pg_text (in_PaymentRef inst)
                  \<and> pg_text (in_Reason inst))
         (Inr ((), d\<lparr>t_sagas := AList.update u
            (inst\<lparr>in_OrderID := u, in_State := SagaState_of (SagaState_string (in_State inst))\<rparr>)
            (t_sagas d)\<rparr>)))"

definition Saga_Save :: "golib \<Rightarrow> Instance \<Rightarrow> unit order_act" where
  "Saga_Save L inst = wrap_err ''save saga'' (db_stmt (upsert_saga L inst))"

end
