(* ===== verification/Order_Commands.thy ===== *)
theory Order_Commands
  imports Order_Store
begin

text \<open>
  services/order/internal/app: the use cases. \<open>PlaceOrder_Handle\<close>, \<open>Confirm_Handle\<close> and
  \<open>Cancel_Handle\<close> are the command handlers (command/place_order.go, command/confirm_cancel.go),
  \<open>GetOrder_Handle\<close> is the query handler (query/get_order.go). Clock readings are arguments;
  identifiers come from the world's counter.
\<close>

section \<open>place\_order.go\<close>

record PlaceOrderLine =
  pl_SKU :: string
  pl_Quantity :: int32
  pl_UnitPriceMinor :: int64
  pl_Currency :: string

record ShipTo =
  sh_Line1 :: string
  sh_Line2 :: string
  sh_City :: string
  sh_Region :: string
  sh_PostalCode :: string
  sh_Country :: string

record PlaceOrderCommand =
  pc_CustomerID :: string
  pc_IdempotencyKey :: string
  pc_Lines :: "PlaceOrderLine list"
  pc_Ship :: ShipTo

record PlaceOrderResult =
  rs_OrderID :: string
  rs_Status :: string
  rs_Idempotent :: bool

definition build_line :: "golib \<Rightarrow> PlaceOrderLine \<Rightarrow> oerr + LineItem" where
  "build_line L l =
     (case NewSKU (pl_SKU l) of
        Inl err \<Rightarrow> Inl err
      | Inr sku \<Rightarrow>
     (case NewQuantity (pl_Quantity l) of
        Inl err \<Rightarrow> Inl err
      | Inr qty \<Rightarrow>
     (case NewMoney L (pl_Currency l) (pl_UnitPriceMinor l) of
        Inl err \<Rightarrow> Inl err
      | Inr price \<Rightarrow> Inr \<lparr>li_SKU = sku, li_Quantity = qty, li_UnitPrice = price\<rparr>)))"

fun build_lines :: "golib \<Rightarrow> PlaceOrderLine list \<Rightarrow> oerr + LineItem list" where
  "build_lines L [] = Inr []"
| "build_lines L (l # ls) =
     (case build_line L l of
        Inl err \<Rightarrow> Inl err
      | Inr it \<Rightarrow> map_sum id (Cons it) (build_lines L ls))"

definition buildLineItems :: "golib \<Rightarrow> PlaceOrderLine list \<Rightarrow> oerr + LineItem list" where
  "buildLineItems L lines =
     (if lines = [] then Inl (Detailf ErrValidation ''at least one line is required'')
      else build_lines L lines)"

definition json_content :: headers where
  "json_content = [(HeaderContentType, ''application/json'')]"

definition wire_line :: "LineItem \<Rightarrow> WireLine" where
  "wire_line it = \<lparr>wl_SKU = sku_value (li_SKU it), wl_Quantity = Quantity_Value (li_Quantity it),
                   wl_UnitPriceMinor = MinorUnits (li_UnitPrice it)\<rparr>"

definition placed_contract :: "golib \<Rightarrow> OrderPlacedEvent \<Rightarrow> OrderPlacedV1" where
  "placed_contract L placed =
     \<lparr>op_OrderID = OrderID_String L (pe_OrderID placed),
      op_CustomerID = CustomerID_String L (pe_CustomerID placed),
      op_Items = map wire_line (pe_Items placed),
      op_ShipTo =
        \<lparr>wa_Line1 = Line1 (pe_ShipTo placed), wa_Line2 = Line2 (pe_ShipTo placed),
         wa_City = City (pe_ShipTo placed), wa_Region = Region (pe_ShipTo placed),
         wa_PostalCode = PostalCode (pe_ShipTo placed), wa_Country = Country (pe_ShipTo placed)\<rparr>,
      op_TotalMinor = MinorUnits (pe_Total placed), op_Currency = Currency (pe_Total placed),
      op_PlacedAt = FormatTime (pe_PlacedAt placed)\<rparr>"

fun placed_message :: "golib \<Rightarrow> DomainEvent \<Rightarrow> OutboxMessage option" where
  "placed_message L (OrderPlaced placed) =
     Some \<lparr>om_AggregateID = OrderID_String L (pe_OrderID placed), om_EventID = [],
           om_Topic = TopicOrderEvents, om_EventType = EventType (OrderPlaced placed),
           om_Payload = Marshal_OrderPlaced (placed_contract L placed), om_Headers = json_content\<rparr>"
| "placed_message L _ = None"

definition toOutbox :: "golib \<Rightarrow> Order \<Rightarrow> OutboxMessage list" where
  "toOutbox L agg = List.map_filter (placed_message L) (o_changes agg)"

definition inject_all :: "ctx \<Rightarrow> OutboxMessage list \<Rightarrow> OutboxMessage list" where
  "inject_all C = map (\<lambda>m. m\<lparr>om_Headers := InjectToMap C (om_Headers m)\<rparr>)"

definition PlaceOrder_Handle ::
  "golib \<Rightarrow> ctx \<Rightarrow> time \<Rightarrow> PlaceOrderCommand \<Rightarrow> PlaceOrderResult order_act" where
  "PlaceOrder_Handle L C now cmd =
     and_then (of_result (NewIdempotencyKey (pc_IdempotencyKey cmd))) (\<lambda>key.
     and_then (of_result (ParseCustomerID L (pc_CustomerID cmd))) (\<lambda>customerID.
     and_then (of_result (buildLineItems L (pc_Lines cmd))) (\<lambda>items.
     and_then (of_result (let s = pc_Ship cmd in
         NewAddress L (sh_Line1 s) (sh_Line2 s) (sh_City s) (sh_Region s) (sh_PostalCode s) (sh_Country s)))
       (\<lambda>shipTo.
     and_then (new_uuid L) (\<lambda>u. let orderID = OrderID u in
     and_then (wrap_err ''reserve idempotency key''
         (Idempotency_Reserve L (key_value key) (OrderID_String L orderID))) (\<lambda>(existing, found).
       if found
       then ok \<lparr>rs_OrderID = existing, rs_Status = Status_string StatusPending, rs_Idempotent = True\<rparr>
       else
         and_then (of_result (PlaceOrder orderID customerID items shipTo now)) (\<lambda>agg.
         and_then (wrap_err ''persist order'' (Order_Save L C agg 0 (inject_all C (toOutbox L agg)))) (\<lambda>_.
           let agg = MarkChangesCommitted agg in
           ok \<lparr>rs_OrderID = OrderID_String L (o_id agg), rs_Status = Status_string (o_status agg),
               rs_Idempotent = False\<rparr>))))))))"

section \<open>confirm\_cancel.go\<close>

fun lifecycle_message :: "golib \<Rightarrow> DomainEvent \<Rightarrow> OutboxMessage option" where
  "lifecycle_message L (OrderConfirmed i t) =
     Some \<lparr>om_AggregateID = OrderID_String L i, om_EventID = [], om_Topic = TopicOrderEvents,
           om_EventType = ''order.confirmed.v1'',
           om_Payload = Marshal_OrderConfirmed \<lparr>oc_OrderID = OrderID_String L i, oc_ConfirmedAt = FormatTime t\<rparr>,
           om_Headers = json_content\<rparr>"
| "lifecycle_message L (OrderCancelled i r t) =
     Some \<lparr>om_AggregateID = OrderID_String L i, om_EventID = [], om_Topic = TopicOrderEvents,
           om_EventType = ''order.cancelled.v1'',
           om_Payload = Marshal_OrderCancelled
             \<lparr>ox_OrderID = OrderID_String L i, ox_Reason = r, ox_CancelledAt = FormatTime t\<rparr>,
           om_Headers = json_content\<rparr>"
| "lifecycle_message L _ = None"

definition lifecycleOutbox :: "golib \<Rightarrow> DomainEvent list \<Rightarrow> OutboxMessage list" where
  "lifecycleOutbox L changes = List.map_filter (lifecycle_message L) changes"

definition Confirm_Handle :: "golib \<Rightarrow> ctx \<Rightarrow> time \<Rightarrow> string \<Rightarrow> unit order_act" where
  "Confirm_Handle L C now orderID =
     and_then (of_result (ParseOrderID L orderID)) (\<lambda>oid.
     and_then (Order_Load L oid) (\<lambda>agg.
     and_then (of_result (Confirm agg now)) (\<lambda>agg.
       let changes = o_changes agg in
       if changes = [] then ok ()
       else
         let outbox = inject_all C (lifecycleOutbox L changes);
             expected = o_version agg - of_nat (length changes) in
         wrap_err ''persist confirm'' (Order_Save L C agg expected outbox))))"

definition Cancel_Handle :: "golib \<Rightarrow> ctx \<Rightarrow> time \<Rightarrow> string \<Rightarrow> string \<Rightarrow> unit order_act" where
  "Cancel_Handle L C now orderID reason =
     and_then (of_result (ParseOrderID L orderID)) (\<lambda>oid.
     and_then (Order_Load L oid) (\<lambda>agg.
     and_then (of_result (Cancel agg reason now)) (\<lambda>agg.
       let changes = o_changes agg in
       if changes = [] then ok ()
       else
         let outbox = inject_all C (lifecycleOutbox L changes);
             expected = o_version agg - of_nat (length changes) in
         wrap_err ''persist cancel'' (Order_Save L C agg expected outbox))))"

section \<open>get\_order.go\<close>

record OrderView =
  vw_OrderID :: string
  vw_CustomerID :: string
  vw_Status :: string
  vw_TotalMinor :: int64
  vw_Currency :: string
  vw_Version :: int64

definition GetOrder_Handle :: "golib \<Rightarrow> string \<Rightarrow> OrderView order_act" where
  "GetOrder_Handle L i =
     and_then (of_result (ParseOrderID L i)) (\<lambda>oid. (\<lambda>w.
       (case Projection_GetOrder L (OrderID_String L oid) w of
          (Inr view, w') \<Rightarrow>
            (Inr \<lparr>vw_OrderID = pj_OrderID view, vw_CustomerID = pj_CustomerID view,
                  vw_Status = pj_Status view, vw_TotalMinor = pj_TotalMinor view,
                  vw_Currency = pj_Currency view, vw_Version = pj_Version view\<rparr>, w')
        | (Inl err, w') \<Rightarrow>
            if \<not> errors_Is err ErrNotFound then (Inl err, w')
            else
              and_then (Order_Load L oid) (\<lambda>agg.
                ok \<lparr>vw_OrderID = OrderID_String L (o_id agg),
                    vw_CustomerID = CustomerID_String L (o_customerID agg),
                    vw_Status = Status_string (o_status agg), vw_TotalMinor = MinorUnits (o_total agg),
                    vw_Currency = Currency (o_total agg), vw_Version = o_version agg\<rparr>) w')))"

end
