(* ===== verification/Order_Workers.thy ===== *)
theory Order_Workers
  imports Order_Commands
begin

text \<open>
  The order service's stream side: infra/kafka/producer.go and worker/relay (outbox to Kafka),
  app/projection/service.go and worker/projector (Kafka to the read model),
  infra/deadletter and the consumer loop the workers share. One turn of a consumer loop is a
  function from the fetched message to the state after it; whether the offset was committed
  is part of the state, so redelivery is visible.
\<close>

section \<open>Dead letters\<close>

definition Permanent :: "'s err \<Rightarrow> 's err" where
  "Permanent e = Permanentf e"

text \<open>
  A fetched message with its position. \<open>error_text\<close> stands for Error(): the rendering of a cause
  to text is left open.
\<close>

record delivery =
  dl_message :: message
  dl_offset :: int64

definition dlq_message :: "string \<Rightarrow> delivery \<Rightarrow> string \<Rightarrow> message" where
  "dlq_message dlqTopic d cause =
     \<lparr>msg_Topic = dlqTopic, msg_Key = msg_Key (dl_message d), msg_Value = msg_Value (dl_message d),
      msg_Headers = msg_Headers (dl_message d) @
        [(''dlq-source-topic'', msg_Topic (dl_message d)),
         (''dlq-source-offset'', show_int (sint (dl_offset d))),
         (''dlq-error'', cause)]\<rparr>"

definition DeadLetter_Publish ::
  "string \<Rightarrow> ('s err \<Rightarrow> string) \<Rightarrow> delivery \<Rightarrow> 's err \<Rightarrow> (('db, 'z) world_scheme, 's, unit) prog" where
  "DeadLetter_Publish dlqTopic error_text d cause =
     WriteMessages [dlq_message dlqTopic d (error_text cause)]"

section \<open>producer.go and the relay\<close>

definition record_message :: "OutboxRecord \<Rightarrow> message" where
  "record_message r =
     \<lparr>msg_Topic = or_Topic r, msg_Key = or_AggregateID r, msg_Value = or_Payload r,
      msg_Headers = [(HeaderEventType, or_EventType r), (HeaderEventID, or_EventID r)] @ or_Headers r\<rparr>"

definition Publisher_Publish :: "OutboxRecord list \<Rightarrow> unit order_act" where
  "Publisher_Publish records =
     (if records = [] then ok ()
      else wrap_err ''publish records'' (WriteMessages (map record_message records)))"

text \<open>
  One cycle of relay/worker.go's loop: \<open>True\<close> asks for the next cycle at once (a full batch),
  \<open>False\<close> waits for the poll interval; an error is logged and the loop goes on.
\<close>

definition relay_cycle :: "int64 list \<Rightarrow> int \<Rightarrow> order_db world \<Rightarrow> bool \<times> order_db world" where
  "relay_cycle locked batchSize w =
     (case DrainBatch locked batchSize Publisher_Publish w of
        (Inl err, w') \<Rightarrow> (False, w')
      | (Inr processed, w') \<Rightarrow> (int processed = batchSize, w'))"

text \<open>\<open>Run\<close> for the cycles the context allows: each element of the list is what other relays hold
  locked during that cycle.\<close>

fun relay_Run :: "int \<Rightarrow> int64 list list \<Rightarrow> order_db world \<Rightarrow> order_db world" where
  "relay_Run batchSize [] w = w"
| "relay_Run batchSize (locked # rest) w = relay_Run batchSize rest (snd (relay_cycle locked batchSize w))"

section \<open>Projection\<close>

definition applyOrderPlaced :: "golib \<Rightarrow> body \<Rightarrow> unit order_act" where
  "applyOrderPlaced L payload =
     and_then (map_err Permanent (of_result (UnmarshalOrderPlaced payload))) (\<lambda>event.
     and_then (map_err Permanent (of_result (ParsePlacedAt event))) (\<lambda>placedAt.
       wrap_err ''apply order.placed''
         (UpsertOrderPlaced L
            \<lparr>pj_OrderID = op_OrderID event, pj_CustomerID = op_CustomerID event,
             pj_Status = Status_string StatusPending, pj_TotalMinor = op_TotalMinor event,
             pj_Currency = op_Currency event, pj_Version = 1, pj_PlacedAt = placedAt\<rparr>)))"

definition applyOrderConfirmed :: "golib \<Rightarrow> body \<Rightarrow> unit order_act" where
  "applyOrderConfirmed L payload =
     and_then (map_err Permanent (of_result (UnmarshalOrderConfirmed payload))) (\<lambda>event.
       wrap_err ''apply order.confirmed''
         (UpdateStatus L (oc_OrderID event) (Status_string StatusConfirmed)))"

definition applyOrderCancelled :: "golib \<Rightarrow> body \<Rightarrow> unit order_act" where
  "applyOrderCancelled L payload =
     and_then (map_err Permanent (of_result (UnmarshalOrderCancelled payload))) (\<lambda>event.
       wrap_err ''apply order.cancelled''
         (UpdateStatus L (ox_OrderID event) (Status_string StatusCancelled)))"

definition Projection_Apply :: "golib \<Rightarrow> string \<Rightarrow> body \<Rightarrow> unit order_act" where
  "Projection_Apply L eventType payload =
     (if eventType = TypeOrderPlaced then applyOrderPlaced L payload
      else if eventType = TypeOrderConfirmed then applyOrderConfirmed L payload
      else if eventType = TypeOrderCancelled then applyOrderCancelled L payload
      else ok ())"

section \<open>Consumer loops\<close>

fun headerValue :: "headers \<Rightarrow> string \<Rightarrow> string" where
  "headerValue [] key = []"
| "headerValue ((k, v) # hs) key = (if k = key then v else headerValue hs key)"

text \<open>
  One turn after FetchMessage: handle the message, route a permanent error to the dead-letter
  topic, commit the offset. \<open>Inr ()\<close> is a committed message; on \<open>Inl\<close> Run returns, the offset
  stays, and the message is delivered again.
\<close>

definition consume ::
  "('w, 's, unit) prog \<Rightarrow> (delivery \<Rightarrow> ('w, 's, unit) prog) \<Rightarrow> (delivery \<Rightarrow> 's err \<Rightarrow> ('w, 's, unit) prog) \<Rightarrow>
   ('s err \<Rightarrow> 's err) \<Rightarrow> delivery \<Rightarrow> ('w, 's, unit) prog" where
  "consume commit handle dead_letter wrap d w =
     (case handle d w of
        (Inr _, w') \<Rightarrow> wrap_err ''commit offset'' commit w'
      | (Inl err, w') \<Rightarrow>
          if \<not> is_permanent err then (Inl (wrap err), w')
          else and_then (wrap_err ''dead-letter publish'' (dead_letter d err))
                 (\<lambda>_. wrap_err ''commit offset'' commit) w')"

text \<open>CommitMessages is a call to the broker that publishes nothing.\<close>

definition CommitMessages :: "(('db, 'z) world_scheme, 's, unit) prog" where
  "CommitMessages = broker_call []"

definition projector_step ::
  "golib \<Rightarrow> string \<Rightarrow> (oerr \<Rightarrow> string) \<Rightarrow> delivery \<Rightarrow> unit order_act" where
  "projector_step L dlqTopic error_text =
     consume CommitMessages
       (\<lambda>d. Projection_Apply L (headerValue (msg_Headers (dl_message d)) HeaderEventType)
              (msg_Value (dl_message d)))
       (DeadLetter_Publish dlqTopic error_text) (Wrapf ''apply event'')"

end
