(* ===== verification/Consumers.thy ===== *)
theory Consumers
  imports Order_Workers
begin

text \<open>
  The loop the four Kafka workers share (\<open>Run\<close> of worker/projector, worker/orchestrator and the
  consumers of the notification and fulfillment services): what one fetched message leads to, when
  Run returns, and how far the consumer group may move its offset. The locale \<open>offset_log\<close> states
  what the loop needs to keep an invariant that speaks of the offset reached, however often the
  worker is stopped, fails and starts over; its sublocale \<open>consumer\<close> states it for one handler,
  and concludes that every message below the offset is settled. Then the loop of the relay.
\<close>

section \<open>One message\<close>

text \<open>
  How the turn of a message ends: its offset was committed; the commit failed, while the context
  was cancelled or not; or it was given up before the commit.
\<close>

datatype 's turn_end = Committed | CommitStopped | CommitFailed "'s err" | Abandoned "'s err"

definition handle_or_route ::
  "(delivery \<Rightarrow> ('w, 's, unit) prog) \<Rightarrow> (delivery \<Rightarrow> 's err \<Rightarrow> ('w, 's, unit) prog) \<Rightarrow> ('s err \<Rightarrow> 's err) \<Rightarrow>
   delivery \<Rightarrow> ('w, 's, unit) prog" where
  "handle_or_route handle dead_letter wrap d w =
     (case handle d w of
        (Inr _, w') \<Rightarrow> (Inr (), w')
      | (Inl err, w') \<Rightarrow>
          if \<not> is_permanent err then (Inl (wrap err), w')
          else wrap_err ''dead-letter publish'' (dead_letter d err) w')"

definition worker_turn ::
  "('w, 's, unit) prog \<Rightarrow> (delivery \<Rightarrow> ('w, 's, unit) prog) \<Rightarrow> (delivery \<Rightarrow> 's err \<Rightarrow> ('w, 's, unit) prog) \<Rightarrow>
   ('s err \<Rightarrow> 's err) \<Rightarrow> bool \<Rightarrow> delivery \<Rightarrow> 'w \<Rightarrow> 's turn_end \<times> 'w" where
  "worker_turn commit handle dead_letter wrap stopped d w =
     (case handle_or_route handle dead_letter wrap d w of
        (Inl err, w1) \<Rightarrow> (Abandoned err, w1)
      | (Inr _, w1) \<Rightarrow>
          (case commit w1 of
             (Inr _, w2) \<Rightarrow> (Committed, w2)
           | (Inl err, w2) \<Rightarrow>
               (if stopped then CommitStopped else CommitFailed (Wrapf ''commit offset'' err), w2)))"

text \<open>\<open>consume\<close> is the turn while nobody stops the worker.\<close>

fun turn_result :: "'s turn_end \<Rightarrow> 's err + unit" where
  "turn_result Committed = Inr ()"
| "turn_result CommitStopped = Inr ()"
| "turn_result (CommitFailed e) = Inl e"
| "turn_result (Abandoned e) = Inl e"

lemma consume_turn:
  "consume commit handle dead_letter wrap d w =
     (case worker_turn commit handle dead_letter wrap False d w of (t, w') \<Rightarrow> (turn_result t, w'))"
  by (auto simp: consume_def worker_turn_def handle_or_route_def and_then_def map_err_def split: prod.split sum.split)

section \<open>Run\<close>

text \<open>
  What each round of the loop meets: FetchMessage fails because the context is cancelled; it fails
  otherwise, and the context may end while the worker waits; or it returns the next message of
  the partition, at a time the handler reads, and the context may be cancelled by the time the
  offset is committed.
\<close>

datatype poll = FetchEnded | FetchFailed bool | Fetch time bool

datatype 's run_end = Running | Returned "'s err option"

section \<open>The relay\<close>

text \<open>
  A round of the relay's loop finds the context cancelled, or drains a batch while other relays hold
  the rows \<open>locked\<close>; the context may be cancelled by the time a failed drain is looked at, or while
  the relay waits for its interval.
\<close>

datatype relay_round = ContextEnded | Drain (round_locked: "int64 list") (ended_failing: bool) (ended_waiting: bool)

fun relay_loop :: "int \<Rightarrow> relay_round list \<Rightarrow> order_db world \<Rightarrow> 's run_end \<times> order_db world" where
  "relay_loop batchSize [] w = (Running, w)"
| "relay_loop batchSize (ContextEnded # rs) w = (Returned None, w)"
| "relay_loop batchSize (Drain locked failing waiting # rs) w =
     (case DrainBatch locked batchSize Publisher_Publish w of
        (Inl err, w') \<Rightarrow> if failing \<or> waiting then (Returned None, w') else relay_loop batchSize rs w'
      | (Inr processed, w') \<Rightarrow>
          if int processed \<noteq> batchSize \<and> waiting then (Returned None, w') else relay_loop batchSize rs w')"

fun round_stops :: "relay_round \<Rightarrow> bool" where
  "round_stops ContextEnded = True"
| "round_stops (Drain locked failing waiting) = (failing \<or> waiting)"

text \<open>The relay returns only nil, and only when it was told to stop; until then it goes through its cycles.\<close>

lemma relay_loop_end:
  "relay_loop n rs w = (e, w') \<Longrightarrow> e = Running \<or> e = Returned None \<and> list_ex round_stops rs"
  by (induction n rs w rule: relay_loop.induct) (auto split: prod.splits sum.splits if_splits)

lemma relay_loop_cycles:
  "\<not> list_ex round_stops rs \<Longrightarrow> relay_loop n rs w = (Running, relay_Run n (map round_locked rs) w)"
  by (induction n rs w rule: relay_loop.induct) (auto simp: relay_cycle_def split: prod.split sum.split)

section \<open>The consumers' Run\<close>

text \<open>
  \<open>Run\<close> over the messages of a partition from offset \<open>pos\<close>. The number it yields is the highest
  offset it asked the broker to commit; a commit that failed may have been carried out.
\<close>

fun worker_Run ::
  "(time \<Rightarrow> bool \<Rightarrow> delivery \<Rightarrow> 'w \<Rightarrow> 's turn_end \<times> 'w) \<Rightarrow> delivery list \<Rightarrow> poll list \<Rightarrow> nat \<Rightarrow> 'w
   \<Rightarrow> 's run_end \<times> nat \<times> 'w" where
  "worker_Run turn log [] pos w = (Running, pos, w)"
| "worker_Run turn log (FetchEnded # ps) pos w = (Returned None, pos, w)"
| "worker_Run turn log (FetchFailed stopped # ps) pos w =
     (if stopped then (Returned None, pos, w) else worker_Run turn log ps pos w)"
| "worker_Run turn log (Fetch now stopped # ps) pos w =
     (if length log \<le> pos then worker_Run turn log ps pos w
      else (case turn now stopped (log ! pos) w of
              (Committed, w') \<Rightarrow> worker_Run turn log ps (pos + 1) w'
            | (CommitStopped, w') \<Rightarrow> (Returned None, pos + 1, w')
            | (CommitFailed err, w') \<Rightarrow> (Returned (Some err), pos + 1, w')
            | (Abandoned err, w') \<Rightarrow> (Returned (Some err), pos, w')))"

text \<open>
  The worker restarted any number of times: each run comes with what it meets and with an offset
  the group resumes from, no further than was asked for.
\<close>

fun worker_sessions ::
  "(time \<Rightarrow> bool \<Rightarrow> delivery \<Rightarrow> 'w \<Rightarrow> 's turn_end \<times> 'w) \<Rightarrow> delivery list \<Rightarrow> (poll list \<times> nat) list \<Rightarrow> nat \<times> 'w
   \<Rightarrow> nat \<times> 'w" where
  "worker_sessions turn log [] (c, w) = (c, w)"
| "worker_sessions turn log ((ps, k) # ss) (c, w) =
     (case worker_Run turn log ps c w of (_, f, w') \<Rightarrow> worker_sessions turn log ss (min k f, w'))"

text \<open>Run returns nil only when it was told to stop.\<close>

definition stops :: "poll \<Rightarrow> bool" where
  "stops p \<longleftrightarrow> p = FetchEnded \<or> p = FetchFailed True \<or> (\<exists>now. p = Fetch now True)"

lemma turn_stopped: "worker_turn commit handle dead_letter wrap stopped d w = (CommitStopped, w') \<Longrightarrow> stopped"
proof -
  assume t: "worker_turn commit handle dead_letter wrap stopped d w = (CommitStopped, w')"
  obtain r w1 where "handle_or_route handle dead_letter wrap d w = (r, w1)" by fastforce
  moreover obtain r2 w2 where "commit w1 = (r2, w2)" by fastforce
  ultimately show stopped using t by (cases r; cases r2) (auto simp: worker_turn_def split: if_splits)
qed

lemma nil_means_stopped:
  "(\<And>now stopped d w w'. turn now stopped d w = (CommitStopped, w') \<Longrightarrow> stopped) \<Longrightarrow> worker_Run turn log ps pos w = (Returned None, f, w') \<Longrightarrow> \<exists>p \<in> set ps. stops p"
proof (induction turn log ps pos w rule: worker_Run.induct)
  case (4 turn log now stopped ps pos w)
  show ?case
  proof (cases stopped)
    case True
    then show ?thesis by (auto simp: stops_def)
  next
    case False
    with 4 have "\<And>w'. turn now stopped (log ! pos) w \<noteq> (CommitStopped, w')" by blast
    with 4 show ?thesis by (auto split: if_splits prod.splits turn_end.splits)
  qed
qed (auto simp: stops_def split: if_splits)

section \<open>What the loop keeps\<close>

text \<open>
  \<open>upto n\<close> holds of the worker's state while every message below \<open>n\<close> of the partition has been dealt
  with. It is given up by going back, kept by any turn, and grows by a turn that was not abandoned.
\<close>

locale offset_log =
  fixes turn :: "time \<Rightarrow> bool \<Rightarrow> delivery \<Rightarrow> 'w \<Rightarrow> 's turn_end \<times> 'w" and log :: "delivery list"
    and upto :: "nat \<Rightarrow> 'w \<Rightarrow> bool"
  assumes rewind: "upto n w \<Longrightarrow> m \<le> n \<Longrightarrow> upto m w"
    and advance: "upto n w \<Longrightarrow> n < length log \<Longrightarrow> turn now stopped (log ! n) w = (t, w') \<Longrightarrow>
      upto n w' \<and> ((\<forall>err. t \<noteq> Abandoned err) \<longrightarrow> upto (n + 1) w')"
begin

lemma Run_upto: "worker_Run turn log ps pos w = (e, f, w') \<Longrightarrow> upto pos w \<Longrightarrow> upto f w'"
proof (induction ps arbitrary: pos w)
  case (Cons p ps)
  show ?case
  proof (cases p)
    case (Fetch now stopped)
    show ?thesis
    proof (cases "length log \<le> pos")
      case False
      obtain t w1 where t: "turn now stopped (log ! pos) w = (t, w1)" by fastforce
      have "upto pos w1 \<and> ((\<forall>err. t \<noteq> Abandoned err) \<longrightarrow> upto (pos + 1) w1)"
        using advance [OF Cons.prems(2) _ t] False by simp
      then show ?thesis using Cons.prems(1) Cons.IH [of "pos + 1" w1] t False
        by (cases t) (auto simp: Fetch)
    qed (use Cons Fetch in simp)
  qed (use Cons in \<open>auto split: if_splits\<close>)
qed simp

lemma sessions_upto: "worker_sessions turn log ss (c, w) = (c', w') \<Longrightarrow> upto c w \<Longrightarrow> upto c' w'"
proof (induction ss arbitrary: c w)
  case (Cons s ss)
  obtain ps k where s: "s = (ps, k)" by fastforce
  obtain e f w1 where r: "worker_Run turn log ps c w = (e, f, w1)" by (metis surj_pair)
  have "upto (min k f) w1" using rewind [OF Run_upto [OF r Cons.prems(2)]] by simp
  with Cons.IH [of "min k f" w1] Cons.prems(1) r show ?case by (simp add: s)
qed simp

end

section \<open>What the loop needs of a handler\<close>

text \<open>
  \<open>settled d\<close> is what handling the message \<open>d\<close>, or routing it to the dead-letter topic, achieves; it
  must not be undone by whatever the worker does later. \<open>topic\<close> are the messages it may meet.
\<close>

locale consumer =
  fixes commit :: "('w, 's, unit) prog" and handle :: "time \<Rightarrow> delivery \<Rightarrow> ('w, 's, unit) prog"
    and dead_letter :: "delivery \<Rightarrow> 's err \<Rightarrow> ('w, 's, unit) prog" and wrap :: "'s err \<Rightarrow> 's err"
    and inv :: "'w \<Rightarrow> bool" and settled :: "delivery \<Rightarrow> 'w \<Rightarrow> bool" and topic :: "delivery set"
  assumes handled: "handle now d w = (r, w') \<Longrightarrow> d \<in> topic \<Longrightarrow> inv w \<Longrightarrow>
      inv w' \<and> (\<forall>e. settled e w \<longrightarrow> settled e w') \<and> (r = Inr () \<longrightarrow> settled d w')"
    and routed: "handle now d w0 = (Inl err, w) \<Longrightarrow> is_permanent err \<Longrightarrow> d \<in> topic \<Longrightarrow>
      dead_letter d err w = (r, w') \<Longrightarrow> inv w \<Longrightarrow>
      inv w' \<and> (\<forall>e. settled e w \<longrightarrow> settled e w') \<and> (r = Inr () \<longrightarrow> settled d w')"
    and committing: "commit w = (r, w') \<Longrightarrow> inv w \<Longrightarrow> inv w' \<and> (\<forall>e. settled e w \<longrightarrow> settled e w')"
begin

definition turn :: "time \<Rightarrow> bool \<Rightarrow> delivery \<Rightarrow> 'w \<Rightarrow> 's turn_end \<times> 'w" where
  "turn now = worker_turn commit (handle now) dead_letter wrap"

lemma route_settles:
  assumes "handle_or_route (handle now) dead_letter wrap d w = (r, w')" and "inv w" and "d \<in> topic"
  shows "inv w' \<and> (\<forall>e. settled e w \<longrightarrow> settled e w') \<and> (r = Inr () \<longrightarrow> settled d w')"
proof -
  obtain r1 w1 where h: "handle now d w = (r1, w1)" by fastforce
  note 1 = handled [OF h assms(3,2)]
  show ?thesis
  proof (cases r1)
    case (Inr u)
    then show ?thesis using 1 h assms(1) by (simp add: handle_or_route_def)
  next
    case (Inl err)
    obtain r2 w2 where dl: "dead_letter d err w1 = (r2, w2)" by fastforce
    show ?thesis
    proof (cases "is_permanent err")
      case True
      from routed [OF h [unfolded Inl] True assms(3) dl] 1 show ?thesis using assms(1) h dl Inl True
        by (cases r2) (auto simp: handle_or_route_def map_err_def)
    next
      case False
      with 1 h Inl assms(1) show ?thesis by (auto simp: handle_or_route_def)
    qed
  qed
qed

lemma turn_settles:
  assumes "turn now stopped d w = (t, w')" and "inv w" and "d \<in> topic"
  shows "inv w' \<and> (\<forall>e. settled e w \<longrightarrow> settled e w') \<and> ((\<forall>err. t \<noteq> Abandoned err) \<longrightarrow> settled d w')"
proof -
  obtain r1 w1 where m: "handle_or_route (handle now) dead_letter wrap d w = (r1, w1)" by fastforce
  note 1 = route_settles [OF m assms(2,3)]
  show ?thesis
  proof (cases r1)
    case (Inl err)
    then show ?thesis using 1 m assms(1) by (auto simp: turn_def worker_turn_def)
  next
    case (Inr u)
    obtain r2 w2 where c: "commit w1 = (r2, w2)" by fastforce
    then have "w' = w2" using m Inr assms(1) by (cases r2) (auto simp: turn_def worker_turn_def)
    then show ?thesis using 1 committing [OF c] Inr by simp
  qed
qed

text \<open>Everything below the offset is settled.\<close>

definition settled_below :: "delivery list \<Rightarrow> nat \<Rightarrow> 'w \<Rightarrow> bool" where
  "settled_below log c w \<longleftrightarrow> inv w \<and> set log \<subseteq> topic \<and> c \<le> length log \<and> (\<forall>i < c. settled (log ! i) w)"

end

sublocale consumer \<subseteq> offsets: offset_log turn log "settled_below log" for log
proof (unfold_locales, goal_cases)
  case (1 n w m)
  then show ?case by (auto simp: settled_below_def)
next
  case (2 n w now stopped t w')
  then have "log ! n \<in> topic" by (auto simp: settled_below_def)
  from turn_settles [OF 2(3) _ this] 2(1,2) show ?case by (auto simp: settled_below_def less_Suc_eq)
qed

context consumer
begin

lemma sessions_settle:
  "worker_sessions turn log ss (c, w) = (c', w') \<Longrightarrow> settled_below log c w \<Longrightarrow> settled_below log c' w'"
  by (rule offsets.sessions_upto)

end

end
