(* ===== verification/Http.thy ===== *)
theory Http
  imports Effects
begin

text \<open>
  The HTTP side the services share: requests and responses, the routing of net/http's ServeMux
  for clean paths, and the middleware chain of services/order/internal/presentation/http
  (inventory and fulfillment have the same code). A handler may panic, which is \<open>None\<close>; what it
  wrote before that is left out. Request bodies are JSON values: \<open>None\<close> is a body that the
  decoder refuses, because it is not JSON or is longer than the limit.
\<close>

section \<open>Requests and responses\<close>

record request =
  rq_Method :: string
  rq_Path :: string
  rq_Headers :: headers
  rq_Body :: body

record response =
  rp_Status :: nat
  rp_Headers :: headers
  rp_Body :: body

text \<open>What the middlewares put into the request context, and the path values of the route.\<close>

record rctx =
  cx_correlation :: "string option"
  cx_principal :: "string option"
  cx_path :: "(string \<times> string) list"
  cx_pattern :: string

type_synonym 'w handler = "rctx \<Rightarrow> request \<Rightarrow> 'w \<Rightarrow> response option \<times> 'w"
type_synonym 'w middleware = "'w handler \<Rightarrow> 'w handler"

definition empty_rctx :: rctx where
  "empty_rctx = \<lparr>cx_correlation = None, cx_principal = None, cx_path = [], cx_pattern = []\<rparr>"

text \<open>Header.Get on canonical names: the first value, or the empty string.\<close>

fun Header_Get :: "headers \<Rightarrow> string \<Rightarrow> string" where
  "Header_Get [] k = []"
| "Header_Get ((k', v) # hs) k = (if k' = k then v else Header_Get hs k)"

definition Header_Set :: "string \<Rightarrow> string \<Rightarrow> headers \<Rightarrow> headers" where
  "Header_Set k v hs = filter (\<lambda>(k', _). k' \<noteq> k) hs @ [(k, v)]"

definition writeJSON :: "nat \<Rightarrow> json \<Rightarrow> response" where
  "writeJSON status j =
     \<lparr>rp_Status = status, rp_Headers = [(''Content-Type'', ''application/json; charset=utf-8'')], rp_Body = Some j\<rparr>"

text \<open>The error envelope; the correlation id is left out when it is empty.\<close>

definition error_envelope :: "string \<Rightarrow> string \<Rightarrow> rctx \<Rightarrow> json" where
  "error_envelope code message cx =
     (let cid = (case cx_correlation cx of None \<Rightarrow> [] | Some c \<Rightarrow> c) in
      JObj [(''error'', JObj ([(''code'', JStr code), (''message'', JStr message)]
                              @ (if cid = [] then [] else [(''correlationId'', JStr cid)])))])"

text \<open>
  writeError of the three services: \<open>classify\<close> gives status, code and message. A message that is
  err.Error() is the parameter \<open>error_text\<close> applied to the error.
\<close>

definition writeError :: "('e \<Rightarrow> nat \<times> string \<times> string) \<Rightarrow> rctx \<Rightarrow> 'e \<Rightarrow> response" where
  "writeError classify cx err =
     (case classify err of (status, code, message) \<Rightarrow>
        writeJSON status (error_envelope code
          (if 500 \<le> status then ''an internal error occurred'' else message) cx))"

section \<open>Middlewares\<close>

definition correlationMiddleware :: "('w \<Rightarrow> string \<times> 'w) \<Rightarrow> 'w middleware" where
  "correlationMiddleware fresh next = (\<lambda>cx rq w.
     (let h = Header_Get (rq_Headers rq) ''X-Correlation-Id'';
          (i, w) = (if h = [] then fresh w else (h, w)) in
      (case next (cx\<lparr>cx_correlation := Some i\<rparr>) rq w of
         (None, w') \<Rightarrow> (None, w')
       | (Some rp, w') \<Rightarrow> (Some (rp\<lparr>rp_Headers := (''X-Correlation-Id'', i) # rp_Headers rp\<rparr>), w'))))"

definition recoveryMiddleware :: "'w middleware" where
  "recoveryMiddleware next = (\<lambda>cx rq w.
     (case next cx rq w of
        (None, w') \<Rightarrow>
          (Some (writeJSON 500 (error_envelope ''INTERNAL'' ''an internal error occurred'' cx)), w')
      | (Some rp, w') \<Rightarrow> (Some rp, w')))"

text \<open>The access log and the counters: \<open>record\<close> and \<open>count\<close> are the writes to them.\<close>

definition loggingMiddleware :: "(string \<Rightarrow> string \<Rightarrow> nat \<Rightarrow> 'w \<Rightarrow> 'w) \<Rightarrow> 'w middleware" where
  "loggingMiddleware record next = (\<lambda>cx rq w.
     (case next cx rq w of
        (None, w') \<Rightarrow> (None, w')
      | (Some rp, w') \<Rightarrow> (Some rp, record (rq_Method rq) (rq_Path rq) (rp_Status rp) w')))"

definition metricsMiddleware ::
  "(string \<Rightarrow> string \<Rightarrow> nat \<Rightarrow> 'w \<Rightarrow> 'w) \<Rightarrow> (request \<Rightarrow> string) \<Rightarrow> 'w middleware" where
  "metricsMiddleware count pattern next = (\<lambda>cx rq w.
     (case next cx rq w of
        (None, w') \<Rightarrow> (None, w')
      | (Some rp, w') \<Rightarrow>
          let path = pattern rq; path = (if path = [] then ''unmatched'' else path) in
          (Some rp, count (rq_Method rq) path (rp_Status rp) w')))"

definition cors_allowed :: "string list \<Rightarrow> string \<Rightarrow> bool" where
  "cors_allowed origins origin =
     (let trimmed = map TrimSpace origins; allowAll = ''*'' \<in> set trimmed;
          allowed = filter (\<lambda>o1. o1 \<noteq> ''*'' \<and> o1 \<noteq> []) trimmed;
          enabled = (allowAll \<or> allowed \<noteq> [])
      in enabled \<and> origin \<noteq> [] \<and> (allowAll \<or> origin \<in> set allowed))"

definition cors_headers :: "string \<Rightarrow> headers" where
  "cors_headers origin =
     [(''Access-Control-Allow-Origin'', origin), (''Vary'', ''Origin''),
      (''Access-Control-Allow-Methods'', ''GET, POST, PUT, OPTIONS''),
      (''Access-Control-Allow-Headers'', ''Content-Type, Idempotency-Key, Authorization''),
      (''Access-Control-Max-Age'', ''600'')]"

definition corsMiddleware :: "string list \<Rightarrow> 'w middleware" where
  "corsMiddleware origins next = (\<lambda>cx rq w.
     (let origin = Header_Get (rq_Headers rq) ''Origin'';
          hs = (if cors_allowed origins origin then cors_headers origin else []) in
      if rq_Method rq = ''OPTIONS'' then (Some \<lparr>rp_Status = 204, rp_Headers = hs, rp_Body = None\<rparr>, w)
      else
        (case next cx rq w of
           (None, w') \<Rightarrow> (None, w')
         | (Some rp, w') \<Rightarrow> (Some (rp\<lparr>rp_Headers := hs @ rp_Headers rp\<rparr>), w'))))"

text \<open>
  golang-jwt is a parameter: \<open>verify\<close> takes the options the code passes and the raw token, and
  returns the subject of a token it accepts.
\<close>

record AuthConfig =
  au_Enabled :: bool
  au_JWTSecret :: string
  au_JWTIssuer :: string
  au_JWTAudience :: string

record jwt_options =
  jo_Secret :: string
  jo_Methods :: "string list"
  jo_Issuer :: string
  jo_Audience :: string

type_synonym jwt = "jwt_options \<Rightarrow> string \<Rightarrow> string option"

definition bearerToken :: "request \<Rightarrow> string" where
  "bearerToken rq =
     (let h = Header_Get (rq_Headers rq) ''Authorization''; prefix = ''Bearer '' in
      if length h > length prefix \<and> take (length prefix) h = prefix then drop (length prefix) h else [])"

definition unauthorized :: "rctx \<Rightarrow> response" where
  "unauthorized cx = writeJSON 401 (error_envelope ''UNAUTHORIZED'' ''authentication required'' cx)"

definition authMiddleware :: "jwt \<Rightarrow> AuthConfig \<Rightarrow> 'w middleware" where
  "authMiddleware verify cfg next = (\<lambda>cx rq w.
     (if \<not> au_Enabled cfg then next cx rq w
      else
        let raw = bearerToken rq in
        if raw = [] then (Some (unauthorized cx), w)
        else
          (case verify \<lparr>jo_Secret = au_JWTSecret cfg, jo_Methods = [''HS256''],
                        jo_Issuer = au_JWTIssuer cfg, jo_Audience = au_JWTAudience cfg\<rparr> raw of
             None \<Rightarrow> (Some (unauthorized cx), w)
           | Some subject \<Rightarrow>
               if subject = [] then (Some (unauthorized cx), w)
               else next (cx\<lparr>cx_principal := Some subject\<rparr>) rq w)))"

text \<open>chain applies the last middleware first, so the first one is outermost.\<close>

definition chain :: "'w handler \<Rightarrow> 'w middleware list \<Rightarrow> 'w handler" where
  "chain h middlewares = foldr (\<lambda>m h. m h) middlewares h"

section \<open>Routing\<close>

datatype segment = Lit string | Wild string

record 'w route =
  ro_Method :: string
  ro_Pattern :: string
  ro_Path :: "segment list"
  ro_Handler :: "'w handler"

fun split_path :: "string \<Rightarrow> string list" where
  "split_path [] = [[]]"
| "split_path (c # s) =
     (if c = CHR ''/'' then [] # split_path s
      else case split_path s of [] \<Rightarrow> [[c]] | t # ts \<Rightarrow> (c # t) # ts)"

fun match_path :: "segment list \<Rightarrow> string list \<Rightarrow> (string \<times> string) list option" where
  "match_path [] [] = Some []"
| "match_path (Lit a # ps) (s # ss) = (if a = s then match_path ps ss else None)"
| "match_path (Wild x # ps) (s # ss) =
     (if s = [] then None else map_option (Cons (x, s)) (match_path ps ss))"
| "match_path _ _ = None"

text \<open>ServeMux: GET also serves HEAD; a path of another method is 405, an unknown one 404.\<close>

definition method_ok :: "string \<Rightarrow> string \<Rightarrow> bool" where
  "method_ok m rm = (m = [] \<or> m = rm \<or> m = ''GET'' \<and> rm = ''HEAD'')"

definition path_of :: "request \<Rightarrow> string list" where
  "path_of rq = tl (split_path (rq_Path rq))"

definition find_route :: "'w route list \<Rightarrow> request \<Rightarrow> ('w route \<times> (string \<times> string) list) option" where
  "find_route rs rq =
     (case List.find (\<lambda>r. method_ok (ro_Method r) (rq_Method rq) \<and> match_path (ro_Path r) (path_of rq) \<noteq> None) rs of
        None \<Rightarrow> None
      | Some r \<Rightarrow> Some (r, the (match_path (ro_Path r) (path_of rq))))"

definition ServeMux :: "'w route list \<Rightarrow> 'w handler" where
  "ServeMux rs = (\<lambda>cx rq w.
     (case find_route rs rq of
        Some (r, vs) \<Rightarrow> ro_Handler r (cx\<lparr>cx_path := vs, cx_pattern := ro_Pattern r\<rparr>) rq w
      | None \<Rightarrow>
          (Some \<lparr>rp_Status = (if list_ex (\<lambda>r. match_path (ro_Path r) (path_of rq) \<noteq> None) rs then 405 else 404),
                 rp_Headers = [], rp_Body = None\<rparr>, w)))"

definition PathValue :: "rctx \<Rightarrow> string \<Rightarrow> string" where
  "PathValue cx k = (case map_of (cx_path cx) k of None \<Rightarrow> [] | Some v \<Rightarrow> v)"

definition mux_pattern :: "'w route list \<Rightarrow> request \<Rightarrow> string" where
  "mux_pattern rs rq = (case find_route rs rq of None \<Rightarrow> [] | Some (r, _) \<Rightarrow> ro_Pattern r)"

section \<open>Health\<close>

definition health_Live :: "'w handler" where
  "health_Live = (\<lambda>cx rq w. (Some (writeJSON 200 (JObj [(''status'', JStr ''ok'')])), w))"

text \<open>\<open>ping\<close> is the round trip to the database within two seconds.\<close>

definition health_Ready :: "('w \<Rightarrow> bool \<times> 'w) \<Rightarrow> 'w handler" where
  "health_Ready ping = (\<lambda>cx rq w.
     (case ping w of
        (False, w') \<Rightarrow>
          (Some (writeJSON 503 (JObj [(''status'', JStr ''unavailable''), (''reason'', JStr ''database'')])), w')
      | (True, w') \<Rightarrow> (Some (writeJSON 200 (JObj [(''status'', JStr ''ready'')])), w')))"

definition health_routes :: "('w \<Rightarrow> bool \<times> 'w) \<Rightarrow> 'w route list" where
  "health_routes ping =
     [\<lparr>ro_Method = ''GET'', ro_Pattern = ''GET /livez'', ro_Path = [Lit ''livez''], ro_Handler = health_Live\<rparr>,
      \<lparr>ro_Method = ''GET'', ro_Pattern = ''GET /readyz'', ro_Path = [Lit ''readyz''], ro_Handler = health_Ready ping\<rparr>,
      \<lparr>ro_Method = ''GET'', ro_Pattern = ''GET /healthz'', ro_Path = [Lit ''healthz''], ro_Handler = health_Live\<rparr>]"

section \<open>Guards\<close>

text \<open>
  With authentication enabled, the wrapped handler only ever runs with a principal whose token
  the verifier accepted under the configured secret, issuer, audience and HS256.
\<close>

definition accepted :: "jwt \<Rightarrow> AuthConfig \<Rightarrow> request \<Rightarrow> string \<Rightarrow> bool" where
  "accepted verify cfg rq subject =
     (subject \<noteq> [] \<and> bearerToken rq \<noteq> []
      \<and> verify \<lparr>jo_Secret = au_JWTSecret cfg, jo_Methods = [''HS256''],
                jo_Issuer = au_JWTIssuer cfg, jo_Audience = au_JWTAudience cfg\<rparr> (bearerToken rq) = Some subject)"

lemma authMiddleware_guard:
  assumes "au_Enabled cfg"
  shows "(\<exists>subject. accepted verify cfg rq subject
        \<and> authMiddleware verify cfg next cx rq w = next (cx\<lparr>cx_principal := Some subject\<rparr>) rq w)
    \<or> ((\<nexists>subject. accepted verify cfg rq subject)
        \<and> authMiddleware verify cfg next cx rq w = (Some (unauthorized cx), w))"
  using assms by (auto simp: authMiddleware_def accepted_def Let_def split: option.split)

lemma recovery_total: "fst (recoveryMiddleware next cx rq w) \<noteq> None"
  by (auto simp: recoveryMiddleware_def split: option.split prod.split)

end
