(* ===== verification/Process.thy ===== *)
theory Process
  imports Consumers Env_Config
begin

text \<open>
  A service as a process: what \<open>run\<close> of a main.go acquires, what it defers, how it ends and with
  which status \<open>main\<close> exits. A process keeps the trace of what it opened and closed, a script
  of which of its next calls into libraries fail, and the state the service works on.
\<close>

section \<open>The state of a process\<close>

text \<open>
  What main.go holds until it returns: the handler of the signals, the metrics server, the
  tracer, the connection pool, the writers and the readers of Kafka. \<open>Exporter\<close> is an OTLP
  exporter without a tracer provider that would shut it down.
\<close>

datatype resource =
    Signals
  | MetricsServer string
  | Tracing string string string float64
  | Exporter string
  | Pool DatabaseConfig
  | EventWriter "string list"
  | TopicWriter "string list" string
  | GroupReader "string list" "string list" string

datatype happening = Opened resource | Closed resource

record 'w process =
  pr_trace :: "happening list"
  pr_calls :: "bool list"
  pr_world :: 'w

type_synonym ('w, 's) service = "'w process \<Rightarrow> 's run_end \<times> 'w process"

definition happens :: "happening \<Rightarrow> 'w process \<Rightarrow> 'w process" where
  "happens h p = p\<lparr>pr_trace := pr_trace p @ [h]\<rparr>"

text \<open>A call into a library that may fail; the script says whether it does.\<close>

definition library_call :: "string \<Rightarrow> ('w process, 's, unit) prog" where
  "library_call name p =
     (case pr_calls p of
        [] \<Rightarrow> (Inr (), p)
      | f # fs \<Rightarrow> (if f then Inl (Foreign name) else Inr (), p\<lparr>pr_calls := fs\<rparr>))"

text \<open>A constructor that cannot fail.\<close>

definition acquire :: "resource \<Rightarrow> ('w process, 's, resource) prog" where
  "acquire r p = (Inr r, happens (Opened r) p)"

text \<open>\<open>x, err := m(); if err != nil { return err }\<close>, and \<open>defer x.Close()\<close>.\<close>

definition attempt :: "('w process, 's, 'a) prog \<Rightarrow> ('a \<Rightarrow> ('w, 's) service) \<Rightarrow> ('w, 's) service" where
  "attempt m k p = (case m p of (Inl err, p') \<Rightarrow> (Returned (Some err), p') | (Inr a, p') \<Rightarrow> k a p')"

definition deferring :: "resource \<Rightarrow> ('w, 's) service \<Rightarrow> ('w, 's) service" where
  "deferring r body p =
     (case body p of
        (Returned e, p') \<Rightarrow> (Returned e, happens (Closed r) p')
      | (Running, p') \<Rightarrow> (Running, p'))"

abbreviation holding :: "('w process, 's, resource) prog \<Rightarrow> (resource \<Rightarrow> ('w, 's) service) \<Rightarrow> ('w, 's) service" where
  "holding m k \<equiv> attempt m (\<lambda>r. deferring r (k r))"

text \<open>What the service does once it is set up.\<close>

definition working :: "('w \<Rightarrow> 's run_end \<times> 'w) \<Rightarrow> ('w, 's) service" where
  "working f p = (case f (pr_world p) of (e, w) \<Rightarrow> (e, p\<lparr>pr_world := w\<rparr>))"

text \<open>\<open>main\<close>: the exit status, once the process has ended.\<close>

fun exit_status :: "'s run_end \<Rightarrow> nat option" where
  "exit_status Running = None"
| "exit_status (Returned None) = Some 0"
| "exit_status (Returned (Some err)) = Some 1"

section \<open>Postgres and OpenTelemetry\<close>

definition NewPool :: "DatabaseConfig \<Rightarrow> ('w process, 's, resource) prog" where
  "NewPool cfg =
     and_then (wrap_err ''parse database url'' (library_call ''pgxpool.ParseConfig'')) (\<lambda>_.
     and_then (wrap_err ''create pool'' (library_call ''pgxpool.NewWithConfig'')) (\<lambda>_.
     and_then (acquire (Pool cfg)) (\<lambda>pool p.
       (case wrap_err ''ping database'' (library_call ''Pool.Ping'') p of
          (Inl err, p') \<Rightarrow> (Inl err, happens (Closed pool) p')
        | (Inr _, p') \<Rightarrow> (Inr pool, p')))))"

text \<open>
  When the resource cannot be built, the exporter that was created before is dropped as it is. The
  provider of an empty endpoint has nothing to shut down.
\<close>

definition telemetry_Setup :: "string \<Rightarrow> string \<Rightarrow> TelemetryConfig \<Rightarrow> ('w process, 's, resource) prog" where
  "telemetry_Setup service environment cfg =
     (let tracing = Tracing service environment (tc_OTLPEndpoint cfg) (tc_SampleRatio cfg) in
      if tc_OTLPEndpoint cfg = [] then acquire tracing
      else
        and_then (wrap_err ''create otlp exporter'' (library_call ''otlptracehttp.New'')) (\<lambda>_ p.
          (case wrap_err ''build resource'' (library_call ''resource.New'') p of
             (Inl err, p') \<Rightarrow> (Inl err, happens (Opened (Exporter (tc_OTLPEndpoint cfg))) p')
           | (Inr _, p') \<Rightarrow> acquire tracing p')))"

section \<open>Nothing stays open\<close>

text \<open>What a trace opened and closed. A dropped exporter has no owner.\<close>

fun opens :: "happening list \<Rightarrow> resource list" where
  "opens [] = []"
| "opens (Opened (Exporter e) # hs) = opens hs"
| "opens (Opened r # hs) = r # opens hs"
| "opens (Closed r # hs) = opens hs"

fun closes :: "happening list \<Rightarrow> resource list" where
  "closes [] = []"
| "closes (Opened r # hs) = closes hs"
| "closes (Closed r # hs) = r # closes hs"

lemma opens_append [simp]: "opens (hs @ hs') = opens hs @ opens hs'"
  by (induction hs rule: opens.induct) simp_all

lemma closes_append [simp]: "closes (hs @ hs') = closes hs @ closes hs'"
  by (induction hs rule: closes.induct) simp_all

text \<open>
  A step that acquires leaves its resource open when it succeeds and nothing when it fails; a
  service that returns has closed what it opened in reverse order, and one that runs has closed
  nothing.
\<close>

definition acquires :: "('w process, 's, resource) prog \<Rightarrow> bool" where
  "acquires m \<longleftrightarrow> (\<forall>p r p'. m p = (r, p') \<longrightarrow> (\<exists>hs. pr_trace p' = pr_trace p @ hs \<and>
     (case r of Inl err \<Rightarrow> closes hs = rev (opens hs)
      | Inr x \<Rightarrow> opens hs = [x] \<and> closes hs = [])))"

definition tidy :: "('w, 's) service \<Rightarrow> bool" where
  "tidy s \<longleftrightarrow> (\<forall>p e p'. s p = (e, p') \<longrightarrow> (\<exists>hs. pr_trace p' = pr_trace p @ hs \<and>
     (case e of Running \<Rightarrow> closes hs = [] | Returned r \<Rightarrow> closes hs = rev (opens hs))))"

named_theorems tidying \<open>services that close what they open\<close>

lemma tidy_working [tidying]: "tidy (working f)"
  by (auto simp: tidy_def working_def split: prod.splits run_end.splits)

lemma tidy_attempt: "(\<And>a. tidy (k a)) \<Longrightarrow> tidy (attempt (of_result r) k)"
  by (auto simp: tidy_def attempt_def of_result_def split: sum.splits)

lemma tidy_holding [tidying]:
  fixes k :: "resource \<Rightarrow> ('w, 's) service"
  assumes m: "acquires m" and k: "\<And>r. tidy (k r)"
  shows "tidy (holding m k)"
  unfolding tidy_def
proof (intro allI impI)
  fix p :: "'w process" and e p' assume run: "holding m k p = (e, p')"
  obtain r p1 where m1: "m p = (r, p1)" by fastforce
  from m m1 obtain hs where hs: "pr_trace p1 = pr_trace p @ hs"
    "case r of Inl err \<Rightarrow> closes hs = rev (opens hs) | Inr x \<Rightarrow> opens hs = [x] \<and> closes hs = []"
    unfolding acquires_def by blast
  show "\<exists>hs. pr_trace p' = pr_trace p @ hs \<and>
     (case e of Running \<Rightarrow> closes hs = [] | Returned r \<Rightarrow> closes hs = rev (opens hs))"
  proof (cases r)
    case (Inl err)
    with run m1 hs show ?thesis by (auto simp: attempt_def)
  next
    case (Inr x)
    obtain e1 p2 where k1: "k x p1 = (e1, p2)" by fastforce
    from k k1 obtain hs2 where hs2: "pr_trace p2 = pr_trace p1 @ hs2"
      "case e1 of Running \<Rightarrow> closes hs2 = [] | Returned r \<Rightarrow> closes hs2 = rev (opens hs2)"
      unfolding tidy_def by blast
    show ?thesis
    proof (cases e1)
      case Running
      then show ?thesis using run m1 k1 Inr hs hs2
        by (intro exI [of _ "hs @ hs2"]) (auto simp: attempt_def deferring_def)
    next
      case (Returned res)
      then show ?thesis using run m1 k1 Inr hs hs2
        by (intro exI [of _ "hs @ hs2 @ [Closed x]"]) (auto simp: attempt_def deferring_def happens_def)
    qed
  qed
qed

lemma library_call_trace: "library_call name p = (r, p') \<Longrightarrow> pr_trace p' = pr_trace p"
  by (auto simp: library_call_def split: list.splits)

lemma acquires_acquire [tidying]: "\<forall>e. r \<noteq> Exporter e \<Longrightarrow> acquires (acquire r)"
  by (cases r) (auto simp: acquires_def acquire_def happens_def)

lemma acquires_NewPool [tidying]: "acquires (NewPool cfg)"
  by (auto simp: acquires_def NewPool_def acquire_def happens_def and_then_def map_err_def
      split: prod.splits sum.splits dest!: library_call_trace)

lemma acquires_telemetry [tidying]: "acquires (telemetry_Setup service environment cfg)"
  by (auto simp: acquires_def telemetry_Setup_def Let_def acquire_def happens_def and_then_def map_err_def
      split: prod.splits sum.splits if_splits dest!: library_call_trace)

section \<open>Why a process ends\<close>

text \<open>A service that returns nil was asked to: \<open>asked\<close> holds of whatever it works with.\<close>

definition nil_means :: "bool \<Rightarrow> ('w, 's) service \<Rightarrow> bool" where
  "nil_means asked s \<longleftrightarrow> (\<forall>p p'. s p = (Returned None, p') \<longrightarrow> asked)"

named_theorems nil_asked \<open>services that return nil only when asked to\<close>

lemma nil_attempt [nil_asked]: "(\<And>a. nil_means asked (k a)) \<Longrightarrow> nil_means asked (attempt m k)"
  unfolding nil_means_def attempt_def
proof (intro allI impI)
  fix p p' assume k: "\<And>a. \<forall>p p'. k a p = (Returned None, p') \<longrightarrow> asked"
    and run: "(case m p of (Inl err, p') \<Rightarrow> (Returned (Some err), p') | (Inr a, p') \<Rightarrow> k a p') = (Returned None, p')"
  obtain r p1 where "m p = (r, p1)" by fastforce
  with run k show asked by (cases r) auto
qed

lemma nil_deferring [nil_asked]: "nil_means asked s \<Longrightarrow> nil_means asked (deferring r s)"
  unfolding nil_means_def deferring_def
proof (intro allI impI)
  fix p p' assume s: "\<forall>p p'. s p = (Returned None, p') \<longrightarrow> asked"
    and run: "(case s p of (Returned e, p') \<Rightarrow> (Returned e, happens (Closed r) p') | (Running, p') \<Rightarrow> (Running, p'))
      = (Returned None, p')"
  obtain e p1 where "s p = (e, p1)" by fastforce
  with run s show asked by (cases e) auto
qed

lemma nil_working [nil_asked]: "(\<And>w w'. f w = (Returned None, w') \<Longrightarrow> asked) \<Longrightarrow> nil_means asked (working f)"
  unfolding nil_means_def working_def
proof (intro allI impI)
  fix p p' assume f: "\<And>w w'. f w = (Returned None, w') \<Longrightarrow> asked"
    and run: "(case f (pr_world p) of (e, w) \<Rightarrow> (e, p\<lparr>pr_world := w\<rparr>)) = (Returned None, p')"
  obtain e w where "f (pr_world p) = (e, w)" by fastforce
  with run f show asked by auto
qed

text \<open>Both together, in terms of the exit status.\<close>

definition ends_well :: "bool \<Rightarrow> ('w, 's) service \<Rightarrow> bool" where
  "ends_well asked s \<longleftrightarrow> (\<forall>p e p' status. s p = (e, p') \<and> exit_status e = Some status \<longrightarrow>
     (\<exists>hs. pr_trace p' = pr_trace p @ hs \<and> closes hs = rev (opens hs)) \<and> (status = 0 \<longrightarrow> asked))"

lemma ends_wellI:
  assumes "tidy s" and "nil_means asked s"
  shows "ends_well asked s"
  unfolding ends_well_def
proof (intro allI impI)
  fix p e p' status assume run: "s p = (e, p') \<and> exit_status e = Some status"
  then obtain r where e: "e = Returned r" by (cases e) auto
  have "\<exists>hs. pr_trace p' = pr_trace p @ hs \<and> closes hs = rev (opens hs)"
    using assms(1) run e unfolding tidy_def by fastforce
  moreover have "asked" if "status = 0"
    using assms(2) run e that unfolding nil_means_def by (cases r) auto
  ultimately show "(\<exists>hs. pr_trace p' = pr_trace p @ hs \<and> closes hs = rev (opens hs)) \<and> (status = 0 \<longrightarrow> asked)" by blast
qed

text \<open>A refused configuration ends the process with status 1 before anything was opened.\<close>

lemma refused_exit: "attempt (of_result (Inl err)) k p = (Returned (Some err), p)"
  by (simp add: attempt_def of_result_def)

end
