(* ===== verification/Serving.thy ===== *)
theory Serving
  imports Process
begin

text \<open>
  presentation/http/server.go: \<open>Serve\<close> runs the listener in a goroutine, which reports on a channel
  of capacity one, and waits for the report or for the signal, upon which it drains the server.
  Once as a step relation, with every interleaving of the two and of the signal, and once as a
  function of what the server meets.
\<close>

section \<open>The goroutine and the select\<close>

datatype 's waiting = Selecting | Draining | Done_with "'s err option"

datatype 's listener = Listening | Reporting "'s err option" | Exited

record 's serving =
  sv_main :: "'s waiting"
  sv_listener :: "'s listener"
  sv_chan :: "'s err option list"
  sv_stop :: bool
  sv_closed :: bool

definition serve_start :: "'s serving" where
  "serve_start = \<lparr>sv_main = Selecting, sv_listener = Listening, sv_chan = [], sv_stop = False, sv_closed = False\<rparr>"

text \<open>What may happen at any time: the signal, and a failure of ListenAndServe.\<close>

inductive serve_env :: "'s serving \<Rightarrow> 's serving \<Rightarrow> bool" where
  signal: "\<not> sv_stop s \<Longrightarrow> serve_env s (s\<lparr>sv_stop := True\<rparr>)"
| listen_fails: "sv_listener s = Listening \<Longrightarrow> serve_env s (s\<lparr>sv_listener := Reporting (Some err)\<rparr>)"

text \<open>
  What the program does. Shutdown first closes the listeners, so that ListenAndServe returns
  ErrServerClosed, and returns its own result when the requests in flight are answered or the
  time is up. Both cases of the select may be ready.
\<close>

inductive serve_step :: "'s serving \<Rightarrow> 's serving \<Rightarrow> bool" where
  listen_ends: "sv_listener s = Listening \<Longrightarrow> sv_closed s \<Longrightarrow> serve_step s (s\<lparr>sv_listener := Reporting None\<rparr>)"
| report: "sv_listener s = Reporting r \<Longrightarrow> length (sv_chan s) < 1 \<Longrightarrow>
    serve_step s (s\<lparr>sv_listener := Exited, sv_chan := sv_chan s @ [r]\<rparr>)"
| receive: "sv_main s = Selecting \<Longrightarrow> sv_chan s = r # rs \<Longrightarrow> serve_step s (s\<lparr>sv_main := Done_with r, sv_chan := rs\<rparr>)"
| shut_down: "sv_main s = Selecting \<Longrightarrow> sv_stop s \<Longrightarrow> serve_step s (s\<lparr>sv_main := Draining, sv_closed := True\<rparr>)"
| drained: "sv_main s = Draining \<Longrightarrow> serve_step s (s\<lparr>sv_main := Done_with res\<rparr>)"

inductive_cases serve_envE: "serve_env s s'"
inductive_cases serve_stepE: "serve_step s s'"

definition serve_moves :: "'s serving \<Rightarrow> 's serving \<Rightarrow> bool" where
  "serve_moves s s' \<longleftrightarrow> serve_env s s' \<or> serve_step s s'"

inductive serve_reach :: "'s serving \<Rightarrow> bool" where
  start: "serve_reach serve_start"
| move: "serve_reach s \<Longrightarrow> serve_moves s s' \<Longrightarrow> serve_reach s'"

text \<open>The goroutine reports once, and nil only to a server that was shut down after a signal.\<close>

definition serve_inv :: "'s serving \<Rightarrow> bool" where
  "serve_inv s \<longleftrightarrow>
     (sv_closed s \<longrightarrow> sv_stop s \<and> sv_main s \<noteq> Selecting)
     \<and> (sv_listener s \<noteq> Exited \<longrightarrow> sv_chan s = [])
     \<and> (sv_listener s = Reporting None \<or> None \<in> set (sv_chan s) \<longrightarrow> sv_closed s)
     \<and> (sv_main s = Draining \<longrightarrow> sv_closed s)
     \<and> (\<forall>r. sv_main s = Done_with r \<longrightarrow> sv_closed s \<or> sv_listener s = Exited \<and> r \<noteq> None)"

lemma serve_inv_reach: "serve_reach s \<Longrightarrow> serve_inv s"
proof (induction rule: serve_reach.induct)
  case start
  show ?case by (simp add: serve_inv_def serve_start_def)
next
  case (move s s')
  from move.hyps(2) show ?case unfolding serve_moves_def
  proof
    assume "serve_env s s'"
    then show ?thesis by (rule serve_envE) (use move.IH in \<open>auto simp: serve_inv_def\<close>)
  next
    assume "serve_step s s'"
    then show ?thesis
    proof (cases rule: serve_step.cases)
      case (receive r rs)
      with move.IH have "r \<noteq> None" by (cases r) (auto simp: serve_inv_def)
      with receive move.IH show ?thesis by (auto simp: serve_inv_def)
    qed (use move.IH in \<open>auto simp: serve_inv_def\<close>)
  qed
qed

text \<open>Every move uses up one of finitely many things that can happen.\<close>

definition serve_left :: "'s serving \<Rightarrow> nat" where
  "serve_left s = (if sv_stop s then 0 else 1)
     + (case sv_listener s of Listening \<Rightarrow> 2 | Reporting _ \<Rightarrow> 1 | Exited \<Rightarrow> 0)
     + (case sv_main s of Selecting \<Rightarrow> 2 | Draining \<Rightarrow> 1 | Done_with _ \<Rightarrow> 0)"

lemma serve_left_less: "serve_moves s s' \<Longrightarrow> serve_left s' < serve_left s"
  unfolding serve_moves_def by (elim disjE serve_envE serve_stepE) (auto simp: serve_left_def)

lemma serve_moves_wf: "wfp (\<lambda>s' s. serve_moves s s')"
  by (rule wfp_if_convertible_to_nat [where f = serve_left]) (rule serve_left_less)

lemma serve_stuck:
  assumes inv: "serve_inv s" and stop: "sv_stop s" and stuck: "\<And>s'. \<not> serve_step s s'"
  shows "(\<exists>r. sv_main s = Done_with r) \<and> sv_listener s = Exited"
proof
  show "\<exists>r. sv_main s = Done_with r"
    using stuck serve_step.shut_down [OF _ stop] serve_step.drained by (cases "sv_main s") blast+
  then obtain r where r: "sv_main s = Done_with r" by blast
  show "sv_listener s = Exited"
  proof (cases "sv_listener s")
    case Listening
    with inv r have "sv_closed s" by (auto simp: serve_inv_def)
    with Listening stuck serve_step.listen_ends show ?thesis by blast
  next
    case (Reporting x)
    with inv have "length (sv_chan s) < 1" by (simp add: serve_inv_def)
    with Reporting stuck serve_step.report show ?thesis by blast
  qed
qed

text \<open>C39. However the listener, the select and the signal interleave, Serve cannot go on for ever: the
  steps run out, and once the signal has arrived they run out only when Serve has returned and
  the goroutine has ended, its report never blocked. A nil result means that the signal came.\<close>

theorem Serve_ends:
  "wfp (\<lambda>s' s :: 's serving. serve_moves s s')
   \<and> (\<forall>s :: 's serving. serve_reach s \<longrightarrow> sv_stop s \<longrightarrow> (\<forall>s'. \<not> serve_step s s')
        \<longrightarrow> (\<exists>r. sv_main s = Done_with r) \<and> sv_listener s = Exited)
   \<and> (\<forall>s :: 's serving. serve_reach s \<longrightarrow> sv_main s = Done_with None \<longrightarrow> sv_stop s)"
proof (intro conjI allI impI)
  show "wfp (\<lambda>s' s :: 's serving. serve_moves s s')" by (rule serve_moves_wf)
next
  fix s :: "'s serving" assume "serve_reach s" "sv_stop s" "\<forall>s'. \<not> serve_step s s'"
  with serve_stuck [OF serve_inv_reach] show "\<exists>r. sv_main s = Done_with r" "sv_listener s = Exited" by blast+
next
  fix s :: "'s serving" assume "serve_reach s" "sv_main s = Done_with None"
  with serve_inv_reach [of s] show "sv_stop s" by (auto simp: serve_inv_def)
qed

section \<open>Serve as a function\<close>

text \<open>
  The requests with the context and the time they are handled with, a failure of ListenAndServe,
  and the signal, with the requests still in flight and what Shutdown returns.
\<close>

datatype 's serve_event =
    Incoming ctx time request
  | ListenFailed "'s err"
  | Interrupted "(ctx \<times> time \<times> request) list" "'s err option"

definition serve_request :: "(ctx \<Rightarrow> time \<Rightarrow> 'w handler) \<Rightarrow> ctx \<times> time \<times> request \<Rightarrow> 'w \<Rightarrow> 'w" where
  "serve_request h = (\<lambda>(C, now, rq) w. snd (h C now empty_rctx rq w))"

fun Serve :: "(ctx \<Rightarrow> time \<Rightarrow> 'w handler) \<Rightarrow> 's serve_event list \<Rightarrow> 'w \<Rightarrow> 's run_end \<times> 'w" where
  "Serve h [] w = (Running, w)"
| "Serve h (Incoming C now rq # es) w = Serve h es (serve_request h (C, now, rq) w)"
| "Serve h (ListenFailed err # es) w = (Returned (Some err), w)"
| "Serve h (Interrupted inflight res # es) w = (Returned res, fold (serve_request h) inflight w)"

text \<open>What the function can return, the steps can.\<close>

lemma Serve_result:
  fixes es :: "'s serve_event list"
  assumes "Serve h es w = (Returned r, w')"
  shows "\<exists>s :: 's serving. serve_reach s \<and> sv_main s = Done_with r"
  using assms
proof (induction es arbitrary: w)
  case (Cons e es)
  show ?case
  proof (cases e)
    case (Incoming C now rq)
    with Cons show ?thesis by simp
  next
    case (ListenFailed err)
  let ?s1 = "(serve_start :: 's serving)\<lparr>sv_listener := Reporting (Some err)\<rparr>"
  let ?s2 = "?s1\<lparr>sv_listener := Exited, sv_chan := [Some err]\<rparr>"
  have "serve_moves serve_start ?s1"
    unfolding serve_moves_def using serve_env.listen_fails [of "serve_start :: 's serving" err] by (simp add: serve_start_def)
  moreover have "serve_moves ?s1 ?s2"
    unfolding serve_moves_def using serve_step.report [of ?s1 "Some err"] by (simp add: serve_start_def)
  moreover have "serve_moves ?s2 (?s2\<lparr>sv_main := Done_with (Some err), sv_chan := []\<rparr>)"
    unfolding serve_moves_def using serve_step.receive [of ?s2 "Some err" "[]"] by (simp add: serve_start_def)
  ultimately have "serve_reach (?s2\<lparr>sv_main := Done_with (Some err), sv_chan := []\<rparr>)"
    by (blast intro: serve_reach.intros)
  with Cons.prems ListenFailed show ?thesis by (intro exI [of _ "?s2\<lparr>sv_main := Done_with (Some err), sv_chan := []\<rparr>"]) simp
next
    case (Interrupted inflight res)
  let ?s1 = "(serve_start :: 's serving)\<lparr>sv_stop := True\<rparr>"
  let ?s2 = "?s1\<lparr>sv_main := Draining, sv_closed := True\<rparr>"
  have "serve_moves serve_start ?s1"
    unfolding serve_moves_def using serve_env.signal [of "serve_start :: 's serving"] by (simp add: serve_start_def)
  moreover have "serve_moves ?s1 ?s2"
    unfolding serve_moves_def using serve_step.shut_down [of ?s1] by (simp add: serve_start_def)
  moreover have "serve_moves ?s2 (?s2\<lparr>sv_main := Done_with res\<rparr>)"
    unfolding serve_moves_def using serve_step.drained [of ?s2 res] by simp
  ultimately have "serve_reach (?s2\<lparr>sv_main := Done_with res\<rparr>)" by (blast intro: serve_reach.intros)
  with Cons.prems Interrupted show ?thesis by (intro exI [of _ "?s2\<lparr>sv_main := Done_with res\<rparr>"]) simp
  qed
qed simp

definition interrupts :: "'s serve_event \<Rightarrow> bool" where
  "interrupts e \<longleftrightarrow> (\<exists>rqs res. e = Interrupted rqs res)"

lemma Serve_nil: "Serve h es w = (Returned None, w') \<Longrightarrow> list_ex interrupts es"
  by (induction h es w rule: Serve.induct) (auto simp: interrupts_def)

section \<open>Witness\<close>

text \<open>The server has drained and the goroutine has left its report, which nobody reads.\<close>

definition served :: "unit serving" where
  "served = \<lparr>sv_main = Done_with None, sv_listener = Exited, sv_chan = [None], sv_stop = True, sv_closed = True\<rparr>"

lemma served_reach: "serve_reach served"
proof -
  let ?s1 = "(serve_start :: unit serving)\<lparr>sv_stop := True\<rparr>"
  let ?s2 = "?s1\<lparr>sv_main := Draining, sv_closed := True\<rparr>"
  let ?s3 = "?s2\<lparr>sv_main := Done_with None\<rparr>"
  let ?s4 = "?s3\<lparr>sv_listener := Reporting None\<rparr>"
  have moves: "serve_env s s' \<Longrightarrow> serve_moves s s'" "serve_step s s' \<Longrightarrow> serve_moves s s'" for s s' :: "unit serving"
    by (simp_all add: serve_moves_def)
  have "serve_moves serve_start ?s1" by (rule moves(1), rule serve_env.signal) (simp add: serve_start_def)
  moreover have "serve_moves ?s1 ?s2" by (rule moves(2), rule serve_step.shut_down) (simp_all add: serve_start_def)
  moreover have "serve_moves ?s2 ?s3" by (rule moves(2), rule serve_step.drained) simp
  moreover have "serve_moves ?s3 ?s4" by (rule moves(2), rule serve_step.listen_ends) (simp_all add: serve_start_def)
  moreover have "serve_moves ?s4 (?s4\<lparr>sv_listener := Exited, sv_chan := sv_chan ?s4 @ [None]\<rparr>)"
    by (rule moves(2), rule serve_step.report) (simp_all add: serve_start_def)
  moreover have "?s4\<lparr>sv_listener := Exited, sv_chan := sv_chan ?s4 @ [None]\<rparr> = served"
    by (simp add: served_def serve_start_def)
  ultimately show ?thesis by (metis serve_reach.intros)
qed

lemma served_stuck: "\<not> serve_step served s'"
  by (auto simp: served_def elim: serve_stepE)

theorem Serve_ends_witness: "serve_reach served \<and> (\<exists>r. sv_main served = Done_with r) \<and> sv_listener served = Exited"
proof -
  have "sv_stop served" by (simp add: served_def)
  with Serve_ends [THEN conjunct2, THEN conjunct1] served_reach served_stuck show ?thesis by blast
qed

end
