(* ===== verification/Order_Clients.thy ===== *)
theory Order_Clients
  imports Order_Ports Http
begin

text \<open>
  The order service's HTTP clients: services/order/internal/infra/inventory/client.go,
  infra/payment/client.go and the stub gateway infra/payment/stub.go. \<open>send\<close> is the transport
  (http.Client.Do and the server behind it) over some state: no reply within the timeout, a
  reply whose body cannot be read, or a reply. The base URL is part of \<open>send\<close>.
\<close>

datatype http_result = NoReply | Unreadable nat | Reply response

type_synonym 'w transport = "request \<Rightarrow> 'w \<Rightarrow> http_result \<times> 'w"

section \<open>The inventory client\<close>

record errorEnvelope =
  ee_Code :: string
  ee_Message :: string

text \<open>
  json.Unmarshal into the envelope with its error ignored: a field of the wrong type is skipped,
  the fields after it are still read.
\<close>

fun last_string :: "string \<Rightarrow> (string \<times> json) list \<Rightarrow> string \<Rightarrow> string" where
  "last_string k [] a = a"
| "last_string k ((k', JStr s) # kvs) a = last_string k kvs (if fold_eq k k' then s else a)"
| "last_string k ((k', _) # kvs) a = last_string k kvs a"

fun read_errors :: "(string \<times> json) list \<Rightarrow> errorEnvelope \<Rightarrow> errorEnvelope" where
  "read_errors [] e = e"
| "read_errors ((k, JObj kvs) # rest) e =
     read_errors rest
       (if fold_eq ''error'' k
        then \<lparr>ee_Code = last_string ''code'' kvs (ee_Code e), ee_Message = last_string ''message'' kvs (ee_Message e)\<rparr>
        else e)"
| "read_errors ((k, _) # rest) e = read_errors rest e"

definition read_envelope :: "body \<Rightarrow> errorEnvelope" where
  "read_envelope b =
     (case b of Some (JObj kvs) \<Rightarrow> read_errors kvs \<lparr>ee_Code = [], ee_Message = []\<rparr>
      | _ \<Rightarrow> \<lparr>ee_Code = [], ee_Message = []\<rparr>)"

definition client_request :: "ctx \<Rightarrow> string \<Rightarrow> string \<Rightarrow> body \<Rightarrow> request" where
  "client_request C method path b =
     \<lparr>rq_Method = method, rq_Path = path,
      rq_Headers = fold (\<lambda>(k, v). Header_Set k v) (ctx_propagated C)
                     (case b of None \<Rightarrow> [] | Some _ \<Rightarrow> [(''Content-Type'', ''application/json'')]),
      rq_Body = b\<rparr>"

definition client_do ::
  "'w transport \<Rightarrow> ctx \<Rightarrow> string \<Rightarrow> string \<Rightarrow> body \<Rightarrow> ('w, order_sentinel, nat \<times> errorEnvelope) prog" where
  "client_do send C method path b w =
     (case send (client_request C method path b) w of
        (NoReply, w') \<Rightarrow> (Inl (Wrapf ''call inventory'' (Foreign ''http'')), w')
      | (Unreadable status, w') \<Rightarrow> (Inl (Wrapf ''read inventory response'' (Foreign ''http'')), w')
      | (Reply rp, w') \<Rightarrow> (Inr (rp_Status rp, read_envelope (rp_Body rp)), w'))"

definition enc_reserve_line :: "ReserveLine \<Rightarrow> json" where
  "enc_reserve_line l = JObj [(''sku'', JStr (rl_SKU l)), (''quantity'', enc_int32 (rl_Quantity l))]"

definition enc_reserve_request :: "string \<Rightarrow> ReserveLine list \<Rightarrow> json" where
  "enc_reserve_request orderID ls =
     JObj [(''orderId'', JStr orderID), (''lines'', JArr (map enc_reserve_line ls))]"

definition reserve_outcome :: "nat \<times> errorEnvelope \<Rightarrow> oerr + unit" where
  "reserve_outcome = (\<lambda>(status, env).
     if 200 \<le> status \<and> status < 300 then Inr ()
     else if status = 409 \<and> ee_Code env = ''CONFLICT'' then Inl (Foreign ''inventory concurrency conflict'')
     else if 400 \<le> status \<and> status < 500 then Inl (Detailf ErrReservationRejected (ee_Message env))
     else Inl (Foreign ''inventory reserve failed''))"

definition Client_Reserve ::
  "'w transport \<Rightarrow> ctx \<Rightarrow> string \<Rightarrow> ReserveLine list \<Rightarrow> ('w, order_sentinel, unit) prog" where
  "Client_Reserve send C orderID ls =
     and_then (client_do send C ''POST'' ''/v1/reservations'' (Some (enc_reserve_request orderID ls)))
       (\<lambda>p. of_result (reserve_outcome p))"

definition transition_outcome :: "nat \<times> errorEnvelope \<Rightarrow> oerr + unit" where
  "transition_outcome = (\<lambda>(status, env).
     if 200 \<le> status \<and> status < 300 then Inr ()
     else if status = 409 \<and> ee_Code env = ''INVALID_STATE'' then Inr ()
     else Inl (Foreign ''inventory transition failed''))"

definition Client_transition ::
  "'w transport \<Rightarrow> ctx \<Rightarrow> string \<Rightarrow> string \<Rightarrow> ('w, order_sentinel, unit) prog" where
  "Client_transition send C orderID action =
     and_then (client_do send C ''POST'' (''/v1/reservations/'' @ orderID @ ''/'' @ action) None)
       (\<lambda>p. of_result (transition_outcome p))"

definition Client_Release :: "'w transport \<Rightarrow> ctx \<Rightarrow> string \<Rightarrow> ('w, order_sentinel, unit) prog" where
  "Client_Release send C orderID = Client_transition send C orderID ''release''"

definition Client_Commit :: "'w transport \<Rightarrow> ctx \<Rightarrow> string \<Rightarrow> ('w, order_sentinel, unit) prog" where
  "Client_Commit send C orderID = Client_transition send C orderID ''commit''"

section \<open>The payment client\<close>

definition enc_captureRequest :: "PaymentRequest \<Rightarrow> json" where
  "enc_captureRequest req =
     JObj [(''orderId'', JStr (pr_OrderID req)), (''amountMinor'', enc_int64 (pr_AmountMinor req)),
           (''currency'', JStr (pr_Currency req))]"

record captureResponse =
  cr_PaymentID :: string
  cr_OrderID :: string
  cr_Status :: string
  cr_ProviderReference :: string
  cr_Approved :: bool
  cr_DeclineReason :: string

definition dec_captureResponse :: "captureResponse dec" where
  "dec_captureResponse = dec_struct (\<lambda>kvs r.
     Option.bind (dec_field ''paymentId'' dec_string kvs (cr_PaymentID r)) (\<lambda>p.
     Option.bind (dec_field ''orderId'' dec_string kvs (cr_OrderID r)) (\<lambda>i.
     Option.bind (dec_field ''status'' dec_string kvs (cr_Status r)) (\<lambda>s.
     Option.bind (dec_field ''providerReference'' dec_string kvs (cr_ProviderReference r)) (\<lambda>f.
     Option.bind (dec_field ''approved'' dec_bool kvs (cr_Approved r)) (\<lambda>a.
     Option.bind (dec_field ''declineReason'' dec_string kvs (cr_DeclineReason r)) (\<lambda>d.
       Some \<lparr>cr_PaymentID = p, cr_OrderID = i, cr_Status = s, cr_ProviderReference = f,
             cr_Approved = a, cr_DeclineReason = d\<rparr>)))))))"

definition zero_captureResponse :: captureResponse where
  "zero_captureResponse = \<lparr>cr_PaymentID = [], cr_OrderID = [], cr_Status = [], cr_ProviderReference = [],
     cr_Approved = False, cr_DeclineReason = []\<rparr>"

text \<open>What a reply means; an error says whether it is worth a retry.\<close>

definition capture_outcome :: "http_result \<Rightarrow> (oerr \<times> bool) + PaymentResult" where
  "capture_outcome res =
     (case res of
        NoReply \<Rightarrow> Inl (Wrapf ''call payment service'' (Foreign ''http''), True)
      | Unreadable _ \<Rightarrow> Inl (Wrapf ''read payment response'' (Foreign ''http''), True)
      | Reply rp \<Rightarrow>
          if 500 \<le> rp_Status rp \<or> rp_Status rp = 429 then Inl (Foreign ''payment service status'', True)
          else if rp_Status rp < 200 \<or> 300 \<le> rp_Status rp then Inl (Foreign ''payment service status'', False)
          else
            (case json_Unmarshal dec_captureResponse zero_captureResponse (rp_Body rp) of
               None \<Rightarrow> Inl (Wrapf ''decode payment response'' (Foreign ''json.Unmarshal''), False)
             | Some out \<Rightarrow>
                 Inr (if cr_Approved out
                      then \<lparr>py_Reference = cr_ProviderReference out, py_Approved = True, py_Decline = []\<rparr>
                      else \<lparr>py_Reference = [], py_Approved = False, py_Decline = cr_DeclineReason out\<rparr>)))"

definition Payment_authorizeOnce ::
  "'w transport \<Rightarrow> ctx \<Rightarrow> body \<Rightarrow> 'w \<Rightarrow> ((oerr \<times> bool) + PaymentResult) \<times> 'w" where
  "Payment_authorizeOnce send C raw w =
     (case send (client_request C ''POST'' ''/v1/payments'' raw) w of (res, w') \<Rightarrow> (capture_outcome res, w'))"

definition maxAttempts :: nat where
  "maxAttempts = 4"

text \<open>\<open>stopped k\<close>: the context is cancelled during the pause after the \<open>k\<close>-th attempt. The first
  argument counts the attempts left.\<close>

fun authorize_loop ::
  "nat \<Rightarrow> (nat \<Rightarrow> bool) \<Rightarrow> ('w \<Rightarrow> ((oerr \<times> bool) + PaymentResult) \<times> 'w) \<Rightarrow> nat
   \<Rightarrow> ('w, order_sentinel, PaymentResult) prog" where
  "authorize_loop 0 stopped once attempt = fail (Foreign ''payment service unavailable'')"
| "authorize_loop (Suc n) stopped once attempt = (\<lambda>w.
     (case once w of
        (Inr res, w') \<Rightarrow> (Inr res, w')
      | (Inl (err, retryable), w') \<Rightarrow>
          if \<not> retryable then (Inl err, w')
          else if n = 0 then (Inl (Wrapf ''payment service unavailable'' err), w')
          else if stopped attempt then (Inl (Foreign ''context canceled''), w')
          else authorize_loop n stopped once (attempt + 1) w'))"

definition Payment_Authorize ::
  "'w transport \<Rightarrow> ctx \<Rightarrow> (nat \<Rightarrow> bool) \<Rightarrow> PaymentRequest \<Rightarrow> ('w, order_sentinel, PaymentResult) prog" where
  "Payment_Authorize send C stopped req =
     authorize_loop maxAttempts stopped (Payment_authorizeOnce send C (Some (enc_captureRequest req))) 1"

section \<open>The stub gateway\<close>

definition stub_declines :: "string \<Rightarrow> bool" where
  "stub_declines outcome = fold_eq (TrimSpace outcome) ''decline''"

definition Stub_Authorize :: "golib \<Rightarrow> string \<Rightarrow> PaymentRequest \<Rightarrow> ('db, order_sentinel, PaymentResult) act" where
  "Stub_Authorize L outcome req =
     (if stub_declines outcome
      then ok \<lparr>py_Reference = [], py_Approved = False, py_Decline = ''stub gateway configured to decline''\<rparr>
      else and_then (new_uuid L) (\<lambda>u.
             ok \<lparr>py_Reference = ''stub-'' @ uuid_String L u, py_Approved = True, py_Decline = []\<rparr>))"

section \<open>Replies\<close>

text \<open>The envelope the services write is the one the client reads.\<close>

lemma read_error_envelope:
  "read_envelope (Some (error_envelope code message cx)) = \<lparr>ee_Code = code, ee_Message = message\<rparr>"
  by (simp add: read_envelope_def error_envelope_def Let_def lower_char_def)

section \<open>Retries\<close>

text \<open>The outcomes of \<open>n\<close> calls in a row.\<close>

fun calls :: "('w \<Rightarrow> 'o \<times> 'w) \<Rightarrow> nat \<Rightarrow> 'w \<Rightarrow> 'o list \<times> 'w" where
  "calls once 0 w = ([], w)"
| "calls once (Suc n) w =
     (case once w of (out, w1) \<Rightarrow> (case calls once n w1 of (outs, w') \<Rightarrow> (out # outs, w')))"

fun retryable :: "((oerr \<times> bool) + PaymentResult) \<Rightarrow> bool" where
  "retryable (Inl (err, b)) = b"
| "retryable (Inr res) = False"

text \<open>What Authorize returns when \<open>out\<close> is the outcome of its last call.\<close>

fun final :: "nat \<Rightarrow> ((oerr \<times> bool) + PaymentResult) \<Rightarrow> oerr + PaymentResult" where
  "final left (Inr res) = Inr res"
| "final left (Inl (err, b)) =
     (if \<not> b then Inl err
      else if left = 0 then Inl (Wrapf ''payment service unavailable'' err)
      else Inl (Foreign ''context canceled''))"

lemma authorize_loop_calls:
  "authorize_loop (Suc left) stopped once attempt w = (r, w') \<Longrightarrow>
   \<exists>n outs out. n \<le> left \<and> calls once (Suc n) w = (outs @ [out], w') \<and> list_all retryable outs
     \<and> r = final (left - n) out \<and> (retryable out \<longrightarrow> n = left \<or> stopped (attempt + n))"
proof (induction left arbitrary: attempt w)
  case 0
  then show ?case
    by (intro exI [of _ 0] exI [of _ "[]"]) (auto split: prod.splits sum.splits if_splits)
next
  case (Suc left)
  obtain out w1 where c: "once w = (out, w1)" by fastforce
  show ?case
  proof (cases "retryable out \<and> \<not> stopped attempt")
    case True
    then obtain err where out: "out = Inl (err, True)" by (cases out) auto
    then have "authorize_loop (Suc left) stopped once (attempt + 1) w1 = (r, w')"
      using Suc.prems c True by simp
    from Suc.IH [OF this] obtain n outs last where
      "n \<le> left" "calls once (Suc n) w1 = (outs @ [last], w')" "list_all retryable outs"
      "r = final (left - n) last" "retryable last \<longrightarrow> n = left \<or> stopped (attempt + 1 + n)" by blast
    then show ?thesis using c out
      by (intro exI [of _ "Suc n"] exI [of _ "out # outs"] exI [of _ last]) auto
  next
    case False
    then show ?thesis using Suc.prems c
      by (intro exI [of _ 0] exI [of _ "[]"] exI [of _ out])
        (auto split: sum.splits if_splits)
  qed
qed

text \<open>C15. Authorize calls the payment service at least once and at most four times, with the same body
  each time, and only goes on after a transient failure (no answer, 5xx or 429); what it returns is
  what the last call answered. It gives up with a transient failure only after the fourth call or
  when its context is cancelled during a pause.\<close>

theorem payment_calls_bounded:
  "case Payment_Authorize send C stopped req w of (r, w') \<Rightarrow>
     \<exists>n outs out. n < 4
       \<and> calls (Payment_authorizeOnce send C (Some (enc_captureRequest req))) (Suc n) w = (outs @ [out], w')
       \<and> list_all retryable outs \<and> r = final (3 - n) out
       \<and> (if retryable out then n = 3 \<or> stopped (Suc n) else True)"
proof -
  obtain r w' where run: "Payment_Authorize send C stopped req w = (r, w')" by fastforce
  have "maxAttempts = Suc 3" by (simp add: maxAttempts_def)
  with run authorize_loop_calls [of 3 stopped _ 1 w r w'] obtain n outs out where
    "n \<le> 3" "calls (Payment_authorizeOnce send C (Some (enc_captureRequest req))) (Suc n) w = (outs @ [out], w')"
    "list_all retryable outs" "r = final (3 - n) out" "retryable out \<longrightarrow> n = 3 \<or> stopped (1 + n)"
    by (simp only: Payment_Authorize_def) blast
  then show ?thesis
    unfolding run prod.case by (intro exI [of _ n] exI [of _ outs] exI [of _ out] conjI) (simp_all del: calls.simps)
qed

end
