(* ===== verification/Saga_Safety.thy ===== *)
theory Saga_Safety
  imports Saga Inventory_Domain
begin

text \<open>
  What the orchestrator promises, over an interface: the locale \<open>saga_services\<close> states what the
  saga relies on in inventory, payment, the order commands and its store, each call being
  carried out, refused, or carried out without an answer. One order is followed: \<open>status\<close> is its
  status in the event store, \<open>resv\<close> its reservation, \<open>rec\<close> the saga's record. A run may fail
  anywhere and be repeated.
\<close>

section \<open>Consistency\<close>

text \<open>The states the four services can be in together, by the state of the saga's record.\<close>

fun saga_at :: "bool \<Rightarrow> SagaState option \<Rightarrow> ReservationStatus option \<Rightarrow> Status \<Rightarrow> bool" where
  "saga_at approves None rv st = (rv = None \<and> st = StatusPending)"
| "saga_at approves (Some StateStarted) rv st =
     (rv \<in> {None, Some StatusHeld} \<and> st \<in> {StatusPending, StatusCancelled})"
| "saga_at approves (Some StateReserved) rv st =
     (rv \<in> {Some StatusHeld, Some StatusReleased} \<and> (approves \<longrightarrow> rv = Some StatusHeld)
      \<and> st \<in> {StatusPending, StatusCancelled})"
| "saga_at approves (Some StatePaid) rv st =
     (approves \<and> rv \<in> {Some StatusHeld, Some StatusCommitted}
      \<and> st \<in> {StatusPending, StatusConfirmed, StatusCancelled} \<and> (st = StatusConfirmed \<longrightarrow> rv = Some StatusCommitted))"
| "saga_at approves (Some StateCompleted) rv st =
     (approves \<and> rv = Some StatusCommitted \<and> st = StatusConfirmed)"
| "saga_at approves (Some StateCancelled) rv st =
     (rv \<in> {None, Some StatusReleased} \<and> st = StatusCancelled)"
| "saga_at approves (Some (StateOther s)) rv st = False"

text \<open>Whatever the saga's record says, a confirmed order has its stock committed and its payment
  approved.\<close>

lemma saga_at_confirmed: "saga_at a s rv StatusConfirmed \<Longrightarrow> a \<and> rv = Some StatusCommitted"
proof (cases s)
  case (Some x)
  then show "saga_at a s rv StatusConfirmed \<Longrightarrow> a \<and> rv = Some StatusCommitted" by (cases x) auto
qed simp

section \<open>The interface\<close>

locale saga_services =
  fixes P :: "'w ports" and event :: OrderPlacedV1 and approves :: bool
    and inv :: "'w \<Rightarrow> bool" and status :: "'w \<Rightarrow> Status" and resv :: "'w \<Rightarrow> ReservationStatus option"
    and saved :: "'w \<Rightarrow> Instance option"
  assumes reserve: "po_Reserve P (op_OrderID event)
        (map (\<lambda>it. \<lparr>rl_SKU = wl_SKU it, rl_Quantity = wl_Quantity it\<rparr>) (op_Items event)) w = (r, w') \<Longrightarrow> inv w \<Longrightarrow>
      inv w' \<and> status w' = status w \<and> saved w' = saved w
      \<and> (resv w' = resv w \<or> resv w = None \<and> resv w' = Some StatusHeld)
      \<and> (r = Inr () \<longrightarrow> resv w' \<noteq> None)
      \<and> (\<forall>e. r = Inl e \<and> errors_Is e ErrReservationRejected \<longrightarrow> resv w' = None)"
    and release: "po_Release P (op_OrderID event) w = (r, w') \<Longrightarrow> inv w \<Longrightarrow>
      inv w' \<and> status w' = status w \<and> saved w' = saved w
      \<and> (resv w' = resv w \<or> resv w = Some StatusHeld \<and> resv w' = Some StatusReleased)
      \<and> (r = Inr () \<longrightarrow> resv w' = Some StatusReleased \<or> resv w' = Some StatusCommitted)"
    and commit: "po_Commit P (op_OrderID event) w = (r, w') \<Longrightarrow> inv w \<Longrightarrow>
      inv w' \<and> status w' = status w \<and> saved w' = saved w
      \<and> (resv w' = resv w \<or> resv w = Some StatusHeld \<and> resv w' = Some StatusCommitted)
      \<and> (r = Inr () \<longrightarrow> resv w' = Some StatusReleased \<or> resv w' = Some StatusCommitted)"
    and authorize: "po_Authorize P req w = (r', w') \<Longrightarrow> pr_OrderID req = op_OrderID event \<Longrightarrow> inv w \<Longrightarrow>
      inv w' \<and> status w' = status w \<and> saved w' = saved w \<and> resv w' = resv w
      \<and> (\<forall>res. r' = Inr res \<longrightarrow> py_Approved res = approves)"
    and confirm: "po_Confirm P (op_OrderID event) w = (r, w') \<Longrightarrow> inv w \<Longrightarrow>
      inv w' \<and> saved w' = saved w \<and> resv w' = resv w
      \<and> (status w' = status w \<or> status w = StatusPending \<and> status w' = StatusConfirmed)
      \<and> (r = Inr () \<longrightarrow> status w' = StatusConfirmed)"
    and cancel: "po_Cancel P (op_OrderID event) reason w = (r, w') \<Longrightarrow> inv w \<Longrightarrow>
      inv w' \<and> saved w' = saved w \<and> resv w' = resv w
      \<and> (status w' = status w \<or> status w = StatusPending \<and> status w' = StatusCancelled)
      \<and> (r = Inr () \<longrightarrow> status w' = StatusCancelled)"
    and load: "po_Load P (op_OrderID event) w = (r'', w') \<Longrightarrow> inv w \<Longrightarrow>
      inv w' \<and> status w' = status w \<and> saved w' = saved w \<and> resv w' = resv w
      \<and> (\<forall>i. r'' = Inr i \<longrightarrow> i = saved w)"
    and save: "po_Save P i w = (r, w') \<Longrightarrow> inv w \<Longrightarrow> in_OrderID i = op_OrderID event \<Longrightarrow>
      (\<And>s. in_State i \<noteq> StateOther s) \<Longrightarrow>
      inv w' \<and> status w' = status w \<and> resv w' = resv w \<and> (saved w' = saved w \<or> saved w' = Some i)
      \<and> (r = Inr () \<longrightarrow> saved w' = Some i)"
begin

text \<open>All services together are consistent, and the record is about this order.\<close>

definition fine :: "'w \<Rightarrow> bool" where
  "fine w \<longleftrightarrow> inv w \<and> (\<forall>i. saved w = Some i \<longrightarrow> in_OrderID i = op_OrderID event)
     \<and> saga_at approves (map_option in_State (saved w)) (resv w) (status w)"

text \<open>\<open>m\<close>, started where \<open>A\<close> holds, leaves everything consistent, and \<open>B\<close> holds of its result.\<close>

definition sat :: "('w \<Rightarrow> bool) \<Rightarrow> ('w, order_sentinel, 'a) prog \<Rightarrow> ('a \<Rightarrow> 'w \<Rightarrow> bool) \<Rightarrow> bool" where
  "sat A m B \<longleftrightarrow> (\<forall>w r w'. m w = (r, w') \<longrightarrow> A w \<longrightarrow> fine w \<longrightarrow> fine w' \<and> (\<forall>a. r = Inr a \<longrightarrow> B a w'))"

lemma sat_ok: "(\<And>w. A w \<Longrightarrow> fine w \<Longrightarrow> B a w) \<Longrightarrow> sat A (ok a) B"
  by (simp add: sat_def ok_def)

lemma sat_wrap: "sat A m B \<Longrightarrow> sat A (map_err h m) B"
  unfolding sat_def map_err_def by (fastforce split: prod.splits sum.splits)

lemma sat_and_then: "sat A m B \<Longrightarrow> (\<And>a. sat (B a) (f a) C) \<Longrightarrow> sat A (and_then m f) C"
  unfolding sat_def and_then_def by (fastforce split: prod.splits sum.splits)

lemma sat_if: "(b \<Longrightarrow> sat A m B) \<Longrightarrow> (\<not> b \<Longrightarrow> sat A n B) \<Longrightarrow> sat A (if b then m else n) B"
  by simp

lemma sat_pre: "sat A' m B \<Longrightarrow> (\<And>w. A w \<Longrightarrow> fine w \<Longrightarrow> A' w) \<Longrightarrow> sat A m B"
  unfolding sat_def by blast

lemma sat_post: "sat A m B' \<Longrightarrow> (\<And>a w. B' a w \<Longrightarrow> B a w) \<Longrightarrow> sat A m B"
  unfolding sat_def by blast

lemma sat_case:
  "(x = None \<Longrightarrow> sat A m B) \<Longrightarrow> (\<And>a. x = Some a \<Longrightarrow> sat A (f a) B)
   \<Longrightarrow> sat A (case x of None \<Rightarrow> m | Some a \<Rightarrow> f a) B"
  by (cases x) simp_all

lemmas sat_rules = sat_ok sat_wrap sat_and_then sat_if sat_case

text \<open>The record is in the state of the instance at hand.\<close>

definition at :: "Instance \<Rightarrow> 'w \<Rightarrow> bool" where
  "at i w \<longleftrightarrow> saved w = Some i"

lemma save_sat:
  assumes i: "in_OrderID i = op_OrderID event" "\<And>s. in_State i \<noteq> StateOther s"
    and A: "\<And>w. A w \<Longrightarrow> fine w \<Longrightarrow> saga_at approves (Some (in_State i)) (resv w) (status w)"
  shows "sat A (po_Save P i) (\<lambda>_. at i)"
  unfolding sat_def
proof (intro allI impI)
  fix w r w' assume run: "po_Save P i w = (r, w')" and a: "A w" and f: "fine w"
  from save [OF run _ i] f have "inv w' \<and> status w' = status w \<and> resv w' = resv w
      \<and> (saved w' = saved w \<or> saved w' = Some i) \<and> (r = Inr () \<longrightarrow> saved w' = Some i)"
    by (simp add: fine_def)
  then show "fine w' \<and> (\<forall>a. r = Inr a \<longrightarrow> at i w')"
    using A [OF a f] f i(1) by (auto simp: fine_def at_def)
qed

lemma start_sat:
  "sat (\<lambda>_. True) (saga_start P (op_OrderID event)) at"
  unfolding saga_start_def
proof (rule sat_and_then [OF sat_wrap])
  show "sat (\<lambda>_. True) (po_Load P (op_OrderID event)) (\<lambda>x w. x = saved w)"
    unfolding sat_def
  proof (intro allI impI)
    fix w r w' assume "po_Load P (op_OrderID event) w = (r, w')" "fine w"
    with load [of w r w'] show "fine w' \<and> (\<forall>a. r = Inr a \<longrightarrow> a = saved w')"
      unfolding fine_def by auto
  qed
  fix found
  show "sat (\<lambda>w. found = saved w)
     (case found of None \<Rightarrow>
        and_then (wrap_err ''save saga'' (po_Save P (NewInstance (op_OrderID event)))) (\<lambda>_. ok (NewInstance (op_OrderID event)))
      | Some inst \<Rightarrow> ok inst) at"
    by (rule sat_case, rule sat_and_then [OF sat_wrap [OF save_sat]])
      (auto simp: NewInstance_def at_def fine_def intro!: sat_ok)
qed

text \<open>Compensation: the order is cancelled first, then the record.\<close>

lemma cancel_sat:
  assumes i: "in_OrderID i = op_OrderID event"
    and A: "\<And>w. A w \<Longrightarrow> at i' w \<and> in_State i' \<in> {StateStarted, StateReserved} \<and> resv w \<in> {None, Some StatusReleased}"
  shows "sat A (saga_cancel P i reason) (\<lambda>_ w. \<exists>j. at j w \<and> Terminal j)"
  unfolding saga_cancel_def
proof (rule sat_and_then [OF sat_wrap])
  show "sat A (po_Cancel P (in_OrderID i) reason)
     (\<lambda>_ w. status w = StatusCancelled \<and> resv w \<in> {None, Some StatusReleased})"
    unfolding sat_def i
  proof (intro allI impI)
    fix w r w' assume run: "po_Cancel P (op_OrderID event) reason w = (r, w')" and a: "A w" and f: "fine w"
    note c = cancel [OF run]
    have "in_State i' = StateStarted \<or> in_State i' = StateReserved" "saved w = Some i'"
      "resv w = None \<or> resv w = Some StatusReleased"
      using A [OF a] by (auto simp: at_def)
    then show "fine w' \<and> (\<forall>a. r = Inr a \<longrightarrow> status w' = StatusCancelled \<and> resv w' \<in> {None, Some StatusReleased})"
      using c f by (auto simp: fine_def)
  qed
  let ?j = "i\<lparr>in_State := StateCancelled, in_Reason := reason\<rparr>"
  have "sat (\<lambda>w. status w = StatusCancelled \<and> resv w \<in> {None, Some StatusReleased}) (po_Save P ?j) (\<lambda>_. at ?j)"
    by (rule save_sat) (auto simp: i)
  then show "sat (\<lambda>w. status w = StatusCancelled \<and> resv w \<in> {None, Some StatusReleased})
     (wrap_err ''save saga'' (po_Save P ?j)) (\<lambda>_ w. \<exists>j. at j w \<and> Terminal j)"
    by (intro sat_wrap, elim sat_post) (auto simp: Terminal_def intro!: exI [of _ ?j])
qed

text \<open>\<open>done\<close>: the saga has ended.\<close>

definition ended :: "'w \<Rightarrow> bool" where
  "ended w \<longleftrightarrow> (\<exists>j. at j w \<and> Terminal j)"

lemma reserve_sat:
  "sat (\<lambda>w. at i w) (step_reserve P event i)
     (\<lambda>x w. case x of None \<Rightarrow> ended w | Some j \<Rightarrow> at j w \<and> in_State j \<noteq> StateStarted)"
proof (cases "in_State i = StateStarted")
  case False
  then show ?thesis by (auto simp: step_reserve_def intro!: sat_ok)
next
  case True
  let ?lines = "map (\<lambda>it. \<lparr>rl_SKU = wl_SKU it, rl_Quantity = wl_Quantity it\<rparr>) (op_Items event)"
  let ?j = "i\<lparr>in_State := StateReserved, in_ReservationHeld := True\<rparr>"
  show ?thesis unfolding sat_def
  proof (intro allI impI)
    fix w r w' assume run: "step_reserve P event i w = (r, w')" and at: "at i w" and f: "fine w"
    obtain r1 w1 where r1: "po_Reserve P (op_OrderID event) ?lines w = (r1, w1)" by fastforce
    have i: "in_OrderID i = op_OrderID event" "saved w = Some i" using at f by (auto simp: at_def fine_def)
    note law = reserve [OF r1]
    have f1: "fine w1" and at1: "at i w1" and res: "r1 = Inr () \<Longrightarrow> resv w1 = Some StatusHeld"
      using law f i True by (auto simp: fine_def at_def)
    show "fine w' \<and> (\<forall>x. r = Inr x \<longrightarrow> (case x of None \<Rightarrow> ended w' | Some j \<Rightarrow> at j w' \<and> in_State j \<noteq> StateStarted))"
    proof (cases r1)
      case (Inl e)
      show ?thesis
      proof (cases "errors_Is e ErrReservationRejected")
        case rej: True
        let ?A = "\<lambda>w. at i w \<and> in_State i \<in> {StateStarted, StateReserved} \<and> resv w \<in> {None, Some StatusReleased}"
        have "sat ?A (and_then (saga_cancel P i ''inventory reservation rejected'') (\<lambda>_. ok None))
            (\<lambda>x w. x = None \<and> ended w)"
          by (rule sat_and_then [OF cancel_sat [OF i(1), where i' = i]]) (auto simp: ended_def intro!: sat_ok)
        moreover have "?A w1" using law f at1 True rej Inl by (auto simp: fine_def)
        moreover have "and_then (saga_cancel P i ''inventory reservation rejected'') (\<lambda>_. ok None) w1 = (r, w')"
          using run r1 Inl rej True by (simp add: step_reserve_def)
        ultimately show ?thesis using f1 unfolding sat_def by fastforce
      next
        case False
        then show ?thesis using run r1 Inl True f1 by (auto simp: step_reserve_def)
      qed
    next
      case (Inr u)
      then have held: "resv w1 = Some StatusHeld" using res by simp
      have sv: "sat (\<lambda>w. at i w \<and> resv w = Some StatusHeld)
          (and_then (wrap_err ''save saga'' (po_Save P ?j)) (\<lambda>_. ok (Some ?j))) (\<lambda>x w. x = Some ?j \<and> at ?j w)"
        by (rule sat_and_then [OF sat_wrap [OF save_sat]])
          (use i True in \<open>auto simp: at_def fine_def intro!: sat_ok\<close>)
      have "and_then (wrap_err ''save saga'' (po_Save P ?j)) (\<lambda>_. ok (Some ?j)) w1 = (r, w')"
        using run r1 Inr True by (simp add: step_reserve_def Let_def)
      then show ?thesis using sv held at1 f1 unfolding sat_def by fastforce
    qed
  qed
qed

lemma pay_sat:
  "sat (\<lambda>w. at i w \<and> in_State i \<noteq> StateStarted) (step_pay P event i)
     (\<lambda>x w. case x of None \<Rightarrow> ended w | Some j \<Rightarrow> at j w \<and> in_State j \<notin> {StateStarted, StateReserved})"
proof (cases "in_State i = StateReserved")
  case False
  then show ?thesis by (auto simp: step_pay_def intro!: sat_ok)
next
  case True
  let ?Q = "\<lambda>x w. case x of None \<Rightarrow> ended w | Some j \<Rightarrow> at j w \<and> in_State j \<notin> {StateStarted, StateReserved}"
  let ?A = "\<lambda>w. at i w \<and> in_OrderID i = op_OrderID event"
  have auth: "sat ?A (wrap_err ''authorize payment'' (po_Authorize P req))
      (\<lambda>res w. ?A w \<and> py_Approved res = approves)" if "pr_OrderID req = op_OrderID event" for req
  proof (rule sat_wrap, unfold sat_def, intro allI impI)
    fix w r w' assume "po_Authorize P req w = (r, w')" "?A w" "fine w"
    with authorize [of req w r w'] that show "fine w' \<and> (\<forall>a. r = Inr a \<longrightarrow> ?A w' \<and> py_Approved a = approves)"
      unfolding fine_def at_def by auto
  qed
  have rel: "sat (\<lambda>w. ?A w \<and> \<not> approves) (wrap_err ''release after decline'' (po_Release P (op_OrderID event)))
      (\<lambda>_ w. ?A w \<and> resv w = Some StatusReleased)"
  proof (rule sat_wrap, unfold sat_def, intro allI impI)
    fix w r w' assume "po_Release P (op_OrderID event) w = (r, w')" "?A w \<and> \<not> approves" "fine w"
    with release [of w r w'] True
    show "fine w' \<and> (\<forall>a. r = Inr a \<longrightarrow> ?A w' \<and> resv w' = Some StatusReleased)"
      unfolding fine_def at_def by auto
  qed
  have can: "sat (\<lambda>w. ?A w \<and> resv w = Some StatusReleased)
      (and_then (saga_cancel P (i\<lparr>in_ReservationHeld := False\<rparr>) reason) (\<lambda>_. ok None)) ?Q"
    if "in_OrderID i = op_OrderID event" for reason
    by (rule sat_and_then [OF cancel_sat [where i' = i]]) (use that True in \<open>auto simp: ended_def intro!: sat_ok\<close>)
  let ?j = "\<lambda>res. i\<lparr>in_State := StatePaid, in_PaymentRef := py_Reference res\<rparr>"
  have paid: "sat (\<lambda>w. ?A w \<and> approves)
      (and_then (wrap_err ''save saga'' (po_Save P (?j res))) (\<lambda>_. ok (Some (?j res)))) ?Q"
    if "in_OrderID i = op_OrderID event" for res
    by (rule sat_and_then [OF sat_wrap [OF save_sat]], unfold fine_def at_def)
      (use that True in \<open>auto intro!: sat_ok\<close>)
  have body: "sat ?A (step_pay P event i) ?Q" if i: "in_OrderID i = op_OrderID event"
    unfolding step_pay_def Let_def
    by (rule sat_if, simp add: True, rule sat_and_then [OF auth], simp, rule sat_if)
      (rule sat_and_then [OF sat_pre [OF rel] can [OF i]], simp, rule sat_pre [OF paid [OF i]], simp)
  show ?thesis
  proof (cases "in_OrderID i = op_OrderID event")
    case True
    then show ?thesis by (intro sat_pre [OF body]) simp_all
  next
    case False
    then show ?thesis by (auto simp: sat_def at_def fine_def)
  qed
qed

lemma commit_sat:
  "sat (\<lambda>w. at i w \<and> in_State i \<notin> {StateStarted, StateReserved}) (step_commit P event i) (\<lambda>_. ended)"
proof (cases "in_State i = StatePaid")
  case False
  then have "in_State i \<notin> {StateStarted, StateReserved} \<Longrightarrow> saga_at a (Some (in_State i)) rv st \<Longrightarrow> Terminal i" for a rv st
    by (cases "in_State i") (auto simp: Terminal_def)
  then show ?thesis using False
    by (fastforce simp: step_commit_def ended_def at_def fine_def intro!: sat_ok)
next
  case True
  let ?A = "\<lambda>w. at i w \<and> in_OrderID i = op_OrderID event"
  have com: "sat ?A (wrap_err ''commit stock'' (po_Commit P (op_OrderID event)))
      (\<lambda>_ w. ?A w \<and> resv w = Some StatusCommitted)"
  proof (rule sat_wrap, unfold sat_def, intro allI impI)
    fix w r w' assume "po_Commit P (op_OrderID event) w = (r, w')" "?A w" "fine w"
    with commit [of w r w'] True
    show "fine w' \<and> (\<forall>a. r = Inr a \<longrightarrow> ?A w' \<and> resv w' = Some StatusCommitted)"
      unfolding fine_def at_def by auto
  qed
  have con: "sat (\<lambda>w. ?A w \<and> resv w = Some StatusCommitted) (wrap_err ''confirm order'' (po_Confirm P (op_OrderID event)))
      (\<lambda>_ w. ?A w \<and> resv w = Some StatusCommitted \<and> status w = StatusConfirmed)"
  proof (rule sat_wrap, unfold sat_def, intro allI impI)
    fix w r w' assume "po_Confirm P (op_OrderID event) w = (r, w')" "?A w \<and> resv w = Some StatusCommitted" "fine w"
    with confirm [of w r w'] True
    show "fine w' \<and> (\<forall>a. r = Inr a \<longrightarrow> ?A w' \<and> resv w' = Some StatusCommitted \<and> status w' = StatusConfirmed)"
      unfolding fine_def at_def by auto
  qed
  let ?j = "i\<lparr>in_State := StateCompleted, in_ReservationHeld := False\<rparr>"
  have sv: "sat (\<lambda>w. ?A w \<and> resv w = Some StatusCommitted \<and> status w = StatusConfirmed)
      (wrap_err ''save saga'' (po_Save P ?j)) (\<lambda>_. ended)" if "in_OrderID i = op_OrderID event"
    by (rule sat_post [OF sat_wrap [OF save_sat]], unfold fine_def at_def ended_def)
      (use that True in \<open>auto simp: Terminal_def\<close>)
  show ?thesis
  proof (cases "in_OrderID i = op_OrderID event")
    case i: True
    show ?thesis unfolding step_commit_def
      by (rule sat_if, simp add: True, rule sat_pre [OF sat_and_then [OF com sat_and_then [OF con sv [OF i]]]])
        (simp add: i)
  next
    case False
    then show ?thesis by (auto simp: sat_def at_def fine_def)
  qed
qed

text \<open>However often the event is delivered and whatever fails, the services stay consistent; a
  nil return means the saga has ended.\<close>

lemma handle_sat: "sat (\<lambda>_. True) (Saga_Handle P event) (\<lambda>_. ended)"
  unfolding Saga_Handle_def
proof (rule sat_and_then [OF start_sat], rule sat_if)
  fix i assume "Terminal i"
  then show "sat (at i) (ok ()) (\<lambda>_. ended)" by (auto simp: ended_def intro!: sat_ok)
next
  fix i
  show "sat (at i) (and_then (step_reserve P event i) (\<lambda>r. case r of None \<Rightarrow> ok () | Some inst \<Rightarrow>
      and_then (step_pay P event inst) (\<lambda>r. case r of None \<Rightarrow> ok () | Some inst \<Rightarrow> step_commit P event inst)))
     (\<lambda>_. ended)"
    by (rule sat_and_then [OF reserve_sat], rule sat_case, auto intro!: sat_ok,
        rule sat_and_then [OF pay_sat], rule sat_case)
      (auto intro!: sat_ok commit_sat [THEN sat_pre])
qed

text \<open>Once the saga has ended, a delivery changes nothing.\<close>

lemma start_found:
  assumes "saved w = Some i" and "inv w" and "saga_start P (op_OrderID event) w = (r, w')"
  shows "inv w' \<and> status w' = status w \<and> saved w' = saved w \<and> resv w' = resv w \<and> (\<forall>j. r = Inr j \<longrightarrow> j = i)"
proof -
  obtain r1 w1 where l: "po_Load P (op_OrderID event) w = (r1, w1)" by fastforce
  show ?thesis
    using load [OF l assms(2)] assms(1,3) l
    by (cases r1) (auto simp: saga_start_def and_then_def map_err_def ok_def)
qed

lemma ended_stays:
  assumes "saved w = Some i" and "Terminal i" and "inv w" and run: "Saga_Handle P event w = (r, w')"
  shows "inv w' \<and> status w' = status w \<and> saved w' = saved w \<and> resv w' = resv w"
proof -
  obtain r1 w1 where s: "saga_start P (op_OrderID event) w = (r1, w1)" by fastforce
  show ?thesis
    using start_found [OF assms(1,3) s] run s assms(2)
    by (cases r1) (auto simp: Saga_Handle_def and_then_def ok_def)
qed

text \<open>A saga that has been paid while its order was already cancelled never ends: the order cannot be
  confirmed any more, and nothing undoes the payment or the reservation.\<close>

lemma paid_cancelled_stays:
  assumes i: "saved w = Some i" "in_State i = StatePaid" and inv: "inv w" and st: "status w = StatusCancelled"
    and run: "Saga_Handle P event w = (r, w')"
  shows "r \<noteq> Inr () \<and> inv w' \<and> status w' = StatusCancelled \<and> saved w' = Some i"
proof -
  obtain r1 w1 where s: "saga_start P (op_OrderID event) w = (r1, w1)" by fastforce
  note f = start_found [OF i(1) inv s]
  show ?thesis
  proof (cases r1)
    case (Inl e)
    then show ?thesis using run s f i st by (auto simp: Saga_Handle_def and_then_def)
  next
    case (Inr j)
    then have j: "j = i" using f by simp
    have h: "step_commit P event i w1 = (r, w')"
      using run s Inr j i(2)
      by (simp add: Saga_Handle_def and_then_def Terminal_def step_reserve_def step_pay_def ok_def)
    obtain r2 w2 where c: "po_Commit P (op_OrderID event) w1 = (r2, w2)" by fastforce
    from commit [OF c] f have 2: "inv w2" "status w2 = StatusCancelled" "saved w2 = Some i" using st i by simp_all
    show ?thesis
    proof (cases r2)
      case (Inl e)
      then show ?thesis using h c i(2) 2 by (auto simp: step_commit_def and_then_def map_err_def)
    next
      case (Inr u)
      obtain r3 w3 where k: "po_Confirm P (op_OrderID event) w2 = (r3, w3)" by fastforce
      from confirm [OF k 2(1)] 2 have 3: "inv w3" "status w3 = StatusCancelled" "saved w3 = Some i" "r3 \<noteq> Inr ()"
        by auto
      then obtain e where "r3 = Inl e" by (cases r3) auto
      then show ?thesis using h c k Inr i(2) 3 by (auto simp: step_commit_def and_then_def map_err_def)
    qed
  qed
qed

end

end
