(* ===== verification/Inventory_Store.thy ===== *)
theory Inventory_Store
  imports Inventory_Domain Effects "HOL-Library.AList"
begin

text \<open>
  services/inventory/internal/infra/postgres/inventory\_repository.go over the tables of its
  migration. The transactions run at READ COMMITTED, so other transactions may commit between
  any two statements: \<open>w_env\<close> is the list of those commits, one taken before each statement. A
  transaction's own writes are pending until Commit; each statement sees them on top of what is
  committed by then. A commit of another transaction that touches a row this one has written
  has to wait for the row lock, so it does not take effect in between (\<open>env_step\<close>).
\<close>

section \<open>Tables\<close>

record StockRow =
  sr_available :: int64
  sr_reserved :: int64
  sr_version :: int64

record ReservationRow =
  rr_id :: string
  rr_order :: string
  rr_status :: string

record LineRow =
  lr_reservation :: string
  lr_sku :: string
  lr_quantity :: int32

record inv_db =
  t_stock :: "(string \<times> StockRow) list"
  t_reservations :: "ReservationRow list"
  t_lines :: "LineRow list"

definition stock_of :: "inv_db \<Rightarrow> string \<Rightarrow> StockRow option" where
  "stock_of d sku = map_of (t_stock d) sku"

section \<open>Transactions\<close>

datatype iwrite =
    WStock string StockRow
  | WReservation ReservationRow
  | WLine LineRow
  | WStatus string string

fun apply_write :: "iwrite \<Rightarrow> inv_db \<Rightarrow> inv_db" where
  "apply_write (WStock sku row) d = d\<lparr>t_stock := AList.update sku row (t_stock d)\<rparr>"
| "apply_write (WReservation r) d = d\<lparr>t_reservations := t_reservations d @ [r]\<rparr>"
| "apply_write (WLine l) d = d\<lparr>t_lines := t_lines d @ [l]\<rparr>"
| "apply_write (WStatus i st) d =
     d\<lparr>t_reservations := map (\<lambda>r. if rr_id r = i then r\<lparr>rr_status := st\<rparr> else r) (t_reservations d)\<rparr>"

definition view :: "iwrite list \<Rightarrow> inv_db \<Rightarrow> inv_db" where
  "view ws d = fold apply_write ws d"

record inv_world = "inv_db world" +
  w_env :: "(inv_db \<Rightarrow> inv_db) list"

type_synonym 'a inv_act = "(inv_world, inventory_sentinel, 'a) prog"
type_synonym 'a inv_tx = "(inv_world \<times> iwrite list, inventory_sentinel, 'a) prog"

text \<open>The row locks and unique index entries a write holds until the end of its transaction.\<close>

fun respects_lock :: "inv_db \<Rightarrow> inv_db \<Rightarrow> iwrite \<Rightarrow> bool" where
  "respects_lock d d' (WStock sku row) = (stock_of d' sku = stock_of d sku)"
| "respects_lock d d' (WReservation r) =
     (filter (\<lambda>q. rr_id q = rr_id r \<or> rr_order q = rr_order r) (t_reservations d')
      = filter (\<lambda>q. rr_id q = rr_id r \<or> rr_order q = rr_order r) (t_reservations d))"
| "respects_lock d d' (WLine l) =
     (filter (\<lambda>q. lr_reservation q = lr_reservation l) (t_lines d')
      = filter (\<lambda>q. lr_reservation q = lr_reservation l) (t_lines d))"
| "respects_lock d d' (WStatus i st) =
     (filter (\<lambda>q. rr_id q = i) (t_reservations d') = filter (\<lambda>q. rr_id q = i) (t_reservations d))"

definition env_step :: "iwrite list \<Rightarrow> inv_world \<Rightarrow> inv_world" where
  "env_step ws w =
     (case w_env w of
        [] \<Rightarrow> w
      | f # fs \<Rightarrow>
          let d' = f (w_db w) in
          if list_all (respects_lock (w_db w) d') ws then w\<lparr>w_env := fs, w_db := d'\<rparr>
          else w\<lparr>w_env := fs\<rparr>)"

text \<open>A statement of a transaction, and one on the pool (a transaction of its own).\<close>

definition tx_stmt :: "(inv_db \<Rightarrow> ierr + 'a \<times> iwrite list) \<Rightarrow> 'a inv_tx" where
  "tx_stmt f = (\<lambda>(w, ws).
     (case next_fault (env_step ws w) of
        (Fine, w') \<Rightarrow>
          (case f (view ws (w_db w')) of
             Inl e \<Rightarrow> (Inl e, (w', ws))
           | Inr (a, ws') \<Rightarrow> (Inr a, (w', ws @ ws')))
      | (_, w') \<Rightarrow> (Inl (Foreign ''pgx''), (w', ws))))"

definition pool_stmt :: "(inv_db \<Rightarrow> ierr + 'a \<times> iwrite list) \<Rightarrow> 'a inv_act" where
  "pool_stmt f w =
     (case next_fault (env_step [] w) of
        (Fine, w') \<Rightarrow>
          (case f (w_db w') of
             Inl e \<Rightarrow> (Inl e, w')
           | Inr (a, ws') \<Rightarrow> (Inr a, w'\<lparr>w_db := view ws' (w_db w')\<rparr>))
      | (Failed, w') \<Rightarrow> (Inl (Foreign ''pgx''), w')
      | (ReplyLost, w') \<Rightarrow>
          (Inl (Foreign ''pgx''),
           (case f (w_db w') of Inl e \<Rightarrow> w' | Inr (a, ws') \<Rightarrow> w'\<lparr>w_db := view ws' (w_db w')\<rparr>)))"

text \<open>Commit makes the pending writes visible.\<close>

definition tx_commit :: "iwrite list \<Rightarrow> unit inv_act" where
  "tx_commit ws w =
     (case next_fault (env_step ws w) of
        (Fine, w') \<Rightarrow> (Inr (), w'\<lparr>w_db := view ws (w_db w')\<rparr>)
      | (Failed, w') \<Rightarrow> (Inl (Wrapf ''commit tx'' (Foreign ''pgx'')), w')
      | (ReplyLost, w') \<Rightarrow> (Inl (Wrapf ''commit tx'' (Foreign ''pgx'')), w'\<lparr>w_db := view ws (w_db w')\<rparr>))"

definition tx_begin :: "unit inv_act" where
  "tx_begin w =
     (case next_fault w of
        (Fine, w') \<Rightarrow> (Inr (), w')
      | (_, w') \<Rightarrow> (Inl (Wrapf ''begin tx'' (Foreign ''pgx'')), w'))"

text \<open>
  How the body of a transaction function ends: with a result and a rollback (nothing was
  written), with a request to retry, on the unique index of reservations, or ready to commit.
\<close>

datatype 'a ending = Answer 'a | Retry | UniqueRace | Write 'a

section \<open>Reads\<close>

record ReserveLine_inv =
  irl_SKU :: string
  irl_Quantity :: int32

record ReservationResult =
  rt_ReservationID :: string
  rt_OrderID :: string
  rt_Status :: string
  rt_Lines :: "ReserveLine_inv list"
  rt_Idempotent :: bool

record StockView =
  sv_SKU :: string
  sv_Available :: int64
  sv_Reserved :: int64
  sv_Version :: int64

definition pg_param :: "bool \<Rightarrow> ierr + 'a \<Rightarrow> ierr + 'a" where
  "pg_param good r = (if good then r else Inl (Foreign ''22021''))"

definition select_stock :: "string \<Rightarrow> inv_db \<Rightarrow> ierr + StockRow option \<times> iwrite list" where
  "select_stock sku d = pg_param (pg_text sku) (Inr (stock_of d sku, []))"

definition select_reservation ::
  "golib \<Rightarrow> string \<Rightarrow> inv_db \<Rightarrow> ierr + ReservationRow option \<times> iwrite list" where
  "select_reservation L orderID d =
     (case pg_uuid L orderID of
        None \<Rightarrow> Inl (Foreign ''22P02'')
      | Some u \<Rightarrow> Inr (find (\<lambda>r. rr_order r = u) (t_reservations d), []))"

definition select_lines :: "string \<Rightarrow> inv_db \<Rightarrow> ierr + ReserveLine_inv list \<times> iwrite list" where
  "select_lines resID d =
     Inr (map (\<lambda>l. \<lparr>irl_SKU = lr_sku l, irl_Quantity = lr_quantity l\<rparr>)
            (sort_key lr_sku (filter (\<lambda>l. lr_reservation l = resID) (t_lines d))), [])"

text \<open>The helpers that take a rowQuerier run on a transaction or on the pool: \<open>run\<close> is the one.\<close>

definition loadLines ::
  "((inv_db \<Rightarrow> ierr + ReserveLine_inv list \<times> iwrite list) \<Rightarrow> ('w, inventory_sentinel, ReserveLine_inv list) prog)
   \<Rightarrow> string \<Rightarrow> ('w, inventory_sentinel, ReserveLine_inv list) prog" where
  "loadLines run resID = wrap_err ''load lines'' (run (select_lines resID))"

definition loadStockItem :: "string \<Rightarrow> StockRow option inv_tx" where
  "loadStockItem sku = wrap_err ''load stock'' (tx_stmt (select_stock sku))"

definition findReservationByOrder ::
  "((inv_db \<Rightarrow> ierr + ReservationRow option \<times> iwrite list) \<Rightarrow> ('w, inventory_sentinel, ReservationRow option) prog)
   \<Rightarrow> ((inv_db \<Rightarrow> ierr + ReserveLine_inv list \<times> iwrite list) \<Rightarrow> ('w, inventory_sentinel, ReserveLine_inv list) prog)
   \<Rightarrow> golib \<Rightarrow> string \<Rightarrow> ('w, inventory_sentinel, ReservationResult option) prog" where
  "findReservationByOrder run run_lines L orderID =
     and_then (wrap_err ''find reservation'' (run (select_reservation L orderID))) (\<lambda>row.
       case row of
         None \<Rightarrow> ok None
       | Some r \<Rightarrow>
           and_then (loadLines run_lines (rr_id r)) (\<lambda>lines.
             ok (Some \<lparr>rt_ReservationID = rr_id r, rt_OrderID = orderID, rt_Status = rr_status r,
                       rt_Lines = lines, rt_Idempotent = False\<rparr>)))"

section \<open>Writes\<close>

text \<open>The guarded update: the number of rows it changed; the CHECK constraints refuse negatives.\<close>

definition update_stock ::
  "string \<Rightarrow> int64 \<Rightarrow> int64 \<Rightarrow> int64 \<Rightarrow> inv_db \<Rightarrow> ierr + nat \<times> iwrite list" where
  "update_stock sku available reserved version d =
     pg_param (pg_text sku)
       (case stock_of d sku of
          None \<Rightarrow> Inr (0, [])
        | Some row \<Rightarrow>
            if sr_version row \<noteq> version then Inr (0, [])
            else if available <s 0 \<or> reserved <s 0 then Inl (Foreign ''23514'')
            else if sint version = 2 ^ 63 - 1 then Inl (Foreign ''22003'')
            else Inr (1, [WStock sku \<lparr>sr_available = available, sr_reserved = reserved,
                                       sr_version = version + 1\<rparr>]))"

definition insert_reservation ::
  "golib \<Rightarrow> string \<Rightarrow> string \<Rightarrow> string \<Rightarrow> inv_db \<Rightarrow> ierr + unit \<times> iwrite list" where
  "insert_reservation L resID orderID status d =
     (case (pg_uuid L resID, pg_uuid L orderID) of
        (Some i, Some u) \<Rightarrow>
          if list_ex (\<lambda>r. rr_id r = i \<or> rr_order r = u) (t_reservations d)
          then Inl (Foreign ''23505'')
          else Inr ((), [WReservation \<lparr>rr_id = i, rr_order = u, rr_status = status\<rparr>])
      | _ \<Rightarrow> Inl (Foreign ''22P02''))"

definition insert_line ::
  "golib \<Rightarrow> string \<Rightarrow> string \<Rightarrow> int32 \<Rightarrow> inv_db \<Rightarrow> ierr + unit \<times> iwrite list" where
  "insert_line L resID sku quantity d =
     (case pg_uuid L resID of
        None \<Rightarrow> Inl (Foreign ''22P02'')
      | Some i \<Rightarrow>
          pg_param (pg_text sku)
            (if list_ex (\<lambda>l. lr_reservation l = i \<and> lr_sku l = sku) (t_lines d) then Inl (Foreign ''23505'')
             else if quantity \<le>s 0 then Inl (Foreign ''23514'')
             else Inr ((), [WLine \<lparr>lr_reservation = i, lr_sku = sku, lr_quantity = quantity\<rparr>])))"

definition isUniqueViolation :: "ierr \<Rightarrow> bool" where
  "isUniqueViolation e = (e = Foreign ''23505'')"

section \<open>Reserve\<close>

definition load_and_reserve :: "ReserveLine_inv \<Rightarrow> StockItem inv_tx" where
  "load_and_reserve ln =
     and_then (of_result (NewSKU_inv (irl_SKU ln))) (\<lambda>sku.
     and_then (loadStockItem (irl_SKU ln)) (\<lambda>row.
       case row of
         None \<Rightarrow> fail (Detailf ErrSKUNotFound ''sku'')
       | Some r \<Rightarrow>
           of_result (Stock_Reserve
             (RehydrateStockItem sku (sr_available r) (sr_reserved r) (sr_version r))
             (int64_of_int32 (irl_Quantity ln)))))"

fun load_items :: "ReserveLine_inv list \<Rightarrow> StockItem list inv_tx" where
  "load_items [] = ok []"
| "load_items (ln # lns) =
     and_then (load_and_reserve ln) (\<lambda>item.
     and_then (load_items lns) (\<lambda>items. ok (item # items)))"

text \<open>\<open>False\<close> asks for a retry: the version moved.\<close>

fun update_items :: "StockItem list \<Rightarrow> bool inv_tx" where
  "update_items [] = ok True"
| "update_items (item # items) =
     and_then (wrap_err ''update stock''
         (tx_stmt (update_stock (isku_value (si_sku item)) (si_available item) (si_reserved item)
                     (si_version item)))) (\<lambda>affected.
       if affected = 0 then ok False else update_items items)"

definition insert_lines :: "golib \<Rightarrow> string \<Rightarrow> ReserveLine_inv list \<Rightarrow> unit inv_tx" where
  "insert_lines L resID =
     for_each (\<lambda>ln. wrap_err ''insert reservation line''
                 (tx_stmt (insert_line L resID (irl_SKU ln) (irl_Quantity ln))))"

definition tx_new_uuid :: "golib \<Rightarrow> uuid inv_tx" where
  "tx_new_uuid L = (\<lambda>(w, ws). (Inr (uuid_New L (w_uuids w)), (w\<lparr>w_uuids := w_uuids w + 1\<rparr>, ws)))"

definition reserve_body :: "golib \<Rightarrow> string \<Rightarrow> ReserveLine_inv list \<Rightarrow> ReservationResult ending inv_tx" where
  "reserve_body L orderID lines =
     and_then (findReservationByOrder tx_stmt tx_stmt L orderID) (\<lambda>existing.
       case existing of
         Some e \<Rightarrow> ok (Answer (e\<lparr>rt_Idempotent := True\<rparr>))
       | None \<Rightarrow>
           and_then (load_items lines) (\<lambda>items.
           and_then (update_items items) (\<lambda>updated.
             if \<not> updated then ok Retry
             else
               and_then (tx_new_uuid L) (\<lambda>u. let resID = uuid_String L u in (\<lambda>s.
                 (case tx_stmt (insert_reservation L resID orderID (ReservationStatus_string StatusHeld)) s of
                    (Inl err, s') \<Rightarrow>
                      if isUniqueViolation err then (Inr UniqueRace, s')
                      else (Inl (Wrapf ''insert reservation'' err), s')
                  | (Inr _, s') \<Rightarrow>
                      and_then (insert_lines L resID lines) (\<lambda>_.
                        ok (Write \<lparr>rt_ReservationID = resID, rt_OrderID = orderID,
                                   rt_Status = ReservationStatus_string StatusHeld, rt_Lines = lines,
                                   rt_Idempotent = False\<rparr>)) s'))))))"

text \<open>\<open>None\<close> is retry = true.\<close>

definition reserveOnce ::
  "golib \<Rightarrow> string \<Rightarrow> ReserveLine_inv list \<Rightarrow> ReservationResult option inv_act" where
  "reserveOnce L orderID lines =
     and_then tx_begin (\<lambda>_ w.
       (case reserve_body L orderID lines (w, []) of
          (Inl err, (w', ws)) \<Rightarrow> (Inl err, w')
        | (Inr (Answer res), (w', ws)) \<Rightarrow> (Inr (Some res), w')
        | (Inr Retry, (w', ws)) \<Rightarrow> (Inr None, w')
        | (Inr UniqueRace, (w', ws)) \<Rightarrow>
            and_then (findReservationByOrder pool_stmt pool_stmt L orderID) (\<lambda>existing.
              case existing of
                Some e \<Rightarrow> ok (Some (e\<lparr>rt_Idempotent := True\<rparr>))
              | None \<Rightarrow> fail (Wrapf ''insert reservation'' (Foreign ''23505''))) w'
        | (Inr (Write res), (w', ws)) \<Rightarrow> and_then (tx_commit ws) (\<lambda>_. ok (Some res)) w'))"

definition maxOCCRetries :: nat where
  "maxOCCRetries = 5"

fun retry_occ :: "nat \<Rightarrow> 'a option inv_act \<Rightarrow> 'a inv_act" where
  "retry_occ 0 once = fail (Sentinel ErrConcurrency_inv)"
| "retry_occ (Suc n) once =
     and_then once (\<lambda>result. case result of Some a \<Rightarrow> ok a | None \<Rightarrow> retry_occ n once)"

definition Inventory_Reserve ::
  "golib \<Rightarrow> string \<Rightarrow> ReserveLine_inv list \<Rightarrow> ReservationResult inv_act" where
  "Inventory_Reserve L orderID lines =
     retry_occ maxOCCRetries (reserveOnce L orderID (sort_key irl_SKU lines))"

section \<open>Release and Commit\<close>

fun domain_lines :: "ReserveLine_inv list \<Rightarrow> ierr + ReservationLine list" where
  "domain_lines [] = Inr []"
| "domain_lines (ln # lns) =
     (case NewSKU_inv (irl_SKU ln) of
        Inl err \<Rightarrow> Inl err
      | Inr sku \<Rightarrow>
     (case NewQuantity_inv (irl_Quantity ln) of
        Inl err \<Rightarrow> Inl err
      | Inr qty \<Rightarrow> map_sum id (Cons \<lparr>rv_SKU = sku, rv_Quantity = qty\<rparr>) (domain_lines lns)))"

definition rehydrateReservation ::
  "golib \<Rightarrow> string \<Rightarrow> string \<Rightarrow> string \<Rightarrow> ReserveLine_inv list \<Rightarrow> ierr + Reservation" where
  "rehydrateReservation L i orderID status lines =
     (case ParseReservationID L i of
        Inl err \<Rightarrow> Inl err
      | Inr rid \<Rightarrow>
     (case ParseOrderID_inv L orderID of
        Inl err \<Rightarrow> Inl err
      | Inr oid \<Rightarrow>
     (case domain_lines lines of
        Inl err \<Rightarrow> Inl err
      | Inr ls \<Rightarrow> Inr (RehydrateReservation rid oid (ReservationStatus_of status) ls))))"

definition move_reservation :: "ReservationStatus \<Rightarrow> Reservation \<Rightarrow> ierr + bool \<times> Reservation" where
  "move_reservation target res =
     (case target of
        StatusReleased \<Rightarrow> Reservation_Release res
      | StatusCommitted \<Rightarrow> Reservation_Commit res
      | _ \<Rightarrow> Inl (Detailf ErrInvalidTransition_inv ''unsupported target''))"

definition move_stock :: "ReservationStatus \<Rightarrow> StockItem \<Rightarrow> int64 \<Rightarrow> ierr + StockItem" where
  "move_stock target item qty =
     (case target of
        StatusReleased \<Rightarrow> Stock_Release item qty
      | StatusCommitted \<Rightarrow> Stock_Commit item qty
      | _ \<Rightarrow> Inr item)"

definition transition_line :: "ReservationStatus \<Rightarrow> ReserveLine_inv \<Rightarrow> bool inv_tx" where
  "transition_line target ln =
     and_then (of_result (NewSKU_inv (irl_SKU ln))) (\<lambda>sku.
     and_then (loadStockItem (irl_SKU ln)) (\<lambda>row.
       case row of
         None \<Rightarrow> fail (Detailf ErrSKUNotFound ''sku'')
       | Some r \<Rightarrow>
           and_then (of_result (move_stock target
             (RehydrateStockItem sku (sr_available r) (sr_reserved r) (sr_version r))
             (int64_of_int32 (irl_Quantity ln)))) (\<lambda>item.
           and_then (wrap_err ''update stock''
             (tx_stmt (update_stock (irl_SKU ln) (si_available item) (si_reserved item) (sr_version r))))
             (\<lambda>affected. ok (affected \<noteq> 0)))))"

fun transition_lines :: "ReservationStatus \<Rightarrow> ReserveLine_inv list \<Rightarrow> bool inv_tx" where
  "transition_lines target [] = ok True"
| "transition_lines target (ln # lns) =
     and_then (transition_line target ln) (\<lambda>moved.
       if moved then transition_lines target lns else ok False)"

text \<open>The statement that closes the transition looks at the reservation's id only.\<close>

definition update_reservation :: "string \<Rightarrow> string \<Rightarrow> inv_db \<Rightarrow> ierr + unit \<times> iwrite list" where
  "update_reservation status resID d = Inr ((), [WStatus resID status])"

definition transition_body ::
  "golib \<Rightarrow> string \<Rightarrow> ReservationStatus \<Rightarrow> ReservationResult ending inv_tx" where
  "transition_body L orderID target =
     and_then (wrap_err ''load reservation'' (tx_stmt (select_reservation L orderID))) (\<lambda>row.
       case row of
         None \<Rightarrow> fail (Detailf ErrReservationNotFound ''order'')
       | Some r \<Rightarrow>
           and_then (loadLines tx_stmt (rr_id r)) (\<lambda>lines.
           and_then (of_result (rehydrateReservation L (rr_id r) orderID (rr_status r) lines)) (\<lambda>res.
           and_then (of_result (move_reservation target res)) (\<lambda>(changed, res').
             let result = \<lparr>rt_ReservationID = rr_id r, rt_OrderID = orderID,
                           rt_Status = ReservationStatus_string target, rt_Lines = lines,
                           rt_Idempotent = \<not> changed\<rparr> in
             if \<not> changed then ok (Answer result)
             else
               and_then (transition_lines target lines) (\<lambda>moved.
                 if \<not> moved then ok Retry
                 else
                   and_then (wrap_err ''update reservation''
                       (tx_stmt (update_reservation (ReservationStatus_string target) (rr_id r)))) (\<lambda>_.
                     ok (Write result)))))))"

definition transitionOnce ::
  "golib \<Rightarrow> string \<Rightarrow> ReservationStatus \<Rightarrow> ReservationResult option inv_act" where
  "transitionOnce L orderID target =
     and_then tx_begin (\<lambda>_ w.
       (case transition_body L orderID target (w, []) of
          (Inl err, (w', ws)) \<Rightarrow> (Inl err, w')
        | (Inr (Answer res), (w', ws)) \<Rightarrow> (Inr (Some res), w')
        | (Inr (Write res), (w', ws)) \<Rightarrow> and_then (tx_commit ws) (\<lambda>_. ok (Some res)) w'
        | (Inr _, (w', ws)) \<Rightarrow> (Inr None, w')))"

definition Inventory_transition :: "golib \<Rightarrow> string \<Rightarrow> ReservationStatus \<Rightarrow> ReservationResult inv_act" where
  "Inventory_transition L orderID target = retry_occ maxOCCRetries (transitionOnce L orderID target)"

definition Inventory_Release :: "golib \<Rightarrow> string \<Rightarrow> ReservationResult inv_act" where
  "Inventory_Release L orderID = Inventory_transition L orderID StatusReleased"

definition Inventory_Commit :: "golib \<Rightarrow> string \<Rightarrow> ReservationResult inv_act" where
  "Inventory_Commit L orderID = Inventory_transition L orderID StatusCommitted"

section \<open>The other operations\<close>

definition GetReservation :: "golib \<Rightarrow> string \<Rightarrow> ReservationResult inv_act" where
  "GetReservation L orderID =
     and_then (findReservationByOrder pool_stmt pool_stmt L orderID) (\<lambda>res.
       case res of None \<Rightarrow> fail (Detailf ErrReservationNotFound ''order'') | Some r \<Rightarrow> ok r)"

definition GetStock :: "string \<Rightarrow> StockView inv_act" where
  "GetStock sku =
     and_then (wrap_err ''query stock'' (pool_stmt (select_stock sku))) (\<lambda>row.
       case row of
         None \<Rightarrow> fail (Detailf ErrSKUNotFound ''sku'')
       | Some r \<Rightarrow> ok \<lparr>sv_SKU = sku, sv_Available = sr_available r, sv_Reserved = sr_reserved r,
                       sv_Version = sr_version r\<rparr>)"

definition upsert_stock :: "string \<Rightarrow> int64 \<Rightarrow> inv_db \<Rightarrow> ierr + unit \<times> iwrite list" where
  "upsert_stock sku available d =
     pg_param (pg_text sku)
       (if available <s 0 then Inl (Foreign ''23514'')
        else case stock_of d sku of
          None \<Rightarrow> Inr ((), [WStock sku \<lparr>sr_available = available, sr_reserved = 0, sr_version = 0\<rparr>])
        | Some row \<Rightarrow>
            if sint (sr_version row) = 2 ^ 63 - 1 then Inl (Foreign ''22003'')
            else Inr ((), [WStock sku (row\<lparr>sr_available := available, sr_version := sr_version row + 1\<rparr>)]))"

definition UpsertStock :: "string \<Rightarrow> int64 \<Rightarrow> unit inv_act" where
  "UpsertStock sku available = wrap_err ''upsert stock'' (pool_stmt (upsert_stock sku available))"

end
