(* ===== verification/Inventory_Ledger.thy ===== *)
theory Inventory_Ledger
  imports Inventory_Store
begin

text \<open>
  The stock ledger as a whole: what has to balance (\<open>ledger_ok\<close>), how committed states may
  follow one another under optimistic concurrency (\<open>occ\<close>), and the rules by which a transaction
  is verified against the commits of others: an assertion on the pending writes and the
  committed database has to be stable under every commit that keeps the ledger, follows \<open>occ\<close>
  and respects the transaction's locks.
\<close>

section \<open>The balance\<close>

definition is_held :: "inv_db \<Rightarrow> string \<Rightarrow> bool" where
  "is_held d i \<longleftrightarrow> (\<exists>r \<in> set (t_reservations d). rr_id r = i \<and> rr_status r = ''HELD'')"

definition held_qty :: "inv_db \<Rightarrow> string \<Rightarrow> int" where
  "held_qty d sku =
     sum_list (map (sint \<circ> lr_quantity) (filter (\<lambda>l. lr_sku l = sku \<and> is_held d (lr_reservation l)) (t_lines d)))"

text \<open>
  Available and reserved stock are never negative, reserved stock is the sum of the lines of the
  HELD reservations, every line belongs to a reservation and to a SKU that is stocked, and the
  keys are unique.
\<close>

definition row_ok :: "inv_db \<Rightarrow> string \<Rightarrow> StockRow \<Rightarrow> bool" where
  "row_ok d sku row \<longleftrightarrow>
     0 \<le> sint (sr_available row) \<and> 0 \<le> sint (sr_reserved row) \<and> sint (sr_reserved row) = held_qty d sku"

definition line_ok :: "inv_db \<Rightarrow> LineRow \<Rightarrow> bool" where
  "line_ok d l \<longleftrightarrow> 0 < sint (lr_quantity l) \<and> stock_of d (lr_sku l) \<noteq> None
     \<and> (\<exists>r \<in> set (t_reservations d). rr_id r = lr_reservation l)"

definition ledger_ok :: "inv_db \<Rightarrow> bool" where
  "ledger_ok d \<longleftrightarrow>
     (\<forall>sku row. stock_of d sku = Some row \<longrightarrow> row_ok d sku row)
     \<and> (\<forall>l \<in> set (t_lines d). line_ok d l)
     \<and> distinct (map rr_id (t_reservations d)) \<and> distinct (map rr_order (t_reservations d))
     \<and> distinct (map (\<lambda>l. (lr_reservation l, lr_sku l)) (t_lines d))"

lemma ledger_row: "ledger_ok d \<Longrightarrow> stock_of d sku = Some row \<Longrightarrow> row_ok d sku row"
  by (simp add: ledger_ok_def)

lemma line_owner: "ledger_ok d \<Longrightarrow> l \<in> set (t_lines d) \<Longrightarrow> lr_reservation l \<in> rr_id ` set (t_reservations d)"
  unfolding ledger_ok_def line_ok_def by (metis image_eqI)

section \<open>How committed states follow one another\<close>

definition newer :: "inv_db \<Rightarrow> string \<Rightarrow> StockRow \<Rightarrow> bool" where
  "newer d sku row \<longleftrightarrow>
     (\<exists>row'. stock_of d sku = Some row' \<and> (row' = row \<or> sint (sr_version row) < sint (sr_version row')))"

definition follows :: "ReservationRow \<Rightarrow> ReservationRow \<Rightarrow> bool" where
  "follows r r' \<longleftrightarrow> rr_id r' = rr_id r \<and> rr_order r' = rr_order r
     \<and> (rr_status r' = rr_status r \<or> rr_status r = ''HELD'')"

definition lines_of :: "inv_db \<Rightarrow> string \<Rightarrow> LineRow list" where
  "lines_of d i = filter (\<lambda>l. lr_reservation l = i) (t_lines d)"

text \<open>A stock row that changes raises its version; reservations stay, keep their lines and leave
  HELD at most once; the reservations of the orders in \<open>U\<close> are left alone.\<close>

definition occ :: "string set \<Rightarrow> inv_db \<Rightarrow> inv_db \<Rightarrow> bool" where
  "occ U d d' \<longleftrightarrow>
     (\<forall>sku row. stock_of d sku = Some row \<longrightarrow> newer d' sku row)
     \<and> (\<forall>r \<in> set (t_reservations d). (\<exists>r' \<in> set (t_reservations d'). follows r r')
           \<and> lines_of d' (rr_id r) = lines_of d (rr_id r)
           \<and> (rr_order r \<in> U \<longrightarrow> r \<in> set (t_reservations d')))"

lemma newer_same: "stock_of d sku = Some row \<Longrightarrow> newer d sku row"
  by (simp add: newer_def)

lemma newer_trans:
  assumes "newer d sku row" "occ U d d'" shows "newer d' sku row"
proof -
  obtain r1 where 1: "stock_of d sku = Some r1" "r1 = row \<or> sint (sr_version row) < sint (sr_version r1)"
    using assms(1) by (auto simp: newer_def)
  then have "newer d' sku r1" using assms(2) by (simp add: occ_def)
  then show ?thesis using 1 by (auto simp: newer_def)
qed

lemma occ_refl [simp]: "occ U d d"
  by (auto simp: occ_def newer_def follows_def)

lemma occ_trans:
  assumes 1: "occ U d d1" and 2: "occ U d1 d2" shows "occ U d d2"
  unfolding occ_def
proof (intro conjI allI impI ballI)
  fix sku row assume "stock_of d sku = Some row"
  then show "newer d2 sku row" using 1 newer_trans [OF _ 2] by (simp add: occ_def)
next
  fix r assume r: "r \<in> set (t_reservations d)"
  then obtain r1 where r1: "r1 \<in> set (t_reservations d1)" "follows r r1" using 1 by (auto simp: occ_def)
  then obtain r2 where "r2 \<in> set (t_reservations d2)" "follows r1 r2" using 2 by (auto simp: occ_def)
  then show "\<exists>r' \<in> set (t_reservations d2). follows r r'"
    using r1(2) by (intro bexI [of _ r2]) (auto simp: follows_def)
  show "lines_of d2 (rr_id r) = lines_of d (rr_id r)"
    using 1 2 r r1 by (auto simp: occ_def follows_def)
  show "r \<in> set (t_reservations d2)" if "rr_order r \<in> U"
    using 1 2 r that by (auto simp: occ_def)
qed

lemma occ_weaken: "occ U d d' \<Longrightarrow> V \<subseteq> U \<Longrightarrow> occ V d d'"
  by (auto simp: occ_def)

section \<open>Environments\<close>

text \<open>What the development relies on in the commits of other transactions.\<close>

definition relies :: "string set \<Rightarrow> inv_world \<Rightarrow> bool" where
  "relies U w \<longleftrightarrow> (\<forall>f \<in> set (w_env w). \<forall>d. ledger_ok d \<longrightarrow> ledger_ok (f d) \<and> occ U d (f d))"

definition stable :: "string set \<Rightarrow> (iwrite list \<Rightarrow> inv_db \<Rightarrow> bool) \<Rightarrow> bool" where
  "stable U P \<longleftrightarrow>
     (\<forall>ws d d'. P ws d \<longrightarrow> ledger_ok d \<longrightarrow> ledger_ok d' \<longrightarrow> occ U d d'
        \<longrightarrow> list_all (respects_lock d d') ws \<longrightarrow> P ws d')"

named_theorems stability \<open>stable assertions\<close>

lemma stable_conj [stability]: "stable U P \<Longrightarrow> stable U Q \<Longrightarrow> stable U (\<lambda>ws d. P ws d \<and> Q ws d)"
  unfolding stable_def by blast

lemma stable_const [stability]: "stable U (\<lambda>ws d. c)" "stable U (\<lambda>ws d. R ws)"
  unfolding stable_def by blast+

lemma stable_disj [stability]: "stable U P \<Longrightarrow> stable U Q \<Longrightarrow> stable U (\<lambda>ws d. P ws d \<or> Q ws d)"
  unfolding stable_def by blast

lemma stable_imp [stability]: "(c \<Longrightarrow> stable U P) \<Longrightarrow> stable U (\<lambda>ws d. c \<longrightarrow> P ws d)"
  unfolding stable_def by blast

lemma stable_all [stability]: "(\<And>x. stable U (P x)) \<Longrightarrow> stable U (\<lambda>ws d. \<forall>x. P x ws d)"
  unfolding stable_def by blast

lemma stable_ex [stability]: "(\<And>x. stable U (P x)) \<Longrightarrow> stable U (\<lambda>ws d. \<exists>x. P x ws d)"
  unfolding stable_def by blast

lemma stable_env_step:
  assumes s: "stable U P" and ok: "ledger_ok (w_db w)" and g: "relies U w" and P: "P ws (w_db w)"
  shows "P ws (w_db (env_step ws w))"
proof (cases "w_env w")
  case Nil
  then show ?thesis using P by (simp add: env_step_def)
next
  case (Cons f fs)
  then have "ledger_ok (f (w_db w))" "occ U (w_db w) (f (w_db w))"
    using g ok by (auto simp: relies_def)
  then have "P ws (f (w_db w))" if "list_all (respects_lock (w_db w) (f (w_db w))) ws"
    using s ok P that by (simp add: stable_def)
  then show ?thesis using Cons P by (simp add: env_step_def Let_def)
qed

lemma env_step_rely:
  assumes "ledger_ok (w_db w)" "relies U w"
  shows "ledger_ok (w_db (env_step ws w)) \<and> relies U (env_step ws w) \<and> occ U (w_db w) (w_db (env_step ws w))"
  using assms by (auto simp: env_step_def relies_def Let_def split: list.split)

lemma next_fault_env: "next_fault w = (f, w') \<Longrightarrow> w_env w' = w_env w"
  by (auto simp: next_fault_def split: list.splits)

lemma next_fault_rely: "next_fault w = (f, w') \<Longrightarrow> relies U w' = relies U w"
  by (simp add: relies_def next_fault_env)

section \<open>Rules\<close>

text \<open>Inside a transaction.\<close>

definition triple ::
  "string set \<Rightarrow> (iwrite list \<Rightarrow> inv_db \<Rightarrow> bool) \<Rightarrow> 'a inv_tx \<Rightarrow> ('a \<Rightarrow> iwrite list \<Rightarrow> inv_db \<Rightarrow> bool) \<Rightarrow> bool" where
  "triple U P m Q \<longleftrightarrow>
     (\<forall>w ws r w' ws'. m (w, ws) = (r, (w', ws')) \<longrightarrow> ledger_ok (w_db w) \<longrightarrow> relies U w \<longrightarrow> P ws (w_db w)
        \<longrightarrow> ledger_ok (w_db w') \<and> relies U w' \<and> occ U (w_db w) (w_db w') \<and> (\<forall>a. r = Inr a \<longrightarrow> Q a ws' (w_db w')))"

text \<open>
  A whole operation: it keeps the ledger, from \<open>P\<close> its result satisfies \<open>Q\<close>, and where the
  others leave the reservations of \<open>U\<close> alone and its own commits those of \<open>G\<close>, those of both
  are left alone.
\<close>

definition guarded ::
  "string set \<Rightarrow> string set \<Rightarrow> (inv_db \<Rightarrow> bool) \<Rightarrow> 'a inv_act \<Rightarrow> ('a \<Rightarrow> inv_db \<Rightarrow> bool) \<Rightarrow> bool" where
  "guarded U G P m Q \<longleftrightarrow>
     (\<forall>w r w'. m w = (r, w') \<longrightarrow> ledger_ok (w_db w) \<longrightarrow> relies U w \<longrightarrow> P (w_db w)
        \<longrightarrow> ledger_ok (w_db w') \<and> relies U w' \<and> occ (U \<inter> G) (w_db w) (w_db w')
            \<and> (\<forall>a. r = Inr a \<longrightarrow> Q a (w_db w')))"

named_theorems proving \<open>rules for transactions\<close>

lemma triple_ok [proving]: "(\<And>ws d. P ws d \<Longrightarrow> ledger_ok d \<Longrightarrow> Q a ws d) \<Longrightarrow> triple U P (ok a) Q"
  by (auto simp: triple_def ok_def)

lemma triple_fail [proving]: "triple U P (fail e) Q"
  by (auto simp: triple_def fail_def)

lemma triple_of_result [proving]:
  "(\<And>ws d a. P ws d \<Longrightarrow> ledger_ok d \<Longrightarrow> r = Inr a \<Longrightarrow> Q a ws d) \<Longrightarrow> triple U P (of_result r) Q"
  by (auto simp: triple_def of_result_def)

lemma triple_map_err [proving]: "triple U P m Q \<Longrightarrow> triple U P (map_err h m) Q"
  unfolding triple_def map_err_def by (fastforce split: prod.splits sum.splits)

lemma triple_and_then [proving]:
  assumes m: "triple U P m Q" and f: "\<And>a. triple U (Q a) (f a) S"
  shows "triple U P (and_then m f) S"
  unfolding triple_def
proof (intro allI impI)
  fix w ws r w' ws'
  assume run: "and_then m f (w, ws) = (r, (w', ws'))" and ok: "ledger_ok (w_db w)" and g: "relies U w"
    and P: "P ws (w_db w)"
  obtain r1 w1 ws1 where m1: "m (w, ws) = (r1, (w1, ws1))" by (metis surj_pair)
  from m m1 ok g P have 1: "ledger_ok (w_db w1)" "relies U w1" "occ U (w_db w) (w_db w1)"
    "\<And>a. r1 = Inr a \<Longrightarrow> Q a ws1 (w_db w1)"
    unfolding triple_def by blast+
  show "ledger_ok (w_db w') \<and> relies U w' \<and> occ U (w_db w) (w_db w') \<and> (\<forall>a. r = Inr a \<longrightarrow> S a ws' (w_db w'))"
  proof (cases r1)
    case (Inl e)
    then show ?thesis using run m1 1 by (auto simp: and_then_def)
  next
    case (Inr a)
    then have "f a (w1, ws1) = (r, (w', ws'))" using run m1 by (simp add: and_then_def)
    with f [of a] 1(1,2) 1(4) [OF Inr]
    have "ledger_ok (w_db w') \<and> relies U w' \<and> occ U (w_db w1) (w_db w') \<and> (\<forall>a. r = Inr a \<longrightarrow> S a ws' (w_db w'))"
      unfolding triple_def by blast
    then show ?thesis using occ_trans [OF 1(3)] by blast
  qed
qed

lemma triple_stmt:
  assumes s: "stable U P"
    and f: "\<And>ws d a ws'. P ws d \<Longrightarrow> ledger_ok d \<Longrightarrow> f (view ws d) = Inr (a, ws') \<Longrightarrow> Q a (ws @ ws') d"
  shows "triple U P (tx_stmt f) Q"
  unfolding triple_def
proof (intro allI impI)
  fix w ws r w' ws'
  assume run: "tx_stmt f (w, ws) = (r, (w', ws'))" and ok: "ledger_ok (w_db w)" and g: "relies U w"
    and P: "P ws (w_db w)"
  let ?w1 = "env_step ws w"
  have P1: "P ws (w_db ?w1)" by (rule stable_env_step [OF s ok g P])
  obtain v w2 where n: "next_fault ?w1 = (v, w2)" by fastforce
  have w2: "w_db w2 = w_db ?w1" "relies U w2 = relies U ?w1"
    using n by (simp_all add: next_fault_db next_fault_rely)
  show "ledger_ok (w_db w') \<and> relies U w' \<and> occ U (w_db w) (w_db w') \<and> (\<forall>a. r = Inr a \<longrightarrow> Q a ws' (w_db w'))"
    using run n w2 env_step_rely [OF ok g, of ws] f [OF P1]
    by (auto simp: tx_stmt_def split: fault.splits sum.splits prod.splits)
qed

lemma triple_pre: "triple U P' m Q \<Longrightarrow> (\<And>ws d. P ws d \<Longrightarrow> ledger_ok d \<Longrightarrow> P' ws d) \<Longrightarrow> triple U P m Q"
  unfolding triple_def by blast

lemma triple_post: "triple U P m Q' \<Longrightarrow> (\<And>a ws d. Q' a ws d \<Longrightarrow> Q a ws d) \<Longrightarrow> triple U P m Q"
  unfolding triple_def by blast

lemma triple_case [proving]:
  "(x = None \<Longrightarrow> triple U P m Q) \<Longrightarrow> (\<And>a. x = Some a \<Longrightarrow> triple U P (f a) Q)
   \<Longrightarrow> triple U P (case x of None \<Rightarrow> m | Some a \<Rightarrow> f a) Q"
  by (cases x) simp_all

lemma triple_if [proving]:
  "(b \<Longrightarrow> triple U P m Q) \<Longrightarrow> (\<not> b \<Longrightarrow> triple U P n Q) \<Longrightarrow> triple U P (if b then m else n) Q"
  by simp

lemma triple_fact: "(c \<Longrightarrow> triple U P m Q) \<Longrightarrow> triple U (\<lambda>ws d. c \<and> P ws d) m Q"
  unfolding triple_def by blast

text \<open>On the pool, and around a transaction.\<close>

lemma guarded_pure [proving]:
  "guarded U G P (fail e) Q" "(\<And>d. ledger_ok d \<Longrightarrow> P d \<Longrightarrow> Q a d) \<Longrightarrow> guarded U G P (ok a) Q"
  by (auto simp: guarded_def fail_def ok_def)

lemma guarded_of_result [proving]:
  "(\<And>d a. ledger_ok d \<Longrightarrow> P d \<Longrightarrow> r = Inr a \<Longrightarrow> Q a d) \<Longrightarrow> guarded U G P (of_result r) Q"
  by (auto simp: guarded_def of_result_def)

lemma guarded_map_err [proving]: "guarded U G P m Q \<Longrightarrow> guarded U G P (map_err h m) Q"
  unfolding guarded_def map_err_def by (fastforce split: prod.splits sum.splits)

lemma guarded_pre: "guarded U G P' m Q \<Longrightarrow> (\<And>d. P d \<Longrightarrow> ledger_ok d \<Longrightarrow> P' d) \<Longrightarrow> guarded U G P m Q"
  unfolding guarded_def by blast

lemma guarded_post: "guarded U G P m Q' \<Longrightarrow> (\<And>a d. Q' a d \<Longrightarrow> Q a d) \<Longrightarrow> guarded U G P m Q"
  unfolding guarded_def by blast

lemma guarded_and_then [proving]:
  assumes m: "guarded U G P m Q" and f: "\<And>a. guarded U G (Q a) (f a) S"
  shows "guarded U G P (and_then m f) S"
  unfolding guarded_def
proof (intro allI impI)
  fix w r w'
  assume run: "and_then m f w = (r, w')" and ok: "ledger_ok (w_db w)" and g: "relies U w" and P: "P (w_db w)"
  obtain r1 w1 where m1: "m w = (r1, w1)" by fastforce
  from m m1 ok g P have 1: "ledger_ok (w_db w1)" "relies U w1" "occ (U \<inter> G) (w_db w) (w_db w1)"
    "\<And>a. r1 = Inr a \<Longrightarrow> Q a (w_db w1)"
    unfolding guarded_def by blast+
  show "ledger_ok (w_db w') \<and> relies U w' \<and> occ (U \<inter> G) (w_db w) (w_db w') \<and> (\<forall>a. r = Inr a \<longrightarrow> S a (w_db w'))"
  proof (cases r1)
    case (Inl e)
    then show ?thesis using run m1 1 by (auto simp: and_then_def)
  next
    case (Inr a)
    then have "f a w1 = (r, w')" using run m1 by (simp add: and_then_def)
    with f [of a] 1(1,2) 1(4) [OF Inr]
    have "ledger_ok (w_db w') \<and> relies U w' \<and> occ (U \<inter> G) (w_db w1) (w_db w') \<and> (\<forall>a. r = Inr a \<longrightarrow> S a (w_db w'))"
      unfolding guarded_def by blast
    then show ?thesis using occ_trans [OF 1(3)] by blast
  qed
qed

lemma guarded_case [proving]:
  "(x = None \<Longrightarrow> guarded U G P m Q) \<Longrightarrow> (\<And>a. x = Some a \<Longrightarrow> guarded U G P (f a) Q)
   \<Longrightarrow> guarded U G P (case x of None \<Rightarrow> m | Some a \<Rightarrow> f a) Q"
  by (cases x) simp_all

lemma guarded_begin: "guarded U G P tx_begin (\<lambda>_. P)"
  by (auto simp: guarded_def tx_begin_def next_fault_db next_fault_rely split: fault.splits prod.splits)

text \<open>A statement of its own: its writes have to keep the ledger.\<close>

lemma guarded_pool:
  assumes s: "stable U (\<lambda>ws. P)"
    and f: "\<And>d a ws. P d \<Longrightarrow> ledger_ok d \<Longrightarrow> f d = Inr (a, ws)
      \<Longrightarrow> ledger_ok (view ws d) \<and> occ G d (view ws d) \<and> Q a (view ws d)"
  shows "guarded U G P (pool_stmt f) Q"
  unfolding guarded_def
proof (intro allI impI)
  fix w r w'
  assume run: "pool_stmt f w = (r, w')" and ok: "ledger_ok (w_db w)" and g: "relies U w" and P: "P (w_db w)"
  let ?w1 = "env_step [] w"
  have P1: "P (w_db ?w1)" by (rule stable_env_step [OF s ok g P])
  note e = env_step_rely [OF ok g, of "[]"]
  then have e3: "occ (U \<inter> G) (w_db w) (w_db ?w1)" by (auto intro: occ_weaken)
  obtain v w2 where n: "next_fault ?w1 = (v, w2)" by fastforce
  have w2: "w_db w2 = w_db ?w1" "relies U w2 = relies U ?w1" "w_env w2 = w_env ?w1"
    using n by (simp_all add: next_fault_db next_fault_rely next_fault_env)
  have own: "occ (U \<inter> G) (w_db w) d'" if "occ G (w_db ?w1) d'" for d'
    by (rule occ_trans [OF e3 occ_weaken [OF that]]) simp
  have up: "relies U (w2\<lparr>w_db := x\<rparr>) = relies U w2" for x by (simp add: relies_def)
  show "ledger_ok (w_db w') \<and> relies U w' \<and> occ (U \<inter> G) (w_db w) (w_db w') \<and> (\<forall>a. r = Inr a \<longrightarrow> Q a (w_db w'))"
  proof (cases "f (w_db ?w1)")
    case (Inl x)
    then show ?thesis using run n w2 e e3
      by (auto simp: pool_stmt_def split: fault.splits)
  next
    case (Inr p)
    obtain a ws where p: "p = (a, ws)" by fastforce
    note 1 = f [OF P1 _ Inr [unfolded p]]
    then show ?thesis using run n w2 e up Inr p e3 own
      by (auto simp: pool_stmt_def split: fault.splits)
  qed
qed

lemma guarded_commit:
  assumes s: "stable U R"
    and R: "\<And>d. R ws d \<Longrightarrow> ledger_ok d \<Longrightarrow> ledger_ok (view ws d) \<and> occ G d (view ws d) \<and> Q (view ws d)"
  shows "guarded U G (R ws) (tx_commit ws) (\<lambda>_. Q)"
  unfolding guarded_def
proof (intro allI impI)
  fix w r w'
  assume run: "tx_commit ws w = (r, w')" and ok: "ledger_ok (w_db w)" and g: "relies U w" and P: "R ws (w_db w)"
  let ?w1 = "env_step ws w"
  have P1: "R ws (w_db ?w1)" by (rule stable_env_step [OF s ok g P])
  note e = env_step_rely [OF ok g, of ws]
  then have e3: "occ (U \<inter> G) (w_db w) (w_db ?w1)" by (auto intro: occ_weaken)
  obtain v w2 where n: "next_fault ?w1 = (v, w2)" by fastforce
  have w2: "w_db w2 = w_db ?w1" "relies U w2 = relies U ?w1" "w_env w2 = w_env ?w1"
    using n by (simp_all add: next_fault_db next_fault_rely next_fault_env)
  have own: "occ (U \<inter> G) (w_db w) d'" if "occ G (w_db ?w1) d'" for d'
    by (rule occ_trans [OF e3 occ_weaken [OF that]]) simp
  have up: "relies U (w2\<lparr>w_db := x\<rparr>) = relies U w2" for x by (simp add: relies_def)
  note 1 = R [OF P1]
  show "ledger_ok (w_db w') \<and> relies U w' \<and> occ (U \<inter> G) (w_db w) (w_db w') \<and> (\<forall>a. r = Inr a \<longrightarrow> Q (w_db w'))"
    using run n w2 e up 1 e3 own
    by (auto simp: tx_commit_def split: fault.splits)
qed

text \<open>A function that runs a transaction and then deals with its ending.\<close>

lemma guarded_tx:
  assumes b: "triple U (\<lambda>ws d. ws = [] \<and> P d) body Q"
    and k: "\<And>x ws. guarded U G (Q x ws) (k x ws) S"
  shows "guarded U G P (\<lambda>w. case body (w, []) of
            (Inl err, (w', ws)) \<Rightarrow> (Inl err, w') | (Inr x, (w', ws)) \<Rightarrow> k x ws w') S"
  unfolding guarded_def
proof (intro allI impI)
  fix w r w'
  assume run: "(case body (w, []) of
      (Inl err, (w', ws)) \<Rightarrow> (Inl err, w') | (Inr x, (w', ws)) \<Rightarrow> k x ws w') = (r, w')"
    and ok: "ledger_ok (w_db w)" and g: "relies U w" and P: "P (w_db w)"
  obtain r1 w1 ws1 where m1: "body (w, []) = (r1, (w1, ws1))" by (metis surj_pair)
  from b m1 ok g P have 0: "ledger_ok (w_db w1)" "relies U w1" "occ U (w_db w) (w_db w1)"
    "\<And>a. r1 = Inr a \<Longrightarrow> Q a ws1 (w_db w1)"
    unfolding triple_def by blast+
  note 1 = 0(1,2) occ_weaken [OF 0(3), of "U \<inter> G", OF Int_lower1] 0(4)
  show "ledger_ok (w_db w') \<and> relies U w' \<and> occ (U \<inter> G) (w_db w) (w_db w') \<and> (\<forall>a. r = Inr a \<longrightarrow> S a (w_db w'))"
  proof (cases r1)
    case (Inl e)
    then show ?thesis using run m1 1 by auto
  next
    case (Inr x)
    then have "k x ws1 w1 = (r, w')" using run m1 by simp
    with k [of x ws1] 1(1,2) 1(4) [OF Inr]
    have "ledger_ok (w_db w') \<and> relies U w' \<and> occ (U \<inter> G) (w_db w1) (w_db w') \<and> (\<forall>a. r = Inr a \<longrightarrow> S a (w_db w'))"
      unfolding guarded_def by blast
    then show ?thesis using occ_trans [OF 1(3)] by blast
  qed
qed

lemma guarded_retry:
  assumes "guarded U G P once (\<lambda>x d. case x of None \<Rightarrow> P d | Some a \<Rightarrow> Q a d)"
  shows "guarded U G P (retry_occ n once) Q"
proof (induction n)
  case 0
  show ?case by (simp add: guarded_pure)
next
  case (Suc n)
  show ?case unfolding retry_occ.simps
    by (rule guarded_and_then [OF assms], rule guarded_case)
      (auto intro: guarded_pre [OF Suc] guarded_pure)
qed

section \<open>Pending writes\<close>

lemma view_append: "view (ws @ ws') d = view ws' (view ws d)"
  by (simp add: view_def)

lemma view_Nil [simp]: "view [] d = d"
  by (simp add: view_def)

lemma view_Cons [simp]: "view (x # ws) d = view ws (apply_write x d)"
  by (simp add: view_def)

lemma stock_of_apply:
  "stock_of (apply_write x d) sku =
     (case x of WStock k row \<Rightarrow> if k = sku then Some row else stock_of d sku | _ \<Rightarrow> stock_of d sku)"
  by (cases x) (auto simp: stock_of_def update_conv')

text \<open>The writes of a transaction to one SKU, and what they leave alone.\<close>

lemma stock_of_view_other:
  "(\<And>row. WStock sku row \<notin> set ws) \<Longrightarrow> stock_of (view ws d) sku = stock_of d sku"
  by (induction ws arbitrary: d) (auto simp: stock_of_apply split: iwrite.splits)

lemma stock_of_view_same:
  "WStock sku row \<in> set ws \<Longrightarrow> \<exists>row'. WStock sku row' \<in> set ws \<and> stock_of (view ws d) sku = Some row'"
proof (induction ws rule: rev_induct)
  case (snoc x ws)
  then show ?case
    by (auto simp: view_append stock_of_apply split: iwrite.split)
qed simp

lemma reservations_view_stock:
  "(\<And>x. x \<in> set ws \<Longrightarrow> \<exists>k row. x = WStock k row) \<Longrightarrow>
   t_reservations (view ws d) = t_reservations d \<and> t_lines (view ws d) = t_lines d"
proof (induction ws arbitrary: d)
  case (Cons x ws)
  then obtain k row where "x = WStock k row" by (metis list.set_intros(1))
  then show ?case using Cons by simp
qed simp

end
