(* ===== verification/Inventory_Booking.thy ===== *)
theory Inventory_Booking
  imports Inventory_Ledger "HOL-Library.Multiset"
begin

text \<open>
  What a transaction of the store writes to the stock ledger: one guarded update per line, each
  booking the line's quantity between available and reserved. From the bookings and the change
  of the reservation follows that the ledger balances again.
\<close>

section \<open>Bookings\<close>

definition books :: "ReservationStatus \<Rightarrow> int \<Rightarrow> StockRow \<Rightarrow> StockRow \<Rightarrow> bool" where
  "books k q old row \<longleftrightarrow>
     sint (sr_available row) = sint (sr_available old)
       + (if k = StatusHeld then - q else if k = StatusReleased then q else 0)
     \<and> sint (sr_reserved row) = sint (sr_reserved old) + (if k = StatusHeld then q else - q)
     \<and> sint (sr_version row) = sint (sr_version old) + 1
     \<and> 0 \<le> sint (sr_available row) \<and> 0 \<le> sint (sr_reserved row)"

definition booked :: "ReservationStatus \<Rightarrow> inv_db \<Rightarrow> ReserveLine_inv \<Rightarrow> iwrite \<Rightarrow> bool" where
  "booked k d ln x \<longleftrightarrow>
     (\<exists>old row. x = WStock (irl_SKU ln) row \<and> stock_of d (irl_SKU ln) = Some old
        \<and> books k (sint (irl_Quantity ln)) old row)"

definition all_booked :: "ReservationStatus \<Rightarrow> ReserveLine_inv list \<Rightarrow> iwrite list \<Rightarrow> inv_db \<Rightarrow> bool" where
  "all_booked k lns ws d \<longleftrightarrow> list_all2 (booked k d) lns ws \<and> distinct (map irl_SKU lns)"

lemma all_booked_Nil [simp]: "all_booked k [] ws d \<longleftrightarrow> ws = []"
  by (simp add: all_booked_def)

lemma all_booked_locked:
  "all_booked k lns ws d \<Longrightarrow> list_all (respects_lock d d') ws \<Longrightarrow> all_booked k lns ws d'"
  unfolding all_booked_def
proof (elim conjE, intro conjI)
  assume "list_all2 (booked k d) lns ws" "list_all (respects_lock d d') ws"
  then show "list_all2 (booked k d') lns ws"
    by (induction rule: list_all2_induct) (auto simp: booked_def)
qed

lemma stable_all_booked [stability]: "stable U (all_booked k lns)"
  unfolding stable_def by (blast intro: all_booked_locked)

definition line_qty :: "ReserveLine_inv list \<Rightarrow> string \<Rightarrow> int" where
  "line_qty lns sku = sum_list (map (sint \<circ> irl_Quantity) (filter (\<lambda>ln. irl_SKU ln = sku) lns))"

lemma line_qty_none: "sku \<notin> irl_SKU ` set lns \<Longrightarrow> line_qty lns sku = 0"
proof -
  assume "sku \<notin> irl_SKU ` set lns"
  then have "filter (\<lambda>ln. irl_SKU ln = sku) lns = []" by (auto simp: filter_empty_conv)
  then show ?thesis by (simp add: line_qty_def)
qed

lemma line_qty_at:
  "distinct (map irl_SKU lns) \<Longrightarrow> ln \<in> set lns \<Longrightarrow> line_qty lns (irl_SKU ln) = sint (irl_Quantity ln)"
proof (induction lns)
  case (Cons x xs)
  show ?case
  proof (cases "ln = x")
    case True
    then have "irl_SKU ln \<notin> irl_SKU ` set xs" using Cons.prems by simp
    then show ?thesis using True line_qty_none [of "irl_SKU ln" xs] by (simp add: line_qty_def)
  next
    case False
    then have "ln \<in> set xs" "irl_SKU x \<noteq> irl_SKU ln" using Cons.prems by (auto simp: rev_image_eqI)
    then show ?thesis using Cons by (simp add: line_qty_def)
  qed
qed simp

text \<open>The stock a transaction's statements see, and the stock it leaves behind.\<close>

lemma booked_shape: "list_all2 (booked k d) lns ws \<Longrightarrow> x \<in> set ws \<Longrightarrow> \<exists>sku row. x = WStock sku row"
  by (induction rule: list_all2_induct) (auto simp: booked_def)

lemma booked_at:
  "list_all2 (booked k d) lns ws \<Longrightarrow> WStock sku row \<in> set ws
   \<Longrightarrow> \<exists>ln old. ln \<in> set lns \<and> irl_SKU ln = sku \<and> stock_of d sku = Some old
        \<and> books k (sint (irl_Quantity ln)) old row"
  by (induction rule: list_all2_induct) (auto simp: booked_def)

lemma booked_has:
  "list_all2 (booked k d) lns ws \<Longrightarrow> ln \<in> set lns \<Longrightarrow> \<exists>row. WStock (irl_SKU ln) row \<in> set ws"
  by (induction rule: list_all2_induct) (auto simp: booked_def)

lemma booked_stock:
  assumes b: "all_booked k lns ws d" and s: "stock_of (view ws d) sku = Some row"
  obtains (untouched) "sku \<notin> irl_SKU ` set lns" "stock_of d sku = Some row"
  | (moved) ln old where "ln \<in> set lns" "irl_SKU ln = sku" "stock_of d sku = Some old"
      "books k (line_qty lns sku) old row"
proof (cases "sku \<in> irl_SKU ` set lns")
  case True
  then obtain ln0 where "ln0 \<in> set lns" "irl_SKU ln0 = sku" by auto
  then obtain row0 where "WStock sku row0 \<in> set ws" using b booked_has by (fastforce simp: all_booked_def)
  from stock_of_view_same [OF this, of d] obtain row' where
    r: "WStock sku row' \<in> set ws" "stock_of (view ws d) sku = Some row'" by blast
  then have eq: "row' = row" using s by simp
  obtain ln old where "ln \<in> set lns" "irl_SKU ln = sku" "stock_of d sku = Some old"
    "books k (sint (irl_Quantity ln)) old row"
    using b booked_at [of k d lns ws sku row] r(1) unfolding all_booked_def eq by blast
  then show ?thesis using moved b line_qty_at by (auto simp: all_booked_def)
next
  case False
  then have "WStock sku r \<notin> set ws" for r
    using b booked_at [of k d lns ws sku r] by (auto simp: all_booked_def)
  then have "stock_of d sku = Some row" using s by (simp add: stock_of_view_other)
  then show ?thesis using False untouched by blast
qed

lemma booked_tables:
  assumes "all_booked k lns ws d"
  shows "t_reservations (view ws d) = t_reservations d" "t_lines (view ws d) = t_lines d"
  using assms reservations_view_stock [of ws d] booked_shape [of k d lns ws] unfolding all_booked_def
  by blast+

lemma booked_stocked:
  assumes b: "all_booked k lns ws d"
  shows "stock_of (view ws d) sku \<noteq> None \<longleftrightarrow> stock_of d sku \<noteq> None"
proof (cases "\<exists>row. WStock sku row \<in> set ws")
  case True
  then obtain row where w: "WStock sku row \<in> set ws" by blast
  obtain row' where "stock_of (view ws d) sku = Some row'"
    using stock_of_view_same [OF w, of d] by blast
  moreover obtain old where "stock_of d sku = Some old"
    using booked_at [of k d lns ws, OF _ w] b by (auto simp: all_booked_def)
  ultimately show ?thesis by simp
next
  case False
  then show ?thesis by (simp add: stock_of_view_other)
qed

lemma booked_newer:
  assumes b: "all_booked k lns ws d" and s: "stock_of d sku = Some row"
  shows "newer (view ws d) sku row"
proof -
  obtain row' where r: "stock_of (view ws d) sku = Some row'"
    using booked_stocked [OF b, of sku] s by auto
  from b r show ?thesis
    by (cases rule: booked_stock) (use s r in \<open>auto simp: newer_def books_def\<close>)
qed

section \<open>The guarded update\<close>

lemma sint_add_pos:
  assumes "0 \<le> sint (a :: int64)" "0 \<le> sint b" "0 \<le> sint (a + b)"
  shows "sint (a + b) = sint a + sint b"
proof -
  have "sint a + sint b < 2 ^ 63"
  proof (rule ccontr)
    assume "\<not> sint a + sint b < 2 ^ 63"
    moreover have "sint a < 2 ^ 63" "sint b < 2 ^ 63" by (rule sint_range64)+
    moreover have "signed_take_bit 63 (sint a + sint b) = signed_take_bit 63 (sint a + sint b - 2 ^ 64)"
      by (simp add: signed_take_bit_eq_iff_take_bit_eq take_bit_eq_mod)
    ultimately have "sint (a + b) = sint a + sint b - 2 ^ 64"
      by (simp add: sint_word_ariths signed_take_bit_int_eq_self)
    then show False using assms sint_range64 [of a] sint_range64 [of b] by simp
  qed
  then show ?thesis using assms by (intro sint_add64) simp_all
qed

lemma update_stock_Inr:
  assumes "update_stock sku a r v d = Inr (n, ws)"
  shows "n = 0 \<and> ws = [] \<or>
    n = 1 \<and> 0 \<le> sint a \<and> 0 \<le> sint r \<and> sint (v + 1) = sint v + 1
    \<and> ws = [WStock sku \<lparr>sr_available = a, sr_reserved = r, sr_version = v + 1\<rparr>]
    \<and> (\<exists>row. stock_of d sku = Some row \<and> sr_version row = v)"
proof -
  have "sint (v + 1) = sint v + 1" if "sint v \<noteq> 2 ^ 63 - 1"
    using that sint_range64 [of v] sint_add64 [of v 1] by simp
  then show ?thesis using assms
    by (auto simp: update_stock_def pg_param_def split: if_splits option.splits)
qed

section \<open>Taking a reservation\<close>

definition line_row :: "string \<Rightarrow> ReserveLine_inv \<Rightarrow> LineRow" where
  "line_row i ln = \<lparr>lr_reservation = i, lr_sku = irl_SKU ln, lr_quantity = irl_Quantity ln\<rparr>"

lemma view_lines:
  "t_stock (view (map WLine ls) d) = t_stock d \<and> t_reservations (view (map WLine ls) d) = t_reservations d
   \<and> t_lines (view (map WLine ls) d) = t_lines d @ ls"
  by (induction ls arbitrary: d) simp_all

lemma is_held_add: "t_reservations d' = t_reservations d @ [r] \<Longrightarrow> rr_status r = ''HELD'' \<Longrightarrow>
   is_held d' j \<longleftrightarrow> is_held d j \<or> j = rr_id r"
  by (auto simp: is_held_def)

lemma held_qty_add:
  assumes ok: "ledger_ok d" and r: "t_reservations d' = t_reservations d @ [r]" "rr_status r = ''HELD''"
    and l: "t_lines d' = t_lines d @ map (line_row (rr_id r)) lns" and new: "rr_id r \<notin> rr_id ` set (t_reservations d)"
  shows "held_qty d' sku = held_qty d sku + line_qty lns sku"
proof -
  have 1: "filter (\<lambda>l. lr_sku l = sku \<and> is_held d' (lr_reservation l)) (t_lines d)
      = filter (\<lambda>l. lr_sku l = sku \<and> is_held d (lr_reservation l)) (t_lines d)"
  proof (rule filter_cong [OF refl])
    fix l assume "l \<in> set (t_lines d)"
    then have "lr_reservation l \<noteq> rr_id r" using line_owner [OF ok, of l] new by auto
    then show "(lr_sku l = sku \<and> is_held d' (lr_reservation l)) \<longleftrightarrow> (lr_sku l = sku \<and> is_held d (lr_reservation l))"
      by (simp add: is_held_add [OF r])
  qed
  have 2: "filter (\<lambda>l. lr_sku l = sku \<and> is_held d' (lr_reservation l)) (map (line_row (rr_id r)) lns)
      = map (line_row (rr_id r)) (filter (\<lambda>ln. irl_SKU ln = sku) lns)"
    by (induction lns) (simp_all add: line_row_def is_held_add [OF r])
  show ?thesis
    by (simp add: held_qty_def line_qty_def l 1 2 comp_def line_row_def)
qed

text \<open>The stock of all lines is booked and the first lines \<open>dn\<close> are written.\<close>

definition placing ::
  "ReservationRow \<Rightarrow> ReserveLine_inv list \<Rightarrow> ReserveLine_inv list \<Rightarrow> iwrite list \<Rightarrow> inv_db \<Rightarrow> bool" where
  "placing r lns dn ws d \<longleftrightarrow>
     (\<exists>sw. ws = sw @ WReservation r # map (WLine \<circ> line_row (rr_id r)) dn \<and> all_booked StatusHeld lns sw d)
     \<and> (\<forall>q \<in> set (t_reservations d). rr_id q \<noteq> rr_id r \<and> rr_order q \<noteq> rr_order r)
     \<and> rr_status r = ''HELD'' \<and> (\<forall>ln \<in> set dn. 0 < sint (irl_Quantity ln))"

lemma stable_placing [stability]: "stable U (placing r lns dn)"
  unfolding stable_def
proof (intro allI impI)
  fix ws d d' assume p: "placing r lns dn ws d" and l: "list_all (respects_lock d d') ws"
  then obtain sw where ws: "ws = sw @ WReservation r # map (WLine \<circ> line_row (rr_id r)) dn"
    and b: "all_booked StatusHeld lns sw d" by (auto simp: placing_def)
  have "respects_lock d d' (WReservation r)" "list_all (respects_lock d d') sw" using l by (simp_all add: ws)
  moreover have "filter (\<lambda>q. rr_id q = rr_id r \<or> rr_order q = rr_order r) (t_reservations d) = []"
    using p by (auto simp: placing_def filter_empty_conv)
  ultimately show "placing r lns dn ws d'"
    using p all_booked_locked [OF b, of d'] unfolding placing_def ws by (auto simp: filter_empty_conv)
qed

lemma placing_ledger:
  assumes p: "placing r lns lns ws d" and ok: "ledger_ok d"
  shows "ledger_ok (view ws d) \<and> occ U d (view ws d) \<and> r \<in> set (t_reservations (view ws d))"
proof -
  obtain sw where ws: "ws = sw @ WReservation r # map (WLine \<circ> line_row (rr_id r)) lns"
    and b: "all_booked StatusHeld lns sw d" using p by (auto simp: placing_def)
  let ?d = "view ws d" and ?i = "rr_id r"
  have new: "?i \<notin> rr_id ` set (t_reservations d)" "rr_order r \<notin> rr_order ` set (t_reservations d)"
    and st: "rr_status r = ''HELD''" and pos: "\<And>ln. ln \<in> set lns \<Longrightarrow> 0 < sint (irl_Quantity ln)"
    using p by (auto simp: placing_def)
  note v = view_lines [of "map (line_row ?i) lns" "apply_write (WReservation r) (view sw d)"]
  have view: "t_reservations ?d = t_reservations d @ [r]" "t_lines ?d = t_lines d @ map (line_row ?i) lns"
    "\<And>sku. stock_of ?d sku = stock_of (view sw d) sku"
    using v booked_tables [OF b] by (simp_all add: ws view_append stock_of_def)
  note held = held_qty_add [OF ok view(1) st view(2) new(1)]
  have foreign: "lr_reservation l \<noteq> ?i" if "l \<in> set (t_lines d)" for l
    using line_owner [OF ok that] new by auto
  have rows: "row_ok ?d sku row" if s: "stock_of ?d sku = Some row" for sku row
  proof -
    have "stock_of (view sw d) sku = Some row" using s view(3) by simp
    from b this show ?thesis
    proof (cases rule: booked_stock)
      case untouched
      then show ?thesis using ledger_row [OF ok untouched(2)] held [of sku] line_qty_none [of sku lns]
        by (simp add: row_ok_def)
    next
      case (moved ln old)
      then have "row_ok d sku old" using ledger_row [OF ok] by simp
      then show ?thesis using moved held [of sku] by (simp add: row_ok_def books_def)
    qed
  qed
  have lines: "line_ok ?d l" if l: "l \<in> set (t_lines ?d)" for l
  proof (cases "l \<in> set (t_lines d)")
    case True
    then have "line_ok d l" using ok by (simp add: ledger_ok_def)
    then show ?thesis using booked_stocked [OF b] by (auto simp: line_ok_def view)
  next
    case False
    then obtain ln where ln: "ln \<in> set lns" "l = line_row ?i ln" using l view(2) by auto
    have "\<exists>x. booked StatusHeld d ln x"
      using b ln(1) unfolding all_booked_def by (metis in_set_conv_nth list_all2_conv_all_nth)
    then have "stock_of d (irl_SKU ln) \<noteq> None" by (auto simp: booked_def)
    then show ?thesis using booked_stocked [OF b] pos ln by (auto simp: line_ok_def line_row_def view)
  qed
  have dist: "distinct (map (\<lambda>l. (lr_reservation l, lr_sku l)) (t_lines ?d))"
  proof -
    have "distinct (map irl_SKU lns)" using b by (simp add: all_booked_def)
    then have "distinct (map (\<lambda>l. (lr_reservation l, lr_sku l)) (map (line_row ?i) lns))"
      by (simp add: distinct_map inj_on_def line_row_def comp_def)
    moreover have "(lr_reservation l, lr_sku l) \<notin> (\<lambda>l. (lr_reservation l, lr_sku l)) ` set (map (line_row ?i) lns)"
      if "l \<in> set (t_lines d)" for l
      using foreign [OF that] by (auto simp: line_row_def)
    ultimately show ?thesis using ok by (auto simp: view ledger_ok_def)
  qed
  have "ledger_ok ?d"
    using rows lines dist ok new by (auto simp: ledger_ok_def view)
  moreover have "lines_of ?d (rr_id q) = lines_of d (rr_id q)" if "q \<in> set (t_reservations d)" for q
    using new that by (auto simp: lines_of_def view filter_empty_conv line_row_def)
  ultimately show ?thesis
    using booked_newer [OF b] by (auto simp: occ_def view newer_def follows_def)
qed

section \<open>Settling a reservation\<close>

definition lines_read :: "inv_db \<Rightarrow> string \<Rightarrow> ReserveLine_inv list" where
  "lines_read d i =
     map (\<lambda>l. \<lparr>irl_SKU = lr_sku l, irl_Quantity = lr_quantity l\<rparr>) (sort_key lr_sku (lines_of d i))"

lemma sum_list_sort: "sum_list (map g (filter P (sort_key k xs))) = (sum_list (map g (filter P xs)) :: int)"
  by (metis mset_filter mset_map mset_sort sum_mset_sum_list)

lemma line_qty_read:
  "line_qty (lines_read d i) sku =
     sum_list (map (sint \<circ> lr_quantity) (filter (\<lambda>l. lr_sku l = sku \<and> lr_reservation l = i) (t_lines d)))"
proof -
  have "line_qty (lines_read d i) sku
      = sum_list (map (sint \<circ> lr_quantity) (filter (\<lambda>l. lr_sku l = sku) (sort_key lr_sku (lines_of d i))))"
    by (simp add: line_qty_def lines_read_def filter_map comp_def)
  also have "\<dots> = sum_list (map (sint \<circ> lr_quantity) (filter (\<lambda>l. lr_sku l = sku) (lines_of d i)))"
    by (rule sum_list_sort)
  finally show ?thesis by (simp add: lines_of_def conj_commute)
qed

lemma sum_filter_split:
  "(\<And>x. P x \<longleftrightarrow> Q x \<or> R x) \<Longrightarrow> (\<And>x. \<not> (Q x \<and> R x)) \<Longrightarrow>
   sum_list (map g (filter P xs)) = sum_list (map g (filter Q xs)) + (sum_list (map g (filter R xs)) :: int)"
  by (induction xs) auto

lemma held_qty_settle:
  assumes res: "t_reservations d' = map (\<lambda>q. if rr_id q = i then q\<lparr>rr_status := st\<rparr> else q) (t_reservations d)"
    and l: "t_lines d' = t_lines d" and held: "is_held d i" and st: "st \<noteq> ''HELD''"
  shows "held_qty d' sku = held_qty d sku - line_qty (lines_read d i) sku"
proof -
  have h: "is_held d' j \<longleftrightarrow> is_held d j \<and> j \<noteq> i" for j
    using st by (auto simp: is_held_def res)
  have "sum_list (map (sint \<circ> lr_quantity) (filter (\<lambda>l. lr_sku l = sku \<and> is_held d (lr_reservation l)) (t_lines d)))
      = sum_list (map (sint \<circ> lr_quantity) (filter (\<lambda>l. lr_sku l = sku \<and> is_held d' (lr_reservation l)) (t_lines d)))
      + sum_list (map (sint \<circ> lr_quantity) (filter (\<lambda>l. lr_sku l = sku \<and> lr_reservation l = i) (t_lines d)))"
    by (rule sum_filter_split) (use held h in auto)
  then show ?thesis by (simp add: held_qty_def l line_qty_read)
qed

definition settling :: "ReservationStatus \<Rightarrow> ReservationRow \<Rightarrow> iwrite list \<Rightarrow> inv_db \<Rightarrow> bool" where
  "settling k r ws d \<longleftrightarrow>
     (\<exists>sw. ws = sw @ [WStatus (rr_id r) (ReservationStatus_string k)]
        \<and> all_booked k (lines_read d (rr_id r)) sw d)
     \<and> r \<in> set (t_reservations d) \<and> rr_status r = ''HELD'' \<and> (k = StatusReleased \<or> k = StatusCommitted)"

lemma stable_settling [stability]: "rr_order r \<in> U \<Longrightarrow> stable U (settling k r)"
  unfolding stable_def
proof (intro allI impI)
  fix ws d d' assume U: "rr_order r \<in> U" and p: "settling k r ws d" and o: "occ U d d'"
    and l: "list_all (respects_lock d d') ws"
  obtain sw where ws: "ws = sw @ [WStatus (rr_id r) (ReservationStatus_string k)]"
    and b: "all_booked k (lines_read d (rr_id r)) sw d"
    and r: "r \<in> set (t_reservations d)" using p by (auto simp: settling_def)
  have "lines_read d' (rr_id r) = lines_read d (rr_id r)" "r \<in> set (t_reservations d')"
    using o r U by (auto simp: occ_def lines_read_def)
  moreover have "all_booked k (lines_read d (rr_id r)) sw d'"
    using all_booked_locked [OF b] l by (simp add: ws)
  ultimately show "settling k r ws d'"
    using p by (auto simp: settling_def ws)
qed

lemma settling_ledger:
  assumes p: "settling k r ws d" and ok: "ledger_ok d" and U: "rr_order r \<notin> U"
  shows "ledger_ok (view ws d) \<and> occ U d (view ws d)
    \<and> r\<lparr>rr_status := ReservationStatus_string k\<rparr> \<in> set (t_reservations (view ws d))"
proof -
  let ?i = "rr_id r" and ?st = "ReservationStatus_string k" and ?lns = "lines_read d (rr_id r)"
  let ?up = "\<lambda>q. if rr_id q = ?i then q\<lparr>rr_status := ?st\<rparr> else q"
  obtain sw where ws: "ws = sw @ [WStatus ?i ?st]" and b: "all_booked k ?lns sw d"
    and r: "r \<in> set (t_reservations d)" "rr_status r = ''HELD''" and k: "k \<noteq> StatusHeld" "?st \<noteq> ''HELD''"
    using p by (auto simp: settling_def)
  let ?d = "view ws d"
  have view: "t_reservations ?d = map ?up (t_reservations d)" "t_lines ?d = t_lines d"
    "\<And>sku. stock_of ?d sku = stock_of (view sw d) sku"
    using booked_tables [OF b] by (simp_all add: ws view_append stock_of_def)
  have "is_held d ?i" using r by (auto simp: is_held_def)
  note held = held_qty_settle [OF view(1,2) this k(2)]
  have rows: "row_ok ?d sku row" if s: "stock_of ?d sku = Some row" for sku row
  proof -
    have "stock_of (view sw d) sku = Some row" using s view(3) by simp
    from b this show ?thesis
    proof (cases rule: booked_stock)
      case untouched
      then show ?thesis using ledger_row [OF ok untouched(2)] held [of sku] line_qty_none [of sku ?lns]
        by (simp add: row_ok_def)
    next
      case (moved ln old)
      then have "row_ok d sku old" using ledger_row [OF ok] by simp
      then show ?thesis using moved held [of sku] k(1) by (simp add: row_ok_def books_def)
    qed
  qed
  have keys: "map rr_id (t_reservations ?d) = map rr_id (t_reservations d)"
    "map rr_order (t_reservations ?d) = map rr_order (t_reservations d)"
    by (auto simp: view)
  have mem: "?up q \<in> set (t_reservations ?d)" if "q \<in> set (t_reservations d)" for q
    using that unfolding view(1) set_map by (rule imageI)
  have "line_ok ?d l" if l: "l \<in> set (t_lines d)" for l
  proof -
    have l': "line_ok d l" using ok l by (simp add: ledger_ok_def)
    then obtain q where "q \<in> set (t_reservations d)" "rr_id q = lr_reservation l" by (auto simp: line_ok_def)
    then have "\<exists>q' \<in> set (t_reservations ?d). rr_id q' = lr_reservation l"
      by (intro bexI [OF _ mem [of q]]) simp_all
    then show ?thesis using l' booked_stocked [OF b] by (simp add: line_ok_def view(3))
  qed
  then have "ledger_ok ?d"
    using rows ok keys by (auto simp: ledger_ok_def view(2))
  moreover have "follows q (?up q)" if q: "q \<in> set (t_reservations d)" for q
  proof -
    have "q = r" if "rr_id q = ?i"
      using ok q r(1) that by (auto simp: ledger_ok_def distinct_map inj_on_def)
    then show ?thesis using r(2) by (auto simp: follows_def)
  qed
  moreover have "q \<in> set (t_reservations ?d)" if q: "q \<in> set (t_reservations d)" "rr_order q \<in> U" for q
  proof -
    have "rr_id q \<noteq> ?i"
      using ok q r(1) U by (auto simp: ledger_ok_def distinct_map inj_on_def)
    then show ?thesis using mem [OF q(1)] by simp
  qed
  moreover have "r\<lparr>rr_status := ?st\<rparr> \<in> set (t_reservations ?d)"
    using mem [OF r(1)] by simp
  moreover have "newer ?d sku row" if "stock_of d sku = Some row" for sku row
    using booked_newer [OF b that] by (simp add: newer_def view(3))
  moreover have "lines_of ?d j = lines_of d j" for j
    by (simp add: lines_of_def view(2))
  ultimately show ?thesis
    using mem unfolding occ_def by blast
qed

end
