(* ===== verification/Inventory_Races.thy ===== *)
theory Inventory_Races
  imports Inventory_Booking
begin

text \<open>
  The transactions of the store under every interference: reserveOnce and transitionOnce, their
  retry loops and the stock update keep the ledger, whatever the other transactions commit
  between their statements, and an answer says what is in the database.
\<close>

section \<open>One booking\<close>

definition stock_op :: "ReservationStatus \<Rightarrow> StockItem \<Rightarrow> int64 \<Rightarrow> ierr + StockItem" where
  "stock_op k item q = (if k = StatusHeld then Stock_Reserve item q else move_stock k item q)"

definition item_of :: "SKU_inv \<Rightarrow> StockRow \<Rightarrow> StockItem" where
  "item_of sku row = RehydrateStockItem sku (sr_available row) (sr_reserved row) (sr_version row)"

definition real_status :: "ReservationStatus \<Rightarrow> bool" where
  "real_status k \<longleftrightarrow> k = StatusHeld \<or> k = StatusReleased \<or> k = StatusCommitted"

lemma stock_op_books:
  assumes op: "stock_op k (item_of sku row) q = Inr item" and k: "real_status k"
    and row: "0 \<le> sint (sr_available row)" "0 \<le> sint (sr_reserved row)"
    and new: "0 \<le> sint (si_available item)" "0 \<le> sint (si_reserved item)"
    and v: "sint (sr_version row + 1) = sint (sr_version row) + 1"
  shows "books k (sint q) row \<lparr>sr_available = si_available item, sr_reserved = si_reserved item,
           sr_version = sr_version row + 1\<rparr>"
proof -
  note ranges = sint_range64 [of "sr_available row"] sint_range64 [of "sr_reserved row"]
    sint_range64 [of q]
  show ?thesis using k unfolding real_status_def
  proof (elim disjE)
    assume "k = StatusHeld"
    then show ?thesis using op row new v ranges sint_add_pos [of "sr_reserved row" q]
      by (auto simp: stock_op_def item_of_def RehydrateStockItem_def Stock_Reserve_Inr books_def sint_sub64)
  next
    assume "k = StatusReleased"
    then show ?thesis using op row new v ranges sint_add_pos [of "sr_available row" q]
      by (auto simp: stock_op_def move_stock_def item_of_def RehydrateStockItem_def Stock_Release_Inr
          books_def sint_sub64)
  next
    assume "k = StatusCommitted"
    then show ?thesis using op row new v ranges
      by (auto simp: stock_op_def move_stock_def item_of_def RehydrateStockItem_def Stock_Commit_Inr
          books_def sint_sub64)
  qed
qed

lemma stock_op_sku: "stock_op k item q = Inr item' \<Longrightarrow> real_status k \<Longrightarrow>
   si_sku item' = si_sku item \<and> si_version item' = si_version item"
  by (auto simp: stock_op_def move_stock_def real_status_def Stock_Reserve_Inr Stock_Release_Inr
      Stock_Commit_Inr split: if_splits)

text \<open>A row read earlier in the transaction, and what the domain made of it.\<close>

definition was_read :: "string \<Rightarrow> StockRow \<Rightarrow> inv_db \<Rightarrow> bool" where
  "was_read sku row d \<longleftrightarrow> newer d sku row \<and> 0 \<le> sint (sr_available row) \<and> 0 \<le> sint (sr_reserved row)"

lemma stable_was_read [stability]: "stable U (\<lambda>ws. was_read sku row)"
  unfolding stable_def was_read_def using newer_trans by blast

definition taken :: "ReservationStatus \<Rightarrow> SKU_inv \<Rightarrow> ReserveLine_inv \<Rightarrow> StockItem \<Rightarrow> inv_db \<Rightarrow> bool" where
  "taken k sku ln item d \<longleftrightarrow>
     (\<exists>row. stock_op k (item_of sku row) (int64_of_int32 (irl_Quantity ln)) = Inr item
        \<and> was_read (irl_SKU ln) row d)"

lemma stable_taken [stability]: "stable U (\<lambda>ws. taken k sku ln item)"
  unfolding taken_def by (intro stability)

lemma stable_list_all2 [stability]:
  assumes "\<And>x y. stable U (\<lambda>ws. R x y)"
  shows "stable U (\<lambda>ws d. list_all2 (\<lambda>x y. R x y d) xs ys)"
  using assms unfolding stable_def by (blast intro: list_all2_mono)

lemma read_in_view:
  assumes b: "all_booked k dn ws d" and new: "sku \<notin> irl_SKU ` set dn" and ok: "ledger_ok d"
    and s: "stock_of (view ws d) sku = Some row"
  shows "was_read sku row d"
  using b s
proof (cases rule: booked_stock)
  case untouched
  then show ?thesis using ledger_row [OF ok untouched(2)] by (simp add: was_read_def row_ok_def newer_same)
qed (use new in auto)

text \<open>
  The guarded update books the line or changes nothing: the version it asks for is the one of
  the row that was read, and a row of that version is that row.
\<close>

lemma book_step:
  assumes b: "all_booked k dn ws d" and t: "taken k sku ln item d" and k: "real_status k"
    and u: "update_stock (irl_SKU ln) (si_available item) (si_reserved item) (si_version item) (view ws d)
            = Inr (n, ws')" and n: "n \<noteq> 0"
  shows "all_booked k (dn @ [ln]) (ws @ ws') d"
proof -
  obtain row where op: "stock_op k (item_of sku row) (int64_of_int32 (irl_Quantity ln)) = Inr item"
    and rd: "was_read (irl_SKU ln) row d" using t by (auto simp: taken_def)
  have ver: "si_version item = sr_version row"
    using stock_op_sku [OF op k] by (simp add: item_of_def RehydrateStockItem_def)
  from update_stock_Inr [OF u] n ver obtain row' where
    pos: "0 \<le> sint (si_available item)" "0 \<le> sint (si_reserved item)"
    and v: "sint (sr_version row + 1) = sint (sr_version row) + 1"
    and ws': "ws' = [WStock (irl_SKU ln) \<lparr>sr_available = si_available item, sr_reserved = si_reserved item,
               sr_version = sr_version row + 1\<rparr>]"
    and row': "stock_of (view ws d) (irl_SKU ln) = Some row'" "sr_version row' = sr_version row"
    by auto
  from b row'(1) have "irl_SKU ln \<notin> irl_SKU ` set dn \<and> stock_of d (irl_SKU ln) = Some row"
  proof (cases rule: booked_stock)
    case untouched
    then show ?thesis using rd row'(2) by (auto simp: was_read_def newer_def)
  next
    case (moved ln' old)
    then show ?thesis using rd row'(2) by (auto simp: was_read_def newer_def books_def)
  qed
  then show ?thesis
    using b stock_op_books [OF op k _ _ pos v] rd
    by (auto simp: all_booked_def booked_def ws' was_read_def intro!: list_all2_appendI)
qed

section \<open>Reads\<close>

definition present :: "string \<Rightarrow> string \<Rightarrow> inv_db \<Rightarrow> bool" where
  "present u i d \<longleftrightarrow> (\<exists>r \<in> set (t_reservations d). rr_order r = u \<and> rr_id r = i)"

lemma present_occ: "present u i d \<Longrightarrow> occ U d d' \<Longrightarrow> present u i d'"
  unfolding present_def occ_def follows_def by metis

lemma stable_present [stability]: "stable U (\<lambda>ws. present u i)"
  unfolding stable_def using present_occ by blast

lemma select_reservation_Inr:
  "pg_uuid L u = Some u \<Longrightarrow> select_reservation L u d = Inr (row, ws') \<Longrightarrow>
   ws' = [] \<and> (\<forall>r. row = Some r \<longrightarrow> r \<in> set (t_reservations d) \<and> rr_order r = u)"
  by (auto simp: select_reservation_def find_Some_iff)

lemma find_tx:
  assumes u: "pg_uuid L u = Some u"
  shows "triple U (\<lambda>ws d. ws = []) (findReservationByOrder tx_stmt tx_stmt L u)
    (\<lambda>res ws d. ws = [] \<and> (\<forall>e. res = Some e \<longrightarrow> present u (rt_ReservationID e) d))"
  unfolding findReservationByOrder_def loadLines_def
proof (intro triple_and_then triple_map_err triple_case)
  show "triple U (\<lambda>ws d. ws = []) (tx_stmt (select_reservation L u))
     (\<lambda>row ws d. ws = [] \<and> (\<forall>r. row = Some r \<longrightarrow> present u (rr_id r) d))"
    by (rule triple_stmt, intro stability) (use select_reservation_Inr [OF u] in \<open>fastforce simp: present_def\<close>)
  fix row and r :: ReservationRow assume row: "row = Some r"
  show "triple U (\<lambda>ws d. ws = [] \<and> (\<forall>r. row = Some r \<longrightarrow> present u (rr_id r) d)) (tx_stmt (select_lines (rr_id r)))
          (\<lambda>_ ws d. ws = [] \<and> present u (rr_id r) d)"
    unfolding row by (rule triple_stmt, simp, intro stability) (auto simp: select_lines_def)
qed (auto intro!: triple_ok)

lemma find_pool:
  assumes u: "pg_uuid L u = Some u"
  shows "guarded U G (\<lambda>d. True) (findReservationByOrder pool_stmt pool_stmt L u)
    (\<lambda>res d. \<forall>e. res = Some e \<longrightarrow> present u (rt_ReservationID e) d)"
  unfolding findReservationByOrder_def loadLines_def
proof (intro guarded_and_then guarded_map_err guarded_case)
  show "guarded U G (\<lambda>d. True) (pool_stmt (select_reservation L u))
     (\<lambda>row d. \<forall>r. row = Some r \<longrightarrow> present u (rr_id r) d)"
    by (rule guarded_pool, intro stability) (use select_reservation_Inr [OF u] in \<open>fastforce simp: present_def\<close>)
  fix row and r :: ReservationRow assume row: "row = Some r"
  show "guarded U G (\<lambda>d. \<forall>r. row = Some r \<longrightarrow> present u (rr_id r) d) (pool_stmt (select_lines (rr_id r)))
          (\<lambda>_ d. present u (rr_id r) d)"
    unfolding row by (rule guarded_pool, simp, intro stability) (auto simp: select_lines_def)
qed (auto intro!: guarded_pure)

section \<open>Reserve\<close>

text \<open>The lines the use case hands over have trimmed SKUs.\<close>

definition trimmed :: "ReserveLine_inv list \<Rightarrow> bool" where
  "trimmed lns \<longleftrightarrow> list_all (\<lambda>ln. TrimSpace (irl_SKU ln) = irl_SKU ln) lns"

lemma NewSKU_trimmed: "NewSKU_inv s = Inr sku \<Longrightarrow> sku = SKU_inv (TrimSpace s)"
  by (auto simp: NewSKU_inv_def Let_def split: if_splits)

lemma load_and_reserve_tx:
  assumes A: "stable U (\<lambda>ws. A)" and t: "TrimSpace (irl_SKU ln) = irl_SKU ln"
  shows "triple U (\<lambda>ws d. ws = [] \<and> A d) (load_and_reserve ln)
    (\<lambda>item ws d. ws = [] \<and> A d \<and> taken StatusHeld (SKU_inv (irl_SKU ln)) ln item d)"
  unfolding load_and_reserve_def loadStockItem_def
proof (intro triple_and_then triple_map_err triple_case)
  show "triple U (\<lambda>ws d. ws = [] \<and> A d) (of_result (NewSKU_inv (irl_SKU ln)))
    (\<lambda>sku ws d. (ws = [] \<and> A d) \<and> sku = SKU_inv (irl_SKU ln))"
    using NewSKU_trimmed t by (intro triple_of_result) fastforce
  fix sku
  show "triple U (\<lambda>ws d. (ws = [] \<and> A d) \<and> sku = SKU_inv (irl_SKU ln)) (tx_stmt (select_stock (irl_SKU ln)))
    (\<lambda>row ws d. (ws = [] \<and> A d) \<and> sku = SKU_inv (irl_SKU ln) \<and> (\<forall>r. row = Some r \<longrightarrow> was_read (irl_SKU ln) r d))"
    by (rule triple_stmt, intro stability A)
      (auto simp: select_stock_def pg_param_def intro!: read_in_view [of StatusHeld "[]" "[]"] split: if_splits)
  fix row and r :: StockRow assume row: "row = Some r"
  show "triple U (\<lambda>ws d. (ws = [] \<and> A d) \<and> sku = SKU_inv (irl_SKU ln)
        \<and> (\<forall>r. row = Some r \<longrightarrow> was_read (irl_SKU ln) r d))
     (of_result (Stock_Reserve (RehydrateStockItem sku (sr_available r) (sr_reserved r) (sr_version r))
       (int64_of_int32 (irl_Quantity ln))))
     (\<lambda>item ws d. ws = [] \<and> A d \<and> taken StatusHeld (SKU_inv (irl_SKU ln)) ln item d)"
    unfolding row by (rule triple_of_result) (auto simp: taken_def stock_op_def item_of_def)
qed (rule triple_fail)

lemma load_items_tx:
  "stable U (\<lambda>ws. A) \<Longrightarrow> trimmed lns \<Longrightarrow>
   triple U (\<lambda>ws d. ws = [] \<and> A d) (load_items lns)
     (\<lambda>items ws d. ws = [] \<and> A d \<and> list_all2 (\<lambda>ln item. taken StatusHeld (SKU_inv (irl_SKU ln)) ln item d) lns items)"
proof (induction lns arbitrary: A)
  case Nil
  show ?case by (simp add: triple_ok)
next
  case (Cons ln lns)
  have st: "stable U (\<lambda>ws d. A d \<and> taken StatusHeld (SKU_inv (irl_SKU ln)) ln item d)" for item
    by (intro stability Cons.prems)
  show ?case unfolding load_items.simps
  proof (rule triple_and_then [OF load_and_reserve_tx [OF Cons.prems(1)]])
    show "TrimSpace (irl_SKU ln) = irl_SKU ln" using Cons.prems by (simp add: trimmed_def)
    fix item
    show "triple U (\<lambda>ws d. ws = [] \<and> A d \<and> taken StatusHeld (SKU_inv (irl_SKU ln)) ln item d)
       (and_then (load_items lns) (\<lambda>items. ok (item # items)))
       (\<lambda>items ws d. ws = [] \<and> A d \<and> list_all2 (\<lambda>ln item. taken StatusHeld (SKU_inv (irl_SKU ln)) ln item d) (ln # lns) items)"
      by (rule triple_and_then [OF Cons.IH [OF st]])
        (use Cons.prems in \<open>auto simp: trimmed_def intro!: triple_ok\<close>)
  qed
qed

lemma update_items_tx:
  "triple U (\<lambda>ws d. all_booked StatusHeld dn ws d \<and> list_all2 (\<lambda>ln item. taken StatusHeld (SKU_inv (irl_SKU ln)) ln item d) lns items)
     (update_items items) (\<lambda>b ws d. b \<longrightarrow> all_booked StatusHeld (dn @ lns) ws d)"
proof (induction items arbitrary: dn lns)
  case Nil
  show ?case by (auto intro!: triple_ok)
next
  case (Cons item items)
  show ?case
  proof (cases lns)
    case Nil
    then show ?thesis by (simp add: triple_def)
  next
    case c: (Cons ln lns')
    let ?u = "update_stock (isku_value (si_sku item)) (si_available item) (si_reserved item) (si_version item)"
    have sku: "isku_value (si_sku item) = irl_SKU ln" if "taken StatusHeld (SKU_inv (irl_SKU ln)) ln item d" for d
      using that stock_op_sku by (fastforce simp: taken_def item_of_def RehydrateStockItem_def real_status_def)
    have 1: "triple U (\<lambda>ws d. all_booked StatusHeld dn ws d
        \<and> list_all2 (\<lambda>ln item. taken StatusHeld (SKU_inv (irl_SKU ln)) ln item d) lns (item # items)) (wrap_err ''update stock'' (tx_stmt ?u))
      (\<lambda>n ws d. n \<noteq> 0 \<longrightarrow> all_booked StatusHeld (dn @ [ln]) ws d
        \<and> list_all2 (\<lambda>ln item. taken StatusHeld (SKU_inv (irl_SKU ln)) ln item d) lns' items)"
      by (rule triple_map_err, rule triple_stmt, intro stability, clarsimp simp: c)
        (use sku book_step in \<open>fastforce simp: real_status_def\<close>)
    have 2: "triple U (\<lambda>ws d. n \<noteq> 0 \<longrightarrow> all_booked StatusHeld (dn @ [ln]) ws d
        \<and> list_all2 (\<lambda>ln item. taken StatusHeld (SKU_inv (irl_SKU ln)) ln item d) lns' items)
      (if n = 0 then ok False else update_items items)
      (\<lambda>b ws d. b \<longrightarrow> all_booked StatusHeld (dn @ lns) ws d)" for n :: nat
      using Cons.IH [of "dn @ [ln]" lns'] by (auto simp: c intro!: triple_ok)
    show ?thesis unfolding update_items.simps by (rule triple_and_then [OF 1 2])
  qed
qed

text \<open>The lines of the reservation, once its row is in.\<close>

lemma insert_lines_tx:
  assumes L: "uuid_laws L" and i: "rr_id r = uuid_String L v"
  shows "triple U (placing r lns dn) (insert_lines L (rr_id r) rest) (\<lambda>_. placing r lns (dn @ rest))"
  unfolding insert_lines_def
proof (induction rest arbitrary: dn)
  case Nil
  show ?case by (simp add: triple_ok)
next
  case (Cons ln rest)
  have "triple U (placing r lns dn) (wrap_err ''insert reservation line''
      (tx_stmt (insert_line L (rr_id r) (irl_SKU ln) (irl_Quantity ln)))) (\<lambda>_. placing r lns (dn @ [ln]))"
  proof (rule triple_map_err, rule triple_stmt, intro stability)
    fix ws d a ws' assume "placing r lns dn ws d"
      "insert_line L (rr_id r) (irl_SKU ln) (irl_Quantity ln) (view ws d) = Inr (a, ws')"
    then show "placing r lns (dn @ [ln]) (ws @ ws') d"
      using uuid_laws.pg_uuid_string [OF L]
      by (auto simp: insert_line_def i pg_param_def placing_def line_row_def split: if_splits)
  qed
  then show ?case using Cons.IH [of "dn @ [ln]"] by (simp add: triple_and_then)
qed

definition reserve_end ::
  "golib \<Rightarrow> string \<Rightarrow> ReserveLine_inv list \<Rightarrow> ReservationResult ending \<Rightarrow> iwrite list \<Rightarrow> inv_db \<Rightarrow> bool" where
  "reserve_end L u lns e ws d \<longleftrightarrow>
     (case e of
        Answer res \<Rightarrow> present u (rt_ReservationID res) d
      | Write res \<Rightarrow> placing \<lparr>rr_id = rt_ReservationID res, rr_order = u, rr_status = ''HELD''\<rparr> lns lns ws d
      | _ \<Rightarrow> True)"

text \<open>A statement whose failure is looked at.\<close>

lemma triple_catch:
  assumes m: "triple U P m Q" and h: "\<And>ws d. S b ws d" and k: "\<And>x. triple U (Q x) (k x) S"
  shows "triple U P (\<lambda>s. case m s of
      (Inl e, s') \<Rightarrow> if c e then (Inr b, s') else (Inl (g e), s') | (Inr x, s') \<Rightarrow> k x s') S"
  unfolding triple_def
proof (intro allI impI)
  fix w ws r w' ws'
  assume run: "(case m (w, ws) of
      (Inl e, s') \<Rightarrow> if c e then (Inr b, s') else (Inl (g e), s') | (Inr x, s') \<Rightarrow> k x s') = (r, (w', ws'))"
    and ok: "ledger_ok (w_db w)" and g: "relies U w" and P: "P ws (w_db w)"
  obtain r1 w1 ws1 where m1: "m (w, ws) = (r1, (w1, ws1))" by (metis surj_pair)
  from m m1 ok g P have 1: "ledger_ok (w_db w1)" "relies U w1" "occ U (w_db w) (w_db w1)"
    "\<And>a. r1 = Inr a \<Longrightarrow> Q a ws1 (w_db w1)"
    unfolding triple_def by blast+
  show "ledger_ok (w_db w') \<and> relies U w' \<and> occ U (w_db w) (w_db w') \<and> (\<forall>a. r = Inr a \<longrightarrow> S a ws' (w_db w'))"
  proof (cases r1)
    case (Inl e)
    then show ?thesis using run m1 1 h by (auto split: if_splits)
  next
    case (Inr a)
    then have "k a (w1, ws1) = (r, (w', ws'))" using run m1 by simp
    with k [of a] 1(1,2) 1(4) [OF Inr]
    have "ledger_ok (w_db w') \<and> relies U w' \<and> occ U (w_db w1) (w_db w') \<and> (\<forall>a. r = Inr a \<longrightarrow> S a ws' (w_db w'))"
      unfolding triple_def by blast
    then show ?thesis using occ_trans [OF 1(3)] by blast
  qed
qed

lemma tx_new_uuid_tx: "triple U P (tx_new_uuid L) (\<lambda>u ws d. P ws d \<and> (\<exists>k. u = uuid_New L k))"
  by (auto simp: triple_def tx_new_uuid_def relies_def)

lemma insert_reservation_tx:
  assumes L: "uuid_laws L" and u: "pg_uuid L u = Some u" and i: "i = uuid_String L v"
  shows "triple U (all_booked StatusHeld lns)
     (tx_stmt (insert_reservation L i u (ReservationStatus_string StatusHeld)))
     (\<lambda>_. placing \<lparr>rr_id = i, rr_order = u, rr_status = ''HELD''\<rparr> lns [])"
proof (rule triple_stmt, intro stability)
  fix ws d a ws'
  assume b: "all_booked StatusHeld lns ws d"
    and ins: "insert_reservation L i u (ReservationStatus_string StatusHeld) (view ws d) = Inr (a, ws')"
  then show "placing \<lparr>rr_id = i, rr_order = u, rr_status = ''HELD''\<rparr> lns [] (ws @ ws') d"
    using uuid_laws.pg_uuid_string [OF L] u booked_tables [OF b]
    by (auto simp: insert_reservation_def i placing_def list_ex_iff split: if_splits)
qed

lemma reserve_body_tx:
  assumes L: "uuid_laws L" and u: "pg_uuid L u = Some u" and t: "trimmed lns"
  shows "triple U (\<lambda>ws d. ws = []) (reserve_body L u lns) (reserve_end L u lns)"
  unfolding reserve_body_def
proof (rule triple_and_then [OF find_tx [OF u]], rule triple_case)
  fix res :: "ReservationResult option" and e assume "res = Some e"
  then show "triple U (\<lambda>ws d. ws = [] \<and> (\<forall>e. res = Some e \<longrightarrow> present u (rt_ReservationID e) d))
     (ok (Answer (e\<lparr>rt_Idempotent := True\<rparr>))) (reserve_end L u lns)"
    by (auto simp: reserve_end_def intro!: triple_ok)
next
  fix res :: "ReservationResult option" assume "res = None"
  let ?rest = "\<lambda>b. if \<not> b then ok Retry
     else and_then (tx_new_uuid L) (\<lambda>v. let resID = uuid_String L v in (\<lambda>s.
       (case tx_stmt (insert_reservation L resID u (ReservationStatus_string StatusHeld)) s of
          (Inl err, s') \<Rightarrow> if isUniqueViolation err then (Inr UniqueRace, s')
                          else (Inl (Wrapf ''insert reservation'' err), s')
        | (Inr _, s') \<Rightarrow>
            and_then (insert_lines L resID lns) (\<lambda>_.
              ok (Write \<lparr>rt_ReservationID = resID, rt_OrderID = u,
                         rt_Status = ReservationStatus_string StatusHeld, rt_Lines = lns,
                         rt_Idempotent = False\<rparr>)) s')))"
  have 4: "triple U (\<lambda>ws d. b \<longrightarrow> all_booked StatusHeld ([] @ lns) ws d) (?rest b) (reserve_end L u lns)" for b
  proof (rule triple_if)
    assume b: "\<not> \<not> b"
    show "triple U (\<lambda>ws d. b \<longrightarrow> all_booked StatusHeld ([] @ lns) ws d)
      (and_then (tx_new_uuid L) (\<lambda>v. let resID = uuid_String L v in (\<lambda>s.
       (case tx_stmt (insert_reservation L resID u (ReservationStatus_string StatusHeld)) s of
          (Inl err, s') \<Rightarrow> if isUniqueViolation err then (Inr UniqueRace, s')
                          else (Inl (Wrapf ''insert reservation'' err), s')
        | (Inr _, s') \<Rightarrow>
            and_then (insert_lines L resID lns) (\<lambda>_.
              ok (Write \<lparr>rt_ReservationID = resID, rt_OrderID = u,
                         rt_Status = ReservationStatus_string StatusHeld, rt_Lines = lns,
                         rt_Idempotent = False\<rparr>)) s')))) (reserve_end L u lns)"
      unfolding Let_def
    proof (rule triple_and_then [OF tx_new_uuid_tx], rule triple_catch)
      fix v
      let ?r = "\<lparr>rr_id = uuid_String L v, rr_order = u, rr_status = ''HELD''\<rparr>"
      show "triple U (\<lambda>ws d. (b \<longrightarrow> all_booked StatusHeld ([] @ lns) ws d) \<and> (\<exists>k. v = uuid_New L k))
        (tx_stmt (insert_reservation L (uuid_String L v) u (ReservationStatus_string StatusHeld)))
        (\<lambda>_. placing ?r lns [])"
        by (rule triple_pre [OF insert_reservation_tx [OF L u refl]]) (use b in simp)
      show "reserve_end L u lns UniqueRace ws d" for ws d by (simp add: reserve_end_def)
      show "triple U (placing ?r lns []) (and_then (insert_lines L (uuid_String L v) lns) (\<lambda>_.
              ok (Write \<lparr>rt_ReservationID = uuid_String L v, rt_OrderID = u,
                         rt_Status = ReservationStatus_string StatusHeld, rt_Lines = lns,
                         rt_Idempotent = False\<rparr>))) (reserve_end L u lns)"
        using insert_lines_tx [OF L, of ?r v U lns "[]" lns]
        by (auto simp: reserve_end_def intro!: triple_and_then [where Q = "\<lambda>_. placing ?r lns lns"] triple_ok)
    qed
  qed (auto simp: reserve_end_def intro!: triple_ok)
  show "triple U (\<lambda>ws d. ws = [] \<and> (\<forall>e. res = Some e \<longrightarrow> present u (rt_ReservationID e) d))
     (and_then (load_items lns) (\<lambda>items. and_then (update_items items) ?rest)) (reserve_end L u lns)"
    by (rule triple_pre [OF triple_and_then [OF load_items_tx [OF stable_const(1) [of U True] t]
          triple_and_then [OF triple_pre [OF update_items_tx [of U "[]" lns]] 4]]])
      auto
qed

lemma tx_begin_guarded: "guarded U G P m Q \<Longrightarrow> guarded U G P (and_then tx_begin (\<lambda>_. m)) Q"
  by (rule guarded_and_then [OF guarded_begin])

lemma reserveOnce_guarded:
  assumes L: "uuid_laws L" and u: "pg_uuid L u = Some u" and t: "trimmed lns"
  shows "guarded U G (\<lambda>d. True) (reserveOnce L u lns)
    (\<lambda>x d. case x of None \<Rightarrow> True | Some res \<Rightarrow> present u (rt_ReservationID res) d)"
proof -
  let ?Q = "\<lambda>x d. case x of None \<Rightarrow> True | Some res \<Rightarrow> present u (rt_ReservationID res) d"
  let ?k = "\<lambda>x ws. case x of
       Answer res \<Rightarrow> ok (Some res)
     | Retry \<Rightarrow> ok None
     | UniqueRace \<Rightarrow>
         and_then (findReservationByOrder pool_stmt pool_stmt L u) (\<lambda>existing.
           case existing of
             Some e \<Rightarrow> ok (Some (e\<lparr>rt_Idempotent := True\<rparr>))
           | None \<Rightarrow> fail (Wrapf ''insert reservation'' (Foreign ''23505'')))
     | Write res \<Rightarrow> and_then (tx_commit ws) (\<lambda>_. ok (Some res))"
  have split: "reserveOnce L u lns = and_then tx_begin (\<lambda>_ w. case reserve_body L u lns (w, []) of
      (Inl err, (w', ws)) \<Rightarrow> (Inl err, w') | (Inr x, (w', ws)) \<Rightarrow> ?k x ws w')"
    unfolding reserveOnce_def
    by (rule arg_cong [where f = "and_then tx_begin"], intro ext)
      (auto simp: ok_def split: prod.split sum.split ending.split)
  have k: "guarded U G (reserve_end L u lns x ws) (?k x ws) ?Q" for x ws
  proof (cases x)
    case (Answer res)
    then show ?thesis by (auto simp: reserve_end_def intro!: guarded_pure)
  next
    case Retry
    then show ?thesis by (auto intro!: guarded_pure)
  next
    case UniqueRace
    then show ?thesis
      by (auto intro!: guarded_pre [OF guarded_and_then [OF find_pool [OF u]]] guarded_case guarded_pure)
  next
    case (Write res)
    let ?r = "\<lparr>rr_id = rt_ReservationID res, rr_order = u, rr_status = ''HELD''\<rparr>"
    have "present u (rt_ReservationID res) (view ws d)" if "?r \<in> set (t_reservations (view ws d))" for d
      using that by (force simp: present_def)
    then have "guarded U G (placing ?r lns lns ws) (tx_commit ws) (\<lambda>_. present u (rt_ReservationID res))"
      using placing_ledger [of ?r lns ws] by (intro guarded_commit stability) blast
    moreover have "reserve_end L u lns x ws = placing ?r lns lns ws"
      by (intro ext) (simp add: reserve_end_def Write)
    ultimately show ?thesis
      by (auto simp: Write intro!: guarded_and_then guarded_pure)
  qed
  show ?thesis unfolding split
    by (intro tx_begin_guarded guarded_tx [OF triple_pre [OF reserve_body_tx [OF L u t]] k]) simp
qed

lemma trimmed_sort: "trimmed (sort_key f lns) = trimmed lns"
  by (simp add: trimmed_def list_all_iff)

lemma Inventory_Reserve_guarded:
  assumes L: "uuid_laws L" and u: "pg_uuid L u = Some u" and t: "trimmed lns"
  shows "guarded U G (\<lambda>d. True) (Inventory_Reserve L u lns) (\<lambda>res. present u (rt_ReservationID res))"
  unfolding Inventory_Reserve_def
  by (rule guarded_retry, rule guarded_post [OF reserveOnce_guarded [OF L u]])
    (simp_all add: trimmed_sort t)

section \<open>Release and Commit\<close>

definition held_by :: "string \<Rightarrow> ReservationRow \<Rightarrow> inv_db \<Rightarrow> bool" where
  "held_by u r d \<longleftrightarrow> r \<in> set (t_reservations d) \<and> rr_order r = u"

lemma stable_held_by [stability]: "u \<in> U \<Longrightarrow> stable U (\<lambda>ws. held_by u r)"
  unfolding stable_def held_by_def occ_def by blast

lemma stable_lines_read [stability]:
  "u \<in> U \<Longrightarrow> stable U (\<lambda>ws d. held_by u r d \<and> lines = lines_read d (rr_id r))"
  unfolding stable_def held_by_def occ_def lines_read_def by metis

lemma lines_read_distinct: "ledger_ok d \<Longrightarrow> distinct (map irl_SKU (lines_read d i))"
proof -
  assume ok: "ledger_ok d"
  then have "distinct (map (\<lambda>l. (lr_reservation l, lr_sku l)) (lines_of d i))"
    by (simp add: ledger_ok_def lines_of_def distinct_map inj_on_def)
  moreover have "map (\<lambda>l. (lr_reservation l, lr_sku l)) (lines_of d i) = map (\<lambda>s. (i, s)) (map lr_sku (lines_of d i))"
    by (simp add: lines_of_def)
  ultimately have "distinct (map lr_sku (lines_of d i))"
    by (metis distinct_map)
  then show ?thesis by (simp add: lines_read_def comp_def distinct_map)
qed

lemma move_of:
  "move_reservation k (RehydrateReservation a b (ReservationStatus_of st) ls) = Inr (changed, res') \<Longrightarrow>
   if changed then st = ''HELD'' \<and> (k = StatusReleased \<or> k = StatusCommitted) else st = ReservationStatus_string k"
  by (auto simp: move_reservation_def Reservation_Release_def Reservation_Commit_def RehydrateReservation_def
      ReservationStatus_of_def split: ReservationStatus.splits if_splits)

lemma transition_line_tx:
  assumes k: "k = StatusReleased \<or> k = StatusCommitted" and A: "stable U (\<lambda>ws. A)"
    and new: "irl_SKU ln \<notin> irl_SKU ` set dn"
  shows "triple U (\<lambda>ws d. all_booked k dn ws d \<and> A d) (transition_line k ln)
    (\<lambda>b ws d. b \<longrightarrow> all_booked k (dn @ [ln]) ws d \<and> A d)"
  unfolding transition_line_def loadStockItem_def
proof (intro triple_and_then triple_map_err triple_case)
  let ?P = "\<lambda>ws d. all_booked k dn ws d \<and> A d"
  show "triple U ?P (of_result (NewSKU_inv (irl_SKU ln))) (\<lambda>sku. ?P)"
    by (rule triple_of_result)
  fix sku
  show "triple U ?P (tx_stmt (select_stock (irl_SKU ln)))
    (\<lambda>row ws d. ?P ws d \<and> (\<forall>r. row = Some r \<longrightarrow> was_read (irl_SKU ln) r d))"
    by (rule triple_stmt, intro stability A)
      (auto simp: select_stock_def pg_param_def intro: read_in_view [OF _ new] split: if_splits)
  fix row and r :: StockRow assume row: "row = Some r"
  show "triple U (\<lambda>ws d. ?P ws d \<and> (\<forall>r. row = Some r \<longrightarrow> was_read (irl_SKU ln) r d))
     (of_result (move_stock k (RehydrateStockItem sku (sr_available r) (sr_reserved r) (sr_version r))
       (int64_of_int32 (irl_Quantity ln))))
     (\<lambda>item ws d. ?P ws d \<and> taken k sku ln item d \<and> si_version item = sr_version r)"
    unfolding row
    by (rule triple_of_result)
      (use k stock_op_sku [of k "RehydrateStockItem sku (sr_available r) (sr_reserved r) (sr_version r)"]
        in \<open>auto simp: taken_def stock_op_def item_of_def real_status_def RehydrateStockItem_def\<close>)
  fix item
  show "triple U (\<lambda>ws d. ?P ws d \<and> taken k sku ln item d \<and> si_version item = sr_version r)
     (tx_stmt (update_stock (irl_SKU ln) (si_available item) (si_reserved item) (sr_version r)))
     (\<lambda>n ws d. n \<noteq> 0 \<longrightarrow> all_booked k (dn @ [ln]) ws d \<and> A d)"
    by (rule triple_stmt, intro stability A)
      (use k book_step in \<open>fastforce simp: real_status_def\<close>)
qed (auto intro!: triple_ok triple_fail)

lemma transition_lines_tx:
  assumes k: "k = StatusReleased \<or> k = StatusCommitted" and A: "stable U (\<lambda>ws. A)"
  shows "distinct (map irl_SKU (dn @ lns)) \<Longrightarrow>
    triple U (\<lambda>ws d. all_booked k dn ws d \<and> A d) (transition_lines k lns)
      (\<lambda>b ws d. b \<longrightarrow> all_booked k (dn @ lns) ws d \<and> A d)"
proof (induction lns arbitrary: dn)
  case Nil
  show ?case by (auto intro!: triple_ok)
next
  case (Cons ln lns)
  have new: "irl_SKU ln \<notin> irl_SKU ` set dn" and d: "distinct (map irl_SKU ((dn @ [ln]) @ lns))"
    using Cons.prems by auto
  note IH = Cons.IH [OF d]
  show ?case unfolding transition_lines.simps
  proof (rule triple_and_then [OF transition_line_tx [OF k A new]])
    fix b
    show "triple U (\<lambda>ws d. b \<longrightarrow> all_booked k (dn @ [ln]) ws d \<and> A d)
       (if b then transition_lines k lns else ok False)
       (\<lambda>b ws d. b \<longrightarrow> all_booked k (dn @ ln # lns) ws d \<and> A d)"
      using IH by (auto intro!: triple_ok)
  qed
qed

definition transition_end ::
  "string \<Rightarrow> ReservationStatus \<Rightarrow> ReservationResult ending \<Rightarrow> iwrite list \<Rightarrow> inv_db \<Rightarrow> bool" where
  "transition_end u k e ws d \<longleftrightarrow>
     (case e of
        Answer res \<Rightarrow> (\<exists>r. held_by u r d \<and> rr_status r = ReservationStatus_string k)
      | Write res \<Rightarrow> (\<exists>r. rr_order r = u \<and> settling k r ws d)
      | _ \<Rightarrow> True)"

text \<open>The reservation and the lines the transaction has read are still there.\<close>

definition in_hand :: "string \<Rightarrow> ReservationRow \<Rightarrow> ReserveLine_inv list \<Rightarrow> inv_db \<Rightarrow> bool" where
  "in_hand u r lines d \<longleftrightarrow> held_by u r d \<and> lines = lines_read d (rr_id r)"

lemma stable_in_hand [stability]: "u \<in> U \<Longrightarrow> stable U (\<lambda>ws. in_hand u r lines)"
  unfolding in_hand_def by (rule stable_lines_read)

lemma settle_tx:
  assumes U: "u \<in> U"
  shows "triple U (\<lambda>ws d. (rr_status r = ''HELD'' \<and> (k = StatusReleased \<or> k = StatusCommitted)
        \<and> distinct (map irl_SKU lines)) \<and> ws = [] \<and> in_hand u r lines d)
     (and_then (transition_lines k lines) (\<lambda>moved.
        if \<not> moved then ok Retry
        else and_then (wrap_err ''update reservation''
            (tx_stmt (update_reservation (ReservationStatus_string k) (rr_id r)))) (\<lambda>_. ok (Write result))))
     (transition_end u k)"
proof (rule triple_fact, elim conjE)
  assume h: "rr_status r = ''HELD''" and k: "k = StatusReleased \<or> k = StatusCommitted"
    and d: "distinct (map irl_SKU lines)"
  note A = stable_in_hand [OF U, of r lines]
  have upd: "triple U (\<lambda>ws d. moved \<longrightarrow> all_booked k ([] @ lines) ws d \<and> in_hand u r lines d)
      (wrap_err ''update reservation'' (tx_stmt (update_reservation (ReservationStatus_string k) (rr_id r))))
      (\<lambda>_ ws d. rr_order r = u \<and> settling k r ws d)" if "moved" for moved
    by (rule triple_map_err, rule triple_stmt, intro stability A U)
      (use that k h in \<open>auto simp: update_reservation_def settling_def in_hand_def held_by_def\<close>)
  have rest: "triple U (\<lambda>ws d. moved \<longrightarrow> all_booked k ([] @ lines) ws d \<and> in_hand u r lines d)
     (if \<not> moved then ok Retry
      else and_then (wrap_err ''update reservation''
          (tx_stmt (update_reservation (ReservationStatus_string k) (rr_id r)))) (\<lambda>_. ok (Write result)))
     (transition_end u k)" for moved
  proof (rule triple_if)
    assume "\<not> \<not> moved"
    then show "triple U (\<lambda>ws d. moved \<longrightarrow> all_booked k ([] @ lines) ws d \<and> in_hand u r lines d)
      (and_then (wrap_err ''update reservation''
          (tx_stmt (update_reservation (ReservationStatus_string k) (rr_id r)))) (\<lambda>_. ok (Write result)))
      (transition_end u k)"
      by (intro triple_and_then [OF upd]) (auto simp: transition_end_def intro!: triple_ok)
  qed (auto simp: transition_end_def intro!: triple_ok)
  show "triple U (\<lambda>ws d. ws = [] \<and> in_hand u r lines d)
     (and_then (transition_lines k lines) (\<lambda>moved.
        if \<not> moved then ok Retry
        else and_then (wrap_err ''update reservation''
            (tx_stmt (update_reservation (ReservationStatus_string k) (rr_id r)))) (\<lambda>_. ok (Write result))))
     (transition_end u k)"
    by (rule triple_pre [OF triple_and_then [OF transition_lines_tx [OF k A] rest]]) (use d in simp_all)
qed

text \<open>What the domain says about the status that was read.\<close>

definition moved_as :: "ReservationStatus \<Rightarrow> ReservationRow \<Rightarrow> bool \<Rightarrow> bool" where
  "moved_as k r changed \<longleftrightarrow>
     (if changed then rr_status r = ''HELD'' \<and> (k = StatusReleased \<or> k = StatusCommitted)
      else rr_status r = ReservationStatus_string k)"

lemma move_tx:
  "triple U (\<lambda>ws d. P ws d \<and> (\<exists>a b ls. res = RehydrateReservation a b (ReservationStatus_of (rr_status r)) ls))
     (of_result (move_reservation k res)) (\<lambda>p ws d. P ws d \<and> moved_as k r (fst p))"
proof (rule triple_of_result)
  fix ws d p
  assume 1: "P ws d \<and> (\<exists>a b ls. res = RehydrateReservation a b (ReservationStatus_of (rr_status r)) ls)"
    and 2: "move_reservation k res = Inr p"
  from 1 obtain a b ls where res: "res = RehydrateReservation a b (ReservationStatus_of (rr_status r)) ls" by blast
  obtain changed res' where p: "p = (changed, res')" by fastforce
  show "P ws d \<and> moved_as k r (fst p)"
    using 1 move_of [OF 2 [unfolded res p]]
    by (auto simp: moved_as_def p)
qed

lemma transition_body_tx:
  assumes u: "pg_uuid L u = Some u" and U: "u \<in> U"
  shows "triple U (\<lambda>ws d. ws = []) (transition_body L u k) (transition_end u k)"
proof -
  have 1: "triple U (\<lambda>ws d. ws = []) (tx_stmt (select_reservation L u))
     (\<lambda>row ws d. ws = [] \<and> (\<forall>r. row = Some r \<longrightarrow> held_by u r d))"
    by (rule triple_stmt, intro stability U)
      (use select_reservation_Inr [OF u] in \<open>fastforce simp: held_by_def\<close>)
  have 2: "triple U (\<lambda>ws d. ws = [] \<and> (\<forall>r. row = Some r \<longrightarrow> held_by u r d))
      (wrap_err ''load lines'' (tx_stmt (select_lines (rr_id r)))) (\<lambda>lines ws d. ws = [] \<and> in_hand u r lines d)"
    if "row = Some r" for row r
    by (rule triple_map_err, rule triple_stmt, intro stability U)
      (auto simp: that select_lines_def in_hand_def lines_read_def lines_of_def)
  have 3: "triple U (\<lambda>ws d. ws = [] \<and> in_hand u r lines d)
      (of_result (rehydrateReservation L (rr_id r) u (rr_status r) lines))
      (\<lambda>res ws d. (ws = [] \<and> in_hand u r lines d)
         \<and> (\<exists>a b ls. res = RehydrateReservation a b (ReservationStatus_of (rr_status r)) ls))" for r lines
    by (rule triple_of_result) (auto simp: rehydrateReservation_def split: sum.splits)
  have 4: "triple U (\<lambda>ws d. (ws = [] \<and> in_hand u r lines d) \<and> moved_as k r (fst (changed, res')))
     (if \<not> changed then ok (Answer result)
      else and_then (transition_lines k lines) (\<lambda>moved.
        if \<not> moved then ok Retry
        else and_then (wrap_err ''update reservation''
            (tx_stmt (update_reservation (ReservationStatus_string k) (rr_id r)))) (\<lambda>_. ok (Write result))))
     (transition_end u k)" for r lines changed and res' :: Reservation and result
  proof (rule triple_if)
    assume "\<not> changed"
    then show "triple U (\<lambda>ws d. (ws = [] \<and> in_hand u r lines d) \<and> moved_as k r (fst (changed, res')))
      (ok (Answer result)) (transition_end u k)"
      by (auto simp: transition_end_def in_hand_def moved_as_def intro!: triple_ok)
  next
    assume "\<not> \<not> changed"
    then show "triple U (\<lambda>ws d. (ws = [] \<and> in_hand u r lines d) \<and> moved_as k r (fst (changed, res')))
      (and_then (transition_lines k lines) (\<lambda>moved.
        if \<not> moved then ok Retry
        else and_then (wrap_err ''update reservation''
            (tx_stmt (update_reservation (ReservationStatus_string k) (rr_id r)))) (\<lambda>_. ok (Write result))))
      (transition_end u k)"
      by (intro triple_pre [OF settle_tx [OF U]]) (auto simp: moved_as_def in_hand_def lines_read_distinct)
  qed
  show ?thesis unfolding transition_body_def loadLines_def
    apply (rule triple_and_then [OF triple_map_err [OF 1]])
    apply (rule triple_case, rule triple_fail)
    apply (rule triple_and_then [OF 2], assumption)
    apply (rule triple_and_then [OF 3])
    apply (rule triple_and_then [OF move_tx])
    using 4 by (auto simp: Let_def split: prod.split)
qed

text \<open>The status an answer reports is the one in the database.\<close>

definition settled :: "string \<Rightarrow> ReservationStatus \<Rightarrow> inv_db \<Rightarrow> bool" where
  "settled u k d \<longleftrightarrow> (\<exists>r. held_by u r d \<and> rr_status r = ReservationStatus_string k)"

lemma transitionOnce_guarded:
  assumes u: "pg_uuid L u = Some u" and U: "u \<in> U" and G: "u \<notin> G"
  shows "guarded U G (\<lambda>d. True) (transitionOnce L u k)
    (\<lambda>x d. case x of None \<Rightarrow> True | Some res \<Rightarrow> settled u k d)"
proof -
  let ?Q = "\<lambda>x d. case x of None \<Rightarrow> True | Some res \<Rightarrow> settled u k d"
  let ?k = "\<lambda>x ws. case x of
       Answer res \<Rightarrow> ok (Some res)
     | Write res \<Rightarrow> and_then (tx_commit ws) (\<lambda>_. ok (Some res))
     | _ \<Rightarrow> ok None"
  have split: "transitionOnce L u k = and_then tx_begin (\<lambda>_ w. case transition_body L u k (w, []) of
      (Inl err, (w', ws)) \<Rightarrow> (Inl err, w') | (Inr x, (w', ws)) \<Rightarrow> ?k x ws w')"
    unfolding transitionOnce_def
    by (rule arg_cong [where f = "and_then tx_begin"], intro ext)
      (auto simp: ok_def split: prod.split sum.split ending.split)
  have k: "guarded U G (transition_end u k x ws) (?k x ws) ?Q" for x ws
  proof (cases x)
    case (Write res)
    let ?R = "\<lambda>ws d. \<exists>r. rr_order r = u \<and> settling k r ws d"
    have "stable U (\<lambda>ws d. rr_order r = u \<and> settling k r ws d)" for r
      using stable_settling [of r U k] U by (cases "rr_order r = u") (auto simp: stable_const)
    then have st: "stable U ?R" by (rule stable_ex)
    have "settled u k (view ws d)"
      if "rr_order r = u" "r\<lparr>rr_status := ReservationStatus_string k\<rparr> \<in> set (t_reservations (view ws d))" for r d
      using that unfolding settled_def held_by_def
      by (intro exI [of _ "r\<lparr>rr_status := ReservationStatus_string k\<rparr>"]) simp
    then have "guarded U G (?R ws) (tx_commit ws) (\<lambda>_. settled u k)"
      using settling_ledger [of k _ ws] G by (intro guarded_commit [OF st]) blast
    moreover have "transition_end u k x ws = ?R ws"
      by (intro ext) (simp add: transition_end_def Write)
    ultimately show ?thesis
      by (auto simp: Write intro!: guarded_and_then guarded_pure)
  qed (auto simp: transition_end_def settled_def intro!: guarded_pure)
  show ?thesis unfolding split
    by (intro tx_begin_guarded guarded_tx [OF triple_pre [OF transition_body_tx [OF u U]] k]) simp
qed

lemma Inventory_transition_guarded:
  assumes "pg_uuid L u = Some u" "u \<in> U" "u \<notin> G"
  shows "guarded U G (\<lambda>d. True) (Inventory_transition L u k) (\<lambda>res. settled u k)"
  unfolding Inventory_transition_def
  by (rule guarded_retry, rule guarded_post [OF transitionOnce_guarded [OF assms]]) simp

section \<open>Stock updates and reads\<close>

lemma upsert_ledger:
  assumes up: "upsert_stock sku a d = Inr (x, ws)" and ok: "ledger_ok d"
  shows "ledger_ok (view ws d) \<and> occ G d (view ws d)"
proof -
  obtain row where ws: "ws = [WStock sku row]" and a: "0 \<le> sint (sr_available row)"
    and row: "case stock_of d sku of None \<Rightarrow> sint (sr_reserved row) = 0
        | Some old \<Rightarrow> sr_reserved row = sr_reserved old \<and> sint (sr_version old) < sint (sr_version row)"
  proof -
    have v: "sint (v + 1) = sint v + 1" if "sint v \<noteq> 2 ^ 63 - 1" for v :: int64
      using that sint_range64 [of v] sint_add64 [of v 1] by simp
    show ?thesis
    proof (cases "stock_of d sku")
      case None
      then show ?thesis using up that by (auto simp: upsert_stock_def pg_param_def split: if_splits)
    next
      case (Some old)
      then show ?thesis using up v [of "sr_version old"] that
        by (auto simp: upsert_stock_def pg_param_def split: if_splits)
    qed
  qed
  let ?d = "view ws d"
  have view: "t_reservations ?d = t_reservations d" "t_lines ?d = t_lines d"
    "\<And>k. stock_of ?d k = (if k = sku then Some row else stock_of d k)"
    by (auto simp: ws stock_of_apply [of "WStock sku row", simplified])
  have held: "held_qty ?d k = held_qty d k" for k
    by (simp add: held_qty_def is_held_def view)
  have none: "held_qty d sku = 0" if "stock_of d sku = None"
  proof -
    have "filter (\<lambda>l. lr_sku l = sku \<and> is_held d (lr_reservation l)) (t_lines d) = []"
      using ok that by (fastforce simp: ledger_ok_def line_ok_def filter_empty_conv)
    then show ?thesis by (simp add: held_qty_def)
  qed
  have "row_ok ?d k r" if s: "stock_of ?d k = Some r" for k r
  proof (cases "k = sku")
    case True
    then have "r = row" using s view(3) by simp
    then show ?thesis
      using True row a none ledger_row [OF ok, of sku] held [of sku]
      by (cases "stock_of d sku") (auto simp: row_ok_def)
  next
    case False
    then have "stock_of d k = Some r" using s view(3) by simp
    from ledger_row [OF ok this] show ?thesis by (simp add: row_ok_def held)
  qed
  moreover have "newer ?d k r" if "stock_of d k = Some r" for k r
    using that row by (cases "k = sku") (auto simp: newer_def view)
  moreover have "line_ok ?d l" if "l \<in> set (t_lines d)" for l
    using ok that by (auto simp: ledger_ok_def line_ok_def view)
  ultimately show ?thesis
    using ok by (auto simp: ledger_ok_def occ_def view lines_of_def follows_def)
qed

lemma UpsertStock_guarded: "guarded U G (\<lambda>d. True) (UpsertStock sku a) (\<lambda>_ d. True)"
  unfolding UpsertStock_def
  by (rule guarded_map_err, rule guarded_pool, intro stability) (use upsert_ledger in blast)

lemma GetReservation_guarded:
  "pg_uuid L u = Some u \<Longrightarrow>
   guarded U G (\<lambda>d. True) (GetReservation L u) (\<lambda>res. present u (rt_ReservationID res))"
  unfolding GetReservation_def
  by (rule guarded_and_then [OF find_pool]) (auto intro!: guarded_case guarded_pure)

lemma GetStock_guarded: "guarded U G (\<lambda>d. True) (GetStock sku) (\<lambda>_ d. True)"
  unfolding GetStock_def
  by (rule guarded_and_then [OF guarded_map_err [OF guarded_pool [where Q = "\<lambda>_ d. True"]]], intro stability)
    (auto simp: select_stock_def pg_param_def intro!: guarded_case guarded_pure split: if_splits)

end
