(* ===== verification/Inventory_App.thy ===== *)
theory Inventory_App
  imports Inventory_Store Http
begin

text \<open>
  services/inventory/internal/app (the use cases over the store) and
  services/inventory/internal/presentation/http (the REST adapter, the error classification and
  the router). Counters and logs are left out.
\<close>

section \<open>Use cases\<close>

record ReserveLineInput =
  rli_SKU :: string
  rli_Quantity :: int32

record ReserveStockCommand =
  rsc_OrderID :: string
  rsc_Lines :: "ReserveLineInput list"

fun validate_lines :: "string list \<Rightarrow> ReserveLineInput list \<Rightarrow> ierr + ReserveLine_inv list" where
  "validate_lines seen [] = Inr []"
| "validate_lines seen (ln # lns) =
     (case NewSKU_inv (rli_SKU ln) of
        Inl err \<Rightarrow> Inl err
      | Inr sku \<Rightarrow>
     (case NewQuantity_inv (rli_Quantity ln) of
        Inl err \<Rightarrow> Inl err
      | Inr qty \<Rightarrow>
          if isku_value sku \<in> set seen then Inl (Detailf ErrValidation_inv ''duplicate sku'')
          else map_sum id (Cons \<lparr>irl_SKU = isku_value sku, irl_Quantity = iqty_value qty\<rparr>)
                 (validate_lines (isku_value sku # seen) lns)))"

definition ReserveStock_Handle :: "golib \<Rightarrow> ReserveStockCommand \<Rightarrow> ReservationResult inv_act" where
  "ReserveStock_Handle L cmd =
     and_then (of_result (ParseOrderID_inv L (rsc_OrderID cmd))) (\<lambda>oid.
       if rsc_Lines cmd = [] then fail (Detailf ErrValidation_inv ''at least one line is required'')
       else
         and_then (of_result (validate_lines [] (rsc_Lines cmd))) (\<lambda>lines.
           Inventory_Reserve L (OrderID_String_inv L oid) lines))"

definition ReleaseReservation_Handle :: "golib \<Rightarrow> string \<Rightarrow> ReservationResult inv_act" where
  "ReleaseReservation_Handle L orderID =
     and_then (of_result (ParseOrderID_inv L orderID)) (\<lambda>oid.
       Inventory_Release L (OrderID_String_inv L oid))"

definition CommitReservation_Handle :: "golib \<Rightarrow> string \<Rightarrow> ReservationResult inv_act" where
  "CommitReservation_Handle L orderID =
     and_then (of_result (ParseOrderID_inv L orderID)) (\<lambda>oid.
       Inventory_Commit L (OrderID_String_inv L oid))"

definition GetReservation_Handle :: "golib \<Rightarrow> string \<Rightarrow> ReservationResult inv_act" where
  "GetReservation_Handle L orderID =
     and_then (of_result (ParseOrderID_inv L orderID)) (\<lambda>oid.
       GetReservation L (OrderID_String_inv L oid))"

definition GetStock_Handle :: "string \<Rightarrow> StockView inv_act" where
  "GetStock_Handle sku = and_then (of_result (NewSKU_inv sku)) (\<lambda>s. GetStock (isku_value s))"

record SetStockCommand =
  ss_SKU :: string
  ss_Available :: int64

definition SetStock_Handle :: "SetStockCommand \<Rightarrow> unit inv_act" where
  "SetStock_Handle cmd =
     and_then (of_result (NewSKU_inv (ss_SKU cmd))) (\<lambda>s.
       if ss_Available cmd <s 0 then fail (Detailf ErrValidation_inv ''available must be non-negative'')
       else UpsertStock (isku_value s) (ss_Available cmd))"

section \<open>Bodies\<close>

text \<open>A struct decoded with DisallowUnknownFields.\<close>

definition dec_strict :: "string list \<Rightarrow> ((string \<times> json) list \<Rightarrow> 'a \<Rightarrow> 'a option) \<Rightarrow> 'a dec" where
  "dec_strict ks f j a = (if known_keys ks j then dec_struct f j a else None)"

definition dec_reserveLine :: "ReserveLineInput dec" where
  "dec_reserveLine = dec_strict [''sku'', ''quantity''] (\<lambda>kvs l.
     Option.bind (dec_field ''sku'' dec_string kvs (rli_SKU l)) (\<lambda>s.
     Option.bind (dec_field ''quantity'' dec_int32 kvs (rli_Quantity l)) (\<lambda>q.
       Some \<lparr>rli_SKU = s, rli_Quantity = q\<rparr>)))"

definition dec_reserveRequest :: "ReserveStockCommand dec" where
  "dec_reserveRequest = dec_strict [''orderId'', ''lines''] (\<lambda>kvs r.
     Option.bind (dec_field ''orderId'' dec_string kvs (rsc_OrderID r)) (\<lambda>i.
     Option.bind (dec_field ''lines'' (dec_list dec_reserveLine \<lparr>rli_SKU = [], rli_Quantity = 0\<rparr>) kvs
                    (rsc_Lines r)) (\<lambda>ls.
       Some \<lparr>rsc_OrderID = i, rsc_Lines = ls\<rparr>)))"

definition dec_setStock :: "int64 dec" where
  "dec_setStock = dec_strict [''available''] (\<lambda>kvs a. dec_field ''available'' dec_int64 kvs a)"

definition decodeJSON_inv :: "'a dec \<Rightarrow> 'a \<Rightarrow> request \<Rightarrow> ierr + 'a" where
  "decodeJSON_inv d z rq =
     (case json_Unmarshal d z (rq_Body rq) of
        None \<Rightarrow> Inl (Detailf ErrValidation_inv ''malformed request body'')
      | Some a \<Rightarrow> Inr a)"

definition enc_reserveLine :: "ReserveLine_inv \<Rightarrow> json" where
  "enc_reserveLine l = JObj [(''sku'', JStr (irl_SKU l)), (''quantity'', enc_int32 (irl_Quantity l))]"

definition reservationResponse :: "ReservationResult \<Rightarrow> json" where
  "reservationResponse res =
     JObj [(''reservationId'', JStr (rt_ReservationID res)), (''orderId'', JStr (rt_OrderID res)),
           (''status'', JStr (rt_Status res)), (''lines'', JArr (map enc_reserveLine (rt_Lines res)))]"

definition stockResponse :: "StockView \<Rightarrow> json" where
  "stockResponse v =
     JObj [(''sku'', JStr (sv_SKU v)), (''available'', enc_int64 (sv_Available v)),
           (''reserved'', enc_int64 (sv_Reserved v)), (''version'', enc_int64 (sv_Version v))]"

section \<open>Errors\<close>

definition classify_inv :: "(ierr \<Rightarrow> string) \<Rightarrow> ierr \<Rightarrow> nat \<times> string \<times> string" where
  "classify_inv error_text err =
     (if errors_Is err ErrValidation_inv \<or> errors_Is err ErrInvalidIdentifier_inv
      then (400, ''VALIDATION_ERROR'', error_text err)
      else if errors_Is err ErrSKUNotFound \<or> errors_Is err ErrReservationNotFound
      then (404, ''NOT_FOUND'', error_text err)
      else if errors_Is err ErrInsufficientStock then (409, ''INSUFFICIENT_STOCK'', error_text err)
      else if errors_Is err ErrConcurrency_inv
      then (409, ''CONFLICT'', ''the resource was modified concurrently, please retry'')
      else if errors_Is err ErrInvalidTransition_inv then (409, ''INVALID_STATE'', error_text err)
      else (500, ''INTERNAL'', error_text err))"

definition respond_inv ::
  "(ierr \<Rightarrow> string) \<Rightarrow> rctx \<Rightarrow> ('a \<Rightarrow> response) \<Rightarrow> 'a inv_act \<Rightarrow> inv_world \<Rightarrow> response option \<times> inv_world" where
  "respond_inv error_text cx f act w =
     (case act w of
        (Inl err, w') \<Rightarrow> (Some (writeError (classify_inv error_text) cx err), w')
      | (Inr a, w') \<Rightarrow> (Some (f a), w'))"

section \<open>Handlers\<close>

definition http_Reserve :: "golib \<Rightarrow> (ierr \<Rightarrow> string) \<Rightarrow> inv_world handler" where
  "http_Reserve L error_text = (\<lambda>cx rq.
     respond_inv error_text cx
       (\<lambda>res. writeJSON (if rt_Idempotent res then 200 else 201) (reservationResponse res))
       (and_then (of_result (decodeJSON_inv dec_reserveRequest \<lparr>rsc_OrderID = [], rsc_Lines = []\<rparr> rq)) (\<lambda>cmd.
          ReserveStock_Handle L cmd)))"

definition http_GetReservation :: "golib \<Rightarrow> (ierr \<Rightarrow> string) \<Rightarrow> inv_world handler" where
  "http_GetReservation L error_text = (\<lambda>cx rq.
     respond_inv error_text cx (\<lambda>res. writeJSON 200 (reservationResponse res))
       (GetReservation_Handle L (PathValue cx ''orderId'')))"

definition http_Release :: "golib \<Rightarrow> (ierr \<Rightarrow> string) \<Rightarrow> inv_world handler" where
  "http_Release L error_text = (\<lambda>cx rq.
     respond_inv error_text cx (\<lambda>res. writeJSON 200 (reservationResponse res))
       (ReleaseReservation_Handle L (PathValue cx ''orderId'')))"

definition http_Commit :: "golib \<Rightarrow> (ierr \<Rightarrow> string) \<Rightarrow> inv_world handler" where
  "http_Commit L error_text = (\<lambda>cx rq.
     respond_inv error_text cx (\<lambda>res. writeJSON 200 (reservationResponse res))
       (CommitReservation_Handle L (PathValue cx ''orderId'')))"

definition http_GetStock :: "(ierr \<Rightarrow> string) \<Rightarrow> inv_world handler" where
  "http_GetStock error_text = (\<lambda>cx rq.
     respond_inv error_text cx (\<lambda>v. writeJSON 200 (stockResponse v)) (GetStock_Handle (PathValue cx ''sku'')))"

definition http_SetStock :: "(ierr \<Rightarrow> string) \<Rightarrow> inv_world handler" where
  "http_SetStock error_text = (\<lambda>cx rq.
     respond_inv error_text cx (\<lambda>v. writeJSON 200 (stockResponse v))
       (and_then (of_result (decodeJSON_inv dec_setStock 0 rq)) (\<lambda>available.
        and_then (SetStock_Handle \<lparr>ss_SKU = PathValue cx ''sku'', ss_Available = available\<rparr>) (\<lambda>_.
          GetStock_Handle (PathValue cx ''sku'')))))"

section \<open>Router\<close>

definition inv_routes ::
  "golib \<Rightarrow> (ierr \<Rightarrow> string) \<Rightarrow> jwt \<Rightarrow> AuthConfig \<Rightarrow> (inv_world \<Rightarrow> bool \<times> inv_world) \<Rightarrow> inv_world route list" where
  "inv_routes L error_text verify cfg ping =
     (let auth = authMiddleware verify cfg; r = [Lit ''v1'', Lit ''reservations''] in
      [\<lparr>ro_Method = ''POST'', ro_Pattern = ''POST /v1/reservations'', ro_Path = r,
        ro_Handler = auth (http_Reserve L error_text)\<rparr>,
       \<lparr>ro_Method = ''GET'', ro_Pattern = ''GET /v1/reservations/{orderId}'', ro_Path = r @ [Wild ''orderId''],
        ro_Handler = auth (http_GetReservation L error_text)\<rparr>,
       \<lparr>ro_Method = ''POST'', ro_Pattern = ''POST /v1/reservations/{orderId}/release'',
        ro_Path = r @ [Wild ''orderId'', Lit ''release''], ro_Handler = auth (http_Release L error_text)\<rparr>,
       \<lparr>ro_Method = ''POST'', ro_Pattern = ''POST /v1/reservations/{orderId}/commit'',
        ro_Path = r @ [Wild ''orderId'', Lit ''commit''], ro_Handler = auth (http_Commit L error_text)\<rparr>,
       \<lparr>ro_Method = ''GET'', ro_Pattern = ''GET /v1/stock/{sku}'', ro_Path = [Lit ''v1'', Lit ''stock'', Wild ''sku''],
        ro_Handler = auth (http_GetStock error_text)\<rparr>,
       \<lparr>ro_Method = ''PUT'', ro_Pattern = ''PUT /v1/stock/{sku}'', ro_Path = [Lit ''v1'', Lit ''stock'', Wild ''sku''],
        ro_Handler = auth (http_SetStock error_text)\<rparr>]
      @ health_routes ping)"

text \<open>The chain of the inventory router; its trace middleware and its log do not touch the model.\<close>

definition Inventory_Router ::
  "golib \<Rightarrow> (ierr \<Rightarrow> string) \<Rightarrow> jwt \<Rightarrow> AuthConfig \<Rightarrow> string list \<Rightarrow> (inv_world \<Rightarrow> string \<times> inv_world)
   \<Rightarrow> (inv_world \<Rightarrow> bool \<times> inv_world) \<Rightarrow> inv_world handler" where
  "Inventory_Router L error_text verify cfg corsOrigins fresh ping =
     (let rs = inv_routes L error_text verify cfg ping in
      chain (ServeMux rs)
        [corsMiddleware corsOrigins, correlationMiddleware fresh, recoveryMiddleware,
         loggingMiddleware (\<lambda>_ _ _ w. w), metricsMiddleware (\<lambda>_ _ _ w. w) (mux_pattern rs)])"

end
