(* ===== verification/Inventory_Calls.thy ===== *)
theory Inventory_Calls
  imports Inventory_Races Inventory_App
begin

text \<open>
  The calls of the inventory API as a whole, run while other calls commit: the stock ledger
  balances after each of them, and what a call answers is what the database says. The exception
  is a reservation that two calls release or commit at once; the last section runs one.
\<close>

section \<open>Calls\<close>

datatype inventory_call =
    CallReserve ReserveStockCommand
  | CallRelease string
  | CallCommit string
  | CallGetReservation string
  | CallGetStock string
  | CallSetStock SetStockCommand

definition run_call :: "golib \<Rightarrow> inventory_call \<Rightarrow> ReservationResult option inv_act" where
  "run_call L c =
     (case c of
        CallReserve cmd \<Rightarrow> and_then (ReserveStock_Handle L cmd) (\<lambda>res. ok (Some res))
      | CallRelease i \<Rightarrow> and_then (ReleaseReservation_Handle L i) (\<lambda>res. ok (Some res))
      | CallCommit i \<Rightarrow> and_then (CommitReservation_Handle L i) (\<lambda>res. ok (Some res))
      | CallGetReservation i \<Rightarrow> and_then (GetReservation_Handle L i) (\<lambda>res. ok (Some res))
      | CallGetStock sku \<Rightarrow> and_then (GetStock_Handle sku) (\<lambda>_. ok None)
      | CallSetStock cmd \<Rightarrow> and_then (SetStock_Handle cmd) (\<lambda>_. ok None))"

text \<open>The order, in the form the database has it, of a call's argument.\<close>

definition order_key :: "golib \<Rightarrow> string \<Rightarrow> string" where
  "order_key L i = (case ParseOrderID_inv L i of Inl _ \<Rightarrow> [] | Inr oid \<Rightarrow> OrderID_String_inv L oid)"

text \<open>The orders whose reservation a call may release or commit.\<close>

fun settles :: "golib \<Rightarrow> inventory_call \<Rightarrow> string set" where
  "settles L (CallRelease i) = {order_key L i}"
| "settles L (CallCommit i) = {order_key L i}"
| "settles L _ = {}"

text \<open>What an answer promises of the database.\<close>

fun promised :: "golib \<Rightarrow> inventory_call \<Rightarrow> ReservationResult option \<Rightarrow> inv_db \<Rightarrow> bool" where
  "promised L (CallReserve cmd) (Some res) d = present (order_key L (rsc_OrderID cmd)) (rt_ReservationID res) d"
| "promised L (CallRelease i) (Some res) d = settled (order_key L i) StatusReleased d"
| "promised L (CallCommit i) (Some res) d = settled (order_key L i) StatusCommitted d"
| "promised L (CallGetReservation i) (Some res) d = present (order_key L i) (rt_ReservationID res) d"
| "promised L _ _ d = True"

lemma validate_lines_trimmed: "validate_lines seen lns = Inr ls \<Longrightarrow> trimmed ls"
  by (induction lns arbitrary: seen ls)
    (auto simp: trimmed_def NewSKU_inv_def Let_def split: sum.splits if_splits)

lemma order_key_Inr: "ParseOrderID_inv L i = Inr oid \<Longrightarrow> OrderID_String_inv L oid = order_key L i"
  by (simp add: order_key_def)

lemma pg_order_key:
  "uuid_laws L \<Longrightarrow> ParseOrderID_inv L i = Inr oid \<Longrightarrow> pg_uuid L (order_key L i) = Some (order_key L i)"
  by (simp add: order_key_def OrderID_String_inv_def uuid_laws.pg_uuid_string)

lemma guarded_parsed:
  assumes "\<And>a. r = Inr a \<Longrightarrow> guarded U G (\<lambda>d. True) (f a) Q"
  shows "guarded U G (\<lambda>d. True) (and_then (of_result r) f) Q"
  by (cases r) (use assms in \<open>auto simp: and_then_def of_result_def guarded_def\<close>)

lemma ReserveStock_guarded:
  assumes L: "uuid_laws L"
  shows "guarded U G (\<lambda>d. True) (ReserveStock_Handle L cmd)
    (\<lambda>res. present (order_key L (rsc_OrderID cmd)) (rt_ReservationID res))"
  unfolding ReserveStock_Handle_def
proof (rule guarded_parsed)
  fix oid assume p: "ParseOrderID_inv L (rsc_OrderID cmd) = Inr oid"
  show "guarded U G (\<lambda>d. True)
     (if rsc_Lines cmd = [] then fail (Detailf ErrValidation_inv ''at least one line is required'')
      else and_then (of_result (validate_lines [] (rsc_Lines cmd)))
            (Inventory_Reserve L (OrderID_String_inv L oid)))
     (\<lambda>res. present (order_key L (rsc_OrderID cmd)) (rt_ReservationID res))"
    unfolding order_key_Inr [OF p]
    using Inventory_Reserve_guarded [OF L pg_order_key [OF L p]] validate_lines_trimmed
    by (auto intro!: guarded_pure guarded_parsed)
qed

lemma transition_guarded:
  assumes L: "uuid_laws L" and U: "order_key L i \<in> U" and G: "order_key L i \<notin> G"
  shows "guarded U G (\<lambda>d. True) (and_then (of_result (ParseOrderID_inv L i))
            (\<lambda>oid. Inventory_transition L (OrderID_String_inv L oid) k)) (\<lambda>res. settled (order_key L i) k)"
  by (rule guarded_parsed)
    (use order_key_Inr pg_order_key [OF L] Inventory_transition_guarded [OF _ U G] in fastforce)

lemma run_call_guarded:
  assumes L: "uuid_laws L" and U: "settles L c \<subseteq> U" and G: "settles L c \<inter> G = {}"
  shows "guarded U G (\<lambda>d. True) (run_call L c) (promised L c)"
proof (cases c)
  case (CallReserve cmd)
  then show ?thesis
    by (auto simp: run_call_def intro!: guarded_and_then [OF ReserveStock_guarded [OF L]] guarded_pure)
next
  case (CallRelease i)
  then show ?thesis using transition_guarded [OF L, of i U G StatusReleased] U G
    by (auto simp: run_call_def ReleaseReservation_Handle_def Inventory_Release_def
        intro!: guarded_and_then [of U G _ _ "\<lambda>res. settled (order_key L i) StatusReleased"] guarded_pure)
next
  case (CallCommit i)
  then show ?thesis using transition_guarded [OF L, of i U G StatusCommitted] U G
    by (auto simp: run_call_def CommitReservation_Handle_def Inventory_Commit_def
        intro!: guarded_and_then [of U G _ _ "\<lambda>res. settled (order_key L i) StatusCommitted"] guarded_pure)
next
  case (CallGetReservation i)
  have "guarded U G (\<lambda>d. True) (GetReservation_Handle L i) (\<lambda>res. present (order_key L i) (rt_ReservationID res))"
    unfolding GetReservation_Handle_def
    by (rule guarded_parsed) (use order_key_Inr pg_order_key [OF L] GetReservation_guarded in fastforce)
  then show ?thesis
    by (auto simp: run_call_def CallGetReservation intro!: guarded_and_then guarded_pure)
next
  case (CallGetStock sku)
  have "guarded U G (\<lambda>d. True) (GetStock_Handle sku) (\<lambda>_ d. True)"
    unfolding GetStock_Handle_def by (rule guarded_parsed) (rule GetStock_guarded)
  then show ?thesis by (auto simp: run_call_def CallGetStock intro!: guarded_and_then guarded_pure)
next
  case (CallSetStock cmd)
  have "guarded U G (\<lambda>d. True) (SetStock_Handle cmd) (\<lambda>_ d. True)"
    unfolding SetStock_Handle_def
    by (rule guarded_parsed) (auto intro!: guarded_pure UpsertStock_guarded)
  then show ?thesis by (auto simp: run_call_def CallSetStock intro!: guarded_and_then guarded_pure)
qed

section \<open>Racing calls\<close>

text \<open>What a call commits when it runs on a committed state, with the faults and identifiers of \<open>w\<close>.\<close>

definition committed :: "golib \<Rightarrow> inventory_call \<Rightarrow> inv_world \<Rightarrow> inv_db \<Rightarrow> inv_db" where
  "committed L c w d = w_db (snd (run_call L c (w\<lparr>w_db := d, w_env := []\<rparr>)))"

lemma committed_ledger:
  assumes L: "uuid_laws L" and ok: "ledger_ok d"
  shows "ledger_ok (committed L c w d) \<and> occ (- settles L c) d (committed L c w d)"
proof -
  let ?w = "w\<lparr>w_db := d, w_env := []\<rparr>"
  have g: "guarded UNIV (- settles L c) (\<lambda>d. True) (run_call L c) (promised L c)"
    by (rule run_call_guarded [OF L]) simp_all
  obtain r w' where run: "run_call L c ?w = (r, w')" by fastforce
  have "ledger_ok (w_db ?w)" "relies UNIV ?w" using ok by (simp_all add: relies_def)
  with g run have "ledger_ok (w_db w') \<and> occ (UNIV \<inter> - settles L c) (w_db ?w) (w_db w')"
    unfolding guarded_def by blast
  then show ?thesis using run by (simp add: committed_def)
qed

lemma relies_committed:
  assumes L: "uuid_laws L" and env: "w_env w = map (\<lambda>(c', w'). committed L c' w') cs"
    and own: "\<forall>(c', w') \<in> set cs. settles L c \<inter> settles L c' = {}"
  shows "relies (settles L c) w"
  unfolding relies_def env
proof clarsimp
  fix c' w' and d :: inv_db assume c': "(c', w') \<in> set cs" and ok: "ledger_ok d"
  have "settles L c \<subseteq> - settles L c'" using own c' by auto
  then show "ledger_ok (committed L c' w' d) \<and> occ (settles L c) d (committed L c' w' d)"
    using committed_ledger [OF L ok] occ_weaken by blast
qed

text \<open>C13. Calls of the inventory API race at READ COMMITTED: between any two statements of a call,
  other calls may commit, and every call of the database may fail or lose its reply. The stock
  ledger balances afterwards: nothing is negative, reserved stock is exactly the sum of the lines
  of the HELD reservations, every reservation is still there with its lines, stock rows changed
  only under a new version, and the answer is true of the database (a release answered means
  RELEASED). The one thing asked for is that the calls that interfere do not release or commit
  the reservation this call releases or commits.\<close>

theorem racing_calls_keep_ledger:
  assumes L: "uuid_laws L" and ok: "ledger_ok (w_db w)"
    and env: "w_env w = map (\<lambda>(c', w'). committed L c' w') cs"
    and own: "\<forall>(c', w') \<in> set cs. settles L c \<inter> settles L c' = {}"
    and run: "run_call L c w = (r, w')"
  shows "ledger_ok (w_db w') \<and> occ {} (w_db w) (w_db w')
    \<and> (\<forall>res. r = Inr res \<longrightarrow> promised L c res (w_db w'))"
proof -
  have "guarded (settles L c) {} (\<lambda>d. True) (run_call L c) (promised L c)"
    by (rule run_call_guarded [OF L]) simp_all
  then show ?thesis
    using run ok relies_committed [OF L env own] unfolding guarded_def by fastforce
qed

text \<open>A small shop: SKU A with four pieces reserved by two orders.\<close>

definition shop_order :: "nat \<Rightarrow> string" where
  "shop_order n = uuid_String std_lib (word_of_nat n)"

definition shop_line :: "nat \<Rightarrow> LineRow" where
  "shop_line n = \<lparr>lr_reservation = shop_order (n + 10), lr_sku = ''A'', lr_quantity = 2\<rparr>"

definition shop :: inv_db where
  "shop = \<lparr>t_stock = [(''A'', \<lparr>sr_available = 0, sr_reserved = 4, sr_version = 2\<rparr>)],
     t_reservations = [\<lparr>rr_id = shop_order 11, rr_order = shop_order 1, rr_status = ''HELD''\<rparr>,
                       \<lparr>rr_id = shop_order 12, rr_order = shop_order 2, rr_status = ''HELD''\<rparr>],
     t_lines = [shop_line 1, shop_line 2]\<rparr>"

definition shop_world :: "(inv_db \<Rightarrow> inv_db) list \<Rightarrow> inv_world" where
  "shop_world env = \<lparr>w_db = shop, w_uuids = 100, w_faults = [], w_sent = [], w_env = env\<rparr>"

lemma shop_order_eq:
  "m < 1000 \<Longrightarrow> n < 1000 \<Longrightarrow> shop_order m = shop_order n \<longleftrightarrow> m = n"
proof -
  assume "m < 1000" "n < 1000"
  then have "(word_of_nat m :: uuid) = word_of_nat n \<longleftrightarrow> m = n"
    by (simp add: word_of_nat_eq_iff take_bit_nat_eq_self)
  then show ?thesis by (simp add: shop_order_def std.string_inj)
qed

lemma shop_ok: "ledger_ok shop"
  by (simp add: ledger_ok_def shop_def stock_of_def row_ok_def line_ok_def held_qty_def is_held_def shop_line_def
      shop_order_eq)

theorem racing_calls_witness:
  "\<exists>r w'. run_call std_lib (CallRelease (shop_order 1))
      (shop_world [committed std_lib (CallCommit (shop_order 2)) (shop_world [])]) = (r, w') \<and> ledger_ok (w_db w')"
proof -
  let ?w = "shop_world [committed std_lib (CallCommit (shop_order 2)) (shop_world [])]"
  obtain r w' where run: "run_call std_lib (CallRelease (shop_order 1)) ?w = (r, w')" by fastforce
  have key: "order_key std_lib (shop_order n) = shop_order n" for n
    by (simp add: order_key_def ParseOrderID_inv_def OrderID_String_inv_def shop_order_def std.string_trim
        std.parse_string)
  have "ledger_ok (w_db w')"
    using racing_calls_keep_ledger [OF std.uuid_laws_axioms _ _ _ run,
        of "[(CallCommit (shop_order 2), shop_world [])]"] shop_ok
    by (simp add: shop_world_def key shop_order_eq)
  then show ?thesis using run by blast
qed

section \<open>Two releases of one reservation\<close>

lemmas run_defs = act_simps tx_stmt_def tx_begin_def tx_commit_def env_step_def

lemma shop_parse:
  "ParseOrderID_inv std_lib (shop_order n) = Inr (OrderID_inv (word_of_nat n))"
  "OrderID_String_inv std_lib (OrderID_inv (word_of_nat n)) = shop_order n"
  "ParseReservationID std_lib (shop_order n) = Inr (ReservationID (word_of_nat n))"
  "pg_uuid std_lib (shop_order n) = Some (shop_order n)"
  by (simp_all add: ParseOrderID_inv_def OrderID_String_inv_def ParseReservationID_def shop_order_def
      std.string_trim std.parse_string std.pg_uuid_string)

lemma shop_sku: "NewSKU_inv ''A'' = Inr (SKU_inv ''A'')" "NewQuantity_inv 2 = Inr (Quantity_inv 2)"
  by (simp_all add: NewSKU_inv_def NewQuantity_inv_def TrimSpace_plain plain_char_def)

lemma shop_handlers:
  "ReleaseReservation_Handle std_lib (shop_order n) = Inventory_Release std_lib (shop_order n)"
  "CommitReservation_Handle std_lib (shop_order n) = Inventory_Commit std_lib (shop_order n)"
  by (intro ext, simp add: ReleaseReservation_Handle_def CommitReservation_Handle_def shop_parse
      and_then_def of_result_def)+

lemma shop_rehydrate:
  "rehydrateReservation std_lib (shop_order i) (shop_order n) st lines =
     (case domain_lines lines of Inl err \<Rightarrow> Inl err
      | Inr ls \<Rightarrow> Inr (RehydrateReservation (ReservationID (word_of_nat i)) (OrderID_inv (word_of_nat n))
                         (ReservationStatus_of st) ls))"
  by (simp add: rehydrateReservation_def shop_parse)

lemma retry_first:
  "retry_occ maxOCCRetries once =
     and_then once (\<lambda>result. case result of Some a \<Rightarrow> ok a | None \<Rightarrow> retry_occ 4 once)"
  using retry_occ.simps(2) [of 4 once] by (simp add: maxOCCRetries_def del: retry_occ.simps)

lemma shop_transition:
  assumes k: "k = StatusReleased \<or> k = StatusCommitted" and res: "rr_status r = ''HELD''" "rr_id r = shop_order i"
    and find: "find (\<lambda>r. rr_order r = shop_order n) (t_reservations d) = Some r"
    and lines: "sort_key lr_sku (lines_of d (shop_order i)) = [\<lparr>lr_reservation = shop_order i, lr_sku = ''A'', lr_quantity = 2\<rparr>]"
    and same: "w_env w = [] \<and> d' = d \<or> (\<exists>f. w_env w = [id, id, f] \<and> f d = d')" and w: "w_faults w = []" "w_db w = d"
    and row: "stock_of d' ''A'' = Some row"
    and move: "move_stock k (RehydrateStockItem (SKU_inv ''A'') (sr_available row) (sr_reserved row) (sr_version row)) 2 = Inr item"
    and upd: "update_stock ''A'' (si_available item) (si_reserved item) (sr_version row) d' = Inr (1, ws)"
  shows "transitionOnce std_lib (shop_order n) k w =
     (Inr (Some \<lparr>rt_ReservationID = shop_order i, rt_OrderID = shop_order n, rt_Status = ReservationStatus_string k,
                 rt_Lines = [\<lparr>irl_SKU = ''A'', irl_Quantity = 2\<rparr>], rt_Idempotent = False\<rparr>),
      w\<lparr>w_db := view (ws @ [WStatus (shop_order i) (ReservationStatus_string k)]) d', w_env := []\<rparr>)"
proof -
  have sel: "select_reservation std_lib (shop_order n) d = Inr (Some r, [])"
    by (simp add: select_reservation_def shop_parse find)
  have ln: "select_lines (shop_order i) d = Inr ([\<lparr>irl_SKU = ''A'', irl_Quantity = 2\<rparr>], [])"
    using lines by (simp add: select_lines_def lines_of_def)
  have st: "select_stock ''A'' d' = Inr (Some row, [])"
    by (simp add: select_stock_def pg_param_def row)
  have mv: "\<exists>res'. move_reservation k (RehydrateReservation a b (ReservationStatus_of (rr_status r)) ls) = Inr (True, res')" for a b ls
    using k by (auto simp: res(1) ReservationStatus_of_def RehydrateReservation_def move_reservation_def
        Reservation_Release_def Reservation_Commit_def)
  have q: "int64_of_int32 2 = 2" by (simp add: int64_of_int32_def)
  obtain sr where ws: "ws = [WStock ''A'' sr]" using update_stock_Inr [OF upd] by auto
  show ?thesis
    using mv [of "ReservationID (word_of_nat i)" "OrderID_inv (word_of_nat n)" "[\<lparr>rv_SKU = SKU_inv ''A'', rv_Quantity = Quantity_inv 2\<rparr>]"]
      same w sel ln st move upd res
    by (auto simp: transitionOnce_def transition_body_def run_defs loadLines_def shop_rehydrate shop_sku
        transition_line_def loadStockItem_def q update_reservation_def ws view_append)
qed

definition shop_row :: "int64 \<Rightarrow> int64 \<Rightarrow> int64 \<Rightarrow> (string \<times> StockRow) list" where
  "shop_row a r v = [(''A'', \<lparr>sr_available = a, sr_reserved = r, sr_version = v\<rparr>)]"

definition shop_after :: "string \<Rightarrow> (string \<times> StockRow) list \<Rightarrow> inv_db" where
  "shop_after st stock = \<lparr>t_stock = stock,
     t_reservations = [\<lparr>rr_id = shop_order 11, rr_order = shop_order 1, rr_status = st\<rparr>,
                       \<lparr>rr_id = shop_order 12, rr_order = shop_order 2, rr_status = ''HELD''\<rparr>],
     t_lines = [shop_line 1, shop_line 2]\<rparr>"

lemma shop_start: "shop = shop_after ''HELD'' (shop_row 0 4 2)"
  by (simp add: shop_def shop_after_def shop_row_def)

definition shop_answer :: ReservationResult where
  "shop_answer = \<lparr>rt_ReservationID = shop_order 11, rt_OrderID = shop_order 1, rt_Status = ''RELEASED'',
     rt_Lines = [\<lparr>irl_SKU = ''A'', irl_Quantity = 2\<rparr>], rt_Idempotent = False\<rparr>"

lemma shop_release:
  assumes same: "w_env w = [] \<and> d' = shop \<or> (\<exists>f. w_env w = [id, id, f] \<and> f shop = d')" and w: "w_faults w = []" "w_db w = shop"
    and d': "d' = shop_after st (shop_row a r v)"
    and num: "0 \<le> sint a" "2 \<le> sint r" "0 \<le> sint (a + 2)" "sint v \<noteq> 2 ^ 63 - 1"
  shows "run_call std_lib (CallRelease (shop_order 1)) w =
    (Inr (Some shop_answer), w\<lparr>w_db := shop_after ''RELEASED'' (shop_row (a + 2) (r - 2) (v + 1)), w_env := []\<rparr>)"
proof -
  let ?r = "\<lparr>rr_id = shop_order 11, rr_order = shop_order 1, rr_status = ''HELD''\<rparr>"
  let ?row = "\<lparr>sr_available = a, sr_reserved = r, sr_version = v\<rparr>"
  let ?new = "\<lparr>sr_available = a + 2, sr_reserved = r - 2, sr_version = v + 1\<rparr>"
  have r2: "0 \<le> sint (r - 2)"
    using num(2) sint_range64 [of r] sint_sub64 [of r 2] by simp
  have "transitionOnce std_lib (shop_order 1) StatusReleased w =
     (Inr (Some \<lparr>rt_ReservationID = shop_order 11, rt_OrderID = shop_order 1, rt_Status = ReservationStatus_string StatusReleased,
                 rt_Lines = [\<lparr>irl_SKU = ''A'', irl_Quantity = 2\<rparr>], rt_Idempotent = False\<rparr>),
      w\<lparr>w_db := view ([WStock ''A'' ?new] @ [WStatus (shop_order 11) (ReservationStatus_string StatusReleased)]) d', w_env := []\<rparr>)"
  proof (rule shop_transition [where r = ?r and d = shop and row = ?row
        and item = "\<lparr>si_sku = SKU_inv ''A'', si_available = a + 2, si_reserved = r - 2, si_version = v\<rparr>"])
    show "sort_key lr_sku (lines_of shop (shop_order 11)) =
       [\<lparr>lr_reservation = shop_order 11, lr_sku = ''A'', lr_quantity = 2\<rparr>]"
      by (simp add: lines_of_def shop_def shop_line_def shop_order_eq)
    show "move_stock StatusReleased (RehydrateStockItem (SKU_inv ''A'') (sr_available ?row) (sr_reserved ?row) (sr_version ?row)) 2
      = Inr \<lparr>si_sku = SKU_inv ''A'', si_available = a + 2, si_reserved = r - 2, si_version = v\<rparr>"
      using num by (simp add: move_stock_def Stock_Release_Inr RehydrateStockItem_def)
  qed (use same w num r2 in \<open>simp_all add: shop_def d' shop_after_def shop_row_def stock_of_def update_stock_def pg_param_def\<close>)
  moreover have "view ([WStock ''A'' ?new] @ [WStatus (shop_order 11) (ReservationStatus_string StatusReleased)]) d'
      = shop_after ''RELEASED'' (shop_row (a + 2) (r - 2) (v + 1))"
    by (simp add: d' shop_after_def shop_row_def shop_order_eq)
  ultimately show ?thesis
    by (simp add: run_call_def shop_handlers Inventory_Release_def Inventory_transition_def retry_first and_then_def
        ok_def shop_answer_def)
qed

text \<open>C14. Two releases of one reservation that run at the same time both free its stock: the second
  one has read the status HELD before the first commits, the version it updates the stock under is
  the one the first one left, and nothing checks the status again. Both answer success as the one
  that changed the state; the two pieces the other order still holds are sold again, and the
  ledger is short of them.\<close>

theorem racing_releases_free_twice:
  "\<exists>w'. run_call std_lib (CallRelease (shop_order 1))
        (shop_world [id, id, committed std_lib (CallRelease (shop_order 1)) (shop_world [])])
      = (Inr (Some shop_answer), w')
    \<and> fst (run_call std_lib (CallRelease (shop_order 1)) (shop_world [])) = Inr (Some shop_answer)
    \<and> stock_of (w_db w') ''A'' = Some \<lparr>sr_available = 4, sr_reserved = 0, sr_version = 4\<rparr>
    \<and> held_qty (w_db w') ''A'' = 2 \<and> ledger_ok shop \<and> \<not> ledger_ok (w_db w')"
proof -
  let ?c = "committed std_lib (CallRelease (shop_order 1)) (shop_world [])"
  let ?d1 = "shop_after ''RELEASED'' (shop_row 2 2 3)" and ?d2 = "shop_after ''RELEASED'' (shop_row 4 0 4)"
  have first: "run_call std_lib (CallRelease (shop_order 1)) (shop_world []) =
      (Inr (Some shop_answer), (shop_world [])\<lparr>w_db := ?d1, w_env := []\<rparr>)"
  proof -
    have "run_call std_lib (CallRelease (shop_order 1)) (shop_world []) =
      (Inr (Some shop_answer), (shop_world [])\<lparr>w_db := shop_after ''RELEASED'' (shop_row (0 + 2) (4 - 2) (2 + 1)), w_env := []\<rparr>)"
      by (rule shop_release [OF _ _ _ shop_start]) (simp_all add: shop_world_def)
    then show ?thesis by simp
  qed
  then have "?c shop = ?d1" by (simp add: committed_def shop_world_def)
  then have second: "run_call std_lib (CallRelease (shop_order 1)) (shop_world [id, id, ?c]) =
      (Inr (Some shop_answer), (shop_world [])\<lparr>w_db := ?d2\<rparr>)"
  proof -
    assume c: "?c shop = ?d1"
    have "run_call std_lib (CallRelease (shop_order 1)) (shop_world [id, id, ?c]) =
      (Inr (Some shop_answer), (shop_world [id, id, ?c])\<lparr>w_db := shop_after ''RELEASED'' (shop_row (2 + 2) (2 - 2) (3 + 1)), w_env := []\<rparr>)"
      by (rule shop_release [OF _ _ _ refl]) (use c in \<open>simp_all add: shop_world_def\<close>)
    then show ?thesis by (simp add: shop_world_def)
  qed
  have held: "held_qty ?d2 ''A'' = 2"
    by (simp add: held_qty_def is_held_def shop_after_def shop_line_def shop_order_eq)
  have stock: "stock_of ?d2 ''A'' = Some \<lparr>sr_available = 4, sr_reserved = 0, sr_version = 4\<rparr>"
    by (simp add: stock_of_def shop_after_def shop_row_def)
  then have "\<not> ledger_ok ?d2"
    using held ledger_row [OF _ stock] by (force simp: row_ok_def)
  moreover have "w_db ((shop_world [])\<lparr>w_db := ?d2\<rparr>) = ?d2" by simp
  ultimately show ?thesis using second held stock shop_ok
    by (intro exI [of _ "(shop_world [])\<lparr>w_db := ?d2\<rparr>"]) (simp only: first fst_conv simp_thms)
qed

end
