(* ===== verification/Inventory_Quiet.thy ===== *)
theory Inventory_Quiet
  imports Inventory_Calls
begin

text \<open>
  The store's operations where no other transaction commits in between, with faults anywhere: a
  reservation is placed as a whole or not at all, a release or commit settles it as a whole or
  not at all, and a refusal of the domain means that the order has no reservation.
\<close>

section \<open>Transactions that are alone\<close>

definition alone :: "'a inv_tx \<Rightarrow> bool" where
  "alone m \<longleftrightarrow> (\<forall>w ws r w' ws'. m (w, ws) = (r, (w', ws')) \<longrightarrow> w_env w = [] \<longrightarrow> w_env w' = [] \<and> w_db w' = w_db w)"

named_theorems aloneness \<open>transactions that leave the committed state alone\<close>

lemma alone_pure [aloneness]: "alone (ok a)" "alone (fail e)" "alone (of_result r)" "alone (tx_new_uuid L)"
  by (auto simp: alone_def ok_def fail_def of_result_def tx_new_uuid_def)

lemma alone_map_err [aloneness]: "alone m \<Longrightarrow> alone (map_err h m)"
  unfolding alone_def map_err_def by (fastforce split: prod.splits sum.splits)

lemma alone_and_then [aloneness]: "alone m \<Longrightarrow> (\<And>a. alone (f a)) \<Longrightarrow> alone (and_then m f)"
  unfolding alone_def and_then_def by (fastforce split: prod.splits sum.splits)

lemma alone_stmt [aloneness]: "alone (tx_stmt f)"
  by (auto simp: alone_def tx_stmt_def env_step_def next_fault_env next_fault_db split: fault.splits sum.splits prod.splits)

lemma alone_if [aloneness]: "alone m \<Longrightarrow> alone n \<Longrightarrow> alone (if b then m else n)"
  by simp

lemma alone_case [aloneness]: "alone m \<Longrightarrow> (\<And>a. alone (f a)) \<Longrightarrow> alone (case x of None \<Rightarrow> m | Some a \<Rightarrow> f a)"
  by (cases x) simp_all

lemma alone_for_each [aloneness]: "(\<And>x. alone (f x)) \<Longrightarrow> alone (for_each f xs)"
  by (induction xs) (simp_all add: aloneness)

lemma alone_catch [aloneness]:
  assumes "alone m" "\<And>x. alone (k x)"
  shows "alone (\<lambda>s. case m s of
      (Inl e, s') \<Rightarrow> if c e then (Inr b, s') else (Inl (g e), s') | (Inr x, s') \<Rightarrow> k x s')"
  unfolding alone_def
proof (intro allI impI)
  fix w ws r w' ws'
  assume run: "(case m (w, ws) of (Inl e, s') \<Rightarrow> if c e then (Inr b, s') else (Inl (g e), s') | (Inr x, s') \<Rightarrow> k x s')
      = (r, (w', ws'))" and e: "w_env w = []"
  obtain r1 w1 ws1 where m1: "m (w, ws) = (r1, (w1, ws1))" by (metis surj_pair)
  then have 1: "w_env w1 = []" "w_db w1 = w_db w" using assms(1) e unfolding alone_def by blast+
  show "w_env w' = [] \<and> w_db w' = w_db w"
  proof (cases r1)
    case (Inl x)
    then show ?thesis using run m1 1 by (auto split: if_splits)
  next
    case (Inr a)
    then have "k a (w1, ws1) = (r, (w', ws'))" using run m1 by simp
    then show ?thesis using assms(2) [of a] 1 unfolding alone_def by fastforce
  qed
qed

lemma alone_load_items [aloneness]: "alone (load_items lns)"
  by (induction lns) (auto simp: load_and_reserve_def loadStockItem_def intro!: aloneness)

lemma alone_update_items [aloneness]: "alone (update_items items)"
  by (induction items) (auto intro!: aloneness)

lemma alone_transition_lines [aloneness]: "alone (transition_lines k lns)"
  by (induction lns) (auto simp: transition_line_def loadStockItem_def intro!: aloneness)

lemma alone_find [aloneness]: "alone (findReservationByOrder tx_stmt tx_stmt L u)"
  unfolding findReservationByOrder_def loadLines_def by (intro aloneness)

lemma alone_reserve_body [aloneness]: "alone (reserve_body L u lns)"
  unfolding reserve_body_def insert_lines_def Let_def by (intro aloneness)

lemma alone_transition_body [aloneness]: "alone (transition_body L u k)"
  unfolding transition_body_def loadLines_def Let_def
  by (intro aloneness) (auto intro!: aloneness split: prod.split)

section \<open>Errors of the database\<close>

text \<open>An error that is none of the domain's.\<close>

definition foreign :: "'s err \<Rightarrow> bool" where
  "foreign e \<longleftrightarrow> (\<forall>s. \<not> errors_Is e s)"

lemma foreign_simps [simp]:
  "foreign (Foreign m)" "foreign (Wrapf p e) = foreign e" "foreign (Permanentf e) = foreign e"
  "\<not> foreign (Sentinel t)" "\<not> foreign (Detailf t m)"
  by (auto simp: foreign_def)

lemma find_fails:
  "findReservationByOrder tx_stmt tx_stmt L u s = (Inl e, s') \<Longrightarrow> foreign e"
  by (cases s) (auto simp: findReservationByOrder_def loadLines_def and_then_def map_err_def tx_stmt_def
      select_reservation_def select_lines_def ok_def
      split: prod.splits sum.splits fault.splits option.splits)

text \<open>Where the order has a reservation, Reserve finds it, or the database does not answer.\<close>

lemma find_present:
  assumes "findReservationByOrder tx_stmt tx_stmt L u (w, []) = (Inr x, s')" and "w_env w = []"
    and "pg_uuid L u = Some u" and "present u i (w_db w)"
  shows "x \<noteq> None"
proof -
  have "find (\<lambda>r. rr_order r = u) (t_reservations (w_db w)) \<noteq> None"
    using assms(4) by (auto simp: find_None_iff present_def)
  then show ?thesis using assms(1-3)
    by (auto simp: findReservationByOrder_def loadLines_def and_then_def map_err_def tx_stmt_def
      select_reservation_def select_lines_def ok_def env_step_def next_fault_db
      split: prod.splits sum.splits fault.splits option.splits)
qed

lemma reserve_body_present:
  assumes run: "reserve_body L u lns (w, []) = (r, s')" and e: "w_env w = []"
    and u: "pg_uuid L u = Some u" and p: "present u i (w_db w)"
  shows "(\<exists>err. r = Inl err \<and> foreign err) \<or> (\<exists>res. r = Inr (Answer res))"
proof -
  obtain r1 s1 where f: "findReservationByOrder tx_stmt tx_stmt L u (w, []) = (r1, s1)" by (metis surj_pair)
  show ?thesis
  proof (cases r1)
    case (Inl err)
    then show ?thesis using run f find_fails [of L u "(w, [])" err] by (auto simp: reserve_body_def and_then_def)
  next
    case (Inr x)
    then obtain ex where "x = Some ex" using find_present [OF f [unfolded Inr] e u p] by auto
    then show ?thesis using run f Inr by (auto simp: reserve_body_def and_then_def ok_def)
  qed
qed

section \<open>The status of an order's reservation\<close>

definition status_of :: "inv_db \<Rightarrow> string \<Rightarrow> ReservationStatus option" where
  "status_of d u = map_option (ReservationStatus_of \<circ> rr_status) (find (\<lambda>r. rr_order r = u) (t_reservations d))"

lemma status_of_row: "ledger_ok d \<Longrightarrow> r \<in> set (t_reservations d) \<Longrightarrow>
   status_of d (rr_order r) = Some (ReservationStatus_of (rr_status r))"
  by (simp add: status_of_def ledger_ok_def find_unique)

lemma status_of_present: "present u i d \<Longrightarrow> status_of d u \<noteq> None"
  by (auto simp: status_of_def present_def find_None_iff)

lemma present_of_status: "status_of d u \<noteq> None \<Longrightarrow> \<exists>i. present u i d"
  by (auto simp: status_of_def present_def find_Some_iff) (metis nth_mem)

lemma status_of_settled: "settled u k d \<Longrightarrow> ledger_ok d \<Longrightarrow> k = StatusReleased \<or> k = StatusCommitted \<Longrightarrow> status_of d u = Some k"
  using status_of_row by (fastforce simp: settled_def held_by_def ReservationStatus_of_def)

text \<open>Reserving places a HELD reservation for an order without one.\<close>

definition placed :: "string \<Rightarrow> inv_db \<Rightarrow> inv_db \<Rightarrow> bool" where
  "placed u d d' \<longleftrightarrow> (\<exists>r lns ws. placing r lns lns ws d \<and> rr_order r = u \<and> d' = view ws d)"

text \<open>A release or commit moves the HELD reservation of the order.\<close>

definition settled_by :: "string \<Rightarrow> ReservationStatus \<Rightarrow> inv_db \<Rightarrow> inv_db \<Rightarrow> bool" where
  "settled_by u k d d' \<longleftrightarrow> (\<exists>r ws. settling k r ws d \<and> rr_order r = u \<and> d' = view ws d)"

lemma placed_status:
  assumes "placed u d d'" and ok: "ledger_ok d"
  shows "ledger_ok d' \<and> status_of d u = None \<and> status_of d' u = Some StatusHeld"
proof -
  from assms(1) obtain r lns ws where p: "placing r lns lns ws d" and u: "rr_order r = u" and d': "d' = view ws d"
    by (auto simp: placed_def)
  have "ledger_ok d' \<and> r \<in> set (t_reservations d')" using placing_ledger [OF p ok] by (simp add: d')
  moreover have "rr_status r = ''HELD''" "status_of d u = None"
    using p u by (auto simp: placing_def status_of_def find_None_iff)
  ultimately show ?thesis using status_of_row [of d' r] by (simp add: u ReservationStatus_of_def)
qed

lemma settled_by_status:
  assumes "settled_by u k d d'" and ok: "ledger_ok d"
  shows "ledger_ok d' \<and> status_of d u = Some StatusHeld \<and> status_of d' u = Some k"
proof -
  from assms(1) obtain r ws where p: "settling k r ws d" and u: "rr_order r = u" and d': "d' = view ws d"
    by (auto simp: settled_by_def)
  from settling_ledger [OF p ok, of "{}"]
  have "ledger_ok d'" "r\<lparr>rr_status := ReservationStatus_string k\<rparr> \<in> set (t_reservations d')" by (simp_all add: d')
  moreover have "r \<in> set (t_reservations d)" "rr_status r = ''HELD''" "k = StatusReleased \<or> k = StatusCommitted"
    using p by (auto simp: settling_def)
  ultimately show ?thesis
    using status_of_row [OF ok, of r] status_of_row [of d' "r\<lparr>rr_status := ReservationStatus_string k\<rparr>"] u
    by (auto simp: ReservationStatus_of_def)
qed

section \<open>All or nothing\<close>

lemma find_pool_alone:
  "findReservationByOrder pool_stmt pool_stmt L u w = (r, w') \<Longrightarrow> w_env w = [] \<Longrightarrow>
   w_env w' = [] \<and> w_db w' = w_db w"
  by (auto simp: findReservationByOrder_def loadLines_def and_then_def map_err_def pool_stmt_def
      select_reservation_def select_lines_def ok_def env_step_def next_fault_db next_fault_env
      split: prod.splits sum.splits fault.splits option.splits)

lemma commit_alone:
  "tx_commit ws w = (r, w') \<Longrightarrow> w_env w = [] \<Longrightarrow>
   w_env w' = [] \<and> (w_db w' = view ws (w_db w) \<or> (\<exists>e. r = Inl e \<and> foreign e) \<and> w_db w' = w_db w)
   \<and> (\<forall>e. r = Inl e \<longrightarrow> foreign e)"
  by (auto simp: tx_commit_def env_step_def next_fault_db next_fault_env split: fault.splits prod.splits)

lemma begin_alone:
  "tx_begin w = (r, w') \<Longrightarrow> w_env w = [] \<Longrightarrow>
   w_env w' = [] \<and> w_db w' = w_db w \<and> (\<forall>e. r = Inl e \<longrightarrow> foreign e)"
  by (auto simp: tx_begin_def next_fault_db next_fault_env split: fault.splits prod.splits)

text \<open>What a call did to a store nobody else writes to: nothing, or one step; a retry did nothing.\<close>

definition quiet :: "(inv_db \<Rightarrow> inv_db \<Rightarrow> bool) \<Rightarrow> 'a inv_act \<Rightarrow> bool" where
  "quiet R m \<longleftrightarrow> (\<forall>w r w'. m w = (r, w') \<longrightarrow> w_env w = [] \<longrightarrow> ledger_ok (w_db w)
     \<longrightarrow> w_env w' = [] \<and> (w_db w' = w_db w \<or> R (w_db w) (w_db w')) \<and> (\<forall>e. r = Inl e \<and> \<not> foreign e \<longrightarrow> w_db w' = w_db w))"

lemma quietD: "quiet R m \<Longrightarrow> m w = (r, w') \<Longrightarrow> w_env w = [] \<Longrightarrow> ledger_ok (w_db w) \<Longrightarrow>
   w_env w' = [] \<and> (w_db w' = w_db w \<or> R (w_db w) (w_db w')) \<and> (\<forall>e. r = Inl e \<and> \<not> foreign e \<longrightarrow> w_db w' = w_db w)"
  unfolding quiet_def by blast

definition quiet_once :: "(inv_db \<Rightarrow> inv_db \<Rightarrow> bool) \<Rightarrow> 'a option inv_act \<Rightarrow> bool" where
  "quiet_once R m \<longleftrightarrow> (\<forall>w r w'. m w = (r, w') \<longrightarrow> w_env w = [] \<longrightarrow> ledger_ok (w_db w)
     \<longrightarrow> w_env w' = [] \<and> (w_db w' = w_db w \<or> R (w_db w) (w_db w')) \<and> (r = Inr None \<longrightarrow> w_db w' = w_db w)
       \<and> (\<forall>e. r = Inl e \<and> \<not> foreign e \<longrightarrow> w_db w' = w_db w))"

lemma quiet_retry:
  assumes "quiet_once R once" shows "quiet R (retry_occ n once)"
proof (induction n)
  case 0
  show ?case by (simp add: quiet_def fail_def)
next
  case (Suc n)
  show ?case unfolding quiet_def
  proof (intro allI impI)
    fix w r w' assume run: "retry_occ (Suc n) once w = (r, w')" and e: "w_env w = []" and ok: "ledger_ok (w_db w)"
    obtain r1 w1 where 1: "once w = (r1, w1)" by fastforce
    have q: "w_env w1 = [] \<and> (w_db w1 = w_db w \<or> R (w_db w) (w_db w1)) \<and> (r1 = Inr None \<longrightarrow> w_db w1 = w_db w)
      \<and> (\<forall>e. r1 = Inl e \<and> \<not> foreign e \<longrightarrow> w_db w1 = w_db w)"
      using assms 1 e ok unfolding quiet_once_def by blast
    show "w_env w' = [] \<and> (w_db w' = w_db w \<or> R (w_db w) (w_db w')) \<and> (\<forall>e. r = Inl e \<and> \<not> foreign e \<longrightarrow> w_db w' = w_db w)"
    proof (cases "r1 = Inr None")
      case True
      then have "retry_occ n once w1 = (r, w')" using run 1 by (simp add: and_then_def)
      then show ?thesis using Suc.IH q True ok unfolding quiet_def by metis
    next
      case False
      then have "w' = w1" "\<forall>e. r = Inl e \<longrightarrow> r1 = Inl e"
        using run 1 by (cases r1; auto simp: and_then_def ok_def split: option.splits)+
      then show ?thesis using q by blast
    qed
  qed
qed

text \<open>A transaction whose body leaves the committed state alone; \<open>wr\<close> says which endings commit.\<close>

lemma begin_quiet:
  assumes "and_then tx_begin (\<lambda>_. m) w = (r, w')" and "w_env w = []"
  obtains (failed) e where "r = Inl e" "foreign e" "w_env w' = []" "w_db w' = w_db w"
    | (began) w1 where "m w1 = (r, w')" "w_env w1 = []" "w_db w1 = w_db w"
proof -
  obtain b w1 where t: "tx_begin w = (b, w1)" by fastforce
  note a = begin_alone [OF t assms(2)]
  show thesis
  proof (cases b)
    case (Inl e)
    then have "r = Inl e" "w' = w1" using assms(1) t by (simp_all add: and_then_def)
    then show thesis using a Inl failed by simp
  next
    case (Inr x)
    then have "m w1 = (r, w')" using assms(1) t by (simp add: and_then_def)
    then show thesis using a began by simp
  qed
qed

lemma reserveOnce_quiet:
  assumes L: "uuid_laws L" and u: "pg_uuid L u = Some u" and t: "trimmed lns"
  shows "quiet_once (placed u) (reserveOnce L u lns)"
  unfolding quiet_once_def
proof (intro allI impI)
  fix w r w' assume run: "reserveOnce L u lns w = (r, w')" and e: "w_env w = []" and ok: "ledger_ok (w_db w)"
  from run [unfolded reserveOnce_def] e
  show "w_env w' = [] \<and> (w_db w' = w_db w \<or> placed u (w_db w) (w_db w')) \<and> (r = Inr None \<longrightarrow> w_db w' = w_db w)
    \<and> (\<forall>e. r = Inl e \<and> \<not> foreign e \<longrightarrow> w_db w' = w_db w)"
  proof (cases rule: begin_quiet)
    case (began w1)
    obtain b w2 ws where body: "reserve_body L u lns (w1, []) = (b, (w2, ws))" by (metis surj_pair)
    have 2: "w_env w2 = []" "w_db w2 = w_db w1"
      using alone_reserve_body body began(2) unfolding alone_def by blast+
    note go = began(1)
    show ?thesis
    proof (cases b)
      case (Inl err)
      then show ?thesis using go body 2 began by auto
    next
      case (Inr x)
      show ?thesis
      proof (cases x)
        case (Write res)
        have "relies {} w1" "ledger_ok (w_db w1)" using began ok by (simp_all add: relies_def)
        with reserve_body_tx [OF L u t] body Inr have "reserve_end L u lns x ws (w_db w2)"
          unfolding triple_def by blast
        then have p: "placed u (w_db w2) (view ws (w_db w2))"
          unfolding placed_def reserve_end_def Write by (auto intro!: exI)
        obtain c w3 where c: "tx_commit ws w2 = (c, w3)" by fastforce
        then have "w' = w3" "r \<noteq> Inr None" "\<forall>e. r = Inl e \<longrightarrow> c = Inl e"
          using go body Inr Write by (auto simp: and_then_def ok_def split: sum.splits)
        then show ?thesis using commit_alone [OF c 2(1)] 2 began p by auto
      next
        case UniqueRace
        obtain f w3 where f: "findReservationByOrder pool_stmt pool_stmt L u w2 = (f, w3)" by fastforce
        have "w' = w3" "r \<noteq> Inr None" using go body Inr UniqueRace f
          by (auto simp: and_then_def ok_def fail_def split: sum.splits option.splits)
        then show ?thesis using find_pool_alone [OF f 2(1)] 2 began by simp
      qed (use go body Inr 2 began in auto)
    qed
  qed auto
qed

lemma Reserve_quiet:
  assumes "uuid_laws L" and "pg_uuid L u = Some u" and "trimmed lns"
  shows "quiet (placed u) (Inventory_Reserve L u lns)"
  unfolding Inventory_Reserve_def
  by (rule quiet_retry [OF reserveOnce_quiet]) (simp_all add: assms trimmed_sort)

lemma transitionOnce_quiet:
  assumes u: "pg_uuid L u = Some u"
  shows "quiet_once (settled_by u k) (transitionOnce L u k)"
  unfolding quiet_once_def
proof (intro allI impI)
  fix w r w' assume run: "transitionOnce L u k w = (r, w')" and e: "w_env w = []" and ok: "ledger_ok (w_db w)"
  from run [unfolded transitionOnce_def] e
  show "w_env w' = [] \<and> (w_db w' = w_db w \<or> settled_by u k (w_db w) (w_db w')) \<and> (r = Inr None \<longrightarrow> w_db w' = w_db w)
    \<and> (\<forall>e. r = Inl e \<and> \<not> foreign e \<longrightarrow> w_db w' = w_db w)"
  proof (cases rule: begin_quiet)
    case (began w1)
    obtain b w2 ws where body: "transition_body L u k (w1, []) = (b, (w2, ws))" by (metis surj_pair)
    have 2: "w_env w2 = []" "w_db w2 = w_db w1"
      using alone_transition_body body began(2) unfolding alone_def by blast+
    note go = began(1)
    show ?thesis
    proof (cases b)
      case (Inl err)
      then show ?thesis using go body 2 began by auto
    next
      case (Inr x)
      show ?thesis
      proof (cases x)
        case (Write res)
        have "relies {u} w1" "ledger_ok (w_db w1)" using began ok by (simp_all add: relies_def)
        with transition_body_tx [OF u, of "{u}" k] body Inr have "transition_end u k x ws (w_db w2)"
          unfolding triple_def by blast
        then have p: "settled_by u k (w_db w2) (view ws (w_db w2))"
          unfolding settled_by_def transition_end_def Write by auto
        obtain c w3 where c: "tx_commit ws w2 = (c, w3)" by fastforce
        then have "w' = w3" "r \<noteq> Inr None" "\<forall>e. r = Inl e \<longrightarrow> c = Inl e"
          using go body Inr Write by (auto simp: and_then_def ok_def split: sum.splits)
        then show ?thesis using commit_alone [OF c 2(1)] 2 began p by auto
      qed (use go body Inr 2 began in auto)
    qed
  qed auto
qed

lemma transition_quiet: "pg_uuid L u = Some u \<Longrightarrow> quiet (settled_by u k) (Inventory_transition L u k)"
  unfolding Inventory_transition_def by (intro quiet_retry transitionOnce_quiet)

section \<open>Refusals\<close>

text \<open>Where the order has a reservation, Reserve answers with it, or the database does not answer.\<close>

lemma Reserve_present:
  assumes run: "Inventory_Reserve L u lns w = (Inl e, w')" and env: "w_env w = []"
    and u: "pg_uuid L u = Some u" and p: "present u i (w_db w)"
  shows "foreign e"
proof -
  have "(\<exists>e'. r = Inl e' \<and> foreign e') \<or> (\<exists>res. r = Inr (Some res))"
    if "reserveOnce L u (sort_key irl_SKU lns) w = (r, w')" for r w'
    using that [unfolded reserveOnce_def] env
  proof (cases rule: begin_quiet)
    case (began w1)
    obtain b w2 ws where body: "reserve_body L u (sort_key irl_SKU lns) (w1, []) = (b, (w2, ws))" by (metis surj_pair)
    have "(\<exists>err. b = Inl err \<and> foreign err) \<or> (\<exists>res. b = Inr (Answer res))"
      using reserve_body_present [OF body began(2) u] p began(3) by simp
    then show ?thesis using began(1) body by auto
  qed auto
  moreover have "Inventory_Reserve L u lns w = and_then (reserveOnce L u (sort_key irl_SKU lns))
      (\<lambda>result. case result of Some a \<Rightarrow> ok a | None \<Rightarrow> retry_occ 4 (reserveOnce L u (sort_key irl_SKU lns))) w"
    unfolding Inventory_Reserve_def retry_first ..
  ultimately show ?thesis using run
    by (cases "reserveOnce L u (sort_key irl_SKU lns) w") (auto simp: and_then_def ok_def)
qed

text \<open>A program that never fails with a sentinel.\<close>

definition never :: "'s \<Rightarrow> ('w, 's, 'a) prog \<Rightarrow> bool" where
  "never s m \<longleftrightarrow> (\<forall>w e w'. m w = (Inl e, w') \<longrightarrow> \<not> errors_Is e s)"

named_theorems nevers \<open>programs that never fail with a sentinel\<close>

lemma never_basic [nevers]:
  "never s (ok a)" "\<not> errors_Is e s \<Longrightarrow> never s (fail e)"
  "(\<And>e. r = Inl e \<Longrightarrow> \<not> errors_Is e s) \<Longrightarrow> never s (of_result r)"
  by (auto simp: never_def ok_def fail_def of_result_def)

lemma never_wrap [nevers]: "never s m \<Longrightarrow> never s (wrap_err p m)"
  by (auto simp: never_def map_err_def split: prod.splits sum.splits)

lemma never_and_then [nevers]: "never s m \<Longrightarrow> (\<And>a. never s (f a)) \<Longrightarrow> never s (and_then m f)"
  unfolding never_def and_then_def by (auto split: prod.splits sum.splits)

lemma never_if [nevers]: "never s m \<Longrightarrow> never s n \<Longrightarrow> never s (if b then m else n)"
  by simp

lemma never_case [nevers]: "never s m \<Longrightarrow> (\<And>a. never s (f a)) \<Longrightarrow> never s (case x of None \<Rightarrow> m | Some a \<Rightarrow> f a)"
  by (cases x) simp_all

lemma never_stmt [nevers]: "(\<And>d e. f d = Inl e \<Longrightarrow> \<not> errors_Is e s) \<Longrightarrow> never s (tx_stmt f)"
  by (auto simp: never_def tx_stmt_def split: prod.splits fault.splits sum.splits)

lemma sku_never: "NewSKU_inv t = Inl e \<Longrightarrow> \<not> errors_Is e ErrInvalidTransition_inv"
  by (auto simp: NewSKU_inv_def Let_def split: if_splits)

lemma move_stock_never: "move_stock k item q = Inl e \<Longrightarrow> \<not> errors_Is e ErrInvalidTransition_inv"
  by (cases k) (auto simp: move_stock_def Stock_Release_def Stock_Commit_def split: if_splits)

lemma statements_never:
  "select_stock t d = Inl e \<Longrightarrow> \<not> errors_Is e s" "update_stock t a r v d = Inl e \<Longrightarrow> \<not> errors_Is e s"
  "update_reservation t i d = Inl e \<Longrightarrow> \<not> errors_Is e s" "select_lines i d = Inl e \<Longrightarrow> \<not> errors_Is e s"
  "select_reservation L u d = Inl e \<Longrightarrow> \<not> errors_Is e s"
  by (auto simp: select_stock_def update_stock_def update_reservation_def select_lines_def select_reservation_def
      pg_param_def split: if_splits option.splits)

lemma transition_lines_never: "never ErrInvalidTransition_inv (transition_lines k lns)"
  by (induction lns)
    (auto simp: transition_line_def loadStockItem_def
      intro!: nevers dest: sku_never move_stock_never statements_never)

lemma domain_lines_never: "domain_lines lns = Inl e \<Longrightarrow> \<not> errors_Is e ErrInvalidTransition_inv"
  by (induction lns) (auto simp: NewQuantity_inv_def dest: sku_never split: sum.splits if_splits)

lemma rehydrate_never:
  "rehydrateReservation L i u st lns = Inl e \<Longrightarrow> \<not> errors_Is e ErrInvalidTransition_inv"
  by (auto simp: rehydrateReservation_def ParseReservationID_def ParseOrderID_inv_def
      dest: domain_lines_never split: sum.splits option.splits)

lemma rehydrated_status:
  "rehydrateReservation L i u st lns = Inr res \<Longrightarrow> rs_status res = ReservationStatus_of st"
  by (auto simp: rehydrateReservation_def RehydrateReservation_def split: sum.splits)

text \<open>A transition is refused as illegal only where the reservation is settled the other way.\<close>

definition refused :: "string \<Rightarrow> ReservationStatus \<Rightarrow> inv_db \<Rightarrow> bool" where
  "refused u k d \<longleftrightarrow> (\<exists>st. status_of d u = Some st \<and> st \<noteq> StatusHeld \<and> st \<noteq> k)"

lemma and_then_step: "m w = (Inr a, w1) \<Longrightarrow> and_then m f w = f a w1"
  by (simp add: and_then_def)

lemma transition_body_refused:
  assumes run: "transition_body L u k (w, []) = (Inl e, s')" and bad: "errors_Is e ErrInvalidTransition_inv"
    and env: "w_env w = []" and u: "pg_uuid L u = Some u" and k: "k = StatusReleased \<or> k = StatusCommitted"
  shows "refused u k (w_db w)"
proof -
  obtain r1 w1 ws1 where 1: "tx_stmt (select_reservation L u) (w, []) = (r1, (w1, ws1))" by (metis surj_pair)
  have n1: "\<not> errors_Is e ErrInvalidTransition_inv" if "r1 = Inl e" for e
    using 1 that never_stmt [of "select_reservation L u"] statements_never(5) unfolding never_def by blast
  from run 1 n1 bad obtain row where row: "r1 = Inr (Some row)"
    by (cases r1) (auto simp: transition_body_def and_then_def map_err_def fail_def split: option.splits)
  have "find (\<lambda>r. rr_order r = u) (t_reservations (w_db w)) = Some row"
    using 1 row u env by (auto simp: tx_stmt_def select_reservation_def env_step_def next_fault_db
        split: prod.splits fault.splits)
  then have st: "status_of (w_db w) u = Some (ReservationStatus_of (rr_status row))" by (simp add: status_of_def)
  let ?rest = "\<lambda>lines p. (case p of (changed, res') \<Rightarrow>
             let result = \<lparr>rt_ReservationID = rr_id row, rt_OrderID = u,
                           rt_Status = ReservationStatus_string k, rt_Lines = lines,
                           rt_Idempotent = \<not> changed\<rparr> in
             if \<not> changed then ok (Answer result)
             else
               and_then (transition_lines k lines) (\<lambda>moved.
                 if \<not> moved then ok Retry
                 else
                   and_then (wrap_err ''update reservation''
                       (tx_stmt (update_reservation (ReservationStatus_string k) (rr_id row)))) (\<lambda>_.
                     ok (Write result))))"
  have rest: "never ErrInvalidTransition_inv (?rest lines p)" for lines p
    by (cases p) (auto simp: Let_def intro!: nevers transition_lines_never dest: statements_never)
  let ?tail = "and_then (loadLines tx_stmt (rr_id row)) (\<lambda>lines.
           and_then (of_result (rehydrateReservation L (rr_id row) u (rr_status row) lines)) (\<lambda>res.
           and_then (of_result (move_reservation k res)) (?rest lines)))"
  have "transition_body L u k (w, []) = ?tail (w1, ws1)"
    unfolding transition_body_def
    by (subst and_then_step [of _ _ "Some row" "(w1, ws1)"]) (simp_all add: map_err_def 1 row)
  then have fails: "?tail (w1, ws1) = (Inl e, s')" using run by simp
  have tail: "\<exists>lines res e'. rehydrateReservation L (rr_id row) u (rr_status row) lines = Inr res
      \<and> move_reservation k res = Inl e' \<and> errors_Is e' ErrInvalidTransition_inv"
  proof (rule ccontr)
    assume no: "\<not> ?thesis"
    have "never ErrInvalidTransition_inv ?tail"
      unfolding loadLines_def
    proof (rule never_and_then [OF never_wrap [OF never_stmt]])
      fix lines
      show "never ErrInvalidTransition_inv
        (and_then (of_result (rehydrateReservation L (rr_id row) u (rr_status row) lines)) (\<lambda>res.
           and_then (of_result (move_reservation k res)) (?rest lines)))"
      proof (cases "rehydrateReservation L (rr_id row) u (rr_status row) lines")
        case (Inl e)
        then show ?thesis using rehydrate_never by (auto simp: never_def and_then_def of_result_def)
      next
        case (Inr res)
        have "never ErrInvalidTransition_inv (and_then (of_result (move_reservation k res)) (?rest lines))"
          by (intro never_and_then never_basic rest) (use no Inr in blast)
        then show ?thesis by (simp add: Inr never_def and_then_def of_result_def)
      qed
    qed (erule statements_never)
    then show False using fails bad unfolding never_def by blast
  qed
  then obtain lines res e' where "rehydrateReservation L (rr_id row) u (rr_status row) lines = Inr res"
    and mv: "move_reservation k res = Inl e'" by blast
  then have "rs_status res = ReservationStatus_of (rr_status row)" using rehydrated_status by blast
  then show ?thesis using st k mv
    by (auto simp: refused_def move_reservation_def Reservation_Release_def Reservation_Commit_def
        split: ReservationStatus.splits)
qed

lemma transition_refused:
  assumes run: "Inventory_transition L u k w = (Inl e, w')" and bad: "errors_Is e ErrInvalidTransition_inv"
    and env: "w_env w = []" and ok: "ledger_ok (w_db w)"
    and u: "pg_uuid L u = Some u" and k: "k = StatusReleased \<or> k = StatusCommitted"
  shows "refused u k (w_db w') \<and> w_db w' = w_db w"
proof -
  have once: "refused u k (w_db w) \<and> w_db w' = w_db w"
    if "transitionOnce L u k w = (Inl e, w')" "w_env w = []" for w w'
    using that(1) [unfolded transitionOnce_def] that(2)
  proof (cases rule: begin_quiet)
    case (failed e')
    then show ?thesis using bad by (simp add: foreign_def)
  next
    case (began w1)
    obtain b w2 ws where body: "transition_body L u k (w1, []) = (b, (w2, ws))" by (metis surj_pair)
    have 2: "w_env w2 = []" "w_db w2 = w_db w1"
      using alone_transition_body body began(2) unfolding alone_def by blast+
    show ?thesis
    proof (cases b)
      case (Inl e')
      then have "e' = e" "w' = w2" using began(1) body by auto
      then show ?thesis
        using transition_body_refused [OF body [unfolded Inl] _ began(2) u k] bad began(3) 2 by simp
    next
      case (Inr x)
      have False
      proof (cases x)
        case (Write res)
        obtain c w3 where c: "tx_commit ws w2 = (c, w3)" by fastforce
        then have "c = Inl e" using began(1) body Inr Write by (auto simp: and_then_def ok_def split: sum.splits)
        then show False using commit_alone [OF c 2(1)] bad by (auto simp: foreign_def)
      qed (use began(1) body Inr in auto)
      then show ?thesis ..
    qed
  qed
  have "refused u k (w_db w) \<and> w_db w' = w_db w" if "retry_occ n (transitionOnce L u k) w = (Inl e, w')" "w_env w = []" "ledger_ok (w_db w)" for n w
    using that
  proof (induction n arbitrary: w)
    case 0
    then show ?case using bad by (auto simp: fail_def)
  next
    case (Suc n)
    obtain r1 w1 where 1: "transitionOnce L u k w = (r1, w1)" by fastforce
    have q: "w_env w1 = [] \<and> (r1 = Inr None \<longrightarrow> w_db w1 = w_db w)"
      using transitionOnce_quiet [OF u, of k] 1 Suc.prems(2,3) unfolding quiet_once_def by blast
    show ?case
    proof (cases r1)
      case (Inl e')
      then have "e' = e" "w' = w1" using Suc.prems(1) 1 by (auto simp: and_then_def)
      then show ?thesis using once [of w w1] 1 Inl Suc.prems by simp
    next
      case (Inr x)
      then have "x = None" using Suc.prems(1) 1 by (cases x) (auto simp: and_then_def ok_def)
      then show ?thesis using Suc.IH [of w1] Suc.prems q 1 Inr by (simp add: and_then_def)
    qed
  qed
  from this [OF run [unfolded Inventory_transition_def] env ok] show ?thesis by simp
qed

end
