(* ===== verification/Order_Concurrency.thy ===== *)
theory Order_Concurrency
  imports Order_Workers
begin

text \<open>
  The event store under concurrent handlers. A handler loads an aggregate, decides, and saves;
  between the two, other handlers may save. \<open>race\<close> is the transition system of any number of
  such handlers with faults at any statement; the invariant \<open>store_inv\<close> says that every order's
  stream stays a placement with at most one terminal event, numbered without gaps, and that the
  outbox holds exactly one message for each stored event. The unique (order_id, version)
  constraint is all the locking there is.
\<close>

section \<open>Streams\<close>

definition rows_of :: "order_db \<Rightarrow> string \<Rightarrow> EventRow list" where
  "rows_of d u = filter (\<lambda>r. er_OrderID r = u) (t_events d)"

definition outbox_of :: "order_db \<Rightarrow> string \<Rightarrow> OutboxRow list" where
  "outbox_of d u = filter (\<lambda>r. ob_AggregateID r = u) (t_outbox d)"

definition numbered :: "EventRow list \<Rightarrow> bool" where
  "numbered rs = (map er_Version rs = map of_nat [1..<Suc (length rs)])"

text \<open>The sequences of stored event types an order may have.\<close>

definition type_lifecycle :: "string list \<Rightarrow> bool" where
  "type_lifecycle ts =
     (ts = [] \<or> ts = [TypeOrderPlaced] \<or> ts = [TypeOrderPlaced, TypeOrderConfirmed]
      \<or> ts = [TypeOrderPlaced, TypeOrderCancelled])"

definition row_ok :: "golib \<Rightarrow> EventRow \<Rightarrow> bool" where
  "row_ok L r = (\<forall>ev. decodeEvent L (er_Type r) (Some (er_Payload r)) = Inr ev \<longrightarrow>
                    OrderID_String L (AggregateID ev) = er_OrderID r \<and> EventType ev = er_Type r)"

definition store_inv :: "golib \<Rightarrow> order_db \<Rightarrow> bool" where
  "store_inv L d =
     ((\<forall>r \<in> set (t_events d). row_ok L r)
      \<and> (\<forall>u. type_lifecycle (map er_Type (rows_of d u)) \<and> numbered (rows_of d u)
           \<and> map ob_Type (outbox_of d u) = map er_Type (rows_of d u)))"

section \<open>What is encoded is decoded to the same order\<close>

lemma EventType_decode: "decodeEvent L ty p = Inr ev \<Longrightarrow> EventType ev = ty"
  by (auto simp: decodeEvent_def decode_placed_def split: if_splits option.splits sum.splits)

context uuid_laws
begin

lemma decode_keeps_id:
  assumes "encodeEvent L e = Inr (ty, p)" and "decodeEvent L ty p = Inr ev"
  shows "AggregateID ev = AggregateID e"
  using assms
  by (cases e) (auto simp: decodeEvent_def json_Unmarshal_def decode_placed_def stored_of_placed_def
      split: if_splits sum.splits)

end

lemma encode_type: "encodeEvent L e = Inr (ty, p) \<Longrightarrow> ty = EventType e"
  by (cases e) (auto split: if_splits)

section \<open>One save\<close>

lemma insert_event_Inr:
  assumes "insert_event L eid a v ty p t tr d = Inr (x, d')"
  shows "\<exists>er. er_Type er = ty \<and> p = Some (er_Payload er) \<and> pg_uuid L a = Some (er_OrderID er)
    \<and> er_Version er = v
    \<and> (\<forall>r \<in> set (t_events d). \<not> (er_OrderID r = er_OrderID er \<and> er_Version r = v))
    \<and> d' = d\<lparr>t_events := t_events d @ [er]\<rparr>"
proof -
  from assms obtain e u j where
    "pg_uuid L a = Some u" "p = Some j"
    "\<forall>r \<in> set (t_events d). er_EventID r \<noteq> e \<and> \<not> (er_OrderID r = u \<and> er_Version r = v)"
    "d' = d\<lparr>t_events := t_events d @
       [\<lparr>er_EventID = e, er_OrderID = u, er_Version = v, er_Type = ty, er_Payload = j,
         er_OccurredAt = pg_timestamp t, er_TraceID = tr\<rparr>]\<rparr>"
    unfolding insert_event_def with_uuid_def pg_reject_def
    by (auto simp: list_ex_iff split: option.splits if_splits)
  then show ?thesis
    by (intro exI [of _ "\<lparr>er_EventID = e, er_OrderID = u, er_Version = v, er_Type = ty,
          er_Payload = j, er_OccurredAt = pg_timestamp t, er_TraceID = tr\<rparr>"]) auto
qed

lemma insert_outbox_Inr:
  assumes "insert_outbox L eid m tr d = Inr (x, d')"
  shows "\<exists>orow. pg_uuid L (om_AggregateID m) = Some (ob_AggregateID orow)
    \<and> ob_Type orow = om_EventType m \<and> om_Payload m = Some (ob_Payload orow) \<and> \<not> ob_Published orow
    \<and> d' = d\<lparr>t_outbox := t_outbox d @ [orow]\<rparr>"
proof -
  from assms obtain e a j where
    "pg_uuid L (om_AggregateID m) = Some a" "om_Payload m = Some j"
    "d' = d\<lparr>t_outbox := t_outbox d @
       [\<lparr>ob_ID = of_nat (length (t_outbox d)) + 1, ob_EventID = e, ob_AggregateID = a,
         ob_Topic = om_Topic m, ob_Type = om_EventType m, ob_Payload = j,
         ob_Headers = enc_headers (om_Headers m), ob_TraceID = tr, ob_Published = False\<rparr>]\<rparr>"
    unfolding insert_outbox_def with_uuid_def pg_reject_def
    by (auto simp: list_ex_iff split: option.splits if_splits)
  then show ?thesis
    by (intro exI [of _ "\<lparr>ob_ID = of_nat (length (t_outbox d)) + 1, ob_EventID = e,
         ob_AggregateID = a, ob_Topic = om_Topic m, ob_Type = om_EventType m, ob_Payload = j,
         ob_Headers = enc_headers (om_Headers m), ob_TraceID = tr, ob_Published = False\<rparr>"]) auto
qed

text \<open>The database after a save of one event and its message.\<close>

definition saved_one :: "golib \<Rightarrow> DomainEvent \<Rightarrow> int64 \<Rightarrow> OutboxMessage \<Rightarrow> order_db \<Rightarrow> order_db \<Rightarrow> bool" where
  "saved_one L e v m d d' =
     (\<exists>er orow. encodeEvent L e = Inr (er_Type er, Some (er_Payload er))
        \<and> pg_uuid L (OrderID_String L (AggregateID e)) = Some (er_OrderID er)
        \<and> er_Version er = v + 1
        \<and> (\<forall>r \<in> set (t_events d). \<not> (er_OrderID r = er_OrderID er \<and> er_Version r = v + 1))
        \<and> pg_uuid L (om_AggregateID m) = Some (ob_AggregateID orow)
        \<and> ob_Type orow = om_EventType m \<and> om_Payload m = Some (ob_Payload orow) \<and> \<not> ob_Published orow
        \<and> d' = d\<lparr>t_events := t_events d @ [er], t_outbox := t_outbox d @ [orow]\<rparr>)"

lemma Save_body_one:
  assumes "and_then (for_each (Save_event L C v) [(0, e)]) (\<lambda>_. for_each (Save_message L C) [m]) w = (Inr (), w')"
  shows "saved_one L e v m (w_db w) (w_db w')"
proof -
  from assms obtain w1 where ev: "Save_event L C v (0, e) w = (Inr (), w1)"
    and ms: "Save_message L C m w1 = (Inr (), w')"
    by (auto simp: run_Inr simp del: for_each.simps)
  from ev obtain ty p eid where enc: "encodeEvent L e = Inr (ty, p)"
    and ins: "insert_event L eid (OrderID_String L (AggregateID e)) (v + 1) ty p (OccurredAt e)
                (ctx_traceID C) (w_db w) = Inr ((), w_db w1)"
    by (auto simp: Save_event_def run_Inr dest!: db_stmt_Inr)
  from ms obtain oid where out: "insert_outbox L oid m (ctx_traceID C) (w_db w1) = Inr ((), w_db w')"
    by (auto simp: Save_message_def run_Inr dest!: db_stmt_Inr split: if_splits)
  from insert_event_Inr [OF ins] obtain er where
    er: "encodeEvent L e = Inr (er_Type er, Some (er_Payload er))"
      "pg_uuid L (OrderID_String L (AggregateID e)) = Some (er_OrderID er)" "er_Version er = v + 1"
      "\<forall>r \<in> set (t_events (w_db w)). \<not> (er_OrderID r = er_OrderID er \<and> er_Version r = v + 1)"
      "w_db w1 = (w_db w)\<lparr>t_events := t_events (w_db w) @ [er]\<rparr>"
    using enc by auto
  from insert_outbox_Inr [OF out] obtain orow where
    "pg_uuid L (om_AggregateID m) = Some (ob_AggregateID orow)"
    "ob_Type orow = om_EventType m" "om_Payload m = Some (ob_Payload orow)" "\<not> ob_Published orow"
    "w_db w' = (w_db w1)\<lparr>t_outbox := t_outbox (w_db w1) @ [orow]\<rparr>"
    by auto
  with er show ?thesis
    unfolding saved_one_def by (intro exI [of _ er] exI [of _ orow]) simp
qed

lemma Save_one:
  assumes "Order_Save L C agg v [m] w = (r, w')" and "o_changes agg = [e]"
  shows "(\<exists>err. r = Inl err) \<and> w_db w' = w_db w \<or> saved_one L e v m (w_db w) (w_db w')"
proof -
  from assms have "db_tx (\<lambda>_. Wrapf ''commit tx'')
      (and_then (for_each (Save_event L C v) [(0, e)]) (\<lambda>_. for_each (Save_message L C) [m])) w = (r, w')"
    by (simp add: Order_Save_def enumerate_eq_zip)
  then show ?thesis
    by (cases rule: db_tx_atomic) (metis Save_body_one old.unit.exhaust)+
qed

section \<open>A save keeps the invariant\<close>

lemma numbered_nth: "numbered rs \<Longrightarrow> k < length rs \<Longrightarrow> er_Version (rs ! k) = of_nat (k + 1)"
proof -
  assume n: "numbered rs" and k: "k < length rs"
  have "map er_Version rs ! k = map of_nat [1..<Suc (length rs)] ! k"
    using n unfolding numbered_def by simp
  with k show ?thesis by (simp add: nth_upt del: upt_Suc)
qed

lemma numbered_free:
  assumes "numbered rs" and "\<forall>r \<in> set rs. er_Version r \<noteq> of_nat (k + 1)"
  shows "length rs \<le> k"
proof (rule ccontr)
  assume "\<not> length rs \<le> k"
  then have "rs ! k \<in> set rs" "er_Version (rs ! k) = of_nat (k + 1)"
    using numbered_nth [OF assms(1)] by auto
  with assms(2) show False by blast
qed

lemma numbered_snoc: "numbered rs \<Longrightarrow> er_Version r = of_nat (length rs) + 1 \<Longrightarrow> numbered (rs @ [r])"
  by (simp add: numbered_def add.commute)

lemma rows_snoc:
  "rows_of (d\<lparr>t_events := t_events d @ [er], t_outbox := ob\<rparr>) u =
   rows_of d u @ (if er_OrderID er = u then [er] else [])"
  by (simp add: rows_of_def)

lemma outbox_snoc:
  "outbox_of (d\<lparr>t_events := ev, t_outbox := t_outbox d @ [o1]\<rparr>) u =
   outbox_of d u @ (if ob_AggregateID o1 = u then [o1] else [])"
  by (simp add: outbox_of_def)

definition may_save :: "golib \<Rightarrow> order_db \<Rightarrow> DomainEvent \<Rightarrow> int64 \<Rightarrow> OutboxMessage \<Rightarrow> bool" where
  "may_save L d e v m =
     (om_AggregateID m = OrderID_String L (AggregateID e) \<and> om_EventType m = EventType e
      \<and> (v = 0 \<and> EventType e = TypeOrderPlaced
         \<or> v = 1 \<and> EventType e \<in> {TypeOrderConfirmed, TypeOrderCancelled}
           \<and> rows_of d (OrderID_String L (AggregateID e)) \<noteq> []))"

lemma type_lifecycle_simps:
  "type_lifecycle [] = True"
  "type_lifecycle [a] = (a = TypeOrderPlaced)"
  "type_lifecycle [a, b] = (a = TypeOrderPlaced \<and> b \<in> {TypeOrderConfirmed, TypeOrderCancelled})"
  "type_lifecycle (a # b # c # ts) = False"
  by (auto simp: type_lifecycle_def)

context uuid_laws
begin

lemma store_inv_saved:
  assumes inv: "store_inv L d" and sv: "saved_one L e v m d d'" and may: "may_save L d e v m"
  shows "store_inv L d'"
proof -
  let ?u = "OrderID_String L (AggregateID e)"
  from sv obtain er o1 where enc: "encodeEvent L e = Inr (er_Type er, Some (er_Payload er))"
    and id0: "pg_uuid L ?u = Some (er_OrderID er)" and ver: "er_Version er = v + 1"
    and free0: "\<forall>r \<in> set (t_events d). \<not> (er_OrderID r = er_OrderID er \<and> er_Version r = v + 1)"
    and ag: "pg_uuid L (om_AggregateID m) = Some (ob_AggregateID o1)" and oty: "ob_Type o1 = om_EventType m"
    and d': "d' = d\<lparr>t_events := t_events d @ [er], t_outbox := t_outbox d @ [o1]\<rparr>"
    unfolding saved_one_def by blast
  have id: "er_OrderID er = ?u" using id0 by (simp add: OrderID_String_def pg_uuid_string)
  have aid: "ob_AggregateID o1 = ?u"
    using ag may by (simp add: may_save_def OrderID_String_def pg_uuid_string)
  have ty: "er_Type er = EventType e" using enc by (rule encode_type)
  have row: "row_ok L er"
    unfolding row_ok_def using decode_keeps_id [OF enc] id by (auto dest: EventType_decode)
  have lc: "type_lifecycle (map er_Type (rows_of d ?u))" and nb: "numbered (rows_of d ?u)"
    using inv unfolding store_inv_def by blast+
  have free: "\<forall>r \<in> set (rows_of d ?u). er_Version r \<noteq> v + 1"
    using free0 id by (auto simp: rows_of_def)
  have new: "type_lifecycle (map er_Type (rows_of d ?u @ [er])) \<and> numbered (rows_of d ?u @ [er])"
  proof (cases "v = 0")
    case True
    then have "rows_of d ?u = []" using numbered_free [OF nb, of 0] free by simp
    moreover have "EventType e = TypeOrderPlaced" using True may by (auto simp: may_save_def)
    ultimately show ?thesis using True ver ty by (simp add: type_lifecycle_simps numbered_def)
  next
    case False
    then have v: "v = 1" and t: "EventType e \<in> {TypeOrderConfirmed, TypeOrderCancelled}"
      and ne: "rows_of d ?u \<noteq> []" using may by (auto simp: may_save_def)
    have "length (rows_of d ?u) \<le> 1" using numbered_free [OF nb, of 1] free v by simp
    with ne obtain r0 where r0: "rows_of d ?u = [r0]"
      by (cases "rows_of d ?u") auto
    have n2: "numbered ([r0] @ [er])" using nb ver v unfolding r0 by (intro numbered_snoc) simp_all
    have "type_lifecycle [er_Type r0]" using lc r0 by simp
    then have "type_lifecycle [er_Type r0, er_Type er]" using ty t by (simp add: type_lifecycle_simps)
    with n2 r0 show ?thesis by simp
  qed
  have ob: "map ob_Type (outbox_of d u) = map er_Type (rows_of d u)" for u
    using inv unfolding store_inv_def by blast
  have "type_lifecycle (map er_Type (rows_of d' u)) \<and> numbered (rows_of d' u)
      \<and> map ob_Type (outbox_of d' u) = map er_Type (rows_of d' u)" for u
  proof (cases "u = ?u")
    case True
    then show ?thesis
      using new ob [of ?u] oty ty may unfolding d' rows_snoc outbox_snoc
      by (simp add: id aid may_save_def)
  next
    case False
    then show ?thesis
      using inv unfolding d' rows_snoc outbox_snoc store_inv_def by (simp add: id aid)
  qed
  moreover have "\<forall>r \<in> set (t_events d'). row_ok L r"
    using inv row unfolding d' store_inv_def by simp
  ultimately show ?thesis unfolding store_inv_def by blast
qed

end

section \<open>Loading\<close>

lemma decode_rows_types:
  "decode_rows L rs = Inr es \<Longrightarrow> map EventType es = map er_Type rs \<and> length es = length rs"
  by (induction rs arbitrary: es) (auto split: sum.splits dest: EventType_decode)

lemma decode_rows_nth:
  "decode_rows L rs = Inr es \<Longrightarrow> k < length rs \<Longrightarrow>
   decodeEvent L (er_Type (rs ! k)) (Some (er_Payload (rs ! k))) = Inr (es ! k)"
  by (induction rs arbitrary: es k) (auto simp: nth_Cons split: sum.splits nat.splits)

lemma numbered_sorted: "numbered rs \<Longrightarrow> length rs \<le> 2 \<Longrightarrow> sort_key (\<lambda>r. sint (er_Version r)) rs = rs"
  by (cases rs; cases "tl rs"; cases "tl (tl rs)") (auto simp: numbered_def)

lemma type_lifecycle_length: "type_lifecycle ts \<Longrightarrow> length ts \<le> 2"
  by (auto simp: type_lifecycle_def)

lemma Rehydrate_Inr: "Rehydrate es = Inr ord \<longleftrightarrow> es \<noteq> [] \<and> ord = rehydrate_loop zero_order es"
  by (auto simp: Rehydrate_def)

lemma rehydrate_changes [simp]: "o_changes (rehydrate_loop ord es) = o_changes ord"
  by (induction es arbitrary: ord) simp_all

lemma rehydrate_pending:
  assumes "type_lifecycle (map EventType es)" and "Rehydrate es = Inr ord" and "o_status ord = StatusPending"
  shows "\<exists>e. es = [OrderPlaced e] \<and> o_id ord = pe_OrderID e \<and> o_version ord = 1 \<and> o_changes ord = []"
proof -
  consider "es = []" | e1 where "es = [e1]" | e1 e2 where "es = [e1, e2]"
    using type_lifecycle_length [OF assms(1)] by (cases es; cases "tl es"; cases "tl (tl es)") auto
  then show ?thesis
  proof cases
    case 1 with assms show ?thesis by (simp add: Rehydrate_def)
  next
    case 2 with assms show ?thesis
      by (cases e1) (auto simp: Rehydrate_def type_lifecycle_simps zero_order_def TypeOrderPlaced_def)
  next
    case 3 with assms show ?thesis
      by (cases e2) (auto simp: Rehydrate_def type_lifecycle_simps TypeOrderConfirmed_def
          TypeOrderCancelled_def)
  qed
qed

context uuid_laws
begin

lemma Load_Inr:
  assumes "Order_Load L i w = (Inr ord, w')" and inv: "store_inv L (w_db w)"
  shows "w_db w' = w_db w
    \<and> (\<exists>es. decode_rows L (rows_of (w_db w) (OrderID_String L i)) = Inr es \<and> Rehydrate es = Inr ord)"
proof -
  let ?rs = "rows_of (w_db w) (OrderID_String L i)"
  have "numbered ?rs" "length ?rs \<le> 2"
    using inv type_lifecycle_length unfolding store_inv_def by (blast, force)
  then have sorted: "sort_key (\<lambda>r. sint (er_Version r)) ?rs = ?rs" by (rule numbered_sorted)
  have pg: "pg_uuid L (OrderID_String L i) = Some (OrderID_String L i)"
    by (simp add: OrderID_String_def pg_uuid_string)
  have "\<exists>rows history w1. db_stmt (select_events L (OrderID_String L i)) w = (Inr rows, w1)
      \<and> decode_rows L rows = Inr history \<and> (db_ping :: unit order_act) w1 = (Inr (), w') \<and> Rehydrate history = Inr ord"
    using assms(1) unfolding Order_Load_def run_Inr by (auto simp: run_Inr split: if_splits)
  then obtain rows history w1 where
    "db_stmt (select_events L (OrderID_String L i)) w = (Inr rows, w1)"
    and dec: "decode_rows L rows = Inr history" and "(db_ping :: unit order_act) w1 = (Inr (), w')"
    and ord: "Rehydrate history = Inr ord" by blast
  then have "rows = sort_key (\<lambda>r. sint (er_Version r)) ?rs \<and> w_db w1 = w_db w" "w_db w' = w_db w1"
    by (auto simp: db_ping_def select_events_def with_uuid_def pg rows_of_def dest!: db_stmt_Inr)
  with dec ord sorted show ?thesis by auto
qed

text \<open>A pending order that was loaded is the one asked for, and it is in the store.\<close>

lemma Load_pending:
  assumes "Order_Load L i w = (Inr ord, w')" and inv: "store_inv L (w_db w)"
    and pend: "o_status ord = StatusPending"
  shows "w_db w' = w_db w \<and> o_id ord = i \<and> o_version ord = 1 \<and> o_changes ord = []
    \<and> rows_of (w_db w) (OrderID_String L i) \<noteq> []"
proof -
  let ?rs = "rows_of (w_db w) (OrderID_String L i)"
  from Load_Inr [OF assms(1,2)] obtain es where same: "w_db w' = w_db w"
    and dec: "decode_rows L ?rs = Inr es" and re: "Rehydrate es = Inr ord" by blast
  have "type_lifecycle (map EventType es)"
    using inv decode_rows_types [OF dec] by (auto simp: store_inv_def)
  from rehydrate_pending [OF this re pend] obtain e where es: "es = [OrderPlaced e]"
    and ord: "o_id ord = pe_OrderID e" "o_version ord = 1" "o_changes ord = []" by blast
  have len: "length ?rs = 1" using decode_rows_types [OF dec] es by simp
  then have "?rs ! 0 \<in> set (t_events (w_db w))" "er_OrderID (?rs ! 0) = OrderID_String L i"
    using nth_mem [of 0 ?rs] by (simp_all add: rows_of_def)
  then have "OrderID_String L (pe_OrderID e) = OrderID_String L i"
    using decode_rows_nth [OF dec, of 0] len es inv unfolding store_inv_def row_ok_def by force
  then have "pe_OrderID e = i"
    by (simp add: OrderID_String_def string_inj OrderID.expand)
  with same ord len show ?thesis by force
qed

end

end
