(* ===== verification/Order_Race.thy ===== *)
theory Order_Race
  imports Order_Concurrency
begin

text \<open>
  Handlers in flight. A \<open>flight\<close> is a handler of place\_order.go or confirm\_cancel.go between its
  load and its Save: the aggregate with the staged event, the version it expects and the outbox
  messages. \<open>race_step\<close> is one step of such a handler, of the relay or of the writers of the other
  tables, under any script of faults, and \<open>race\<close> is every interleaving of them.
\<close>

record flight =
  fl_order :: Order
  fl_version :: int64
  fl_outbox :: "OutboxMessage list"

text \<open>What one step does to the world and to the handlers in flight.\<close>

inductive race_step :: "golib \<Rightarrow> ctx \<Rightarrow> order_db world \<times> flight list \<Rightarrow> order_db world \<times> flight list \<Rightarrow> bool"
  for L :: golib and C :: ctx where
  place: "PlaceOrder i c items a now = Inr agg \<Longrightarrow>
    race_step L C (w, fs) (w, \<lparr>fl_order = agg, fl_version = 0, fl_outbox = inject_all C (toOutbox L agg)\<rparr> # fs)"
| confirm: "Order_Load L i w = (Inr agg0, w') \<Longrightarrow> Confirm agg0 now = Inr agg \<Longrightarrow> o_changes agg \<noteq> [] \<Longrightarrow>
    race_step L C (w, fs)
      (w', \<lparr>fl_order = agg, fl_version = o_version agg - of_nat (length (o_changes agg)),
            fl_outbox = inject_all C (lifecycleOutbox L (o_changes agg))\<rparr> # fs)"
| cancel: "Order_Load L i w = (Inr agg0, w') \<Longrightarrow> Cancel agg0 r now = Inr agg \<Longrightarrow> o_changes agg \<noteq> [] \<Longrightarrow>
    race_step L C (w, fs)
      (w', \<lparr>fl_order = agg, fl_version = o_version agg - of_nat (length (o_changes agg)),
            fl_outbox = inject_all C (lifecycleOutbox L (o_changes agg))\<rparr> # fs)"
| save: "f \<in> set fs \<Longrightarrow> Order_Save L C (fl_order f) (fl_version f) (fl_outbox f) w = (r, w') \<Longrightarrow>
    race_step L C (w, fs) (w', remove1 f fs)"
| relay: "relay_cycle locked n w = (b, w') \<Longrightarrow> race_step L C (w, fs) (w', fs)"
| other: "t_events (w_db w') = t_events (w_db w) \<Longrightarrow> t_outbox (w_db w') = t_outbox (w_db w) \<Longrightarrow>
    race_step L C (w, fs) (w', fs)"

text \<open>The states the service can be in, from an empty database on.\<close>

inductive race :: "golib \<Rightarrow> ctx \<Rightarrow> order_db world \<Rightarrow> flight list \<Rightarrow> bool" for L :: golib and C :: ctx where
  start: "w_db w = empty_order_db \<Longrightarrow> race L C w []"
| step: "race L C w fs \<Longrightarrow> race_step L C (w, fs) (w', fs') \<Longrightarrow> race L C w' fs'"

text \<open>What holds of a handler in flight: it may save as long as nobody saved the same version.\<close>

definition flight_ok :: "golib \<Rightarrow> order_db \<Rightarrow> flight \<Rightarrow> bool" where
  "flight_ok L d f =
     (\<exists>e m. o_changes (fl_order f) = [e] \<and> fl_outbox f = [m] \<and> may_save L d e (fl_version f) m)"

text \<open>The store only grows, as far as the streams are concerned.\<close>

definition grows :: "order_db \<Rightarrow> order_db \<Rightarrow> bool" where
  "grows d d' = (\<forall>u. rows_of d u \<noteq> [] \<longrightarrow> rows_of d' u \<noteq> [])"

lemma flight_ok_grows: "flight_ok L d f \<Longrightarrow> grows d d' \<Longrightarrow> flight_ok L d' f"
  unfolding flight_ok_def may_save_def grows_def by blast

lemma store_inv_same:
  "store_inv L d \<Longrightarrow> t_events d' = t_events d \<Longrightarrow>
   (\<And>u. map ob_Type (outbox_of d' u) = map ob_Type (outbox_of d u)) \<Longrightarrow> store_inv L d'"
  by (simp add: store_inv_def rows_of_def)

lemma mark_published_outbox:
  assumes "mark_published ids d = Inr (x, d')"
  shows "t_events d' = t_events d \<and> (\<forall>u. map ob_Type (outbox_of d' u) = map ob_Type (outbox_of d u))"
proof -
  let ?f = "\<lambda>r. if ob_ID r \<in> set ids then r\<lparr>ob_Published := True\<rparr> else r"
  have "map ob_Type (filter (\<lambda>r. ob_AggregateID r = u) (map ?f rs))
      = map ob_Type (filter (\<lambda>r. ob_AggregateID r = u) rs)" for rs u
    by (induction rs) auto
  with assms show ?thesis by (auto simp: mark_published_def outbox_of_def)
qed

text \<open>DrainBatch leaves the streams alone, whatever it publishes.\<close>

lemma Publisher_preserves: "preserves P (Publisher_Publish rs)"
  unfolding Publisher_Publish_def by (auto intro!: preserving)

lemma DrainBatch_preserves:
  assumes "\<And>ids d x d'. P d \<Longrightarrow> mark_published ids d = Inr (x, d') \<Longrightarrow> P d'"
  shows "preserves P (DrainBatch locked n Publisher_Publish)"
  unfolding DrainBatch_def
  by (intro preserving Publisher_preserves)
     (auto simp: select_outbox_def intro!: preserving Publisher_preserves intro: assms
       split: if_splits)

lemma relay_cycle_db: "relay_cycle locked n w = (b, w') \<Longrightarrow>
   w' = snd (DrainBatch locked n Publisher_Publish w)"
  by (auto simp: relay_cycle_def split: prod.splits sum.splits)

lemma relay_cycle_keeps:
  assumes "relay_cycle locked n w = (b, w')"
  shows "t_events (w_db w') = t_events (w_db w)
    \<and> (\<forall>u. map ob_Type (outbox_of (w_db w') u) = map ob_Type (outbox_of (w_db w) u))"
proof -
  let ?P = "\<lambda>d. t_events d = t_events (w_db w)
    \<and> (\<forall>u. map ob_Type (outbox_of d u) = map ob_Type (outbox_of (w_db w) u))"
  have "preserves ?P (DrainBatch locked n Publisher_Publish)"
    by (rule DrainBatch_preserves) (auto dest!: mark_published_outbox)
  then have "?P (w_db (snd (DrainBatch locked n Publisher_Publish w)))"
    unfolding preserves_def by blast
  with relay_cycle_db [OF assms] show ?thesis by simp
qed

section \<open>The handlers that take off\<close>

lemma inject_one [simp]: "inject_all C [m] = [m\<lparr>om_Headers := InjectToMap C (om_Headers m)\<rparr>]"
  by (simp add: inject_all_def)

lemma place_flight_ok:
  assumes "PlaceOrder i c items a now = Inr agg"
  shows "flight_ok L d \<lparr>fl_order = agg, fl_version = 0, fl_outbox = inject_all C (toOutbox L agg)\<rparr>"
proof -
  from assms obtain e where "o_changes agg = [OrderPlaced e]"
    by (auto simp: PlaceOrder_Inr zero_order_def)
  then show ?thesis
    by (simp add: flight_ok_def may_save_def toOutbox_def List.map_filter_simps TypeOrderPlaced_def)
qed

text \<open>The invariant of the race, kept by every step; the events that are stored stay.\<close>

definition race_ok :: "golib \<Rightarrow> order_db world \<Rightarrow> flight list \<Rightarrow> bool" where
  "race_ok L w fs \<longleftrightarrow> store_inv L (w_db w) \<and> (\<forall>f \<in> set fs. flight_ok L (w_db w) f)"

lemma race_ok_start: "w_db w = empty_order_db \<Longrightarrow> race_ok L w []"
  by (simp add: race_ok_def store_inv_def empty_order_db_def rows_of_def outbox_of_def numbered_def
      type_lifecycle_simps)

lemma race_ok_same:
  assumes "race_ok L w fs" and "t_events (w_db w') = t_events (w_db w)"
    and "\<And>u. map ob_Type (outbox_of (w_db w') u) = map ob_Type (outbox_of (w_db w) u)"
  shows "race_ok L w' fs"
proof -
  have "grows (w_db w) (w_db w')" using assms(2) by (simp add: grows_def rows_of_def)
  then show ?thesis using assms store_inv_same flight_ok_grows unfolding race_ok_def by blast
qed

context uuid_laws
begin

lemma terminal_flight_ok:
  assumes "Order_Load L i w = (Inr agg0, w')" and inv: "store_inv L (w_db w)"
    and "Confirm agg0 now = Inr agg \<or> Cancel agg0 r now = Inr agg" and "o_changes agg \<noteq> []"
  shows "w_db w' = w_db w \<and> flight_ok L (w_db w)
    \<lparr>fl_order = agg, fl_version = o_version agg - of_nat (length (o_changes agg)),
     fl_outbox = inject_all C (lifecycleOutbox L (o_changes agg))\<rparr>"
proof -
  from Load_Inr [OF assms(1) inv] have same: "w_db w' = w_db w" and "o_changes agg0 = []"
    by (auto simp: Rehydrate_Inr zero_order_def)
  then have pend: "o_status agg0 = StatusPending"
    using assms(3,4) by (auto simp: Confirm_Inr Cancel_Inr)
  from Load_pending [OF assms(1) inv pend]
  have agg0: "o_id agg0 = i" "o_version agg0 = 1" "o_changes agg0 = []"
    and rows: "rows_of (w_db w) (OrderID_String L i) \<noteq> []" by auto
  have "agg = raise_event agg0 (OrderConfirmed i now) \<or> agg = raise_event agg0 (OrderCancelled i r now)"
    using assms(3) pend agg0 by (auto simp: Confirm_Inr Cancel_Inr)
  with same agg0 rows show ?thesis
    by (auto simp: flight_ok_def may_save_def lifecycleOutbox_def List.map_filter_simps
        TypeOrderConfirmed_def TypeOrderCancelled_def)
qed

lemma saved_grows: "saved_one L e v m d d' \<Longrightarrow> grows d d'"
  by (auto simp: saved_one_def grows_def rows_of_def)

lemma race_step_ok:
  assumes "race_step L C (w, fs) (w', fs')" and ok: "race_ok L w fs"
  shows "race_ok L w' fs' \<and> set (t_events (w_db w)) \<subseteq> set (t_events (w_db w'))"
  using assms(1)
proof (cases rule: race_step.cases)
  case place
  then show ?thesis using ok place_flight_ok by (simp add: race_ok_def)
next
  case (confirm i agg0 now agg)
  then show ?thesis using ok terminal_flight_ok [of i w agg0 w' now agg] by (auto simp: race_ok_def)
next
  case (cancel i agg0 r now agg)
  then show ?thesis using ok terminal_flight_ok [of i w agg0 w' now agg r] by (auto simp: race_ok_def)
next
  case (save f r)
  then obtain e m where f: "o_changes (fl_order f) = [e]" "fl_outbox f = [m]"
    and may: "may_save L (w_db w) e (fl_version f) m" using ok by (auto simp: flight_ok_def race_ok_def)
  have rest: "\<forall>g \<in> set fs'. flight_ok L (w_db w) g"
    using ok save(1) by (auto simp: race_ok_def dest: set_remove1_subset [THEN subsetD])
  from Save_one [of L C "fl_order f" "fl_version f" m w r w' e] save f
  consider "w_db w' = w_db w" | "saved_one L e (fl_version f) m (w_db w) (w_db w')" by auto
  then show ?thesis
  proof cases
    case 1 with ok rest show ?thesis by (simp add: race_ok_def)
  next
    case 2
    then show ?thesis
      using store_inv_saved [OF _ 2 may] ok rest flight_ok_grows saved_grows [OF 2]
      by (auto simp: race_ok_def saved_one_def)
  qed
next
  case (relay locked n b)
  then show ?thesis using relay_cycle_keeps race_ok_same [OF ok, of w'] by simp
next
  case other
  then show ?thesis using race_ok_same [OF ok, of w'] by (simp add: outbox_of_def)
qed

lemma race_steps_ok:
  assumes "(race_step L C)\<^sup>*\<^sup>* (w, fs) (w', fs')" and "race_ok L w fs"
  shows "race_ok L w' fs' \<and> set (t_events (w_db w)) \<subseteq> set (t_events (w_db w'))"
  using assms
proof (induction rule: rtranclp_induct2)
  case (step w1 fs1 w2 fs2)
  then show ?case using race_step_ok [OF step.hyps(2)] by blast
qed simp

lemma race_inv: "race L C w fs \<Longrightarrow> race_ok L w fs"
  by (induction rule: race.induct) (use race_ok_start race_step_ok in blast)+

end

text \<open>C2. Streams survive every race: however placements, confirmations, cancellations and relay
  cycles interleave, and whatever fails, each order's stored stream is one placement with at
  most one terminal event, its versions are 1, 2 without gaps, and the outbox holds exactly one
  message of the same type, in the same order, for each stored event.\<close>

theorem streams_survive_races:
  assumes "uuid_laws L" and "race L C w fs"
  shows "type_lifecycle (map er_Type (rows_of (w_db w) u))
    \<and> map er_Version (rows_of (w_db w) u) = map of_nat [1..<Suc (length (rows_of (w_db w) u))]
    \<and> map ob_Type (outbox_of (w_db w) u) = map er_Type (rows_of (w_db w) u)"
  using uuid_laws.race_inv [OF assms] unfolding race_ok_def store_inv_def numbered_def by blast

definition race_sample :: "order_db world" where
  "race_sample = \<lparr>w_db = empty_order_db, w_uuids = 0, w_faults = [Fine, ReplyLost], w_sent = []\<rparr>"

theorem streams_survive_races_witness:
  "let C = \<lparr>ctx_propagated = [], ctx_traceID = []\<rparr>;
       d = w_db (snd (Order_Save std_lib C sample_order 0 (inject_all C (toOutbox std_lib sample_order)) race_sample));
       u = uuid_String std_lib 1
   in type_lifecycle (map er_Type (rows_of d u)) \<and> map ob_Type (outbox_of d u) = map er_Type (rows_of d u)"
proof -
  define C :: ctx where "C = \<lparr>ctx_propagated = [], ctx_traceID = []\<rparr>"
  let ?f = "\<lparr>fl_order = sample_order, fl_version = 0, fl_outbox = inject_all C (toOutbox std_lib sample_order)\<rparr>"
  have "race std_lib C race_sample []" by (rule race.start) (simp add: race_sample_def)
  then have "race std_lib C race_sample [?f]" by (rule race.step [OF _ race_step.place [OF sample_order_placed]])
  then have "race std_lib C (snd (Order_Save std_lib C (fl_order ?f) (fl_version ?f) (fl_outbox ?f) race_sample)) (remove1 ?f [?f])"
    by (rule race.step [OF _ race_step.save]) (simp_all add: prod_eq_iff)
  from streams_survive_races [OF std.uuid_laws_axioms this, of "uuid_String std_lib 1"]
  show ?thesis by (simp add: C_def)
qed

end
