(* ===== verification/Order_Runs.thy ===== *)
theory Order_Runs
  imports Order_Race
begin

text \<open>
  What the repositories and the command handlers do, run by run: a save that comes too late, a
  placement and the load that follows it, the terminal commands, and the idempotency keys.
  Lemmas whose name ends in \<open>_calm\<close> describe runs without faults; the others hold under every
  script of faults.
\<close>

section \<open>Optimistic concurrency\<close>

lemma Save_event_run:
  assumes "encodeEvent L e = Inr (ty, p)"
  shows "Save_event L C v (i, e) w = map_err save_error
    (db_stmt (insert_event L (uuid_String L (uuid_New L (w_uuids w))) (OrderID_String L (AggregateID e))
                (v + of_nat i + 1) ty p (OccurredAt e) (ctx_traceID C))) (w\<lparr>w_uuids := w_uuids w + 1\<rparr>)"
  using assms by (simp add: Save_event_def and_then_def of_result_def new_uuid_def)

definition taken :: "order_db \<Rightarrow> string \<Rightarrow> int64 \<Rightarrow> bool" where
  "taken d u v = (\<exists>r \<in> set (t_events d). er_OrderID r = u \<and> er_Version r = v)"

lemma insert_event_taken:
  assumes "pg_uuid L a = Some u" and "taken d u v"
  shows "\<exists>err. insert_event L eid a v ty p t tr d = Inl err"
proof (cases "insert_event L eid a v ty p t tr d")
  case (Inr b)
  then have "insert_event L eid a v ty p t tr d = Inr ((), snd b)" by (cases b) simp
  from insert_event_Inr [OF this] assms show ?thesis by (auto simp: taken_def)
qed simp

lemma insert_event_conflict:
  assumes "pg_uuid L a = Some u" and "taken d u v" and "pg_uuid L eid = Some e"
    and "pg_text ty" "pg_json j" "pg_text tr"
  shows "insert_event L eid a v ty (Some j) t tr d = Inl (Foreign uniqueViolation)"
  using assms by (auto simp: insert_event_def with_uuid_def pg_reject_def taken_def list_ex_iff)

lemma db_stmt_Inl: "f (w_db w) = Inl e \<Longrightarrow> \<exists>err w'. db_stmt f w = (Inl err, w')"
  by (auto simp: db_stmt_def next_fault_def split: list.splits fault.splits)

lemma Save_event_taken:
  assumes "pg_uuid L (OrderID_String L (AggregateID e)) = Some u" and "taken (w_db w) u (v + of_nat i + 1)"
  shows "\<exists>err w'. Save_event L C v (i, e) w = (Inl err, w')"
proof (cases "encodeEvent L e")
  case (Inl err)
  then show ?thesis by (simp add: Save_event_def and_then_def of_result_def)
next
  case (Inr tp)
  obtain ty p where tp: "tp = (ty, p)" by fastforce
  have "\<exists>err w'. db_stmt (insert_event L (uuid_String L (uuid_New L (w_uuids w)))
      (OrderID_String L (AggregateID e)) (v + of_nat i + 1) ty p (OccurredAt e) (ctx_traceID C))
      (w\<lparr>w_uuids := w_uuids w + 1\<rparr>) = (Inl err, w')"
    using insert_event_taken [OF assms] by (metis db_stmt_Inl world.select_convs(1) world.surjective world.update_convs(2))
  then show ?thesis
    using Inr tp by (auto simp: Save_event_run map_err_def)
qed

lemma db_tx_fails:
  assumes "\<And>w1. w_db w1 = w_db w \<Longrightarrow> \<exists>err w2. body w1 = (Inl err, w2)"
  shows "(\<exists>err. fst (db_tx cw body w) = Inl err) \<and> w_db (snd (db_tx cw body w)) = w_db w"
proof -
  obtain r w' where t: "db_tx cw body w = (r, w')" by fastforce
  have no: "body w1 \<noteq> (Inr a, w2)" if "w_db w1 = w_db w" for w1 a w2
    using assms [OF that] by auto
  from t show ?thesis by (cases rule: db_tx_atomic) (use t no in auto)
qed

lemma Order_Save_stale:
  assumes "o_changes agg = e # es" and "pg_uuid L (OrderID_String L (AggregateID e)) = Some u"
    and "taken (w_db w) u (v + 1)"
  shows "(\<exists>err. fst (Order_Save L C agg v out w) = Inl err) \<and> w_db (snd (Order_Save L C agg v out w)) = w_db w"
proof -
  let ?body = "and_then (for_each (Save_event L C v) (enumerate 0 (e # es))) (\<lambda>_. for_each (Save_message L C) out)"
  have "\<exists>err w2. ?body w1 = (Inl err, w2)" if "w_db w1 = w_db w" for w1
    using Save_event_taken [OF assms(2), of w1 v 0 C] assms(3) that by (auto simp: and_then_def)
  from db_tx_fails [of w ?body, OF this] show ?thesis
    using assms(1) by (simp add: Order_Save_def)
qed

text \<open>C5. Optimistic concurrency: a Save whose next version is already in the event store fails and
  leaves the database exactly as it was, whatever faults occur; without faults its error is
  ErrConcurrency.\<close>

theorem stale_save_rejected:
  assumes L: "uuid_laws L" and ch: "o_changes agg = e # es"
    and tk: "taken (w_db w) (OrderID_String L (AggregateID e)) (expected + 1)"
  shows "(\<exists>err. fst (Order_Save L C agg expected outbox w) = Inl err)
    \<and> w_db (snd (Order_Save L C agg expected outbox w)) = w_db w
    \<and> (w_faults w = [] \<longrightarrow> pg_text (ctx_traceID C) \<longrightarrow>
       (\<exists>j. encodeEvent L e = Inr (EventType e, Some j) \<and> pg_json j) \<longrightarrow>
       fst (Order_Save L C agg expected outbox w) = Inl (Sentinel ErrConcurrency))"
proof -
  have u: "pg_uuid L (OrderID_String L i) = Some (OrderID_String L i)" for i
    unfolding OrderID_String_def by (rule uuid_laws.pg_uuid_string [OF L])
  have "fst (Order_Save L C agg expected outbox w) = Inl (Sentinel ErrConcurrency)"
    if calm: "w_faults w = []" and tr: "pg_text (ctx_traceID C)"
      and enc: "encodeEvent L e = Inr (EventType e, Some j)" and j: "pg_json j" for j
  proof -
    have "insert_event L (uuid_String L (uuid_New L (w_uuids w))) (OrderID_String L (AggregateID e))
        (expected + of_nat 0 + 1) (EventType e) (Some j) (OccurredAt e) (ctx_traceID C) (w_db w)
        = Inl (Foreign uniqueViolation)"
      by (rule insert_event_conflict [OF u])
         (use tk j tr uuid_laws.pg_uuid_string [OF L] in \<open>(cases e; simp)+\<close>)
    then have "Save_event L C expected (0, e) w = (Inl (Sentinel ErrConcurrency), w\<lparr>w_uuids := w_uuids w + 1\<rparr>)"
      using calm by (simp add: Save_event_run [OF enc] map_err_def db_stmt_calm save_error_def)
    then show ?thesis
      using calm ch by (simp add: Order_Save_def pgx_tx_def and_then_def)
  qed
  with Order_Save_stale [OF ch u tk] show ?thesis by blast
qed

section \<open>Placing and loading\<close>

lemma build_lines_ok:
  assumes laws: "golib_laws L" and "build_lines L ls = Inr items"
  shows "list_all (item_ok L) items"
  using assms(2)
proof (induction ls arbitrary: items)
  case Nil
  then show ?case by simp
next
  case (Cons l ls)
  then obtain it its where it: "build_line L l = Inr it" and "build_lines L ls = Inr its"
    and "items = it # its" by (auto split: sum.splits)
  moreover have "item_ok L it"
    using it NewSKU_ok NewQuantity_ok golib_laws.NewMoney_ok [OF laws]
    by (fastforce simp: build_line_def item_ok_def split: sum.splits)
  ultimately show ?case using Cons.IH by simp
qed

lemma Reserve_keeps:
  "preserves (\<lambda>d. t_events d = E \<and> t_outbox d = Q \<and> t_projections d = P) (Idempotency_Reserve L key oid)"
  unfolding Idempotency_Reserve_def
  by (intro preserving; auto intro!: preserving simp: insert_key_def with_uuid_def pg_reject_def
      split: option.splits if_splits)

text \<open>A placement that answered without being a replay saved its aggregate.\<close>

lemma place_success:
  assumes "PlaceOrder_Handle L C now cmd w = (Inr res, w')" and "\<not> rs_Idempotent res"
  obtains u c items a agg w2 where
    "buildLineItems L (pc_Lines cmd) = Inr items"
    "NewAddress L (sh_Line1 (pc_Ship cmd)) (sh_Line2 (pc_Ship cmd)) (sh_City (pc_Ship cmd))
       (sh_Region (pc_Ship cmd)) (sh_PostalCode (pc_Ship cmd)) (sh_Country (pc_Ship cmd)) = Inr a"
    "ParseCustomerID L (pc_CustomerID cmd) = Inr c"
    "PlaceOrder (OrderID u) c items a now = Inr agg"
    "t_events (w_db w2) = t_events (w_db w)" "t_outbox (w_db w2) = t_outbox (w_db w)"
    "Order_Save L C agg 0 (inject_all C (toOutbox L agg)) w2 = (Inr (), w')"
    "res = \<lparr>rs_OrderID = OrderID_String L (o_id agg), rs_Status = Status_string (o_status agg),
            rs_Idempotent = False\<rparr>"
proof -
  from assms obtain key c items a existing found agg w2 where
    v: "NewIdempotencyKey (pc_IdempotencyKey cmd) = Inr key"
      "ParseCustomerID L (pc_CustomerID cmd) = Inr c" "buildLineItems L (pc_Lines cmd) = Inr items"
      "NewAddress L (sh_Line1 (pc_Ship cmd)) (sh_Line2 (pc_Ship cmd)) (sh_City (pc_Ship cmd))
         (sh_Region (pc_Ship cmd)) (sh_PostalCode (pc_Ship cmd)) (sh_Country (pc_Ship cmd)) = Inr a"
    and r: "Idempotency_Reserve L (key_value key) (OrderID_String L (OrderID (uuid_New L (w_uuids w))))
              (w\<lparr>w_uuids := w_uuids w + 1\<rparr>) = (Inr (existing, found), w2)"
    and p: "PlaceOrder (OrderID (uuid_New L (w_uuids w))) c items a now = Inr agg"
    and s: "Order_Save L C agg 0 (inject_all C (toOutbox L agg)) w2 = (Inr (), w')"
    and res: "res = \<lparr>rs_OrderID = OrderID_String L (o_id agg), rs_Status = Status_string (o_status agg),
            rs_Idempotent = False\<rparr>"
    by (auto simp: PlaceOrder_Handle_def run_Inr Let_def MarkChangesCommitted_def split: if_splits)
  have "t_events (w_db w2) = t_events (w_db w) \<and> t_outbox (w_db w2) = t_outbox (w_db w)"
    using preservesD [OF Reserve_keeps _ r, of "t_events (w_db w)" "t_outbox (w_db w)"
        "t_projections (w_db w)"] by simp
  with v p s res show ?thesis by (intro that [of items a c _ agg w2]) auto
qed

lemma Load_calm:
  assumes L: "uuid_laws L" and inv: "store_inv L (w_db w)" and calm: "w_faults w = []"
  shows "Order_Load L i w =
    (case decode_rows L (rows_of (w_db w) (OrderID_String L i)) of
       Inl err \<Rightarrow> Inl err | Inr es \<Rightarrow> Rehydrate es, w)"
proof -
  let ?rs = "rows_of (w_db w) (OrderID_String L i)"
  have "numbered ?rs" "length ?rs \<le> 2"
    using inv type_lifecycle_length unfolding store_inv_def by (blast, force)
  then have sorted: "sort_key (\<lambda>r. sint (er_Version r)) ?rs = ?rs" by (rule numbered_sorted)
  have pg: "pg_uuid L (OrderID_String L i) = Some (OrderID_String L i)"
    unfolding OrderID_String_def by (rule uuid_laws.pg_uuid_string [OF L])
  have "select_events L (OrderID_String L i) (w_db w) = Inr (?rs, w_db w)"
    using sorted by (simp add: select_events_def with_uuid_def pg rows_of_def)
  then show ?thesis
    using calm by (simp add: Order_Load_def and_then_def map_err_def of_result_def db_ping_def
        db_stmt_calm fail_def Rehydrate_def split: sum.split)
qed

lemma Load_Inl_db: "Order_Load L i w = (r, w') \<Longrightarrow> w_db w' = w_db w"
proof -
  assume r: "Order_Load L i w = (r, w')"
  have "preserves (\<lambda>d. d = w_db w) (Order_Load L i)"
    unfolding Order_Load_def
    by (intro preserving) (auto simp: select_events_def with_uuid_def intro!: preserving split: option.splits)
  with r show ?thesis unfolding preserves_def by (metis snd_conv)
qed

text \<open>The stream of a placement that was just saved is that placement, if it can be decoded.\<close>

lemma placed_stream:
  assumes L: "uuid_laws L" and inv: "store_inv L d" and sv: "saved_one L (OrderPlaced e) 0 m d d'"
  shows "map er_Type (rows_of d' (OrderID_String L (pe_OrderID e))) = [TypeOrderPlaced]
    \<and> (\<exists>p. encodeEvent L (OrderPlaced e) = Inr (TypeOrderPlaced, p)
    \<and> decode_rows L (rows_of d' (OrderID_String L (pe_OrderID e)))
      = map_sum id (\<lambda>ev. [ev]) (decodeEvent L TypeOrderPlaced p))"
proof -
  let ?u = "OrderID_String L (pe_OrderID e)"
  have pg: "pg_uuid L ?u = Some ?u"
    unfolding OrderID_String_def by (rule uuid_laws.pg_uuid_string [OF L])
  from sv pg obtain er where enc: "encodeEvent L (OrderPlaced e) = Inr (er_Type er, Some (er_Payload er))"
    and id: "er_OrderID er = ?u"
    and free: "\<forall>r \<in> set (t_events d). \<not> (er_OrderID r = ?u \<and> er_Version r = 1)"
    and ev: "t_events d' = t_events d @ [er]"
    unfolding saved_one_def by auto
  have "rows_of d ?u = []"
    using inv numbered_free [of "rows_of d ?u" 0] free by (auto simp: store_inv_def rows_of_def)
  then have "rows_of d' ?u = [er]" using ev id by (simp add: rows_of_def)
  moreover have "er_Type er = TypeOrderPlaced"
    using encode_type [OF enc] by (simp add: TypeOrderPlaced_def)
  ultimately show ?thesis
    using enc by (auto split: sum.splits)
qed

text \<open>The whole of a successful placement: the event that was stored, and the new stream.\<close>

lemma place_stores:
  assumes L: "golib_laws L" and inv: "store_inv L (w_db w)"
    and run: "PlaceOrder_Handle L C now cmd w = (Inr res, w')" and new: "\<not> rs_Idempotent res"
  obtains e items where "buildLineItems L (pc_Lines cmd) = Inr items" "pe_Items e = items"
    "list_all (item_ok L) items" "address_ok L (pe_ShipTo e)"
    "order_total [] \<lparr>Currency = Currency (li_UnitPrice (hd items)), MinorUnits = 0\<rparr> items = Inr (pe_Total e)"
    "pe_PlacedAt e = now" "instant_ok now" "items \<noteq> []"
    "rs_OrderID res = OrderID_String L (pe_OrderID e)"
    "store_inv L (w_db w')" "map er_Type (rows_of (w_db w') (OrderID_String L (pe_OrderID e))) = [TypeOrderPlaced]"
    "\<exists>p. encodeEvent L (OrderPlaced e) = Inr (TypeOrderPlaced, p)
      \<and> decode_rows L (rows_of (w_db w') (OrderID_String L (pe_OrderID e)))
        = map_sum id (\<lambda>ev. [ev]) (decodeEvent L TypeOrderPlaced p)"
proof -
  have U: "uuid_laws L" using L by (rule golib_laws.axioms(1))
  obtain u c items a agg w2 where
    items: "buildLineItems L (pc_Lines cmd) = Inr items"
    and a: "NewAddress L (sh_Line1 (pc_Ship cmd)) (sh_Line2 (pc_Ship cmd)) (sh_City (pc_Ship cmd))
       (sh_Region (pc_Ship cmd)) (sh_PostalCode (pc_Ship cmd)) (sh_Country (pc_Ship cmd)) = Inr a"
    and "ParseCustomerID L (pc_CustomerID cmd) = Inr c"
    and p: "PlaceOrder (OrderID u) c items a now = Inr agg"
    and same: "t_events (w_db w2) = t_events (w_db w)" "t_outbox (w_db w2) = t_outbox (w_db w)"
    and sv: "Order_Save L C agg 0 (inject_all C (toOutbox L agg)) w2 = (Inr (), w')"
    and res: "res = \<lparr>rs_OrderID = OrderID_String L (o_id agg), rs_Status = Status_string (o_status agg),
            rs_Idempotent = False\<rparr>" by (rule place_success [OF run new])
  have inv2: "store_inv L (w_db w2)"
    using store_inv_same [OF inv same(1)] same by (simp add: outbox_of_def)
  from p obtain tot where ne: "items \<noteq> []"
    and tot: "order_total [] \<lparr>Currency = Currency (li_UnitPrice (hd items)), MinorUnits = 0\<rparr> items = Inr tot"
    and agg: "agg = raise_event zero_order (OrderPlaced \<lparr>pe_OrderID = OrderID u, pe_CustomerID = c,
      pe_Items = items, pe_ShipTo = a, pe_Total = tot, pe_PlacedAt = now\<rparr>)"
    by (auto simp: PlaceOrder_Inr)
  define e where "e = \<lparr>pe_OrderID = OrderID u, pe_CustomerID = c, pe_Items = items, pe_ShipTo = a,
      pe_Total = tot, pe_PlacedAt = now\<rparr>"
  have ch: "o_changes agg = [OrderPlaced e]" and id: "o_id agg = OrderID u"
    by (simp_all add: agg e_def zero_order_def)
  then obtain m where m: "inject_all C (toOutbox L agg) = [m]"
    and may: "may_save L (w_db w2) (OrderPlaced e) 0 m"
    using place_flight_ok [OF p, of L "w_db w2" C] by (auto simp: flight_ok_def)
  have saved: "saved_one L (OrderPlaced e) 0 m (w_db w2) (w_db w')"
    using Save_one [OF sv [unfolded m] ch] by simp
  have st: "store_inv L (w_db w')" by (rule uuid_laws.store_inv_saved [OF U inv2 saved may])
  have str: "\<exists>p. encodeEvent L (OrderPlaced e) = Inr (TypeOrderPlaced, p)
      \<and> decode_rows L (rows_of (w_db w') (OrderID_String L (pe_OrderID e)))
        = map_sum id (\<lambda>ev. [ev]) (decodeEvent L TypeOrderPlaced p)"
    and types: "map er_Type (rows_of (w_db w') (OrderID_String L (pe_OrderID e))) = [TypeOrderPlaced]"
    using placed_stream [OF U inv2 saved] by simp_all
  from str have "instant_ok now" by (auto simp: e_def split: if_splits)
  moreover have "address_ok L a" by (rule golib_laws.NewAddress_ok [OF L a])
  moreover have "list_all (item_ok L) items"
    using items build_lines_ok [OF L] by (auto simp: buildLineItems_def split: if_splits)
  ultimately show ?thesis
    using that [of items e] items ne tot st str types res id by (simp add: e_def)
qed

lemma place_stores_at:
  assumes L: "golib_laws L" and inv: "store_inv L (w_db w)"
    and run: "PlaceOrder_Handle L C now cmd w = (Inr res, w')" and new: "\<not> rs_Idempotent res"
    and items: "buildLineItems L (pc_Lines cmd) = Inr items"
  obtains e where "pe_Items e = items" "list_all (item_ok L) items" "address_ok L (pe_ShipTo e)"
    "order_total [] \<lparr>Currency = Currency (li_UnitPrice (hd items)), MinorUnits = 0\<rparr> items = Inr (pe_Total e)"
    "pe_PlacedAt e = now" "instant_ok now" "items \<noteq> []"
    "rs_OrderID res = OrderID_String L (pe_OrderID e)" "store_inv L (w_db w')"
    "\<exists>p. encodeEvent L (OrderPlaced e) = Inr (TypeOrderPlaced, p)
      \<and> decode_rows L (rows_of (w_db w') (OrderID_String L (pe_OrderID e)))
        = map_sum id (\<lambda>ev. [ev]) (decodeEvent L TypeOrderPlaced p)"
proof -
  obtain e its where its: "buildLineItems L (pc_Lines cmd) = Inr its" and f: "pe_Items e = its"
    "list_all (item_ok L) its" "address_ok L (pe_ShipTo e)"
    "order_total [] \<lparr>Currency = Currency (li_UnitPrice (hd its)), MinorUnits = 0\<rparr> its = Inr (pe_Total e)"
    "pe_PlacedAt e = now" "instant_ok now" "its \<noteq> []"
    "rs_OrderID res = OrderID_String L (pe_OrderID e)" "store_inv L (w_db w')"
    and "map er_Type (rows_of (w_db w') (OrderID_String L (pe_OrderID e))) = [TypeOrderPlaced]"
    and g: "\<exists>p. encodeEvent L (OrderPlaced e) = Inr (TypeOrderPlaced, p)
      \<and> decode_rows L (rows_of (w_db w') (OrderID_String L (pe_OrderID e)))
        = map_sum id (\<lambda>ev. [ev]) (decodeEvent L TypeOrderPlaced p)"
    by (rule place_stores [OF L inv run new])
  from items its have eq: "its = items" by simp
  show ?thesis by (rule that [of e]) (fact f [unfolded eq] g)+
qed

lemma accepted_loads:
  assumes L: "golib_laws L" and inv: "store_inv L (w_db w)"
    and run: "PlaceOrder_Handle L C now cmd w = (Inr res, w')" and new: "\<not> rs_Idempotent res"
    and items: "buildLineItems L (pc_Lines cmd) = Inr items" and fits: "exact_total items < 2 ^ 63"
    and calm: "w_faults w' = []"
  shows "\<exists>oid ord. rs_OrderID res = OrderID_String L oid \<and> rs_Status res = ''PENDING''
    \<and> Order_Load L oid w' = (Inr ord, w') \<and> o_id ord = oid \<and> o_status ord = StatusPending
    \<and> o_version ord = 1 \<and> o_items ord = items \<and> sint (MinorUnits (o_total ord)) = exact_total items"
proof -
  have U: "uuid_laws L" using L by (rule golib_laws.axioms(1))
  obtain e where
    e: "pe_Items e = items" "list_all (item_ok L) items" "address_ok L (pe_ShipTo e)"
    and tot: "order_total [] \<lparr>Currency = Currency (li_UnitPrice (hd items)), MinorUnits = 0\<rparr> items = Inr (pe_Total e)"
    and now: "pe_PlacedAt e = now" "instant_ok now" and ne: "items \<noteq> []"
    and res: "rs_OrderID res = OrderID_String L (pe_OrderID e)" and inv': "store_inv L (w_db w')"
    and str: "\<exists>p. encodeEvent L (OrderPlaced e) = Inr (TypeOrderPlaced, p)
      \<and> decode_rows L (rows_of (w_db w') (OrderID_String L (pe_OrderID e)))
        = map_sum id (\<lambda>ev. [ev]) (decodeEvent L TypeOrderPlaced p)" by (rule place_stores_at [OF L inv run new items])
  have items_ok: "\<And>li. li \<in> set items \<Longrightarrow> item_ok L li" using e(2) by (simp add: list_all_iff)
  have exact: "sint (MinorUnits (pe_Total e)) = exact_total items"
    using order_total_exact [OF tot items_ok] fits by simp
  have "money_ok L (li_UnitPrice (hd items))" using items_ok ne by (simp add: item_ok_def)
  then have "money_ok L (pe_Total e)"
    by (rule money_ok_same_currency)
       (use order_total_currency [OF tot] exact exact_total_nonneg items_ok in auto)
  then have "event_ok L (OrderPlaced e)" using e now by simp
  from uuid_laws.decode_encode [OF U this] str
  have "decode_rows L (rows_of (w_db w') (OrderID_String L (pe_OrderID e))) = Inr [OrderPlaced e]"
    by (auto simp: TypeOrderPlaced_def)
  then have "Order_Load L (pe_OrderID e) w' = (Inr (rehydrate_loop zero_order [OrderPlaced e]), w')"
    by (simp add: Load_calm [OF U inv' calm] Rehydrate_def)
  moreover have "rs_Status res = ''PENDING''"
    by (rule place_success [OF run new]) (auto dest!: PlaceOrder_pending)
  ultimately show ?thesis
    using res exact e(1) by (auto simp: zero_order_def)
qed

text \<open>C4. Read your writes: after a placement that was accepted, with a total that fits 63 bits,
  loading the returned order id gives the order as it was placed: pending, at version 1, with
  the items of the request and the exact sum of price times quantity as its total.\<close>

theorem placed_order_loads:
  assumes L: "golib_laws L" and inv: "store_inv L (w_db w)"
    and run: "PlaceOrder_Handle L C now cmd w = (Inr res, w')" and new: "\<not> rs_Idempotent res"
    and items: "buildLineItems L (pc_Lines cmd) = Inr items" and fits: "exact_total items < 2 ^ 63"
    and calm: "w_faults w' = []"
  shows "\<exists>oid ord. rs_OrderID res = OrderID_String L oid \<and> rs_Status res = ''PENDING''
    \<and> Order_Load L oid w' = (Inr ord, w') \<and> o_id ord = oid \<and> o_status ord = StatusPending
    \<and> o_version ord = 1 \<and> o_items ord = items \<and> sint (MinorUnits (o_total ord)) = exact_total items"
  by (rule accepted_loads [OF assms])

section \<open>A total that wrapped\<close>

text \<open>
  A program that cannot succeed: it answers with an error and leaves the database alone, and
  unless the database itself fails, the error is \<open>s\<close>.
\<close>

definition fails_with :: "order_sentinel \<Rightarrow> 'a order_act \<Rightarrow> order_db world \<Rightarrow> bool" where
  "fails_with s m w \<longleftrightarrow> (\<exists>err w'. m w = (Inl err, w') \<and> w_db w' = w_db w \<and> (w_faults w = [] \<longrightarrow> errors_Is err s))"

lemma fails_with_first: "fails_with s m w \<Longrightarrow> fails_with s (and_then m f) w"
  by (auto simp: fails_with_def and_then_def)

lemma decode_rows_first:
  "rs \<noteq> [] \<Longrightarrow> decodeEvent L (er_Type (hd rs)) (Some (er_Payload (hd rs))) = Inl err \<Longrightarrow> decode_rows L rs = Inl err"
  by (cases rs) simp_all

lemma numbered_hd: "numbered rs \<Longrightarrow> length rs \<le> 2 \<Longrightarrow> r \<in> set rs \<Longrightarrow> er_Version r = 1 \<Longrightarrow> rs \<noteq> [] \<and> hd rs = r"
  by (cases rs rule: list.exhaust [case_names Nil Cons]; cases "tl rs") (auto simp: numbered_def)

text \<open>A stream whose first event does not decode cannot be loaded, whatever is appended to it.\<close>

lemma undecodable_fails:
  assumes L: "uuid_laws L" and inv: "store_inv L (w_db w)"
    and er: "er \<in> set (t_events (w_db w))" "er_OrderID er = OrderID_String L i" "er_Version er = 1"
    and dec: "decodeEvent L (er_Type er) (Some (er_Payload er)) = Inl (Detailf ErrValidation m)"
  shows "fails_with ErrValidation (Order_Load L i) w"
proof -
  let ?rs = "rows_of (w_db w) (OrderID_String L i)"
  have n: "numbered ?rs" "length ?rs \<le> 2"
    using inv type_lifecycle_length unfolding store_inv_def by (blast, force)
  have "er \<in> set ?rs" using er by (simp add: rows_of_def)
  from numbered_hd [OF n this er(3)] dec have bad: "decode_rows L ?rs = Inl (Detailf ErrValidation m)"
    by (intro decode_rows_first) simp_all
  obtain r w' where run: "Order_Load L i w = (r, w')" by fastforce
  have "\<exists>err. r = Inl err"
    using uuid_laws.Load_Inr [OF L] run inv bad by (cases r) fastforce+
  moreover have "r = Inl (Detailf ErrValidation m)" if "w_faults w = []"
    using run bad by (simp add: Load_calm [OF L inv that])
  ultimately show ?thesis
    using run Load_Inl_db [OF run] by (auto simp: fails_with_def)
qed

lemma place_grows:
  assumes run: "PlaceOrder_Handle L C now cmd w = (Inr res, w')" and new: "\<not> rs_Idempotent res"
  shows "grows (w_db w) (w_db w')"
proof -
  obtain u c items a agg w2 where "PlaceOrder (OrderID u) c items a now = Inr agg"
    and same: "t_events (w_db w2) = t_events (w_db w)"
    and sv: "Order_Save L C agg 0 (inject_all C (toOutbox L agg)) w2 = (Inr (), w')"
    by (rule place_success [OF run new])
  then obtain e m where "o_changes agg = [e]" "inject_all C (toOutbox L agg) = [m]"
    using place_flight_ok [of "OrderID u" c items a now agg L "w_db w2" C] by (auto simp: flight_ok_def)
  with sv Save_one [of L C agg 0 m w2 "Inr ()" w' e] have "saved_one L e 0 m (w_db w2) (w_db w')" by simp
  then show ?thesis using same by (auto simp: saved_one_def grows_def rows_of_def)
qed

text \<open>The event such a placement stores.\<close>

lemma wrapped_total_stored:
  assumes L: "golib_laws L" and inv: "store_inv L (w_db w)"
    and run: "PlaceOrder_Handle L C now cmd w = (Inr res, w')" and new: "\<not> rs_Idempotent res"
    and items: "buildLineItems L (pc_Lines cmd) = Inr items"
    and tot: "order_total [] \<lparr>Currency = Currency (li_UnitPrice (hd items)), MinorUnits = 0\<rparr> items = Inr tot"
    and neg: "sint (MinorUnits tot) < 0"
  obtains oid er where "rs_OrderID res = OrderID_String L oid" "store_inv L (w_db w')"
    "er \<in> set (t_events (w_db w'))" "er_OrderID er = OrderID_String L oid" "er_Version er = 1"
    "decodeEvent L (er_Type er) (Some (er_Payload er)) = Inl (Detailf ErrValidation ''amount must be non-negative'')"
proof -
  have U: "uuid_laws L" using L by (rule golib_laws.axioms(1))
  obtain e its where its: "buildLineItems L (pc_Lines cmd) = Inr its" "pe_Items e = its"
    and e: "list_all (item_ok L) its" "address_ok L (pe_ShipTo e)"
    and t': "order_total [] \<lparr>Currency = Currency (li_UnitPrice (hd its)), MinorUnits = 0\<rparr> its = Inr (pe_Total e)"
    and now: "pe_PlacedAt e = now" "instant_ok now" and ne: "its \<noteq> []"
    and res: "rs_OrderID res = OrderID_String L (pe_OrderID e)" and inv': "store_inv L (w_db w')"
    and ty: "map er_Type (rows_of (w_db w') (OrderID_String L (pe_OrderID e))) = [TypeOrderPlaced]"
    and str: "\<exists>p. encodeEvent L (OrderPlaced e) = Inr (TypeOrderPlaced, p)
      \<and> decode_rows L (rows_of (w_db w') (OrderID_String L (pe_OrderID e)))
        = map_sum id (\<lambda>ev. [ev]) (decodeEvent L TypeOrderPlaced p)" by (rule place_stores [OF L inv run new])
  have eq: "its = items" and t: "pe_Total e = tot" using its items t' tot by auto
  have "money_ok L (li_UnitPrice (hd items))" using e(1) ne by (cases items) (simp_all add: item_ok_def eq)
  then have "length (ToUpper L (TrimSpace (Currency tot))) = 3"
    using order_total_currency [OF tot] by (auto simp: money_ok_def NewMoney_Inr)
  with e its eq neg t now have "\<exists>p. encodeEvent L (OrderPlaced e) = Inr (EventType (OrderPlaced e), p)
      \<and> decodeEvent L (EventType (OrderPlaced e)) p = Inl (Detailf ErrValidation ''amount must be non-negative'')"
    by (intro uuid_laws.decode_negative_total [OF U]) auto
  with str have bad: "decode_rows L (rows_of (w_db w') (OrderID_String L (pe_OrderID e)))
      = Inl (Detailf ErrValidation ''amount must be non-negative'')"
    by (auto simp: TypeOrderPlaced_def)
  obtain er where rows: "rows_of (w_db w') (OrderID_String L (pe_OrderID e)) = [er]" using ty by (auto simp: map_eq_Cons_conv)
  then have "er \<in> set (rows_of (w_db w') (OrderID_String L (pe_OrderID e)))" by simp
  moreover have "numbered [er]" using inv' rows unfolding store_inv_def by metis
  ultimately show thesis
    using that [of "pe_OrderID e" er] res inv' bad rows
    by (auto simp: rows_of_def numbered_def split: sum.splits)
qed

text \<open>C12. A total that wraps below zero makes an order that can be placed and never be read again:
  PlaceOrder does not look at the sign of the sum and stores the event. From then on, after any
  number of steps of any handlers and relays and under every fault, a load of the order fails, and
  so do its confirmation and its cancellation, without a change to the database; unless the
  database fails, the error is a validation error.\<close>

theorem wrapped_total_unloadable:
  assumes L: "golib_laws L" and reach: "race L C w fs"
    and run: "PlaceOrder_Handle L C now cmd w = (Inr res, w')" and new: "\<not> rs_Idempotent res"
    and items: "buildLineItems L (pc_Lines cmd) = Inr items"
    and tot: "order_total [] \<lparr>Currency = Currency (li_UnitPrice (hd items)), MinorUnits = 0\<rparr> items = Inr tot"
    and neg: "sint (MinorUnits tot) < 0"
    and onwards: "(race_step L C)\<^sup>*\<^sup>* (w', fs) (w2, fs2)"
  shows "\<exists>oid. rs_OrderID res = OrderID_String L oid
    \<and> fails_with ErrValidation (Order_Load L oid) w2
    \<and> fails_with ErrValidation (Confirm_Handle L C2 now2 (rs_OrderID res)) w2
    \<and> fails_with ErrValidation (Cancel_Handle L C2 now2 (rs_OrderID res) reason) w2"
proof -
  have U: "uuid_laws L" using L by (rule golib_laws.axioms(1))
  have ok: "race_ok L w fs" by (rule uuid_laws.race_inv [OF U reach])
  then have inv: "store_inv L (w_db w)" by (simp add: race_ok_def)
  obtain oid er where id: "rs_OrderID res = OrderID_String L oid" and inv': "store_inv L (w_db w')"
    and er: "er \<in> set (t_events (w_db w'))" "er_OrderID er = OrderID_String L oid" "er_Version er = 1"
    and bad: "decodeEvent L (er_Type er) (Some (er_Payload er)) = Inl (Detailf ErrValidation ''amount must be non-negative'')"
    by (rule wrapped_total_stored [OF L inv run new items tot neg])
  have "race_ok L w' fs"
    using ok inv' flight_ok_grows [OF _ place_grows [OF run new]] by (simp add: race_ok_def)
  from uuid_laws.race_steps_ok [OF U onwards this] er(1) have "store_inv L (w_db w2)" "er \<in> set (t_events (w_db w2))"
    by (auto simp: race_ok_def)
  from undecodable_fails [OF U this er(2,3) bad] have "fails_with ErrValidation (Order_Load L oid) w2" .
  moreover have "ParseOrderID L (rs_OrderID res) = Inr oid"
    using id uuid_laws.Parse_OrderID_String [OF U] by simp
  ultimately show ?thesis
    using id by (auto simp: Confirm_Handle_def Cancel_Handle_def and_then_def of_result_def fails_with_def)
qed

end
