(* ===== verification/Order_Terminal.thy ===== *)
theory Order_Terminal
  imports Order_Runs
begin

text \<open>
  Confirming and cancelling (command/confirm\_cancel.go) as transitions of the stored stream, and
  the idempotency keys of placements. \<open>stream_types\<close> is the abstract state of an order in the
  database: its sequence of event types.
\<close>

definition stream_types :: "order_db \<Rightarrow> string \<Rightarrow> string list" where
  "stream_types d u = map er_Type (rows_of d u)"

fun status_types :: "Status \<Rightarrow> string list" where
  "status_types StatusNone = []"
| "status_types StatusPending = [TypeOrderPlaced]"
| "status_types StatusConfirmed = [TypeOrderPlaced, TypeOrderConfirmed]"
| "status_types StatusCancelled = [TypeOrderPlaced, TypeOrderCancelled]"

lemma rehydrate_status:
  assumes "type_lifecycle (map EventType es)" and "Rehydrate es = Inr ord"
  shows "map EventType es = status_types (o_status ord) \<and> o_status ord \<noteq> StatusNone"
proof -
  consider "es = []" | e1 where "es = [e1]" | e1 e2 where "es = [e1, e2]"
    using type_lifecycle_length [OF assms(1)] by (cases es; cases "tl es"; cases "tl (tl es)") auto
  then show ?thesis
  proof cases
    case 1 with assms show ?thesis by (simp add: Rehydrate_def)
  next
    case 2 with assms show ?thesis
      by (cases e1) (auto simp: Rehydrate_def type_lifecycle_simps zero_order_def TypeOrderPlaced_def)
  next
    case 3 with assms show ?thesis
      by (cases e1; cases e2)
         (auto simp: Rehydrate_def type_lifecycle_simps TypeOrderPlaced_def TypeOrderConfirmed_def
           TypeOrderCancelled_def)
  qed
qed

lemma Load_status:
  assumes L: "uuid_laws L" and inv: "store_inv L (w_db w)" and load: "Order_Load L i w = (Inr ord, w')"
  shows "w_db w' = w_db w \<and> stream_types (w_db w) (OrderID_String L i) = status_types (o_status ord)
    \<and> o_status ord \<noteq> StatusNone \<and> o_changes ord = []"
proof -
  from uuid_laws.Load_Inr [OF L load inv] obtain es where same: "w_db w' = w_db w"
    and dec: "decode_rows L (rows_of (w_db w) (OrderID_String L i)) = Inr es"
    and re: "Rehydrate es = Inr ord" by blast
  have "map EventType es = stream_types (w_db w) (OrderID_String L i)"
    using decode_rows_types [OF dec] by (simp add: stream_types_def)
  moreover from this have "type_lifecycle (map EventType es)"
    using inv by (simp add: store_inv_def stream_types_def)
  ultimately show ?thesis
    using rehydrate_status [OF _ re] same re by (auto simp: Rehydrate_Inr zero_order_def)
qed

lemma saved_one_types:
  assumes L: "uuid_laws L" and sv: "saved_one L e v m d d'"
  shows "stream_types d' u =
    stream_types d u @ (if u = OrderID_String L (AggregateID e) then [EventType e] else [])"
proof -
  have pg: "pg_uuid L (OrderID_String L i) = Some (OrderID_String L i)" for i
    unfolding OrderID_String_def by (rule uuid_laws.pg_uuid_string [OF L])
  from sv pg obtain er where "encodeEvent L e = Inr (er_Type er, Some (er_Payload er))"
    "er_OrderID er = OrderID_String L (AggregateID e)" "t_events d' = t_events d @ [er]"
    unfolding saved_one_def by auto
  then show ?thesis using encode_type by (auto simp: stream_types_def rows_of_def)
qed

text \<open>One transition of the stored stream of \<open>oid\<close> to a terminal event, all other orders alone.\<close>

definition terminal_step :: "golib \<Rightarrow> OrderID \<Rightarrow> Status \<Rightarrow> order_db \<Rightarrow> order_db \<Rightarrow> bool" where
  "terminal_step L oid st d d' =
     (stream_types d (OrderID_String L oid) = status_types StatusPending
      \<and> stream_types d' (OrderID_String L oid) = status_types st
      \<and> (\<forall>u. u \<noteq> OrderID_String L oid \<longrightarrow> stream_types d' u = stream_types d u))"

lemma terminal_save:
  assumes L: "uuid_laws L" and inv: "store_inv L (w_db w)" and load: "Order_Load L oid w = (Inr agg0, w1)"
    and pend: "o_status agg0 = StatusPending" and agg: "agg = raise_event agg0 e"
    and e: "e = OrderConfirmed oid now \<and> st = StatusConfirmed \<or> e = OrderCancelled oid rsn now \<and> st = StatusCancelled"
    and sv: "Order_Save L C agg (o_version agg - of_nat (length (o_changes agg)))
               (inject_all C (lifecycleOutbox L (o_changes agg))) w1 = (r, w')"
  shows "store_inv L (w_db w') \<and> (w_db w' = w_db w \<and> (\<exists>err. r = Inl err) \<or> terminal_step L oid st (w_db w) (w_db w'))"
proof -
  note lp = uuid_laws.Load_pending [OF L load inv pend]
  have same: "w_db w1 = w_db w" using lp by simp
  have ch: "o_changes agg = [e]" using lp agg by simp
  have "Confirm agg0 now = Inr agg \<or> Cancel agg0 rsn now = Inr agg"
    using e agg pend lp by (auto simp: Confirm_Inr Cancel_Inr)
  from uuid_laws.terminal_flight_ok [OF L load inv this] ch obtain m where
    m: "inject_all C (lifecycleOutbox L (o_changes agg)) = [m]"
    and may: "may_save L (w_db w) e (o_version agg - of_nat (length (o_changes agg))) m"
    by (auto simp: flight_ok_def)
  from Save_one [OF sv [unfolded m] ch] same
  consider "w_db w' = w_db w" "\<exists>err. r = Inl err"
    | "saved_one L e (o_version agg - of_nat (length (o_changes agg))) m (w_db w) (w_db w')" by auto
  then show ?thesis
  proof cases
    case 1 with inv show ?thesis by simp
  next
    case 2
    have "AggregateID e = oid" and "status_types st = [TypeOrderPlaced, EventType e]"
      using e by (auto simp: TypeOrderConfirmed_def TypeOrderCancelled_def)
    then have "terminal_step L oid st (w_db w) (w_db w')"
      using Load_status [OF L inv load] pend saved_one_types [OF L 2]
      by (simp add: terminal_step_def)
    with uuid_laws.store_inv_saved [OF L inv 2 may] show ?thesis by simp
  qed
qed

definition confirm_spec :: "golib \<Rightarrow> Status \<Rightarrow> string \<Rightarrow> oerr + unit \<Rightarrow> order_db \<Rightarrow> order_db \<Rightarrow> bool" where
  "confirm_spec L st s r d d' =
     ((d' = d \<or> (\<exists>oid. ParseOrderID L s = Inr oid \<and> terminal_step L oid st d d'))
      \<and> (r = Inr () \<longrightarrow> (\<exists>oid. ParseOrderID L s = Inr oid
           \<and> stream_types d' (OrderID_String L oid) = status_types st)))"

lemma wrap_err_result: "wrap_err p m w = (r, w') \<Longrightarrow> \<exists>r0. m w = (r0, w') \<and> (r = Inr x \<longrightarrow> r0 = Inr x)"
  by (auto simp: map_err_def split: prod.splits sum.splits)

text \<open>A terminal command: \<open>decide\<close> is Confirm or Cancel on the loaded aggregate.\<close>

lemma terminal_handle:
  assumes L: "uuid_laws L" and inv: "store_inv L (w_db w)"
    and decide: "\<And>agg agg'. decide agg = Inr agg' \<Longrightarrow>
       o_status agg = st \<and> agg' = agg \<or> o_status agg = StatusPending \<and> agg' = raise_event agg (ev (o_id agg))"
    and ev: "\<And>oid. ev oid = OrderConfirmed oid now \<and> st = StatusConfirmed
       \<or> ev oid = OrderCancelled oid rsn now \<and> st = StatusCancelled"
    and run: "and_then (of_result (ParseOrderID L s)) (\<lambda>oid.
     and_then (Order_Load L oid) (\<lambda>agg.
     and_then (of_result (decide agg)) (\<lambda>agg.
       let changes = o_changes agg in
       if changes = [] then ok ()
       else
         let outbox = inject_all C (lifecycleOutbox L changes);
             expected = o_version agg - of_nat (length changes) in
         wrap_err msg (Order_Save L C agg expected outbox)))) w = (r, w')"
  shows "store_inv L (w_db w') \<and> confirm_spec L st s r (w_db w) (w_db w')"
proof (cases "ParseOrderID L s")
  case (Inl err)
  with run inv show ?thesis
    by (auto simp: and_then_def of_result_def confirm_spec_def)
next
  case (Inr oid)
  obtain r1 w1 where load: "Order_Load L oid w = (r1, w1)" by fastforce
  note same = Load_Inl_db [OF load]
  show ?thesis
  proof (cases r1)
    case (Inl err)
    with run Inr load same inv show ?thesis
      by (auto simp: and_then_def of_result_def confirm_spec_def)
  next
    case agg0: (Inr agg0)
    note ls = Load_status [OF L inv load [unfolded agg0]]
    show ?thesis
    proof (cases "decide agg0")
      case (Inl err)
      with run Inr agg0 load same inv show ?thesis
        by (auto simp: and_then_def of_result_def confirm_spec_def)
    next
      case agg: (Inr agg)
      show ?thesis
      proof (cases "o_changes agg = []")
        case True
        then have "o_status agg0 = st" using decide [OF agg] by auto
        with run Inr agg0 agg True load ls inv show ?thesis
          by (auto simp: and_then_def of_result_def confirm_spec_def ok_def)
      next
        case False
        then have pend: "o_status agg0 = StatusPending" and ag: "agg = raise_event agg0 (ev (o_id agg0))"
          using decide [OF agg] ls by auto
        have id: "o_id agg0 = oid"
          using uuid_laws.Load_pending [OF L load [unfolded agg0] inv pend] by simp
        from run Inr agg0 agg False load
        have "wrap_err msg (Order_Save L C agg (o_version agg - of_nat (length (o_changes agg)))
               (inject_all C (lifecycleOutbox L (o_changes agg)))) w1 = (r, w')"
          by (simp add: and_then_def of_result_def Let_def)
        from wrap_err_result [OF this] obtain r0 where
          sv: "Order_Save L C agg (o_version agg - of_nat (length (o_changes agg)))
               (inject_all C (lifecycleOutbox L (o_changes agg))) w1 = (r0, w')"
          and r0: "r = Inr () \<longrightarrow> r0 = Inr ()" by blast
        have "store_inv L (w_db w') \<and> (w_db w' = w_db w \<and> (\<exists>err. r0 = Inl err)
            \<or> terminal_step L oid st (w_db w) (w_db w'))"
          using terminal_save [OF L inv load [unfolded agg0] pend ag _ sv] ev [of oid] id by simp
        with r0 Inr show ?thesis
          by (auto simp: confirm_spec_def terminal_step_def)
      qed
    qed
  qed
qed

lemma Confirm_Handle_spec:
  assumes "uuid_laws L" and "store_inv L (w_db w)" and "Confirm_Handle L C now s w = (r, w')"
  shows "store_inv L (w_db w') \<and> confirm_spec L StatusConfirmed s r (w_db w) (w_db w')"
  by (rule terminal_handle [OF assms(1,2), of "\<lambda>a. Confirm a now" _ "\<lambda>i. OrderConfirmed i now"])
    (use assms(3) in \<open>auto simp: Confirm_Inr Confirm_Handle_def\<close>)

lemma Cancel_Handle_spec:
  assumes "uuid_laws L" and "store_inv L (w_db w)" and "Cancel_Handle L C now s reason w = (r, w')"
  shows "store_inv L (w_db w') \<and> confirm_spec L StatusCancelled s r (w_db w) (w_db w')"
  by (rule terminal_handle [OF assms(1,2), of "\<lambda>a. Cancel a reason now" _ "\<lambda>i. OrderCancelled i reason now"])
    (use assms(3) in \<open>auto simp: Cancel_Inr Cancel_Handle_def\<close>)

text \<open>C3. Confirming and cancelling refine one abstract transition: whatever faults occur, the
  handler leaves the store alone or appends exactly its terminal event to the pending stream of
  exactly the order it was asked for, and when it answers without an error the stream of that
  order is the confirmed (cancelled) one.\<close>

theorem terminal_commands_refine:
  assumes "uuid_laws L" and "store_inv L (w_db w)"
  shows "(let (r, w') = Confirm_Handle L C now s w
          in store_inv L (w_db w') \<and> confirm_spec L StatusConfirmed s r (w_db w) (w_db w'))
    \<and> (let (r, w') = Cancel_Handle L C now s reason w
          in store_inv L (w_db w') \<and> confirm_spec L StatusCancelled s r (w_db w) (w_db w'))"
  using Confirm_Handle_spec [OF assms] Cancel_Handle_spec [OF assms] by (auto split: prod.split)

end
