(* ===== verification/Saga_World.thy ===== *)
theory Saga_World
  imports Saga_Safety Inventory_Quiet Order_Terminal
begin

text \<open>
  The orchestrator as services/order/cmd/orchestrator/main.go wires it: the inventory client over
  HTTP to the router of the inventory service, the confirm and cancel handlers and the saga table
  in the order database, and a payment gateway. Beside the faults of the two databases, a call to
  the inventory service can get lost on the way there or on the way back. Nobody else writes to
  the two stores during a run.
\<close>

section \<open>The services together\<close>

record saga_world =
  sw_order :: "order_db world"
  sw_inv :: inv_world
  sw_net :: "fault list"

definition on_order :: "'a order_act \<Rightarrow> (saga_world, order_sentinel, 'a) prog" where
  "on_order m w = (case m (sw_order w) of (r, d) \<Rightarrow> (r, w\<lparr>sw_order := d\<rparr>))"

text \<open>A request to the server of the inventory service; a handler that panics closes the connection.\<close>

definition http_call :: "inv_world handler \<Rightarrow> saga_world transport" where
  "http_call server rq w =
     (let (f, net) = (case sw_net w of [] \<Rightarrow> (Fine, []) | f # fs \<Rightarrow> (f, fs));
          (reply, i) = server empty_rctx rq (sw_inv w);
          answered = w\<lparr>sw_inv := i, sw_net := net\<rparr> in
      (case f of
         Failed \<Rightarrow> (NoReply, w\<lparr>sw_net := net\<rparr>)
       | ReplyLost \<Rightarrow> (NoReply, answered)
       | Fine \<Rightarrow> (case reply of None \<Rightarrow> NoReply | Some rp \<Rightarrow> Reply rp, answered)))"

definition orderController_Confirm :: "golib \<Rightarrow> ctx \<Rightarrow> time \<Rightarrow> string \<Rightarrow> (saga_world, order_sentinel, unit) prog" where
  "orderController_Confirm L C now orderID = on_order (Confirm_Handle L C now orderID)"

definition orderController_Cancel ::
  "golib \<Rightarrow> ctx \<Rightarrow> time \<Rightarrow> string \<Rightarrow> string \<Rightarrow> (saga_world, order_sentinel, unit) prog" where
  "orderController_Cancel L C now orderID reason = on_order (Cancel_Handle L C now orderID reason)"

definition orchestrator_ports ::
  "golib \<Rightarrow> ctx \<Rightarrow> time \<Rightarrow> inv_world handler \<Rightarrow> (PaymentRequest \<Rightarrow> (saga_world, order_sentinel, PaymentResult) prog)
   \<Rightarrow> saga_world ports" where
  "orchestrator_ports L C now server pay =
     \<lparr>po_Reserve = Client_Reserve (http_call server) C, po_Release = Client_Release (http_call server) C,
      po_Commit = Client_Commit (http_call server) C, po_Authorize = pay,
      po_Confirm = orderController_Confirm L C now, po_Cancel = orderController_Cancel L C now,
      po_Load = (\<lambda>orderID. on_order (Saga_Load L orderID)),
      po_Save = (\<lambda>inst. on_order (Saga_Save L inst))\<rparr>"

section \<open>Requests to the inventory service\<close>

lemma split_segment: "CHR ''/'' \<notin> set s \<Longrightarrow> split_path (s @ CHR ''/'' # t) = s # split_path t"
  by (induction s) auto

lemma split_last: "CHR ''/'' \<notin> set s \<Longrightarrow> split_path s = [s]"
  by (induction s) auto

text \<open>The inventory service without authentication; its identifiers and probes leave the store alone.\<close>

record inv_server =
  is_text :: "ierr \<Rightarrow> string"
  is_verify :: jwt
  is_auth :: AuthConfig
  is_cors :: "string list"
  is_fresh :: "inv_world \<Rightarrow> string \<times> inv_world"
  is_ping :: "inv_world \<Rightarrow> bool \<times> inv_world"

definition serve :: "golib \<Rightarrow> inv_server \<Rightarrow> inv_world handler" where
  "serve L S = Inventory_Router L (is_text S) (is_verify S) (is_auth S) (is_cors S) (is_fresh S) (is_ping S)"

definition open_server :: "inv_server \<Rightarrow> bool" where
  "open_server S \<longleftrightarrow> \<not> au_Enabled (is_auth S)
     \<and> (\<forall>w. w_db (snd (is_fresh S w)) = w_db w \<and> w_env (snd (is_fresh S w)) = w_env w)"

text \<open>A reply up to its headers.\<close>

definition replies :: "response option \<Rightarrow> response \<Rightarrow> bool" where
  "replies reply rp \<longleftrightarrow> (\<exists>hs. reply = Some (rp\<lparr>rp_Headers := hs\<rparr>))"

lemma serve_route:
  assumes S: "open_server S" and m: "rq_Method rq \<noteq> ''OPTIONS''"
    and route: "find_route (inv_routes L (is_text S) (is_verify S) (is_auth S) (is_ping S)) rq = Some (ro, vs)"
    and h: "ro_Handler ro = authMiddleware (is_verify S) (is_auth S) h"
    and out: "\<And>cx w rp w'. cx_path cx = vs \<Longrightarrow> h cx rq w = (rp, w') \<Longrightarrow> rp \<noteq> None"
  obtains cx w1 rp w' where "cx_path cx = vs" "w_db w1 = w_db w" "w_env w1 = w_env w"
    "h cx rq w1 = (Some rp, w')" "\<exists>reply. serve L S empty_rctx rq w = (reply, w') \<and> replies reply rp"
    "w1 = w \<or> w1 = snd (is_fresh S w)"
proof -
  let ?i = "Header_Get (rq_Headers rq) ''X-Correlation-Id''"
  obtain i w1 where i: "(if ?i = [] then is_fresh S w else (?i, w)) = (i, w1)" by fastforce
  have same: "w_db w1 = w_db w" "w_env w1 = w_env w"
    using i S unfolding open_server_def by (auto split: if_splits dest!: sym [of _ "(i, w1)"])
      (metis snd_conv)+
  have from_w: "w1 = w \<or> w1 = snd (is_fresh S w)" using i by (metis prod.inject snd_conv)
  let ?cx = "empty_rctx\<lparr>cx_correlation := Some i, cx_path := vs, cx_pattern := ro_Pattern ro\<rparr>"
  obtain rp w' where run: "h ?cx rq w1 = (Some rp, w')"
    using out [of ?cx w1] by (cases "h ?cx rq w1") auto
  have "ServeMux (inv_routes L (is_text S) (is_verify S) (is_auth S) (is_ping S)) (empty_rctx\<lparr>cx_correlation := Some i\<rparr>) rq w1
      = (Some rp, w')"
    using route h run S by (simp add: ServeMux_def authMiddleware_def open_server_def)
  then have "\<exists>reply. serve L S empty_rctx rq w = (reply, w') \<and> replies reply rp"
    using m i by (auto simp: serve_def Inventory_Router_def chain_def corsMiddleware_def correlationMiddleware_def
        recoveryMiddleware_def loggingMiddleware_def metricsMiddleware_def replies_def Let_def)
  with same run from_w show thesis by (intro that [of ?cx w1 rp w']) simp_all
qed

lemma http_call_cases:
  assumes "http_call server rq w = (res, w')"
  obtains (lost) "res = NoReply" "sw_inv w' = sw_inv w" "sw_order w' = sw_order w"
  | (served) reply where "server empty_rctx rq (sw_inv w) = (reply, sw_inv w')" "sw_order w' = sw_order w"
      "res = NoReply \<or> (\<exists>rp. reply = Some rp \<and> res = Reply rp)"
  using assms unfolding http_call_def Let_def
  by (auto split: prod.splits fault.splits option.splits list.splits)

text \<open>What a handler of the inventory service answers, up to headers, for the result of its use case.\<close>

definition inv_answer :: "inv_server \<Rightarrow> rctx \<Rightarrow> ('a \<Rightarrow> response) \<Rightarrow> ierr + 'a \<Rightarrow> response" where
  "inv_answer S cx f r = (case r of Inl err \<Rightarrow> writeError (classify_inv (is_text S)) cx err | Inr a \<Rightarrow> f a)"

lemma respond_answer:
  "respond_inv (is_text S) cx f act w = (case act w of (r, w') \<Rightarrow> (Some (inv_answer S cx f r), w'))"
  by (auto simp: respond_inv_def inv_answer_def split: prod.split sum.split)

lemma envelope_of_answer:
  "rp_Status (inv_answer S cx f (Inl err)) = fst (classify_inv (is_text S) err)
   \<and> read_envelope (rp_Body (inv_answer S cx f (Inl err))) =
       \<lparr>ee_Code = fst (snd (classify_inv (is_text S) err)),
        ee_Message = (if 500 \<le> fst (classify_inv (is_text S) err) then ''an internal error occurred''
                      else snd (snd (classify_inv (is_text S) err)))\<rparr>"
  by (simp add: inv_answer_def writeError_def writeJSON_def read_error_envelope split: prod.split)

text \<open>A call of the client: lost, or carried out by the use case behind the route.\<close>

lemma client_do_served:
  assumes S: "open_server S" and rq: "rq = client_request C ''POST'' path b"
    and route: "find_route (inv_routes L (is_text S) (is_verify S) (is_auth S) (is_ping S)) rq = Some (ro, vs)"
    and h: "ro_Handler ro = authMiddleware (is_verify S) (is_auth S) h"
    and act: "\<forall>cx. cx_path cx = vs \<longrightarrow> h cx rq = respond_inv (is_text S) cx f act"
    and run: "client_do (http_call (serve L S)) C ''POST'' path b w = (r, w')"
  obtains (lost) e where "r = Inl (Wrapf e (Foreign ''http''))" "sw_inv w' = sw_inv w" "sw_order w' = sw_order w"
  | (served) w1 res where "w_db w1 = w_db (sw_inv w)" "w_env w1 = w_env (sw_inv w)" "act w1 = (res, sw_inv w')"
      "sw_order w' = sw_order w" "(\<exists>e. r = Inl (Wrapf e (Foreign ''http''))) \<or>
         (\<exists>cx. r = Inr (rp_Status (inv_answer S cx f res), read_envelope (rp_Body (inv_answer S cx f res))))"
proof -
  obtain res0 w0 where call: "http_call (serve L S) rq w = (res0, w0)" by fastforce
  have r: "w' = w0" "r = (case res0 of NoReply \<Rightarrow> Inl (Wrapf ''call inventory'' (Foreign ''http''))
      | Unreadable n \<Rightarrow> Inl (Wrapf ''read inventory response'' (Foreign ''http''))
      | Reply rp \<Rightarrow> Inr (rp_Status rp, read_envelope (rp_Body rp)))"
    using run call by (auto simp: client_do_def rq split: http_result.splits)
  from call show thesis
  proof (cases rule: http_call_cases)
    case lost
    then show thesis using r that(1) by simp
  next
    case (served reply)
    have m: "rq_Method rq \<noteq> ''OPTIONS''" by (simp add: rq client_request_def)
    have some: "rp \<noteq> None" if "cx_path cx = vs" "h cx rq w1 = (rp, w2)" for cx w1 rp w2
      using that act by (auto simp: respond_answer split: prod.splits)
    obtain cx w1 rp w2 where
      k: "cx_path cx = vs" "w_db w1 = w_db (sw_inv w)" "w_env w1 = w_env (sw_inv w)" "h cx rq w1 = (Some rp, w2)"
      "\<exists>reply. serve L S empty_rctx rq (sw_inv w) = (reply, w2) \<and> replies reply rp"
      "w1 = sw_inv w \<or> w1 = snd (is_fresh S (sw_inv w))"
      by (rule serve_route [OF S m route h some])
    have w2: "w2 = sw_inv w'" and rp: "replies reply rp" using k(5) served(1) r(1) by auto
    obtain res where a: "act w1 = (res, w2)" and ans: "rp = inv_answer S cx f res"
      using k(4) act k(1) by (auto simp: respond_answer split: prod.splits)
    show thesis
    proof (rule that(2) [of w1 res])
      show "(\<exists>e. r = Inl (Wrapf e (Foreign ''http''))) \<or>
         (\<exists>cx. r = Inr (rp_Status (inv_answer S cx f res), read_envelope (rp_Body (inv_answer S cx f res))))"
        using served(3) rp r(2) ans by (auto simp: replies_def)
    qed (use k a w2 served(2) r(1) in simp_all)
  qed
qed

section \<open>Release and commit\<close>

text \<open>An order id in the form uuid.String prints.\<close>

definition canonical :: "golib \<Rightarrow> string \<Rightarrow> bool" where
  "canonical L oid \<longleftrightarrow> (\<exists>u. oid = uuid_String L u)"

lemma canonical_facts:
  assumes L: "uuid_laws L" and oid: "canonical L oid"
  shows "pg_uuid L oid = Some oid" "oid \<noteq> []" "CHR ''/'' \<notin> set oid"
    "\<exists>i. ParseOrderID_inv L oid = Inr i \<and> OrderID_String_inv L i = oid"
    "\<exists>i. ParseOrderID L oid = Inr i \<and> OrderID_String L i = oid"
proof -
  from oid obtain u where "oid = uuid_String L u" by (auto simp: canonical_def)
  then show "pg_uuid L oid = Some oid" "oid \<noteq> []" "CHR ''/'' \<notin> set oid"
    "\<exists>i. ParseOrderID_inv L oid = Inr i \<and> OrderID_String_inv L i = oid"
    "\<exists>i. ParseOrderID L oid = Inr i \<and> OrderID_String L i = oid"
    using uuid_laws.pg_uuid_string [OF L] uuid_laws.string_nonempty [OF L] uuid_laws.string_segment [OF L]
      uuid_laws.string_trim [OF L] uuid_laws.parse_string [OF L]
    by (simp_all add: ParseOrderID_inv_def OrderID_String_inv_def ParseOrderID_def OrderID_String_def)
qed

definition action_of :: "ReservationStatus \<Rightarrow> string" where
  "action_of k = (if k = StatusReleased then ''release'' else ''commit'')"

definition settle_handler :: "golib \<Rightarrow> inv_server \<Rightarrow> ReservationStatus \<Rightarrow> inv_world handler" where
  "settle_handler L S k = (if k = StatusReleased then http_Release L (is_text S) else http_Commit L (is_text S))"

lemma transition_route:
  assumes "oid \<noteq> []" "CHR ''/'' \<notin> set oid" and k: "k = StatusReleased \<or> k = StatusCommitted"
  shows "\<exists>ro. find_route (inv_routes L et verify cfg ping)
      (client_request C ''POST'' (''/v1/reservations/'' @ oid @ ''/'' @ action_of k) b) = Some (ro, [(''orderId'', oid)])
    \<and> ro_Handler ro = authMiddleware verify cfg (if k = StatusReleased then http_Release L et else http_Commit L et)"
proof -
  have "path_of (client_request C ''POST'' (''/v1/reservations/'' @ oid @ ''/'' @ action_of k) b)
      = [''v1'', ''reservations'', oid, action_of k]"
    using k split_segment [OF assms(2)]
    by (auto simp: path_of_def client_request_def action_of_def split_last)
  then show ?thesis
    using assms by (auto simp: find_route_def inv_routes_def Let_def method_ok_def client_request_def action_of_def)
qed

lemma http_foreign: "\<not> errors_Is (Wrapf e (Foreign ''http'')) s"
  by simp

lemma INVALID_STATE_refused:
  "transition_outcome (rp_Status (inv_answer S cx f (Inl err)), read_envelope (rp_Body (inv_answer S cx f (Inl err)))) = Inr ()
   \<Longrightarrow> errors_Is err ErrInvalidTransition_inv"
  unfolding transition_outcome_def prod.case envelope_of_answer [THEN conjunct1] envelope_of_answer [THEN conjunct2]
  by (auto simp: classify_inv_def split: if_splits)

text \<open>A nil error of Release (Commit) means that the reservation was settled, this way or the other.\<close>

lemma settle_call:
  assumes L: "uuid_laws L" and S: "open_server S" and oid: "canonical L oid"
    and k: "k = StatusReleased \<or> k = StatusCommitted"
    and inv: "ledger_ok (w_db (sw_inv w))" "w_env (sw_inv w) = []"
    and run: "Client_transition (http_call (serve L S)) C oid (action_of k) w = (r, w')"
  shows "sw_order w' = sw_order w \<and> ledger_ok (w_db (sw_inv w')) \<and> w_env (sw_inv w') = []
    \<and> (w_db (sw_inv w') = w_db (sw_inv w) \<or> settled_by oid k (w_db (sw_inv w)) (w_db (sw_inv w')))
    \<and> (r = Inr () \<longrightarrow> status_of (w_db (sw_inv w')) oid = Some k \<or> refused oid k (w_db (sw_inv w')))"
proof -
  note oid_facts = canonical_facts [OF L oid]
  let ?path = "''/v1/reservations/'' @ oid @ ''/'' @ action_of k"
  let ?rq = "client_request C ''POST'' ?path None"
  let ?f = "\<lambda>res. writeJSON 200 (reservationResponse res)"
  obtain ro where ro: "find_route (inv_routes L (is_text S) (is_verify S) (is_auth S) (is_ping S)) ?rq = Some (ro, [(''orderId'', oid)])"
    "ro_Handler ro = authMiddleware (is_verify S) (is_auth S) (settle_handler L S k)"
    using transition_route [OF oid_facts(2,3) k] unfolding settle_handler_def by blast
  have "and_then (of_result (ParseOrderID_inv L oid)) (\<lambda>i. Inventory_transition L (OrderID_String_inv L i) k)
      = Inventory_transition L oid k"
    using oid_facts(4) by (auto simp: and_then_def of_result_def)
  then have act: "\<forall>cx. cx_path cx = [(''orderId'', oid)] \<longrightarrow>
      settle_handler L S k cx ?rq = respond_inv (is_text S) cx ?f (Inventory_transition L oid k)"
    using k by (auto simp: settle_handler_def http_Release_def http_Commit_def ReleaseReservation_Handle_def
        CommitReservation_Handle_def Inventory_Release_def Inventory_Commit_def PathValue_def)
  obtain r0 where do: "client_do (http_call (serve L S)) C ''POST'' ?path None w = (r0, w')"
    and r: "r = (case r0 of Inl e \<Rightarrow> Inl e | Inr p \<Rightarrow> transition_outcome p)"
    using run by (auto simp: Client_transition_def and_then_def of_result_def split: prod.splits sum.splits)
  show ?thesis
  proof (cases rule: client_do_served [OF S refl ro act do])
    case (1 e)
    then show ?thesis using inv r by auto
  next
    case served: (2 w1 res)
    have q: "w_env (sw_inv w') = []" "w_db (sw_inv w') = w_db (sw_inv w) \<or> settled_by oid k (w_db (sw_inv w)) (w_db (sw_inv w'))"
      using quietD [OF transition_quiet [OF oid_facts(1)] served(3)] served(1,2) inv by simp_all
    have ok: "ledger_ok (w_db (sw_inv w'))" using q(2) settled_by_status inv(1) by metis
    have "status_of (w_db (sw_inv w')) oid = Some k \<or> refused oid k (w_db (sw_inv w'))" if "r = Inr ()"
    proof -
      from that r served(5) obtain cx where
        out: "transition_outcome (rp_Status (inv_answer S cx ?f res), read_envelope (rp_Body (inv_answer S cx ?f res))) = Inr ()"
        by auto
      show ?thesis
      proof (cases res)
        case (Inl err)
        have "errors_Is err ErrInvalidTransition_inv" using INVALID_STATE_refused out unfolding Inl by blast
        with transition_refused [OF served(3) [unfolded Inl] _ _ _ oid_facts(1) k] served(1,2) inv
        show ?thesis by auto
      next
        case (Inr a)
        have "guarded {oid} {} (\<lambda>d. True) (Inventory_transition L oid k) (\<lambda>res. settled oid k)"
          by (rule Inventory_transition_guarded [OF oid_facts(1)]) simp_all
        moreover have "ledger_ok (w_db w1)" "relies {oid} w1" using served(1,2) inv by (simp_all add: relies_def)
        ultimately have "settled oid k (w_db (sw_inv w'))"
          using served(3) Inr unfolding guarded_def by blast
        then show ?thesis using status_of_settled [OF _ ok k] by blast
      qed
    qed
    then show ?thesis using q ok served(4) by blast
  qed
qed

section \<open>Reserve\<close>

definition input_line :: "ReserveLine \<Rightarrow> ReserveLineInput" where
  "input_line l = \<lparr>rli_SKU = rl_SKU l, rli_Quantity = rl_Quantity l\<rparr>"

text \<open>The body the client writes is the command the server reads.\<close>

lemma dec_enc_reserve_line:
  "dec_reserveLine (enc_reserve_line l) \<lparr>rli_SKU = [], rli_Quantity = 0\<rparr> = Some (input_line l)"
  by (simp add: dec_reserveLine_def dec_strict_def enc_reserve_line_def input_line_def dec_struct.simps lower_char_of)

lemma reserve_roundtrip:
  "json_Unmarshal dec_reserveRequest \<lparr>rsc_OrderID = [], rsc_Lines = []\<rparr> (Some (enc_reserve_request oid ls))
    = Some \<lparr>rsc_OrderID = oid, rsc_Lines = map input_line ls\<rparr>"
proof -
  have "dec_elems dec_reserveLine \<lparr>rli_SKU = [], rli_Quantity = 0\<rparr> (map enc_reserve_line ls) = Some (map input_line ls)"
    by (induction ls) (simp_all add: dec_enc_reserve_line)
  then show ?thesis
    by (simp add: json_Unmarshal_def dec_reserveRequest_def dec_strict_def enc_reserve_request_def lower_char_of)
qed

lemma reserve_route:
  "\<exists>ro. find_route (inv_routes L et verify cfg ping) (client_request C ''POST'' ''/v1/reservations'' b) = Some (ro, [])
    \<and> ro_Handler ro = authMiddleware verify cfg (http_Reserve L et)"
  by (simp add: find_route_def inv_routes_def Let_def method_ok_def client_request_def path_of_def)

text \<open>The lines inventory takes: at least one, every one well formed, no SKU twice.\<close>

definition reservable :: "ReserveLine list \<Rightarrow> bool" where
  "reservable ls \<longleftrightarrow> ls \<noteq> [] \<and> (\<exists>lns. validate_lines [] (map input_line ls) = Inr lns)"

lemma reserve_outcomes:
  "reserve_outcome (rp_Status (inv_answer S cx f (Inl err)), read_envelope (rp_Body (inv_answer S cx f (Inl err)))) \<noteq> Inr ()"
  "reserve_outcome (rp_Status (inv_answer S cx f (Inl err)), read_envelope (rp_Body (inv_answer S cx f (Inl err)))) = Inl e
   \<Longrightarrow> errors_Is e ErrReservationRejected \<Longrightarrow> \<not> foreign err"
  unfolding reserve_outcome_def prod.case envelope_of_answer [THEN conjunct1] envelope_of_answer [THEN conjunct2]
  by (auto simp: classify_inv_def foreign_def split: if_splits)

lemma reserve_accepted:
  "reserve_outcome (rp_Status (inv_answer S cx (\<lambda>res. writeJSON (if rt_Idempotent res then 200 else 201) (g res)) (Inr a)), env) = Inr ()"
  by (simp add: reserve_outcome_def inv_answer_def writeJSON_def)

lemma reserve_call:
  assumes L: "uuid_laws L" and S: "open_server S" and oid: "canonical L oid"
    and inv: "ledger_ok (w_db (sw_inv w))" "w_env (sw_inv w) = []"
    and lines: "status_of (w_db (sw_inv w)) oid \<noteq> None \<Longrightarrow> reservable ls"
    and run: "Client_Reserve (http_call (serve L S)) C oid ls w = (r, w')"
  shows "sw_order w' = sw_order w \<and> ledger_ok (w_db (sw_inv w')) \<and> w_env (sw_inv w') = []
    \<and> (w_db (sw_inv w') = w_db (sw_inv w) \<or> reservable ls \<and> placed oid (w_db (sw_inv w)) (w_db (sw_inv w')))
    \<and> (r = Inr () \<longrightarrow> status_of (w_db (sw_inv w')) oid \<noteq> None)
    \<and> (\<forall>e. r = Inl e \<and> errors_Is e ErrReservationRejected \<longrightarrow> status_of (w_db (sw_inv w')) oid = None)"
proof -
  note oid_facts = canonical_facts [OF L oid]
  let ?rq = "client_request C ''POST'' ''/v1/reservations'' (Some (enc_reserve_request oid ls))"
  let ?f = "\<lambda>res. writeJSON (if rt_Idempotent res then 200 else 201) (reservationResponse res)"
  let ?use = "ReserveStock_Handle L \<lparr>rsc_OrderID = oid, rsc_Lines = map input_line ls\<rparr>"
  obtain ro where ro: "find_route (inv_routes L (is_text S) (is_verify S) (is_auth S) (is_ping S)) ?rq = Some (ro, [])"
    "ro_Handler ro = authMiddleware (is_verify S) (is_auth S) (http_Reserve L (is_text S))"
    using reserve_route by blast
  have body: "decodeJSON_inv dec_reserveRequest \<lparr>rsc_OrderID = [], rsc_Lines = []\<rparr> ?rq
      = Inr \<lparr>rsc_OrderID = oid, rsc_Lines = map input_line ls\<rparr>"
    by (simp add: decodeJSON_inv_def client_request_def reserve_roundtrip)
  have act: "\<forall>cx. cx_path cx = [] \<longrightarrow> http_Reserve L (is_text S) cx ?rq = respond_inv (is_text S) cx ?f ?use"
    by (intro allI impI ext) (simp add: http_Reserve_def body respond_inv_def and_then_def of_result_def)
  obtain r0 where do: "client_do (http_call (serve L S)) C ''POST'' ''/v1/reservations''
        (Some (enc_reserve_request oid ls)) w = (r0, w')"
    and r: "r = (case r0 of Inl e \<Rightarrow> Inl e | Inr p \<Rightarrow> reserve_outcome p)"
    using run by (auto simp: Client_Reserve_def and_then_def of_result_def split: prod.splits sum.splits)
  show ?thesis
  proof (cases rule: client_do_served [OF S refl ro act do])
    case (1 e)
    then show ?thesis using inv r by auto
  next
    case served: (2 w1 res)
    have rejected: "\<exists>err. res = Inl err \<and> \<not> foreign err" if "r = Inl e" "errors_Is e ErrReservationRejected" for e
    proof -
      from that r served(5) obtain cx where
        out: "reserve_outcome (rp_Status (inv_answer S cx ?f res), read_envelope (rp_Body (inv_answer S cx ?f res))) = Inl e"
        by auto
      show ?thesis
      proof (cases res)
        case (Inl err)
        then show ?thesis using reserve_outcomes(2) [OF out [unfolded Inl] that(2)] by blast
      next
        case (Inr a)
        then show ?thesis using out [unfolded Inr reserve_accepted] by simp
      qed
    qed
    have accepted: "\<exists>a. res = Inr a" if "r = Inr ()"
    proof (cases res)
      case (Inl err)
      from that r served(5) obtain cx where
        out: "reserve_outcome (rp_Status (inv_answer S cx ?f res), read_envelope (rp_Body (inv_answer S cx ?f res))) = Inr ()"
        by auto
      show ?thesis by (rule notE [OF reserve_outcomes(1) out [unfolded Inl]])
    qed simp
    obtain i where i: "ParseOrderID_inv L oid = Inr i" "OrderID_String_inv L i = oid" using oid_facts(4) by blast
    show ?thesis
    proof (cases "reservable ls")
      case True
      then obtain lns where lns: "validate_lines [] (map input_line ls) = Inr lns" "ls \<noteq> []"
        by (auto simp: reservable_def)
      then have use: "Inventory_Reserve L oid lns w1 = (res, sw_inv w')"
        using served(3) i by (simp add: ReserveStock_Handle_def and_then_def of_result_def)
      note t = validate_lines_trimmed [OF lns(1)]
      from quietD [OF Reserve_quiet [OF L oid_facts(1) t] use] served(1,2) inv
      have q: "w_env (sw_inv w') = []" "w_db (sw_inv w') = w_db (sw_inv w) \<or> placed oid (w_db (sw_inv w)) (w_db (sw_inv w'))"
        "\<And>e. res = Inl e \<Longrightarrow> \<not> foreign e \<Longrightarrow> w_db (sw_inv w') = w_db (sw_inv w)"
        by auto
      have ok: "ledger_ok (w_db (sw_inv w'))" using q(2) placed_status inv(1) by metis
      have "status_of (w_db (sw_inv w')) oid \<noteq> None" if acc: "r = Inr ()"
      proof -
        obtain a where "res = Inr a" using accepted [OF acc] by blast
        moreover have "guarded {} {} (\<lambda>d. True) (Inventory_Reserve L oid lns) (\<lambda>res. present oid (rt_ReservationID res))"
          by (rule Inventory_Reserve_guarded [OF L oid_facts(1) t])
        moreover have "ledger_ok (w_db w1)" "relies {} w1" using served(1,2) inv by (simp_all add: relies_def)
        ultimately have "present oid (rt_ReservationID a) (w_db (sw_inv w'))"
          using use unfolding guarded_def by blast
        then show ?thesis by (rule status_of_present)
      qed
      moreover have "status_of (w_db (sw_inv w')) oid = None" if rj: "r = Inl e" "errors_Is e ErrReservationRejected" for e
      proof (rule ccontr)
        obtain err where err: "res = Inl err" "\<not> foreign err" using rejected [OF rj] by blast
        assume "\<not> ?thesis"
        then have "status_of (w_db w1) oid \<noteq> None" using q(3) [OF err] served(1) by simp
        then obtain j where "present oid j (w_db w1)" using present_of_status by blast
        with Reserve_present [OF use [unfolded err(1)] _ oid_facts(1)] served(2) inv err(2) show False by simp
      qed
      ultimately show ?thesis using q(1,2) ok served(4) True by blast
    next
      case False
      then have none: "status_of (w_db (sw_inv w)) oid = None" using lines by blast
      have "sw_inv w' = w1 \<and> (\<exists>e. res = Inl e)"
        using served(3) i False
        by (auto simp: ReserveStock_Handle_def and_then_def of_result_def fail_def reservable_def
            split: if_splits sum.splits)
      then show ?thesis using none inv served(1,2,4) accepted by auto
    qed
  qed
qed

end
