(* ===== verification/Order_Calm.thy ===== *)
theory Order_Calm
  imports Order_Terminal
begin

text \<open>
  Runs without faults, computed in closed form: what a save writes, what a placement answers and
  stores, and what a replay of its idempotency key gives, also when the first attempt failed
  after the key was taken. The sample run at the end is the input of the witnesses.
\<close>

section \<open>A save\<close>

definition event_row :: "golib \<Rightarrow> ctx \<Rightarrow> nat \<Rightarrow> DomainEvent \<Rightarrow> int64 \<Rightarrow> json \<Rightarrow> EventRow" where
  "event_row L C k e v j =
     \<lparr>er_EventID = uuid_String L (uuid_New L k), er_OrderID = OrderID_String L (AggregateID e),
      er_Version = v, er_Type = EventType e, er_Payload = j, er_OccurredAt = pg_timestamp (OccurredAt e),
      er_TraceID = ctx_traceID C\<rparr>"

definition message_row :: "golib \<Rightarrow> ctx \<Rightarrow> nat \<Rightarrow> OutboxMessage \<Rightarrow> nat \<Rightarrow> json \<Rightarrow> OutboxRow" where
  "message_row L C k m n j =
     \<lparr>ob_ID = of_nat n + 1, ob_EventID = uuid_String L (uuid_New L k), ob_AggregateID = om_AggregateID m,
      ob_Topic = om_Topic m, ob_Type = om_EventType m, ob_Payload = j,
      ob_Headers = enc_headers (om_Headers m), ob_TraceID = ctx_traceID C, ob_Published = False\<rparr>"

definition fresh_event :: "golib \<Rightarrow> order_db \<Rightarrow> nat \<Rightarrow> bool" where
  "fresh_event L d k =
     ((\<forall>r \<in> set (t_events d). er_EventID r \<noteq> uuid_String L (uuid_New L k))
      \<and> (\<forall>r \<in> set (t_outbox d). ob_EventID r \<noteq> uuid_String L (uuid_New L (k + 1))))"

definition saved_world :: "golib \<Rightarrow> ctx \<Rightarrow> DomainEvent \<Rightarrow> int64 \<Rightarrow> json \<Rightarrow> OutboxMessage \<Rightarrow> json
    \<Rightarrow> order_db world \<Rightarrow> order_db world" where
  "saved_world L C e v j m jm w =
     w\<lparr>w_uuids := w_uuids w + 2,
       w_db := (w_db w)\<lparr>t_events := t_events (w_db w) @ [event_row L C (w_uuids w) e v j],
                        t_outbox := t_outbox (w_db w) @
                          [message_row L C (w_uuids w + 1) m (length (t_outbox (w_db w))) jm]\<rparr>\<rparr>"

lemma EventType_text [simp]: "pg_text (EventType e)"
  by (cases e) simp_all

lemma Order_Save_calm:
  assumes L: "uuid_laws L" and calm: "w_faults w = []" and ch: "o_changes agg = [e]"
    and enc: "encodeEvent L e = Inr (EventType e, Some j)" and j: "pg_json j" and tr: "pg_text (ctx_traceID C)"
    and free: "\<not> taken (w_db w) (OrderID_String L (AggregateID e)) (v + 1)"
    and fresh: "fresh_event L (w_db w) (w_uuids w)"
    and m: "om_EventID m = []" "om_AggregateID m = OrderID_String L (AggregateID e)"
      "om_Payload m = Some jm" "pg_json jm" "pg_text (om_Topic m)" "pg_text (om_EventType m)"
      "pg_json (enc_headers (om_Headers m))"
  shows "Order_Save L C agg v [m] w = (Inr (), saved_world L C e (v + 1) j m jm w)"
proof -
  note pg = uuid_laws.pg_uuid_string [OF L]
  have pgo: "pg_uuid L (OrderID_String L i) = Some (OrderID_String L i)" for i
    unfolding OrderID_String_def by (rule pg)
  let ?w1 = "w\<lparr>w_uuids := w_uuids w + 1,
       w_db := (w_db w)\<lparr>t_events := t_events (w_db w) @ [event_row L C (w_uuids w) e (v + 1) j]\<rparr>\<rparr>"
  have "insert_event L (uuid_String L (uuid_New L (w_uuids w))) (OrderID_String L (AggregateID e)) (v + 1)
      (EventType e) (Some j) (OccurredAt e) (ctx_traceID C) (w_db w)
      = Inr ((), (w_db w)\<lparr>t_events := t_events (w_db w) @ [event_row L C (w_uuids w) e (v + 1) j]\<rparr>)"
    using j tr free fresh pg pgo
    by (auto simp: insert_event_def with_uuid_def pg_reject_def list_ex_iff taken_def fresh_event_def
        event_row_def)
  then have ev: "Save_event L C v (0, e) w = (Inr (), ?w1)"
    using calm by (simp add: Save_event_run [OF enc] map_err_def db_stmt_calm)
  have "insert_outbox L (uuid_String L (uuid_New L (w_uuids w + 1))) m (ctx_traceID C) (w_db ?w1)
      = Inr ((), (w_db ?w1)\<lparr>t_outbox := t_outbox (w_db w) @
              [message_row L C (w_uuids w + 1) m (length (t_outbox (w_db w))) jm]\<rparr>)"
    using m tr fresh pg pgo
    by (auto simp: insert_outbox_def with_uuid_def pg_reject_def list_ex_iff fresh_event_def
        message_row_def)
  then have ms: "Save_message L C m ?w1 = (Inr (), saved_world L C e (v + 1) j m jm w)"
    using calm m(1) by (simp add: Save_message_def and_then_def new_uuid_def ok_def map_err_def
        db_stmt_calm saved_world_def)
  show ?thesis
    using calm ch ev ms
    by (simp add: Order_Save_def pgx_tx_def and_then_def ok_def saved_world_def enumerate_eq_zip)
qed

section \<open>A placement\<close>

text \<open>The texts of an order that JSONB takes.\<close>

definition placed_text :: "OrderPlacedEvent \<Rightarrow> bool" where
  "placed_text e =
     (list_all (\<lambda>it. pg_text (sku_value (li_SKU it)) \<and> pg_text (Currency (li_UnitPrice it))) (pe_Items e)
      \<and> list_all pg_text [Line1 (pe_ShipTo e), Line2 (pe_ShipTo e), City (pe_ShipTo e),
           Region (pe_ShipTo e), PostalCode (pe_ShipTo e), Country (pe_ShipTo e)]
      \<and> pg_text (Currency (pe_Total e)))"

lemma placed_json:
  assumes L: "uuid_laws L" and t: "placed_text e"
  shows "pg_json (enc_storedPlaced (stored_of_placed L e))"
    and "\<exists>jm. Marshal_OrderPlaced (placed_contract L e) = Some jm \<and> pg_json jm"
proof -
  note s = uuid_laws.string_text [OF L]
  show "pg_json (enc_storedPlaced (stored_of_placed L e))"
    using t by (auto simp: placed_text_def enc_storedPlaced_def stored_of_placed_def
        enc_storedLine_def stored_of_line_def enc_storedAddress_def enc_time_def enc_int64_def
        enc_int32_def OrderID_String_def CustomerID_String_def s list_all_iff)
  show "\<exists>jm. Marshal_OrderPlaced (placed_contract L e) = Some jm \<and> pg_json jm"
    using t by (auto simp: placed_text_def Marshal_OrderPlaced_def placed_contract_def
        enc_line_def wire_line_def enc_address_def enc_int64_def
        enc_int32_def OrderID_String_def CustomerID_String_def s list_all_iff)
qed

lemma Reserve_new:
  assumes "uuid_laws L" "w_faults w = []" "map_of (t_idem (w_db w)) key = None" "pg_text key"
  shows "Idempotency_Reserve L key (OrderID_String L i) w =
    (Inr ([], False), w\<lparr>w_db := (w_db w)\<lparr>t_idem := t_idem (w_db w) @ [(key, OrderID_String L i)]\<rparr>\<rparr>)"
  using assms uuid_laws.pg_uuid_string [OF assms(1)]
  by (simp add: Idempotency_Reserve_def and_then_def map_err_def db_stmt_calm insert_key_def
      with_uuid_def pg_reject_def ok_def OrderID_String_def)

lemma Reserve_known:
  assumes "uuid_laws L" "w_faults w = []" "map_of (t_idem (w_db w)) key = Some x" "pg_text key"
  shows "Idempotency_Reserve L key (OrderID_String L i) w = (Inr (x, True), w)"
  using assms uuid_laws.pg_uuid_string [OF assms(1)]
  by (simp add: Idempotency_Reserve_def and_then_def map_err_def db_stmt_calm insert_key_def
      with_uuid_def pg_reject_def ok_def OrderID_String_def)

text \<open>A command whose fields are valid one by one.\<close>

definition valid_cmd :: "golib \<Rightarrow> PlaceOrderCommand \<Rightarrow> IdempotencyKey \<Rightarrow> CustomerID \<Rightarrow> LineItem list \<Rightarrow> Address \<Rightarrow> bool"
where
  "valid_cmd L cmd key c items a =
     (NewIdempotencyKey (pc_IdempotencyKey cmd) = Inr key \<and> ParseCustomerID L (pc_CustomerID cmd) = Inr c
      \<and> buildLineItems L (pc_Lines cmd) = Inr items
      \<and> NewAddress L (sh_Line1 (pc_Ship cmd)) (sh_Line2 (pc_Ship cmd)) (sh_City (pc_Ship cmd))
          (sh_Region (pc_Ship cmd)) (sh_PostalCode (pc_Ship cmd)) (sh_Country (pc_Ship cmd)) = Inr a
      \<and> pg_text (key_value key))"

definition replay_of :: "string \<Rightarrow> PlaceOrderResult" where
  "replay_of u = \<lparr>rs_OrderID = u, rs_Status = ''PENDING'', rs_Idempotent = True\<rparr>"

lemma replay_run:
  assumes "uuid_laws L" and "valid_cmd L cmd key c items a" and "w_faults w = []"
    and "map_of (t_idem (w_db w)) (key_value key) = Some u"
  shows "PlaceOrder_Handle L C now cmd w = (Inr (replay_of u), w\<lparr>w_uuids := w_uuids w + 1\<rparr>)"
  using assms Reserve_known [OF assms(1), of "w\<lparr>w_uuids := w_uuids w + 1\<rparr>" "key_value key" u]
  by (simp add: valid_cmd_def PlaceOrder_Handle_def and_then_def of_result_def new_uuid_def
      map_err_def ok_def replay_of_def Let_def)

text \<open>C10. A replayed idempotency key answers with the order id stored for it and changes nothing in
  the database: a retried submission never creates a second order.\<close>

theorem replay_returns_original:
  assumes "uuid_laws L" and "valid_cmd L cmd key c items a" and "w_faults w = []"
    and "map_of (t_idem (w_db w)) (key_value key) = Some u"
  shows "PlaceOrder_Handle L C now cmd w = (Inr (replay_of u), w\<lparr>w_uuids := w_uuids w + 1\<rparr>)"
  using assms by (rule replay_run)

text \<open>What a placement stores.\<close>

definition key_world :: "golib \<Rightarrow> IdempotencyKey \<Rightarrow> order_db world \<Rightarrow> order_db world" where
  "key_world L key w =
     w\<lparr>w_uuids := w_uuids w + 1,
       w_db := (w_db w)\<lparr>t_idem := t_idem (w_db w) @ [(key_value key, uuid_String L (uuid_New L (w_uuids w)))]\<rparr>\<rparr>"

lemma Handle_new:
  assumes "uuid_laws L" and "valid_cmd L cmd key c items a" and "w_faults w = []"
    and "map_of (t_idem (w_db w)) (key_value key) = None"
  shows "PlaceOrder_Handle L C now cmd w =
    and_then (of_result (PlaceOrder (OrderID (uuid_New L (w_uuids w))) c items a now)) (\<lambda>agg.
      and_then (wrap_err ''persist order'' (Order_Save L C agg 0 (inject_all C (toOutbox L agg)))) (\<lambda>_.
        ok \<lparr>rs_OrderID = OrderID_String L (o_id agg), rs_Status = Status_string (o_status agg),
            rs_Idempotent = False\<rparr>)) (key_world L key w)"
  using assms Reserve_new [OF assms(1), of "w\<lparr>w_uuids := w_uuids w + 1\<rparr>" "key_value key"
      "OrderID (uuid_New L (w_uuids w))"]
  by (simp add: valid_cmd_def PlaceOrder_Handle_def and_then_def of_result_def new_uuid_def
      map_err_def MarkChangesCommitted_def Let_def key_world_def OrderID_String_def)

lemma key_world_simps [simp]:
  "t_events (w_db (key_world L key w)) = t_events (w_db w)"
  "t_outbox (w_db (key_world L key w)) = t_outbox (w_db w)"
  "t_idem (w_db (key_world L key w)) = t_idem (w_db w) @ [(key_value key, uuid_String L (uuid_New L (w_uuids w)))]"
  "w_faults (key_world L key w) = w_faults w" "w_uuids (key_world L key w) = w_uuids w + 1"
  by (simp_all add: key_world_def)

text \<open>A failed placement, whatever failed: what it did to the keys and to the events.\<close>

lemma Handle_valid:
  assumes "valid_cmd L cmd key c items a"
  shows "PlaceOrder_Handle L C now cmd w =
    and_then (wrap_err ''reserve idempotency key''
        (Idempotency_Reserve L (key_value key) (uuid_String L (uuid_New L (w_uuids w))))) (\<lambda>(existing, found).
      if found then ok (replay_of existing)
      else and_then (of_result (PlaceOrder (OrderID (uuid_New L (w_uuids w))) c items a now)) (\<lambda>agg.
        and_then (wrap_err ''persist order'' (Order_Save L C agg 0 (inject_all C (toOutbox L agg)))) (\<lambda>_.
          ok \<lparr>rs_OrderID = OrderID_String L (o_id agg), rs_Status = Status_string (o_status agg),
              rs_Idempotent = False\<rparr>))) (w\<lparr>w_uuids := w_uuids w + 1\<rparr>)"
  using assms
  by (simp add: valid_cmd_def PlaceOrder_Handle_def and_then_def of_result_def new_uuid_def Let_def
      MarkChangesCommitted_def OrderID_String_def replay_of_def split: prod.split sum.split)

lemma Reserve_keys:
  assumes "uuid_laws L" and "map_of X key = None"
  shows "preserves (\<lambda>d. t_idem d = X \<or> t_idem d = X @ [(key, uuid_String L u)]) (Idempotency_Reserve L key (uuid_String L u))"
  using assms uuid_laws.pg_uuid_string [OF assms(1)]
  unfolding Idempotency_Reserve_def
  by (intro preserving) (auto intro!: preserving simp: insert_key_def with_uuid_def pg_reject_def
      split: if_splits option.splits)

lemma Order_Save_keys: "preserves (\<lambda>d. t_idem d = X) (Order_Save L C agg v ms)"
  unfolding Order_Save_def Let_def Save_event_def Save_message_def
  by (auto intro!: preserving simp: insert_event_def insert_outbox_def with_uuid_def pg_reject_def
      split: option.splits if_splits prod.splits)

lemma failed_placement:
  assumes L: "uuid_laws L" and v: "valid_cmd L cmd key c items a"
    and new: "map_of (t_idem (w_db w)) (key_value key) = None"
    and run: "PlaceOrder_Handle L C now cmd w = (Inl err, w1)"
  shows "map_of (t_idem (w_db w1)) (key_value key) \<in> {None, Some (uuid_String L (uuid_New L (w_uuids w)))}
    \<and> (t_events (w_db w1) = t_events (w_db w)
       \<or> (\<exists>agg e m d. PlaceOrder (OrderID (uuid_New L (w_uuids w))) c items a now = Inr agg
            \<and> o_changes agg = [OrderPlaced e] \<and> pe_OrderID e = OrderID (uuid_New L (w_uuids w))
            \<and> t_events d = t_events (w_db w) \<and> saved_one L (OrderPlaced e) 0 m d (w_db w1)))"
proof -
  let ?k = "key_value key" and ?u = "uuid_New L (w_uuids w)" and ?w = "w\<lparr>w_uuids := w_uuids w + 1\<rparr>"
  let ?P = "\<lambda>d. t_idem d = t_idem (w_db w) \<or> t_idem d = t_idem (w_db w) @ [(?k, uuid_String L ?u)]"
  obtain r w2 where res: "Idempotency_Reserve L ?k (uuid_String L ?u) ?w = (r, w2)" by fastforce
  have P2: "?P (w_db w2)" using preservesD [OF Reserve_keys [OF L new] _ res] by simp
  have ev: "t_events (w_db w2) = t_events (w_db w)"
    using preservesD [OF Reserve_keeps _ res, of "t_events (w_db w)" "t_outbox (w_db w)" "t_projections (w_db w)"] by simp
  have keys: "map_of (t_idem d) ?k \<in> {None, Some (uuid_String L ?u)}" if "?P d" for d
    using that new by (auto simp: map_add_def)
  show ?thesis
  proof (cases "w1 = w2")
    case True
    then show ?thesis using keys [OF P2] ev by simp
  next
    case False
    obtain existing found where r: "r = Inr (existing, found)"
      using run res False by (cases r) (auto simp: Handle_valid [OF v] and_then_def map_err_def)
    have rest: "(if found then ok (replay_of existing)
      else and_then (of_result (PlaceOrder (OrderID ?u) c items a now)) (\<lambda>agg.
        and_then (wrap_err ''persist order'' (Order_Save L C agg 0 (inject_all C (toOutbox L agg)))) (\<lambda>_.
          ok \<lparr>rs_OrderID = OrderID_String L (o_id agg), rs_Status = Status_string (o_status agg),
              rs_Idempotent = False\<rparr>))) w2 = (Inl err, w1)"
      using run res by (simp add: Handle_valid [OF v] and_then_def map_err_def r)
    have "\<not> found" using rest by (auto simp: ok_def split: if_splits)
    then obtain agg where agg: "PlaceOrder (OrderID ?u) c items a now = Inr agg"
      using rest False by (cases "PlaceOrder (OrderID ?u) c items a now") (auto simp: and_then_def of_result_def)
    then obtain rs where sv: "Order_Save L C agg 0 (inject_all C (toOutbox L agg)) w2 = (rs, w1)"
      using rest \<open>\<not> found\<close>
      by (auto simp: and_then_def of_result_def map_err_def ok_def split: prod.splits sum.splits)
    have idem: "t_idem (w_db w1) = t_idem (w_db w2)" using preservesD [OF Order_Save_keys _ sv] by simp
    from agg obtain e where e: "o_changes agg = [OrderPlaced e]" "pe_OrderID e = OrderID ?u"
      by (auto simp: PlaceOrder_Inr zero_order_def)
    then obtain m where m: "inject_all C (toOutbox L agg) = [m]"
      using place_flight_ok [OF agg, of L "w_db w2" C] by (auto simp: flight_ok_def)
    have "w_db w1 = w_db w2 \<or> saved_one L (OrderPlaced e) 0 m (w_db w2) (w_db w1)"
      using Save_one [OF sv [unfolded m] e(1)] by auto
    then show ?thesis using keys [OF P2] idem ev agg e by auto
  qed
qed

text \<open>C11. A lost placement is reported as accepted: the key is taken before the order exists, so when
  the placement fails after that, for whatever reason (the aggregate rejects the order, the
  reply to the insertion of the key is lost, the save fails), the client's retry with the same key
  and body is answered as an idempotent replay, status PENDING, with the id of the first attempt.
  If the first attempt stored no event, which is so whenever the aggregate rejected the order, no
  load finds that id; otherwise only the reply to its commit was lost, and the placement is the
  one event of that stream.\<close>

theorem failed_placement_replayed:
  assumes L: "uuid_laws L" and v: "valid_cmd L cmd key c items a"
    and new: "map_of (t_idem (w_db w)) (key_value key) = None"
    and unused: "rows_of (w_db w) (uuid_String L (uuid_New L (w_uuids w))) = []"
    and run: "PlaceOrder_Handle L C now cmd w = (Inl err, w1)"
    and taken: "map_of (t_idem (w_db w1)) (key_value key) \<noteq> None" and calm: "w_faults w1 = []"
  shows "\<exists>w2. PlaceOrder_Handle L C2 now2 cmd w1 = (Inr (replay_of (uuid_String L (uuid_New L (w_uuids w)))), w2)
    \<and> w_db w2 = w_db w1
    \<and> (if t_events (w_db w1) = t_events (w_db w)
       then Order_Load L (OrderID (uuid_New L (w_uuids w))) w2 = (Inl (Sentinel ErrNotFound), w2)
       else map er_Type (rows_of (w_db w2) (uuid_String L (uuid_New L (w_uuids w)))) = [TypeOrderPlaced])
    \<and> (\<forall>e. PlaceOrder (OrderID (uuid_New L (w_uuids w))) c items a now = Inl e \<longrightarrow>
          t_events (w_db w1) = t_events (w_db w))"
proof -
  let ?u = "uuid_String L (uuid_New L (w_uuids w))"
  let ?w2 = "w1\<lparr>w_uuids := w_uuids w1 + 1\<rparr>"
  note f = failed_placement [OF L v new run]
  then have known: "map_of (t_idem (w_db w1)) (key_value key) = Some ?u" using taken by auto
  have pg: "pg_uuid L ?u = Some ?u" by (rule uuid_laws.pg_uuid_string [OF L])
  have "Order_Load L (OrderID (uuid_New L (w_uuids w))) ?w2 = (Inl (Sentinel ErrNotFound), ?w2)"
    if "t_events (w_db w1) = t_events (w_db w)"
    using calm unused that pg
    by (simp add: Order_Load_def and_then_def map_err_def of_result_def db_ping_def db_stmt_calm
        fail_def select_events_def with_uuid_def OrderID_String_def rows_of_def)
  moreover have "map er_Type (rows_of (w_db w1) ?u) = [TypeOrderPlaced]" if some: "t_events (w_db w1) \<noteq> t_events (w_db w)"
  proof -
    obtain e m d where e: "pe_OrderID e = OrderID (uuid_New L (w_uuids w))" and d: "t_events d = t_events (w_db w)"
      and sv: "saved_one L (OrderPlaced e) 0 m d (w_db w1)" using f some by blast
    then obtain er where er: "encodeEvent L (OrderPlaced e) = Inr (er_Type er, Some (er_Payload er))"
      "er_OrderID er = ?u" "t_events (w_db w1) = t_events d @ [er]"
      using pg unfolding saved_one_def by (auto simp: OrderID_String_def)
    then have "rows_of (w_db w1) ?u = [er]" using unused d by (simp add: rows_of_def)
    then show ?thesis using encode_type [OF er(1)] by (simp add: TypeOrderPlaced_def)
  qed
  moreover have "PlaceOrder_Handle L C2 now2 cmd w1 = (Inr (replay_of ?u), ?w2)"
    by (rule replay_run [OF L v calm known])
  moreover have "t_events (w_db w1) = t_events (w_db w)"
    if "PlaceOrder (OrderID (uuid_New L (w_uuids w))) c items a now = Inl e" for e
    using f that by auto
  ultimately show ?thesis by (intro exI [of _ ?w2]) auto
qed

text \<open>The world after an accepted placement: the key, one event row, one outbox row.\<close>

definition placed_event :: "golib \<Rightarrow> nat \<Rightarrow> CustomerID \<Rightarrow> LineItem list \<Rightarrow> Address \<Rightarrow> Money \<Rightarrow> time \<Rightarrow> OrderPlacedEvent" where
  "placed_event L k c items a tot now =
     \<lparr>pe_OrderID = OrderID (uuid_New L k), pe_CustomerID = c, pe_Items = items, pe_ShipTo = a,
      pe_Total = tot, pe_PlacedAt = now\<rparr>"

definition placed_outbox :: "golib \<Rightarrow> ctx \<Rightarrow> OrderPlacedEvent \<Rightarrow> OutboxMessage" where
  "placed_outbox L C e =
     \<lparr>om_AggregateID = OrderID_String L (pe_OrderID e), om_EventID = [], om_Topic = TopicOrderEvents,
      om_EventType = TypeOrderPlaced, om_Payload = Marshal_OrderPlaced (placed_contract L e),
      om_Headers = InjectToMap C json_content\<rparr>"

lemma Handle_accepted:
  assumes L: "uuid_laws L" and v: "valid_cmd L cmd key c items a" and calm: "w_faults w = []"
    and new: "map_of (t_idem (w_db w)) (key_value key) = None"
    and p: "PlaceOrder (OrderID (uuid_New L (w_uuids w))) c items a now = Inr agg"
    and e: "o_changes agg = [OrderPlaced e]" and now: "instant_ok (pe_PlacedAt e)" and t: "placed_text e"
    and unused: "rows_of (w_db w) (uuid_String L (uuid_New L (w_uuids w))) = []"
    and fresh: "fresh_event L (w_db w) (w_uuids w + 1)"
    and tr: "pg_text (ctx_traceID C)" and hd: "pg_json (enc_headers (InjectToMap C json_content))"
  shows "\<exists>jm. Marshal_OrderPlaced (placed_contract L e) = Some jm \<and>
    PlaceOrder_Handle L C now cmd w =
      (Inr \<lparr>rs_OrderID = uuid_String L (uuid_New L (w_uuids w)), rs_Status = ''PENDING'', rs_Idempotent = False\<rparr>,
       saved_world L C (OrderPlaced e) 1 (enc_storedPlaced (stored_of_placed L e)) (placed_outbox L C e) jm
         (key_world L key w))"
proof -
  obtain jm where jm: "Marshal_OrderPlaced (placed_contract L e) = Some jm" "pg_json jm"
    using placed_json(2) [OF L t] by blast
  have id: "pe_OrderID e = OrderID (uuid_New L (w_uuids w))" and oid: "o_id agg = pe_OrderID e"
    and st: "o_status agg = StatusPending"
    using p e by (auto simp: PlaceOrder_Inr zero_order_def)
  have out: "inject_all C (toOutbox L agg) = [placed_outbox L C e]"
    using e by (simp add: toOutbox_def List.map_filter_simps placed_outbox_def TypeOrderPlaced_def)
  have "Order_Save L C agg 0 [placed_outbox L C e] (key_world L key w)
      = (Inr (), saved_world L C (OrderPlaced e) (0 + 1) (enc_storedPlaced (stored_of_placed L e))
           (placed_outbox L C e) jm (key_world L key w))"
    by (rule Order_Save_calm [OF L _ e])
       (use calm now placed_json(1) [OF L t] tr unused fresh jm id hd in
         \<open>auto simp: taken_def rows_of_def OrderID_String_def fresh_event_def placed_outbox_def
            TopicOrderEvents_def TypeOrderPlaced_def filter_empty_conv\<close>)
  then show ?thesis
    using jm p out oid id st
    by (simp add: Handle_new [OF L v calm new] and_then_def of_result_def map_err_def ok_def
        OrderID_String_def)
qed

section \<open>A sample run\<close>

definition sample_ctx :: ctx where
  "sample_ctx = \<lparr>ctx_propagated = [], ctx_traceID = []\<rparr>"

definition empty_world :: "order_db world" where
  "empty_world = \<lparr>w_db = empty_order_db, w_uuids = 0, w_faults = [], w_sent = []\<rparr>"

definition sample_ship :: ShipTo where
  "sample_ship = \<lparr>sh_Line1 = ''1 Main St'', sh_Line2 = [], sh_City = ''Springfield'', sh_Region = [],
     sh_PostalCode = ''12345'', sh_Country = ''us''\<rparr>"

text \<open>Lines of one SKU each, by price and quantity.\<close>

definition sample_cmd :: "PlaceOrderLine list \<Rightarrow> PlaceOrderCommand" where
  "sample_cmd ls = \<lparr>pc_CustomerID = uuid_String std_lib 7, pc_IdempotencyKey = ''order-key-1'',
     pc_Lines = ls, pc_Ship = sample_ship\<rparr>"

definition sample_line :: PlaceOrderLine where
  "sample_line = \<lparr>pl_SKU = ''SKU-1'', pl_Quantity = 2, pl_UnitPriceMinor = 1500, pl_Currency = ''usd''\<rparr>"

text \<open>Two of a price of 2 to the 62: the sum is 2 to the 63, one more than an int64 holds.\<close>

definition huge_line :: PlaceOrderLine where
  "huge_line = \<lparr>pl_SKU = ''SKU-1'', pl_Quantity = 2, pl_UnitPriceMinor = 4611686018427387904,
     pl_Currency = ''usd''\<rparr>"

definition huge_item :: LineItem where
  "huge_item = \<lparr>li_SKU = SKU ''SKU-1'', li_Quantity = Quantity 2,
     li_UnitPrice = \<lparr>Currency = ''USD'', MinorUnits = 4611686018427387904\<rparr>\<rparr>"

lemma ToUpper_usd: "ToUpper L ''usd'' = ''USD''" "ToUpper L ''us'' = ''US''" "ToUpper L ''USD'' = ''USD''"
proof -
  have "map upper_char ''usd'' = ''USD''" "map upper_char ''us'' = ''US''" "map upper_char ''USD'' = ''USD''"
    by code_simp+
  then show "ToUpper L ''usd'' = ''USD''" "ToUpper L ''us'' = ''US''" "ToUpper L ''USD'' = ''USD''"
    by (simp_all only: ToUpper_def) (simp_all add: is_ascii_def)
qed

lemma build_sample:
  "build_line std_lib sample_line = Inr sample_item" "build_line std_lib huge_line = Inr huge_item"
  by (simp_all add: build_line_def sample_line_def huge_line_def sample_item_def huge_item_def NewSKU_def
      NewQuantity_def NewMoney_def text_simps plain_char_def ToUpper_usd)

lemma sample_valid:
  assumes "build_lines std_lib ls = Inr items" and "ls \<noteq> []"
  shows "valid_cmd std_lib (sample_cmd ls) (IdempotencyKey ''order-key-1'') (CustomerID 7) items sample_address"
  using assms
  by (simp add: valid_cmd_def sample_cmd_def sample_ship_def sample_address_def NewIdempotencyKey_def
      ParseCustomerID_def buildLineItems_def NewAddress_def text_simps plain_char_def ToUpper_usd
      std.parse_string)

lemma empty_inv: "store_inv L empty_order_db"
  by (simp add: store_inv_def empty_order_db_def rows_of_def outbox_of_def numbered_def
      type_lifecycle_simps)

lemma instant_zero [simp]: "instant_ok 0"
  by (simp add: instant_ok_def epoch_ns_def)

lemma sample_order_total:
  "order_total [] \<lparr>Currency = ''USD'', MinorUnits = 0\<rparr> [sample_item] = Inr \<lparr>Currency = ''USD'', MinorUnits = 3000\<rparr>"
  "order_total [] \<lparr>Currency = ''USD'', MinorUnits = 0\<rparr> [huge_item]
     = Inr \<lparr>Currency = ''USD'', MinorUnits = 9223372036854775808\<rparr>"
  by (simp_all add: sample_item_def huge_item_def Money_Add_def LineTotal_def int64_of_int32_def)

lemma sample_handle:
  assumes "build_lines std_lib [l] = Inr [it]" and "Currency (li_UnitPrice it) = ''USD''"
    and "li_SKU it = SKU ''SKU-1''"
    and "order_total [] \<lparr>Currency = ''USD'', MinorUnits = 0\<rparr> [it] = Inr tot" "Currency tot = ''USD''"
  shows "\<exists>w'. PlaceOrder_Handle std_lib sample_ctx 0 (sample_cmd [l]) empty_world
      = (Inr \<lparr>rs_OrderID = uuid_String std_lib 1, rs_Status = ''PENDING'', rs_Idempotent = False\<rparr>, w')
    \<and> w_faults w' = [] \<and> t_idem (w_db w') = [(''order-key-1'', uuid_String std_lib 1)]
    \<and> w_uuids w' = 3 \<and> t_sagas (w_db w') = [] \<and> map er_EventID (t_events (w_db w')) = [uuid_String std_lib 2]
    \<and> map ob_EventID (t_outbox (w_db w')) = [uuid_String std_lib 3]"
proof -
  let ?e = "placed_event std_lib 0 (CustomerID 7) [it] sample_address tot 0"
  have new1: "uuid_New std_lib 0 = 1" by (simp add: std_lib_def)
  have p: "PlaceOrder (OrderID (uuid_New std_lib (w_uuids empty_world))) (CustomerID 7) [it] sample_address 0
      = Inr (raise_event zero_order (OrderPlaced ?e))"
    using assms by (simp add: PlaceOrder_Inr new1 placed_event_def empty_world_def del: order_total.simps)
  have v: "valid_cmd std_lib (sample_cmd [l]) (IdempotencyKey ''order-key-1'') (CustomerID 7) [it] sample_address"
    using assms(1) by (rule sample_valid) simp
  have t: "placed_text ?e"
    using assms by (simp add: placed_text_def placed_event_def sample_address_def)
  from Handle_accepted [OF std.uuid_laws_axioms v _ _ p, of ?e sample_ctx] t
  obtain jm where "PlaceOrder_Handle std_lib sample_ctx 0 (sample_cmd [l]) empty_world =
      (Inr \<lparr>rs_OrderID = uuid_String std_lib (uuid_New std_lib (w_uuids empty_world)), rs_Status = ''PENDING'',
            rs_Idempotent = False\<rparr>,
       saved_world std_lib sample_ctx (OrderPlaced ?e) 1 (enc_storedPlaced (stored_of_placed std_lib ?e))
         (placed_outbox std_lib sample_ctx ?e) jm (key_world std_lib (IdempotencyKey ''order-key-1'') empty_world))"
    by (auto simp: empty_world_def empty_order_db_def zero_order_def placed_event_def rows_of_def
        fresh_event_def sample_ctx_def InjectToMap_def json_content_def enc_headers_def HeaderContentType_def)
  then show ?thesis
    by (simp add: new1 empty_world_def empty_order_db_def saved_world_def key_world_def event_row_def
        message_row_def) (simp add: std_lib_def)
qed

lemma sample_run:
  "\<exists>w'. PlaceOrder_Handle std_lib sample_ctx 0 (sample_cmd [sample_line]) empty_world
      = (Inr \<lparr>rs_OrderID = uuid_String std_lib 1, rs_Status = ''PENDING'', rs_Idempotent = False\<rparr>, w')
    \<and> w_faults w' = [] \<and> t_idem (w_db w') = [(''order-key-1'', uuid_String std_lib 1)]
    \<and> w_uuids w' = 3 \<and> t_sagas (w_db w') = [] \<and> map er_EventID (t_events (w_db w')) = [uuid_String std_lib 2]
    \<and> map ob_EventID (t_outbox (w_db w')) = [uuid_String std_lib 3]"
  by (rule sample_handle [OF _ _ _ sample_order_total(1)]) (simp_all add: build_sample, simp_all add: sample_item_def)

lemma huge_run:
  "\<exists>w'. PlaceOrder_Handle std_lib sample_ctx 0 (sample_cmd [huge_line]) empty_world
      = (Inr \<lparr>rs_OrderID = uuid_String std_lib 1, rs_Status = ''PENDING'', rs_Idempotent = False\<rparr>, w')
    \<and> w_faults w' = [] \<and> t_idem (w_db w') = [(''order-key-1'', uuid_String std_lib 1)]"
  using sample_handle [OF _ _ _ sample_order_total(2), of huge_line] by (auto simp: build_sample) (auto simp: huge_item_def)

theorem placed_order_loads_witness:
  "\<exists>w' oid ord. rs_OrderID \<lparr>rs_OrderID = uuid_String std_lib 1, rs_Status = ''PENDING'', rs_Idempotent = False\<rparr>
       = OrderID_String std_lib oid \<and> Order_Load std_lib oid w' = (Inr ord, w')
     \<and> o_status ord = StatusPending \<and> sint (MinorUnits (o_total ord)) = 3000"
proof -
  obtain w' where run: "PlaceOrder_Handle std_lib sample_ctx 0 (sample_cmd [sample_line]) empty_world
      = (Inr \<lparr>rs_OrderID = uuid_String std_lib 1, rs_Status = ''PENDING'', rs_Idempotent = False\<rparr>, w')"
    and calm: "w_faults w' = []"
    using sample_run by blast
  have items: "buildLineItems std_lib (pc_Lines (sample_cmd [sample_line])) = Inr [sample_item]"
    by (simp add: buildLineItems_def sample_cmd_def build_sample)
  have tot: "exact_total [sample_item] = 3000"
    by (simp add: exact_total_def exact_line_def sample_item_def)
  from placed_order_loads [OF std.golib_laws_axioms _ run _ items _ calm] empty_inv tot
  show ?thesis by (auto simp: empty_world_def)
qed

theorem wrapped_total_witness:
  "\<exists>w' b w2. PlaceOrder_Handle std_lib sample_ctx 0 (sample_cmd [huge_line]) empty_world
      = (Inr \<lparr>rs_OrderID = uuid_String std_lib 1, rs_Status = ''PENDING'', rs_Idempotent = False\<rparr>, w')
    \<and> relay_cycle [] 10 w' = (b, w2)
    \<and> fails_with ErrValidation (Confirm_Handle std_lib sample_ctx 1 (uuid_String std_lib 1)) w2"
proof -
  obtain w' where run: "PlaceOrder_Handle std_lib sample_ctx 0 (sample_cmd [huge_line]) empty_world
      = (Inr \<lparr>rs_OrderID = uuid_String std_lib 1, rs_Status = ''PENDING'', rs_Idempotent = False\<rparr>, w')"
    using huge_run by blast
  have items: "buildLineItems std_lib (pc_Lines (sample_cmd [huge_line])) = Inr [huge_item]"
    by (simp add: buildLineItems_def sample_cmd_def build_sample)
  have tot: "order_total [] \<lparr>Currency = Currency (li_UnitPrice (hd [huge_item])), MinorUnits = 0\<rparr> [huge_item]
      = Inr \<lparr>Currency = ''USD'', MinorUnits = 9223372036854775808\<rparr>"
    using sample_order_total(2) by (simp add: huge_item_def)
  obtain b w2 where cycle: "relay_cycle [] 10 w' = (b, w2)" by fastforce
  have start: "race std_lib sample_ctx empty_world []" by (rule race.start) (simp add: empty_world_def)
  have "(race_step std_lib sample_ctx)\<^sup>*\<^sup>* (w', []) (w2, [])"
    by (rule r_into_rtranclp, rule race_step.relay [OF cycle])
  from wrapped_total_unloadable [OF std.golib_laws_axioms start run _ items tot _ this, of sample_ctx 1 "[]"]
  have "fails_with ErrValidation (Confirm_Handle std_lib sample_ctx 1 (uuid_String std_lib 1)) w2" by auto
  with run cycle show ?thesis by blast
qed

theorem stale_save_witness:
  "fst (Order_Save std_lib sample_ctx
     (zero_order\<lparr>o_changes := [OrderConfirmed (OrderID 1) 0]\<rparr>) 1 []
     (empty_world\<lparr>w_db := empty_order_db\<lparr>t_events :=
        [\<lparr>er_EventID = [], er_OrderID = OrderID_String std_lib (OrderID 1), er_Version = 2,
          er_Type = TypeOrderCancelled, er_Payload = JNull, er_OccurredAt = 0, er_TraceID = []\<rparr>]\<rparr>\<rparr>))
   = Inl (Sentinel ErrConcurrency)"
  by (rule stale_save_rejected [OF std.uuid_laws_axioms, of _ "OrderConfirmed (OrderID 1) 0" "[]",
        THEN conjunct2, THEN conjunct2, rule_format])
     (simp_all add: taken_def empty_world_def sample_ctx_def enc_storedConfirmed_def enc_time_def
        OrderID_String_def std.string_text)

theorem replay_witness:
  "\<exists>w w'. PlaceOrder_Handle std_lib sample_ctx 5 (sample_cmd [sample_line]) w
     = (Inr \<lparr>rs_OrderID = uuid_String std_lib 1, rs_Status = ''PENDING'', rs_Idempotent = True\<rparr>, w')"
proof -
  obtain w :: "order_db world" where calm: "w_faults w = []" and key: "t_idem (w_db w) = [(''order-key-1'', uuid_String std_lib 1)]"
    using sample_run by blast
  have v: "valid_cmd std_lib (sample_cmd [sample_line]) (IdempotencyKey ''order-key-1'') (CustomerID 7)
      [sample_item] sample_address"
    by (rule sample_valid) (simp_all add: build_sample)
  from replay_returns_original [OF std.uuid_laws_axioms v calm, of "uuid_String std_lib 1"] key
  show ?thesis by (auto simp: replay_of_def)
qed

theorem failed_placement_witness:
  "\<exists>err w1 w2. PlaceOrder_Handle std_lib sample_ctx 0 (sample_cmd [sample_line, sample_line]) empty_world = (Inl err, w1)
     \<and> PlaceOrder_Handle std_lib sample_ctx 1 (sample_cmd [sample_line, sample_line]) w1
         = (Inr (replay_of (uuid_String std_lib 1)), w2)
     \<and> Order_Load std_lib (OrderID 1) w2 = (Inl (Sentinel ErrNotFound), w2)"
proof -
  have one: "uuid_New std_lib 0 = 1" by (simp add: std_lib_def)
  have v: "valid_cmd std_lib (sample_cmd [sample_line, sample_line]) (IdempotencyKey ''order-key-1'')
      (CustomerID 7) [sample_item, sample_item] sample_address"
    by (rule sample_valid) (simp_all add: build_sample)
  have bad: "PlaceOrder (OrderID (uuid_New std_lib (w_uuids empty_world))) (CustomerID 7)
      [sample_item, sample_item] sample_address 0 = Inl (Detailf ErrValidation ''duplicate sku'')"
    by (simp add: PlaceOrder_def OrderID_IsZero_def one empty_world_def Money_Add_def LineTotal_def)
  let ?w1 = "key_world std_lib (IdempotencyKey ''order-key-1'') empty_world"
  have none: "w_faults empty_world = []" "map_of (t_idem (w_db empty_world)) (key_value (IdempotencyKey ''order-key-1'')) = None"
    by (simp_all add: empty_world_def empty_order_db_def)
  have run: "PlaceOrder_Handle std_lib sample_ctx 0 (sample_cmd [sample_line, sample_line]) empty_world
      = (Inl (Detailf ErrValidation ''duplicate sku''), ?w1)"
    using bad by (simp add: Handle_new [OF std.uuid_laws_axioms v none] and_then_def of_result_def)
  have "map_of (t_idem (w_db ?w1)) (key_value (IdempotencyKey ''order-key-1'')) \<noteq> None" "w_faults ?w1 = []"
    "w_uuids empty_world = 0" "rows_of (w_db empty_world) u = []" "t_events (w_db ?w1) = t_events (w_db empty_world)" for u
    by (simp_all add: empty_world_def empty_order_db_def rows_of_def key_world_def)
  with failed_placement_replayed [OF std.uuid_laws_axioms v none(2) _ run, of sample_ctx 1] run one
  show ?thesis by auto
qed

theorem terminal_commands_witness:
  "\<exists>w r w'. PlaceOrder_Handle std_lib sample_ctx 0 (sample_cmd [sample_line]) empty_world
      = (Inr \<lparr>rs_OrderID = uuid_String std_lib 1, rs_Status = ''PENDING'', rs_Idempotent = False\<rparr>, w)
    \<and> Confirm_Handle std_lib sample_ctx 1 (uuid_String std_lib 1) w = (r, w')
    \<and> confirm_spec std_lib StatusConfirmed (uuid_String std_lib 1) r (w_db w) (w_db w')"
proof -
  obtain w where run: "PlaceOrder_Handle std_lib sample_ctx 0 (sample_cmd [sample_line]) empty_world
      = (Inr \<lparr>rs_OrderID = uuid_String std_lib 1, rs_Status = ''PENDING'', rs_Idempotent = False\<rparr>, w)"
    using sample_run by blast
  obtain e items where "store_inv std_lib (w_db w)"
    by (rule place_stores [OF std.golib_laws_axioms _ run]) (simp_all add: empty_world_def empty_inv)
  from terminal_commands_refine [OF std.uuid_laws_axioms this, of sample_ctx 1 "uuid_String std_lib 1" "[]"] run
  show ?thesis by (auto split: prod.splits)
qed

end
