(* ===== verification/Saga_Deployed.thy ===== *)
theory Saga_Deployed
  imports Saga_World Order_Calm
begin

text \<open>
  The deployed orchestrator keeps the contract of \<open>saga_services\<close>, whatever fails in the two
  databases and on the network: the laws are discharged on the order store's confirm and cancel
  handlers and on the inventory service behind its router. What follows is consistency of the
  saga over any number of deliveries of the event.
\<close>

section \<open>The status of an order in the event store\<close>

definition order_status :: "order_db \<Rightarrow> string \<Rightarrow> Status" where
  "order_status d u =
     (let ts = stream_types d u in
      if ts = status_types StatusPending then StatusPending
      else if ts = status_types StatusConfirmed then StatusConfirmed
      else if ts = status_types StatusCancelled then StatusCancelled
      else StatusNone)"

lemma order_status_types: "st \<noteq> StatusNone \<Longrightarrow> stream_types d u = status_types st \<Longrightarrow> order_status d u = st"
  by (cases st) (simp_all add: order_status_def TypeOrderConfirmed_def TypeOrderCancelled_def)

lemma command_status:
  assumes L: "uuid_laws L" and u: "canonical L u" and st: "st \<noteq> StatusNone"
    and spec: "confirm_spec L st u r d d'"
  shows "(order_status d' u = order_status d u \<or> order_status d u = StatusPending \<and> order_status d' u = st)
    \<and> (r = Inr () \<longrightarrow> order_status d' u = st)"
proof -
  obtain oid where "ParseOrderID L u = Inr oid" and oid: "OrderID_String L oid = u"
    using canonical_facts(5) [OF L u] by blast
  with spec have "d' = d \<or> terminal_step L oid st d d'"
    and "r = Inr () \<longrightarrow> stream_types d' u = status_types st"
    by (auto simp: confirm_spec_def)
  then show ?thesis
    using order_status_types [OF st] order_status_types [of StatusPending] oid
    by (auto simp: terminal_step_def)
qed

section \<open>Who writes the saga table\<close>

lemma events_keep_sagas:
  "insert_event L i u v ty p t tr d = Inr (a, d') \<Longrightarrow> t_sagas d' = t_sagas d"
  "insert_outbox L i m tr d = Inr (a, d') \<Longrightarrow> t_sagas d' = t_sagas d"
  by (auto simp: insert_event_def insert_outbox_def with_uuid_def pg_reject_def split: option.splits if_splits)

lemma Save_keeps_sagas: "preserves (\<lambda>d. t_sagas d = S) (Order_Save L C agg v outbox)"
  unfolding Order_Save_def Let_def
  by (auto simp: Save_event_def Save_message_def Let_def events_keep_sagas intro!: preserving split: prod.splits sum.splits if_splits)

lemma Load_keeps_sagas: "preserves (\<lambda>d. t_sagas d = S) (Order_Load L i)"
  unfolding preserves_def using Load_Inl_db by (metis prod.collapse)

lemma commands_keep_sagas:
  "preserves (\<lambda>d. t_sagas d = S) (Confirm_Handle L C now s)"
  "preserves (\<lambda>d. t_sagas d = S) (Cancel_Handle L C now s reason)"
  unfolding Confirm_Handle_def Cancel_Handle_def Let_def
  by (auto intro!: preserving Save_keeps_sagas Load_keeps_sagas split: if_splits)

lemma Saga_Load_reads: "preserves (\<lambda>d. d = d0) (Saga_Load L u)"
  unfolding Saga_Load_def
  by (auto simp: with_uuid_def intro!: preserving split: option.splits)

text \<open>The record of an order: what Load returns, what Save replaces.\<close>

definition saga_record :: "order_db \<Rightarrow> string \<Rightarrow> Instance option" where
  "saga_record d u = map_of (t_sagas d) u"

lemma Saga_Load_result:
  assumes "uuid_laws L" and "canonical L u" and run: "Saga_Load L u w = (r, w')"
  shows "w_db w' = w_db w \<and> (\<forall>i. r = Inr i \<longrightarrow> i = saga_record (w_db w) u)"
proof -
  have "w_db w' = w_db w" using preservesD [OF Saga_Load_reads _ run] by simp
  moreover have "i = saga_record (w_db w) u" if "r = Inr i" for i
    using run that canonical_facts(1) [OF assms(1,2)]
    by (auto simp: Saga_Load_def map_err_Inr saga_record_def with_uuid_def dest!: db_stmt_Inr)
  ultimately show ?thesis by blast
qed

lemma Saga_Save_result:
  assumes L: "uuid_laws L" and u: "canonical L u" and i: "in_OrderID i = u" "\<And>s. in_State i \<noteq> StateOther s"
    and run: "Saga_Save L i w = (r, w')"
  shows "t_events (w_db w') = t_events (w_db w) \<and> t_outbox (w_db w') = t_outbox (w_db w)
    \<and> (saga_record (w_db w') u = saga_record (w_db w) u \<or> saga_record (w_db w') u = Some i)
    \<and> (r = Inr () \<longrightarrow> saga_record (w_db w') u = Some i)"
proof -
  have upd: "t_events d' = t_events d \<and> t_outbox d' = t_outbox d \<and> saga_record d' u = Some i"
    if "upsert_saga L i d = Inr ((), d')" for d d'
    using that canonical_facts(1) [OF L u] i SagaState_of_string [of "in_State i"]
    by (auto simp: upsert_saga_def with_uuid_def pg_reject_def saga_record_def update_conv' split: if_splits)
  let ?P = "\<lambda>d. t_events d = t_events (w_db w) \<and> t_outbox d = t_outbox (w_db w)
     \<and> (saga_record d u = saga_record (w_db w) u \<or> saga_record d u = Some i)"
  have "preserves ?P (Saga_Save L i)"
    unfolding Saga_Save_def by (auto intro!: preserving dest!: upd)
  then have "?P (w_db w')" by (rule preservesD [of _ "Saga_Save L i", OF _ _ run]) simp
  moreover have "saga_record (w_db w') u = Some i" if "r = Inr ()"
  proof -
    have "db_stmt (upsert_saga L i) w = (Inr (), w')"
      using run that by (simp add: Saga_Save_def map_err_Inr)
    from db_stmt_Inr [OF this] show ?thesis using upd by blast
  qed
  ultimately show ?thesis by blast
qed

section \<open>The contract\<close>

text \<open>The lines the orchestrator reserves for an event.\<close>

abbreviation event_lines :: "OrderPlacedV1 \<Rightarrow> ReserveLine list" where
  "event_lines event \<equiv> map (\<lambda>it. \<lparr>rl_SKU = wl_SKU it, rl_Quantity = wl_Quantity it\<rparr>) (op_Items event)"

definition known :: "ReservationStatus option \<Rightarrow> bool" where
  "known rv \<longleftrightarrow> rv \<in> {None, Some StatusHeld, Some StatusReleased, Some StatusCommitted}"

definition services_inv :: "golib \<Rightarrow> OrderPlacedV1 \<Rightarrow> saga_world \<Rightarrow> bool" where
  "services_inv L event w \<longleftrightarrow>
     store_inv L (w_db (sw_order w)) \<and> ledger_ok (w_db (sw_inv w)) \<and> w_env (sw_inv w) = []
     \<and> (status_of (w_db (sw_inv w)) (op_OrderID event) \<noteq> None \<longrightarrow> reservable (event_lines event))
     \<and> known (status_of (w_db (sw_inv w)) (op_OrderID event))"

definition saga_order_status :: "OrderPlacedV1 \<Rightarrow> saga_world \<Rightarrow> Status" where
  "saga_order_status event w = order_status (w_db (sw_order w)) (op_OrderID event)"

definition saga_reservation :: "OrderPlacedV1 \<Rightarrow> saga_world \<Rightarrow> ReservationStatus option" where
  "saga_reservation event w = status_of (w_db (sw_inv w)) (op_OrderID event)"

definition saga_saved :: "OrderPlacedV1 \<Rightarrow> saga_world \<Rightarrow> Instance option" where
  "saga_saved event w = saga_record (w_db (sw_order w)) (op_OrderID event)"

lemmas saga_views = saga_order_status_def saga_reservation_def saga_saved_def

text \<open>The gateway gives one verdict on the order, however often it is asked, and has no access to the stores.\<close>

definition gateway_ok :: "string \<Rightarrow> bool \<Rightarrow> (PaymentRequest \<Rightarrow> (saga_world, order_sentinel, PaymentResult) prog) \<Rightarrow> bool" where
  "gateway_ok oid approves pay \<longleftrightarrow> (\<forall>req w r w'. pay req w = (r, w') \<longrightarrow>
     w_db (sw_order w') = w_db (sw_order w) \<and> w_sent (sw_order w') = w_sent (sw_order w) \<and> sw_inv w' = sw_inv w
     \<and> (pr_OrderID req = oid \<longrightarrow> (\<forall>res. r = Inr res \<longrightarrow> py_Approved res = approves)))"

lemma inventory_side:
  assumes inv: "services_inv L event w" and same: "sw_order w' = sw_order w"
    and led: "ledger_ok (w_db (sw_inv w'))" "w_env (sw_inv w') = []"
    and st: "saga_reservation event w' = saga_reservation event w
       \<or> reservable (event_lines event) \<and> known (saga_reservation event w')"
  shows "services_inv L event w' \<and> saga_order_status event w' = saga_order_status event w
    \<and> saga_saved event w' = saga_saved event w"
  using st inv led same unfolding services_inv_def saga_views by (elim disjE) simp_all

lemma settle_law:
  assumes L: "uuid_laws L" and S: "open_server S" and oid: "canonical L (op_OrderID event)"
    and k: "k = StatusReleased \<or> k = StatusCommitted" and inv: "services_inv L event w"
    and run: "Client_transition (http_call (serve L S)) C (op_OrderID event) (action_of k) w = (r, w')"
  shows "services_inv L event w' \<and> saga_order_status event w' = saga_order_status event w
    \<and> saga_saved event w' = saga_saved event w
    \<and> (saga_reservation event w' = saga_reservation event w
       \<or> saga_reservation event w = Some StatusHeld \<and> saga_reservation event w' = Some k)
    \<and> (r = Inr () \<longrightarrow> saga_reservation event w' = Some StatusReleased \<or> saga_reservation event w' = Some StatusCommitted)"
proof -
  have led: "ledger_ok (w_db (sw_inv w))" "w_env (sw_inv w) = []" using inv by (simp_all add: services_inv_def)
  note c = settle_call [OF L S oid k led run]
  have mv: "saga_reservation event w' = saga_reservation event w
       \<or> saga_reservation event w = Some StatusHeld \<and> saga_reservation event w' = Some k"
    using c settled_by_status led(1) unfolding saga_views by metis
  have keep: "services_inv L event w' \<and> saga_order_status event w' = saga_order_status event w
    \<and> saga_saved event w' = saga_saved event w"
  proof (rule inventory_side [OF inv])
    show "saga_reservation event w' = saga_reservation event w
       \<or> reservable (event_lines event) \<and> known (saga_reservation event w')"
      using mv inv k by (auto simp: services_inv_def saga_views known_def)
  qed (use c in simp_all)
  have "saga_reservation event w' = Some StatusReleased \<or> saga_reservation event w' = Some StatusCommitted" if "r = Inr ()"
  proof -
    have "saga_reservation event w' \<noteq> None \<and> saga_reservation event w' \<noteq> Some StatusHeld"
      using c that k by (auto simp: refused_def saga_reservation_def)
    then show ?thesis using keep by (auto simp: services_inv_def saga_reservation_def known_def)
  qed
  with mv keep show ?thesis by blast
qed

lemma reserve_law:
  assumes L: "uuid_laws L" and S: "open_server S" and oid: "canonical L (op_OrderID event)"
    and inv: "services_inv L event w"
    and run: "Client_Reserve (http_call (serve L S)) C (op_OrderID event) (event_lines event) w = (r, w')"
  shows "services_inv L event w' \<and> saga_order_status event w' = saga_order_status event w
    \<and> saga_saved event w' = saga_saved event w
    \<and> (saga_reservation event w' = saga_reservation event w
       \<or> saga_reservation event w = None \<and> saga_reservation event w' = Some StatusHeld)
    \<and> (r = Inr () \<longrightarrow> saga_reservation event w' \<noteq> None)
    \<and> (\<forall>e. r = Inl e \<and> errors_Is e ErrReservationRejected \<longrightarrow> saga_reservation event w' = None)"
proof -
  have led: "ledger_ok (w_db (sw_inv w))" "w_env (sw_inv w) = []"
    and lines: "status_of (w_db (sw_inv w)) (op_OrderID event) \<noteq> None \<Longrightarrow> reservable (event_lines event)"
    using inv by (simp_all add: services_inv_def)
  note c = reserve_call [OF L S oid led lines run]
  have mv: "saga_reservation event w' = saga_reservation event w
       \<or> reservable (event_lines event) \<and> saga_reservation event w = None \<and> saga_reservation event w' = Some StatusHeld"
    using c placed_status led(1) unfolding saga_views by metis
  have "services_inv L event w' \<and> saga_order_status event w' = saga_order_status event w
    \<and> saga_saved event w' = saga_saved event w"
    by (rule inventory_side [OF inv]) (use c mv in \<open>auto simp: known_def\<close>)
  with mv c show ?thesis unfolding saga_reservation_def by blast
qed

text \<open>A program of the order service that keeps the store's invariant leaves inventory alone.\<close>

lemma order_side:
  assumes "services_inv L event w" and "on_order m w = (r, w')"
    and "\<And>d'. m (sw_order w) = (r, d') \<Longrightarrow> store_inv L (w_db d')"
  obtains d' where "m (sw_order w) = (r, d')" "sw_order w' = d'" "services_inv L event w'"
    "saga_reservation event w' = saga_reservation event w"
  using assms by (auto simp: on_order_def services_inv_def saga_views split: prod.splits)

lemma command_law:
  assumes L: "uuid_laws L" and oid: "canonical L (op_OrderID event)" and st: "st \<noteq> StatusNone"
    and spec: "\<And>w r w'. store_inv L (w_db w) \<Longrightarrow> m w = (r, w')
       \<Longrightarrow> store_inv L (w_db w') \<and> confirm_spec L st (op_OrderID event) r (w_db w) (w_db w')"
    and sagas: "\<And>S. preserves (\<lambda>d. t_sagas d = S) m"
    and run: "on_order m w = (r, w')" and inv: "services_inv L event w"
  shows "services_inv L event w' \<and> saga_saved event w' = saga_saved event w
    \<and> saga_reservation event w' = saga_reservation event w
    \<and> (saga_order_status event w' = saga_order_status event w
       \<or> saga_order_status event w = StatusPending \<and> saga_order_status event w' = st)
    \<and> (r = Inr () \<longrightarrow> saga_order_status event w' = st)"
proof -
  have store: "store_inv L (w_db (sw_order w))" using inv by (simp add: services_inv_def)
  obtain d' where d': "m (sw_order w) = (r, d')" "sw_order w' = d'"
    and keep: "services_inv L event w'" "saga_reservation event w' = saga_reservation event w"
    by (rule order_side [OF inv run]) (use spec [OF store] in blast)+
  have "t_sagas (w_db d') = t_sagas (w_db (sw_order w))" using preservesD [OF sagas _ d'(1)] by simp
  then have "saga_saved event w' = saga_saved event w" using d'(2) by (simp add: saga_saved_def saga_record_def)
  moreover have "(saga_order_status event w' = saga_order_status event w
       \<or> saga_order_status event w = StatusPending \<and> saga_order_status event w' = st)
    \<and> (r = Inr () \<longrightarrow> saga_order_status event w' = st)"
    using command_status [OF L oid st, of r "w_db (sw_order w)" "w_db d'"] spec [OF store d'(1)] d'(2)
    by (simp add: saga_order_status_def)
  ultimately show ?thesis using keep by blast
qed

text \<open>A program of the order service that writes no events and no messages.\<close>

lemma table_law:
  assumes run: "on_order m w = (r, w')" and inv: "services_inv L event w"
    and same: "\<And>d'. m (sw_order w) = (r, d') \<Longrightarrow> t_events (w_db d') = t_events (w_db (sw_order w))
       \<and> t_outbox (w_db d') = t_outbox (w_db (sw_order w))"
  obtains d' where "m (sw_order w) = (r, d')" "sw_order w' = d'" "services_inv L event w'"
    "saga_order_status event w' = saga_order_status event w"
    "saga_reservation event w' = saga_reservation event w"
proof -
  have keep: "store_inv L (w_db d')" if m: "m (sw_order w) = (r, d')" for d'
    using store_inv_same [of L "w_db (sw_order w)" "w_db d'"] same [OF m] inv
    by (simp add: services_inv_def outbox_of_def)
  show ?thesis
  proof (rule order_side [OF inv run keep])
    fix d' assume m: "m (sw_order w) = (r, d')" and d': "sw_order w' = d'" "services_inv L event w'"
      "saga_reservation event w' = saga_reservation event w"
    have "saga_order_status event w' = saga_order_status event w"
      using same [OF m] d'(1) by (simp add: saga_order_status_def order_status_def stream_types_def rows_of_def)
    with m d' show thesis by (intro that)
  qed
qed

lemma deployed_services:
  assumes L: "uuid_laws L" and S: "open_server S" and oid: "canonical L (op_OrderID event)"
    and pay: "gateway_ok (op_OrderID event) approves pay"
  shows "saga_services (orchestrator_ports L C now (serve L S) pay) event approves (services_inv L event)
    (saga_order_status event) (saga_reservation event) (saga_saved event)"
proof (unfold_locales, goal_cases)
  case (1 w r w')
  then show ?case using reserve_law [OF L S oid, of w C r w'] by (simp add: orchestrator_ports_def)
next
  case (2 w r w')
  then have "Client_transition (http_call (serve L S)) C (op_OrderID event) (action_of StatusReleased) w = (r, w')"
    by (simp add: orchestrator_ports_def Client_Release_def action_of_def)
  from settle_law [OF L S oid _ 2(2) this] show ?case by simp
next
  case (3 w r w')
  then have "Client_transition (http_call (serve L S)) C (op_OrderID event) (action_of StatusCommitted) w = (r, w')"
    by (simp add: orchestrator_ports_def Client_Commit_def action_of_def)
  from settle_law [OF L S oid _ 3(2) this] show ?case by simp
next
  case (4 req w r w')
  then have "pay req w = (r, w')" by (simp add: orchestrator_ports_def)
  then have "w_db (sw_order w') = w_db (sw_order w) \<and> sw_inv w' = sw_inv w
     \<and> (\<forall>res. r = Inr res \<longrightarrow> py_Approved res = approves)"
    using pay 4(2) unfolding gateway_ok_def by blast
  with 4(3) show ?case by (simp add: services_inv_def saga_views)
next
  case (5 w r w')
  show ?case
    by (rule command_law [OF L oid _ _ commands_keep_sagas(1) _ 5(2), where st = StatusConfirmed])
      (use 5(1) Confirm_Handle_spec [OF L] in
        \<open>auto simp: orchestrator_ports_def orderController_Confirm_def\<close>)
next
  case (6 reason w r w')
  show ?case
    by (rule command_law [OF L oid _ _ commands_keep_sagas(2) _ 6(2), where st = StatusCancelled])
      (use 6(1) Cancel_Handle_spec [OF L] in
        \<open>auto simp: orchestrator_ports_def orderController_Cancel_def\<close>)
next
  case (7 w r w')
  then have run: "on_order (Saga_Load L (op_OrderID event)) w = (r, w')" by (simp add: orchestrator_ports_def)
  show ?case
  proof (rule table_law [OF run 7(2)])
    fix d' assume "Saga_Load L (op_OrderID event) (sw_order w) = (r, d')" "sw_order w' = d'"
      "services_inv L event w'" "saga_order_status event w' = saga_order_status event w"
      "saga_reservation event w' = saga_reservation event w"
    then show ?case using Saga_Load_result [OF L oid] by (simp add: saga_saved_def)
  qed (use Saga_Load_result [OF L oid] in simp)
next
  case (8 i w r w')
  then have run: "on_order (Saga_Save L i) w = (r, w')" by (simp add: orchestrator_ports_def)
  note sv = Saga_Save_result [OF L oid 8(3,4)]
  show ?case
  proof (rule table_law [OF run 8(2)])
    fix d' assume "Saga_Save L i (sw_order w) = (r, d')" "sw_order w' = d'"
      "services_inv L event w'" "saga_order_status event w' = saga_order_status event w"
      "saga_reservation event w' = saga_reservation event w"
    then show ?case using sv by (simp add: saga_saved_def)
  qed (use sv in simp)
qed

section \<open>Gateways\<close>

text \<open>The stub gateway has one verdict; the payment client has one when the service has.\<close>

lemma stub_gateway_ok: "gateway_ok oid (\<not> stub_declines outcome) (\<lambda>req. on_order (Stub_Authorize L outcome req))"
  unfolding gateway_ok_def
  by (auto simp: on_order_def Stub_Authorize_def act_simps split: prod.splits if_splits)

definition payment_service_ok :: "string \<Rightarrow> bool \<Rightarrow> saga_world transport \<Rightarrow> bool" where
  "payment_service_ok oid approves send \<longleftrightarrow> (\<forall>rq w res w'. send rq w = (res, w') \<longrightarrow>
     sw_order w' = sw_order w \<and> sw_inv w' = sw_inv w
     \<and> (\<forall>req v. rq_Body rq = Some (enc_captureRequest req) \<and> pr_OrderID req = oid \<and> capture_outcome res = Inr v
          \<longrightarrow> py_Approved v = approves))"

lemma authorize_loop_gateway:
  assumes once: "\<And>w out w'. once w = (out, w') \<Longrightarrow> sw_order w' = sw_order w \<and> sw_inv w' = sw_inv w
      \<and> (c \<longrightarrow> (\<forall>v. out = Inr v \<longrightarrow> py_Approved v = approves))"
    and run: "authorize_loop n stopped once attempt w = (r, w')"
  shows "sw_order w' = sw_order w \<and> sw_inv w' = sw_inv w \<and> (c \<longrightarrow> (\<forall>v. r = Inr v \<longrightarrow> py_Approved v = approves))"
  using run
proof (induction n arbitrary: attempt w)
  case 0
  then show ?case by (auto simp: fail_def)
next
  case (Suc n)
  obtain out w1 where first: "once w = (out, w1)" by fastforce
  note o = once [OF first]
  from Suc.prems first consider
      "w' = w1" "\<And>v. r = Inr v \<Longrightarrow> out = Inr v" | "authorize_loop n stopped once (attempt + 1) w1 = (r, w')"
    by (auto split: sum.splits prod.splits if_splits)
  then show ?case
  proof cases
    case 1
    with o show ?thesis by auto
  next
    case 2
    from Suc.IH [OF this] o show ?thesis by simp
  qed
qed

lemma payment_gateway_ok: "payment_service_ok oid approves send \<Longrightarrow> gateway_ok oid approves (Payment_Authorize send C stopped)"
  unfolding gateway_ok_def
proof (intro allI impI)
  fix req w r w' assume ok: "payment_service_ok oid approves send" and "Payment_Authorize send C stopped req w = (r, w')"
  then have run: "authorize_loop maxAttempts stopped (Payment_authorizeOnce send C (Some (enc_captureRequest req))) 1 w = (r, w')"
    by (simp add: Payment_Authorize_def)
  have "sw_order w' = sw_order w \<and> sw_inv w' = sw_inv w
      \<and> (pr_OrderID req = oid \<longrightarrow> (\<forall>v. r = Inr v \<longrightarrow> py_Approved v = approves))"
  proof (rule authorize_loop_gateway [OF _ run])
    fix w out w' assume "Payment_authorizeOnce send C (Some (enc_captureRequest req)) w = (out, w')"
    then obtain res where "send (client_request C ''POST'' ''/v1/payments'' (Some (enc_captureRequest req))) w = (res, w')"
      "out = capture_outcome res" by (auto simp: Payment_authorizeOnce_def split: prod.splits)
    then show "sw_order w' = sw_order w \<and> sw_inv w' = sw_inv w
      \<and> (pr_OrderID req = oid \<longrightarrow> (\<forall>v. out = Inr v \<longrightarrow> py_Approved v = approves))"
      using ok unfolding payment_service_ok_def by (fastforce simp: client_request_def)
  qed
  then show "w_db (sw_order w') = w_db (sw_order w) \<and> w_sent (sw_order w') = w_sent (sw_order w) \<and> sw_inv w' = sw_inv w
     \<and> (pr_OrderID req = oid \<longrightarrow> (\<forall>res. r = Inr res \<longrightarrow> py_Approved res = approves))" by simp
qed

section \<open>Any number of deliveries\<close>

text \<open>The event handled once per entry of the list, whatever each attempt returned.\<close>

fun saga_runs :: "golib \<Rightarrow> inv_world handler \<Rightarrow> (PaymentRequest \<Rightarrow> (saga_world, order_sentinel, PaymentResult) prog)
    \<Rightarrow> OrderPlacedV1 \<Rightarrow> (ctx \<times> time) list \<Rightarrow> saga_world \<Rightarrow> saga_world" where
  "saga_runs L server pay event [] w = w"
| "saga_runs L server pay event ((C, now) # ds) w =
     saga_runs L server pay event ds (snd (Saga_Handle (orchestrator_ports L C now server pay) event w))"

definition saga_ready :: "golib \<Rightarrow> OrderPlacedV1 \<Rightarrow> saga_world \<Rightarrow> bool" where
  "saga_ready L event w \<longleftrightarrow> services_inv L event w \<and> saga_order_status event w = StatusPending
     \<and> saga_reservation event w = None \<and> saga_saved event w = None"

definition saga_fine :: "golib \<Rightarrow> OrderPlacedV1 \<Rightarrow> bool \<Rightarrow> saga_world \<Rightarrow> bool" where
  "saga_fine L event approves w \<longleftrightarrow> services_inv L event w
     \<and> (\<forall>i. saga_saved event w = Some i \<longrightarrow> in_OrderID i = op_OrderID event)
     \<and> saga_at approves (map_option in_State (saga_saved event w)) (saga_reservation event w) (saga_order_status event w)"

lemma saga_ready_fine: "saga_ready L event w \<Longrightarrow> saga_fine L event approves w"
  by (simp add: saga_ready_def saga_fine_def)

text \<open>The orchestrator of one deployment, as hypotheses name it.\<close>

definition deployment_ok :: "golib \<Rightarrow> inv_server \<Rightarrow> OrderPlacedV1 \<Rightarrow> bool
    \<Rightarrow> (PaymentRequest \<Rightarrow> (saga_world, order_sentinel, PaymentResult) prog) \<Rightarrow> bool" where
  "deployment_ok L S event approves pay \<longleftrightarrow>
     uuid_laws L \<and> open_server S \<and> canonical L (op_OrderID event) \<and> gateway_ok (op_OrderID event) approves pay"

lemma handle_fine:
  assumes D: "deployment_ok L S event approves pay" and fine: "saga_fine L event approves w"
    and run: "Saga_Handle (orchestrator_ports L C now (serve L S) pay) event w = (r, w')"
  shows "saga_fine L event approves w'
    \<and> (r = Inr () \<longrightarrow> (\<exists>j. saga_saved event w' = Some j \<and> Terminal j))"
proof -
  note sv = deployed_services [of L S event approves pay C now]
  have D': "uuid_laws L" "open_server S" "canonical L (op_OrderID event)" "gateway_ok (op_OrderID event) approves pay"
    using D by (simp_all add: deployment_ok_def)
  note sv = sv [OF D']
  show ?thesis
    using saga_services.handle_sat [OF sv] run fine
    unfolding saga_services.sat_def [OF sv] saga_services.fine_def [OF sv] saga_services.ended_def [OF sv]
      saga_services.at_def [OF sv] saga_fine_def by blast
qed

lemma saga_runs_fine:
  assumes D: "deployment_ok L S event approves pay"
  shows "saga_fine L event approves w \<Longrightarrow> saga_fine L event approves (saga_runs L (serve L S) pay event ds w)"
proof (induction ds arbitrary: w)
  case (Cons d ds)
  obtain C now where d: "d = (C, now)" by fastforce
  obtain r w' where run: "Saga_Handle (orchestrator_ports L C now (serve L S) pay) event w = (r, w')" by fastforce
  from Cons.IH handle_fine [OF D Cons.prems run] run d show ?case by simp
qed simp

text \<open>C20. However often an order.placed event is delivered, and whatever databases and network do
  meanwhile, the order is confirmed only if the payment service approved and the stock is
  committed, and the saga's record always matches the order and its reservation as in
  \<open>saga_at\<close>: a record that says cancelled has no stock, one that says completed has it committed.\<close>

theorem saga_stays_consistent:
  assumes "deployment_ok L S event approves pay" and "saga_ready L event w"
  shows "let w' = saga_runs L (serve L S) pay event ds w in
    saga_at approves (map_option in_State (saga_saved event w')) (saga_reservation event w') (saga_order_status event w')
    \<and> (if saga_order_status event w' = StatusConfirmed
        then approves \<and> saga_reservation event w' = Some StatusCommitted else True)"
proof -
  have "saga_fine L event approves (saga_runs L (serve L S) pay event ds w)"
    by (rule saga_runs_fine [OF assms(1) saga_ready_fine [OF assms(2)]])
  then show ?thesis by (auto simp: saga_fine_def Let_def dest: saga_at_confirmed)
qed

text \<open>The two ways a saga can end.\<close>

definition saga_settled :: "bool \<Rightarrow> ReservationStatus option \<Rightarrow> Status \<Rightarrow> bool" where
  "saga_settled approves rv st \<longleftrightarrow>
     st = StatusConfirmed \<and> approves \<and> rv = Some StatusCommitted
     \<or> st = StatusCancelled \<and> rv \<in> {None, Some StatusReleased}"

lemma terminal_settled:
  "saga_fine L event approves w \<Longrightarrow> saga_saved event w = Some j \<Longrightarrow> Terminal j \<Longrightarrow>
   saga_settled approves (saga_reservation event w) (saga_order_status event w)"
  by (auto simp: saga_fine_def Terminal_def saga_settled_def)

lemma ended_runs:
  assumes D: "deployment_ok L S event approves pay" and j: "Terminal j"
  shows "services_inv L event w \<Longrightarrow> saga_saved event w = Some j \<Longrightarrow>
    saga_reservation event (saga_runs L (serve L S) pay event ds w) = saga_reservation event w
    \<and> saga_order_status event (saga_runs L (serve L S) pay event ds w) = saga_order_status event w"
proof (induction ds arbitrary: w)
  case (Cons d ds)
  obtain C now where d: "d = (C, now)" by fastforce
  obtain r w' where run: "Saga_Handle (orchestrator_ports L C now (serve L S) pay) event w = (r, w')" by fastforce
  from D have D': "uuid_laws L" "open_server S" "canonical L (op_OrderID event)" "gateway_ok (op_OrderID event) approves pay"
    by (simp_all add: deployment_ok_def)
  from saga_services.ended_stays [OF deployed_services [OF D'] Cons.prems(2) j Cons.prems(1) run]
  show ?case using Cons.IH [of w'] run d Cons.prems by simp
qed simp

text \<open>C21. When the handler answers nil, which is when the worker commits the offset, the saga is over:
  the order is confirmed, paid and its stock committed, or it is cancelled and holds no stock; and
  no number of further deliveries changes that.\<close>

theorem saga_nil_is_final:
  assumes D: "deployment_ok L S event approves pay" and ready: "saga_ready L event w"
    and run: "Saga_Handle (orchestrator_ports L C now (serve L S) pay) event
           (saga_runs L (serve L S) pay event before w) = (Inr (), w')"
  shows "let w'' = saga_runs L (serve L S) pay event after w' in
    saga_settled approves (saga_reservation event w'') (saga_order_status event w'')
    \<and> saga_reservation event w'' = saga_reservation event w' \<and> saga_order_status event w'' = saga_order_status event w'"
proof -
  have "saga_fine L event approves (saga_runs L (serve L S) pay event before w)"
    by (rule saga_runs_fine [OF D saga_ready_fine [OF ready]])
  from handle_fine [OF D this run] obtain j where fine: "saga_fine L event approves w'"
    and j: "saga_saved event w' = Some j" "Terminal j" by blast
  have "services_inv L event w'" using fine by (simp add: saga_fine_def)
  from ended_runs [OF D j(2) this j(1)] terminal_settled [OF fine j] show ?thesis by (simp add: Let_def)
qed

text \<open>C22. A saga whose record says PAID while its order is cancelled never answers nil, whatever the
  faults: the order cannot be confirmed any more, no branch leads back to a release, and every
  further delivery finds the record PAID and the order cancelled again.\<close>

theorem paid_cancelled_never_ends:
  assumes D: "deployment_ok L S event approves pay" and "services_inv L event w"
    and "saga_saved event w = Some i" and "in_State i = StatePaid" and "saga_order_status event w = StatusCancelled"
  shows "\<exists>e w'. Saga_Handle (orchestrator_ports L C now (serve L S) pay) event
      (saga_runs L (serve L S) pay event ds w) = (Inl e, w')
    \<and> saga_saved event w' = Some i \<and> saga_order_status event w' = StatusCancelled"
  using assms(2-)
proof (induction ds arbitrary: w)
  case Nil
  obtain r w' where run: "Saga_Handle (orchestrator_ports L C now (serve L S) pay) event w = (r, w')" by fastforce
  from D have D': "uuid_laws L" "open_server S" "canonical L (op_OrderID event)" "gateway_ok (op_OrderID event) approves pay"
    by (simp_all add: deployment_ok_def)
  from saga_services.paid_cancelled_stays [OF deployed_services [OF D'] Nil(2,3,1,4) run]
  show ?case using run by (cases r) auto
next
  case (Cons d ds)
  obtain C' now' where d: "d = (C', now')" by fastforce
  obtain r w' where run: "Saga_Handle (orchestrator_ports L C' now' (serve L S) pay) event w = (r, w')" by fastforce
  from D have D': "uuid_laws L" "open_server S" "canonical L (op_OrderID event)" "gateway_ok (op_OrderID event) approves pay"
    by (simp_all add: deployment_ok_def)
  from saga_services.paid_cancelled_stays [OF deployed_services [OF D'] Cons.prems(2,3,1,4) run]
  show ?case using Cons.IH [of w'] Cons.prems run d by simp
qed

end
