(* ===== verification/Order_Decide.thy ===== *)
theory Order_Decide
  imports Order_Calm
begin

text \<open>
  The terminal commands in a run without faults: on a pending order both Confirm and Cancel come
  to their end, and the order then loads as confirmed (cancelled) at version 2.
\<close>

section \<open>Reading back one more event\<close>

lemma decode_rows_snoc:
  "decode_rows L (rs @ [r]) =
    (case decode_rows L rs of Inl err \<Rightarrow> Inl err
     | Inr es \<Rightarrow> map_sum id (\<lambda>ev. es @ [ev]) (decodeEvent L (er_Type r) (Some (er_Payload r))))"
  by (induction rs) (simp_all add: sum.map_comp o_def map_sum_def split: sum.splits)

lemma rehydrate_snoc:
  "rehydrate_loop ord (es @ [e]) =
    (apply_event (rehydrate_loop ord es) e)\<lparr>o_version := o_version (apply_event (rehydrate_loop ord es) e) + 1\<rparr>"
  by (induction es arbitrary: ord) simp_all

text \<open>The terminal event of a command, the status it leads to and what JSONB must take of it.\<close>

definition terminal_event :: "OrderID \<Rightarrow> Status \<Rightarrow> DomainEvent \<Rightarrow> bool" where
  "terminal_event oid st e \<longleftrightarrow>
     (\<exists>now. instant_ok now \<and> (e = OrderConfirmed oid now \<and> st = StatusConfirmed
        \<or> (\<exists>reason. pg_text reason \<and> e = OrderCancelled oid reason now \<and> st = StatusCancelled)))"

lemma terminal_event_facts:
  assumes L: "uuid_laws L" and e: "terminal_event oid st e"
  shows "event_ok L e" "AggregateID e = oid" "\<exists>j. encodeEvent L e = Inr (EventType e, Some j) \<and> pg_json j"
    "\<exists>m jm. lifecycle_message L e = Some m \<and> om_EventID m = [] \<and> om_AggregateID m = OrderID_String L oid
      \<and> om_Payload m = Some jm \<and> pg_json jm \<and> om_Topic m = TopicOrderEvents \<and> om_EventType m = EventType e
      \<and> om_Headers m = json_content"
    "o_status (apply_event ord e) = st" "o_version (apply_event ord e) = o_version ord" "o_id (apply_event ord e) = o_id ord"
  using e uuid_laws.string_text [OF L]
  by (auto simp: terminal_event_def enc_storedConfirmed_def enc_storedCancelled_def enc_time_def OrderID_String_def
      Marshal_OrderConfirmed_def Marshal_OrderCancelled_def)

lemma decide_calm:
  assumes L: "uuid_laws L" and inv: "store_inv L (w_db w)" and calm: "w_faults w = []"
    and load: "Order_Load L oid w = (Inr agg, w)" and pend: "o_status agg = StatusPending"
    and e: "terminal_event oid st e"
    and tr: "pg_text (ctx_traceID C)" and hd: "pg_json (enc_headers (InjectToMap C json_content))"
    and fresh: "fresh_event L (w_db w) (w_uuids w)"
  shows "\<exists>w'. Order_Save L C (raise_event agg e) 1 (inject_all C (lifecycleOutbox L [e])) w = (Inr (), w')
    \<and> w_faults w' = [] \<and> store_inv L (w_db w') \<and> t_sagas (w_db w') = t_sagas (w_db w)
    \<and> w_uuids w' = w_uuids w + 2
    \<and> (\<exists>agg'. Order_Load L oid w' = (Inr agg', w') \<and> o_status agg' = st \<and> o_version agg' = 2 \<and> o_id agg' = oid)"
proof -
  let ?u = "OrderID_String L oid"
  note f = terminal_event_facts [OF L e]
  note p = uuid_laws.Load_pending [OF L load inv pend]
  from uuid_laws.Load_Inr [OF L load inv] obtain es where
    dec: "decode_rows L (rows_of (w_db w) ?u) = Inr es" and re: "Rehydrate es = Inr agg" by blast
  have "stream_types (w_db w) ?u = [TypeOrderPlaced]" using Load_status [OF L inv load] pend by simp
  then have one: "length (rows_of (w_db w) ?u) = 1"
    by (metis One_nat_def length_Cons length_map list.size(3) stream_types_def)
  have "numbered (rows_of (w_db w) ?u)" using inv by (simp add: store_inv_def)
  then have "er_Version r = 1" if "r \<in> set (rows_of (w_db w) ?u)" for r
    using one that by (cases "rows_of (w_db w) ?u") (auto simp: numbered_def)
  then have free: "\<not> taken (w_db w) ?u (1 + 1)" by (auto simp: taken_def rows_of_def)
  obtain j where j: "encodeEvent L e = Inr (EventType e, Some j)" "pg_json j" using f(3) by blast
  obtain m jm where m: "lifecycle_message L e = Some m" "om_EventID m = []" "om_AggregateID m = ?u"
    "om_Payload m = Some jm" "pg_json jm" "om_Topic m = TopicOrderEvents" "om_EventType m = EventType e"
    "om_Headers m = json_content" using f(4) by blast
  let ?m = "m\<lparr>om_Headers := InjectToMap C json_content\<rparr>"
  let ?w = "saved_world L C e (1 + 1) j ?m jm w"
  have out: "inject_all C (lifecycleOutbox L [e]) = [?m]"
    using m by (simp add: inject_all_def lifecycleOutbox_def List.map_filter_simps)
  have run: "Order_Save L C (raise_event agg e) 1 [?m] w = (Inr (), ?w)"
    by (rule Order_Save_calm [OF L calm _ j tr _ fresh])
      (use p f(2) m free hd in \<open>simp_all add: TopicOrderEvents_def\<close>)
  have type: "EventType e \<in> {TypeOrderConfirmed, TypeOrderCancelled}"
    using e unfolding terminal_event_def TypeOrderConfirmed_def TypeOrderCancelled_def
    by (elim exE conjE disjE) (simp_all only: EventType.simps insert_iff simp_thms)
  have may: "may_save L (w_db w) e 1 ?m"
    using m(3,7) f(2) p type by (simp add: may_save_def)
  have "saved_one L e 1 ?m (w_db w) (w_db ?w)"
    using Save_one [OF run, of e] p by simp
  from uuid_laws.store_inv_saved [OF L inv this may] have inv': "store_inv L (w_db ?w)" .
  have calm': "w_faults ?w = []" using calm by (simp add: saved_world_def)
  let ?r = "event_row L C (w_uuids w) e (1 + 1) j"
  have rows: "rows_of (w_db ?w) ?u = rows_of (w_db w) ?u @ [?r]"
    using f(2) by (simp add: rows_of_def saved_world_def event_row_def)
  have "decodeEvent L (EventType e) (Some j) = Inr e"
    using uuid_laws.decode_encode [OF L f(1)] j by simp
  then have "decode_rows L (rows_of (w_db ?w) ?u) = Inr (es @ [e])"
    unfolding rows decode_rows_snoc dec by (simp add: event_row_def)
  then have "Order_Load L oid ?w = (Inr (rehydrate_loop zero_order (es @ [e])), ?w)"
    unfolding Load_calm [OF L inv' calm'] by (simp only: sum.case Rehydrate_def) simp
  moreover have "agg = rehydrate_loop zero_order es" using re by (simp add: Rehydrate_Inr)
  ultimately show ?thesis
    using run inv' f(5-7) p calm
    by (intro exI [of _ ?w]) (simp add: out rehydrate_snoc saved_world_def)
qed

text \<open>What both commands achieve: the order loads with status \<open>st\<close>.\<close>

definition decided :: "golib \<Rightarrow> OrderID \<Rightarrow> Status \<Rightarrow> order_db world \<Rightarrow> order_db world \<Rightarrow> bool" where
  "decided L oid st w w' \<longleftrightarrow>
     w_faults w' = [] \<and> store_inv L (w_db w') \<and> t_sagas (w_db w') = t_sagas (w_db w)
     \<and> w_uuids w' = w_uuids w + 2
     \<and> (\<exists>agg'. Order_Load L oid w' = (Inr agg', w') \<and> o_status agg' = st \<and> o_version agg' = 2 \<and> o_id agg' = oid)"

lemma commands_calm:
  assumes L: "uuid_laws L" and inv: "store_inv L (w_db w)" and calm: "w_faults w = []"
    and load: "Order_Load L oid w = (Inr agg, w)" and pend: "o_status agg = StatusPending"
    and now: "instant_ok now" and reason: "pg_text reason"
    and tr: "pg_text (ctx_traceID C)" and hd: "pg_json (enc_headers (InjectToMap C json_content))"
    and fresh: "fresh_event L (w_db w) (w_uuids w)"
  shows "\<exists>w'. Confirm_Handle L C now (OrderID_String L oid) w = (Inr (), w') \<and> decided L oid StatusConfirmed w w'"
    and "\<exists>w'. Cancel_Handle L C now (OrderID_String L oid) reason w = (Inr (), w') \<and> decided L oid StatusCancelled w w'"
proof -
  note p = uuid_laws.Load_pending [OF L load inv pend]
  have parse: "ParseOrderID L (OrderID_String L oid) = Inr oid"
    using uuid_laws.parse_string [OF L] uuid_laws.string_trim [OF L] uuid_laws.string_nonempty [OF L]
    by (cases oid) (simp add: ParseOrderID_def OrderID_String_def)
  have c: "Confirm agg now = Inr (raise_event agg (OrderConfirmed oid now))"
    "Cancel agg reason now = Inr (raise_event agg (OrderCancelled oid reason now))"
    using p pend by (simp_all add: Confirm_def Cancel_def)
  have e: "terminal_event oid StatusConfirmed (OrderConfirmed oid now)"
    "terminal_event oid StatusCancelled (OrderCancelled oid reason now)"
    using now reason by (auto simp: terminal_event_def)
  show "\<exists>w'. Confirm_Handle L C now (OrderID_String L oid) w = (Inr (), w') \<and> decided L oid StatusConfirmed w w'"
    using decide_calm [OF L inv calm load pend e(1) tr hd fresh] c(1) p parse load
    by (auto simp: Confirm_Handle_def and_then_def of_result_def map_err_def Let_def decided_def)
  show "\<exists>w'. Cancel_Handle L C now (OrderID_String L oid) reason w = (Inr (), w') \<and> decided L oid StatusCancelled w w'"
    using decide_calm [OF L inv calm load pend e(2) tr hd fresh] c(2) p parse load
    by (auto simp: Cancel_Handle_def and_then_def of_result_def map_err_def Let_def decided_def)
qed

text \<open>Without faults a pending order can always be decided, both ways: Confirm and Cancel answer nil,
  and loading the order then gives the same order, confirmed (cancelled), at version 2.\<close>

theorem pending_order_decided:
  assumes "uuid_laws L" and "store_inv L (w_db w)" and "w_faults w = []"
    and "Order_Load L oid w = (Inr agg, w)" and "o_status agg = StatusPending"
    and "instant_ok now" and "pg_text reason"
    and "pg_text (ctx_traceID C)" and "pg_json (enc_headers (InjectToMap C json_content))"
    and "fresh_event L (w_db w) (w_uuids w)"
  shows "\<exists>w1 w2 agg1 agg2.
      Confirm_Handle L C now (OrderID_String L oid) w = (Inr (), w1)
    \<and> Order_Load L oid w1 = (Inr agg1, w1) \<and> o_status agg1 = StatusConfirmed \<and> o_version agg1 = 2 \<and> o_id agg1 = oid
    \<and> Cancel_Handle L C now (OrderID_String L oid) reason w = (Inr (), w2)
    \<and> Order_Load L oid w2 = (Inr agg2, w2) \<and> o_status agg2 = StatusCancelled \<and> o_version agg2 = 2 \<and> o_id agg2 = oid"
  using commands_calm [OF assms] unfolding decided_def by blast

text \<open>The sample order, confirmed.\<close>

lemma sample_placed:
  "\<exists>w agg. PlaceOrder_Handle std_lib sample_ctx 0 (sample_cmd [sample_line]) empty_world
      = (Inr \<lparr>rs_OrderID = uuid_String std_lib 1, rs_Status = ''PENDING'', rs_Idempotent = False\<rparr>, w)
    \<and> store_inv std_lib (w_db w) \<and> w_faults w = [] \<and> Order_Load std_lib (OrderID 1) w = (Inr agg, w)
    \<and> o_status agg = StatusPending \<and> fresh_event std_lib (w_db w) (w_uuids w)
    \<and> fresh_event std_lib (w_db w) (w_uuids w + 1) \<and> t_sagas (w_db w) = []"
proof -
  obtain w where run: "PlaceOrder_Handle std_lib sample_ctx 0 (sample_cmd [sample_line]) empty_world
      = (Inr \<lparr>rs_OrderID = uuid_String std_lib 1, rs_Status = ''PENDING'', rs_Idempotent = False\<rparr>, w)"
    and w: "w_faults w = []" "w_uuids w = 3" "t_sagas (w_db w) = []"
      "map er_EventID (t_events (w_db w)) = [uuid_String std_lib 2]"
      "map ob_EventID (t_outbox (w_db w)) = [uuid_String std_lib 3]"
    by (rule exE [OF sample_run]) (elim conjE, rule that; assumption)
  have inv0: "store_inv std_lib (w_db empty_world)" by (simp add: empty_world_def empty_inv)
  have items: "buildLineItems std_lib (pc_Lines (sample_cmd [sample_line])) = Inr [sample_item]"
    by (simp add: buildLineItems_def sample_cmd_def build_sample)
  have new: "\<not> rs_Idempotent \<lparr>rs_OrderID = uuid_String std_lib 1, rs_Status = ''PENDING'', rs_Idempotent = False\<rparr>"
    by simp
  obtain e where "store_inv std_lib (w_db w)"
    by (rule place_stores_at [OF std.golib_laws_axioms inv0 run new items])
  moreover obtain oid agg where ld: "OrderID_String std_lib oid = uuid_String std_lib 1"
    "Order_Load std_lib oid w = (Inr agg, w)" "o_status agg = StatusPending"
    using accepted_loads [OF std.golib_laws_axioms inv0 run new items _ w(1)]
    by (auto simp: exact_total_def exact_line_def sample_item_def)
  moreover have inj: "u = v" if "uuid_String std_lib u = uuid_String std_lib v" for u v
    using arg_cong [OF that, of "uuid_Parse std_lib"] by (simp only: std.parse_string option.inject)
  have "oid = OrderID 1" using ld(1) by (cases oid) (auto simp: OrderID_String_def dest: inj)
  moreover have "fresh_event std_lib (w_db w) (w_uuids w)" "fresh_event std_lib (w_db w) (w_uuids w + 1)"
  proof -
    have n: "uuid_New std_lib 3 = 4" "uuid_New std_lib 4 = 5" "uuid_New std_lib 5 = 6" by (simp_all add: std_lib_def)
    have "uuid_String std_lib 2 \<noteq> uuid_String std_lib 4" "uuid_String std_lib 3 \<noteq> uuid_String std_lib 5"
      "uuid_String std_lib 2 \<noteq> uuid_String std_lib 5" "uuid_String std_lib 3 \<noteq> uuid_String std_lib 6"
      using inj [of 2 4] inj [of 3 5] inj [of 2 5] inj [of 3 6] by auto
    moreover have "er_EventID r = uuid_String std_lib 2" if "r \<in> set (t_events (w_db w))" for r
      using arg_cong [OF w(4), of set] imageI [OF that, of er_EventID] by simp
    moreover have "ob_EventID r = uuid_String std_lib 3" if "r \<in> set (t_outbox (w_db w))" for r
      using arg_cong [OF w(5), of set] imageI [OF that, of ob_EventID] by simp
    ultimately show "fresh_event std_lib (w_db w) (w_uuids w)" "fresh_event std_lib (w_db w) (w_uuids w + 1)"
      using w(2) n by (simp_all add: fresh_event_def)
  qed
  ultimately show ?thesis using run w by blast
qed

theorem pending_order_decided_witness:
  "\<exists>w w1 agg1. Confirm_Handle std_lib sample_ctx 0 (uuid_String std_lib 1) w = (Inr (), w1)
    \<and> Order_Load std_lib (OrderID 1) w1 = (Inr agg1, w1) \<and> o_status agg1 = StatusConfirmed"
proof -
  obtain w agg where w: "store_inv std_lib (w_db w)" "w_faults w = []"
    "Order_Load std_lib (OrderID 1) w = (Inr agg, w)" "o_status agg = StatusPending"
    "fresh_event std_lib (w_db w) (w_uuids w)"
    using sample_placed by blast
  from pending_order_decided [OF std.uuid_laws_axioms w(1-4) instant_zero, of "[]" sample_ctx] w(5)
  show ?thesis
    by (auto simp: sample_ctx_def InjectToMap_def json_content_def enc_headers_def HeaderContentType_def OrderID_String_def)
qed

end
