(* ===== verification/Order_Projection.thy ===== *)
theory Order_Projection
  imports Order_Calm
begin

text \<open>
  The read model (app/projection, worker/projector): what each event does to the row of its
  order, how the projector treats poison messages, and what redelivery does to the status.
\<close>

definition row_of :: "order_db \<Rightarrow> string \<Rightarrow> OrderProjection option" where
  "row_of d u = map_of (t_projections d) u"

definition placed_row :: "OrderPlacedV1 \<Rightarrow> time \<Rightarrow> OrderProjection" where
  "placed_row e t =
     \<lparr>pj_OrderID = op_OrderID e, pj_CustomerID = op_CustomerID e, pj_Status = ''PENDING'',
      pj_TotalMinor = op_TotalMinor e, pj_Currency = op_Currency e, pj_Version = 1,
      pj_PlacedAt = pg_timestamp t\<rparr>"

text \<open>A placement as the order service publishes it: canonical identifiers, a time it formatted.\<close>

definition wire_ok :: "golib \<Rightarrow> OrderPlacedV1 \<Rightarrow> time \<Rightarrow> bool" where
  "wire_ok L e t =
     ((\<exists>u. op_OrderID e = uuid_String L u) \<and> (\<exists>c. op_CustomerID e = uuid_String L c)
      \<and> pg_text (op_Currency e) \<and> ParsePlacedAt e = Inr t)"

lemma apply_placed:
  assumes L: "uuid_laws L" and ok: "wire_ok L e t" and calm: "w_faults w = []"
    and v: "row_of (w_db w) (op_OrderID e) = None \<or> row_of (w_db w) (op_OrderID e) = Some p \<and> pj_Version p = 1"
  shows "\<exists>d. Projection_Apply L TypeOrderPlaced (Marshal_OrderPlaced e) w = (Inr (), w\<lparr>w_db := d\<rparr>)
    \<and> row_of d (op_OrderID e) = Some (placed_row e t)
    \<and> (\<forall>u. u \<noteq> op_OrderID e \<longrightarrow> row_of d u = row_of (w_db w) u)"
proof -
  have "pg_uuid L (op_OrderID e) = Some (op_OrderID e)" "pg_uuid L (op_CustomerID e) = Some (op_CustomerID e)"
    using ok uuid_laws.pg_uuid_string [OF L] by (auto simp: wire_ok_def)
  then show ?thesis
    using ok calm v
    by (auto simp: Projection_Apply_def applyOrderPlaced_def and_then_def map_err_def of_result_def
        wire_ok_def UpsertOrderPlaced_def db_stmt_calm upsert_projection_def with_uuid_def pg_reject_def
        placed_row_def row_of_def Let_def update_conv')
qed

lemma apply_terminal:
  assumes L: "uuid_laws L" and u: "oid = uuid_String L k" and calm: "w_faults w = []"
    and c: "ty = TypeOrderConfirmed \<and> body = Marshal_OrderConfirmed \<lparr>oc_OrderID = oid, oc_ConfirmedAt = at\<rparr>
          \<and> st = ''CONFIRMED''
      \<or> ty = TypeOrderCancelled \<and> body = Marshal_OrderCancelled \<lparr>ox_OrderID = oid, ox_Reason = r, ox_CancelledAt = at\<rparr>
          \<and> st = ''CANCELLED''"
  shows "\<exists>d. Projection_Apply L ty body w = (Inr (), w\<lparr>w_db := d\<rparr>)
    \<and> row_of d oid = map_option (\<lambda>p. p\<lparr>pj_Status := st\<rparr>) (row_of (w_db w) oid)
    \<and> (\<forall>u. u \<noteq> oid \<longrightarrow> row_of d u = row_of (w_db w) u)"
proof -
  have pg: "pg_uuid L oid = Some oid" using u uuid_laws.pg_uuid_string [OF L] by simp
  have ne: "TypeOrderConfirmed \<noteq> TypeOrderPlaced" "TypeOrderCancelled \<noteq> TypeOrderPlaced"
    "TypeOrderCancelled \<noteq> TypeOrderConfirmed"
    by (simp_all add: TypeOrderConfirmed_def TypeOrderPlaced_def TypeOrderCancelled_def)
  have st: "pg_text st" using c by auto
  have "\<exists>d. update_status L oid st (w_db w) = Inr ((), d)
    \<and> row_of d oid = map_option (\<lambda>p. p\<lparr>pj_Status := st\<rparr>) (row_of (w_db w) oid)
    \<and> (\<forall>u. u \<noteq> oid \<longrightarrow> row_of d u = row_of (w_db w) u)"
    using pg st
    by (auto simp: update_status_def with_uuid_def pg_reject_def row_of_def update_conv' split: option.split)
  then show ?thesis
    using c calm ne
    by (auto simp: Projection_Apply_def applyOrderConfirmed_def applyOrderCancelled_def and_then_def
        map_err_def of_result_def UpdateStatus_def db_stmt_calm)
qed

text \<open>A stream of messages of one order, as the projector sees it: any deliveries and redeliveries.\<close>

datatype wire_event = WPlaced | WConfirmed string | WCancelled string string

fun wire_apply :: "golib \<Rightarrow> OrderPlacedV1 \<Rightarrow> wire_event \<Rightarrow> unit order_act" where
  "wire_apply L e WPlaced = Projection_Apply L TypeOrderPlaced (Marshal_OrderPlaced e)"
| "wire_apply L e (WConfirmed at) =
     Projection_Apply L TypeOrderConfirmed (Marshal_OrderConfirmed \<lparr>oc_OrderID = op_OrderID e, oc_ConfirmedAt = at\<rparr>)"
| "wire_apply L e (WCancelled r at) =
     Projection_Apply L TypeOrderCancelled (Marshal_OrderCancelled
       \<lparr>ox_OrderID = op_OrderID e, ox_Reason = r, ox_CancelledAt = at\<rparr>)"

text \<open>The specification: the last message of the log decides the status, once the order is there.\<close>

fun wire_status :: "string option \<Rightarrow> wire_event \<Rightarrow> string option" where
  "wire_status s WPlaced = Some ''PENDING''"
| "wire_status s (WConfirmed at) = map_option (\<lambda>_. ''CONFIRMED'') s"
| "wire_status s (WCancelled r at) = map_option (\<lambda>_. ''CANCELLED'') s"

definition row_status :: "order_db \<Rightarrow> OrderPlacedV1 \<Rightarrow> time \<Rightarrow> string option \<Rightarrow> bool" where
  "row_status d e t s = (row_of d (op_OrderID e) = map_option (\<lambda>s. (placed_row e t)\<lparr>pj_Status := s\<rparr>) s)"

lemma wire_step:
  assumes L: "uuid_laws L" and ok: "wire_ok L e t" and calm: "w_faults w = []"
    and s: "row_status (w_db w) e t s"
  shows "\<exists>d. wire_apply L e ev w = (Inr (), w\<lparr>w_db := d\<rparr>) \<and> row_status d e t (wire_status s ev)"
proof (cases ev)
  case WPlaced
  have "row_of (w_db w) (op_OrderID e) = None
      \<or> (\<exists>p. row_of (w_db w) (op_OrderID e) = Some p \<and> pj_Version p = 1)"
    using s by (cases s) (auto simp: row_status_def placed_row_def)
  with apply_placed [OF L ok calm] show ?thesis
    by (fastforce simp: WPlaced row_status_def placed_row_def)
next
  case (WConfirmed at)
  from ok obtain k where "op_OrderID e = uuid_String L k" by (auto simp: wire_ok_def)
  from apply_terminal [OF L this calm, of TypeOrderConfirmed _ at "''CONFIRMED''"] s
  show ?thesis by (auto simp: WConfirmed row_status_def option.map_comp comp_def)
next
  case (WCancelled r at)
  from ok obtain k where "op_OrderID e = uuid_String L k" by (auto simp: wire_ok_def)
  from apply_terminal [OF L this calm, of TypeOrderCancelled _ at "''CANCELLED''" r] s
  show ?thesis by (auto simp: WCancelled row_status_def option.map_comp comp_def)
qed

lemma fold_log:
  assumes "uuid_laws L" and "wire_ok L e t" and "w_faults w = []" and "row_status (w_db w) e t s"
  shows "\<exists>d. for_each (wire_apply L e) evs w = (Inr (), w\<lparr>w_db := d\<rparr>)
    \<and> row_status d e t (fold (\<lambda>ev s. wire_status s ev) evs s)"
  using assms(3,4)
proof (induction evs arbitrary: w s)
  case Nil
  then show ?case by (intro exI [of _ "w_db w"]) (simp add: ok_def)
next
  case (Cons ev evs)
  from wire_step [OF assms(1,2) Cons.prems] obtain d where
    d: "wire_apply L e ev w = (Inr (), w\<lparr>w_db := d\<rparr>)" "row_status d e t (wire_status s ev)" by blast
  from Cons.IH [of "w\<lparr>w_db := d\<rparr>", OF _ _] d(2) Cons.prems(1) obtain d' where
    "for_each (wire_apply L e) evs (w\<lparr>w_db := d\<rparr>) = (Inr (), w\<lparr>w_db := d'\<rparr>)"
    "row_status d' e t (fold (\<lambda>ev s. wire_status s ev) evs (wire_status s ev))"
    by auto
  with d(1) show ?case by (auto simp: and_then_def)
qed

text \<open>C8. The projection refines a fold over the log: applying any sequence of deliveries of an
  order's events succeeds and leaves a row with the data of its placement and the status that
  folding the log gives, where a placement always sets PENDING.\<close>

theorem projection_folds_log:
  assumes "uuid_laws L" and "wire_ok L e t" and "w_faults w = []" and "row_status (w_db w) e t s"
  shows "\<exists>d. for_each (wire_apply L e) evs w = (Inr (), w\<lparr>w_db := d\<rparr>)
    \<and> row_status d e t (fold (\<lambda>ev s. wire_status s ev) evs s)"
  using assms by (rule fold_log)

text \<open>C9. A redelivered placement takes the status back: after the placement and the confirmation of an
  order were applied, applying the placement once more sets the row to PENDING and keeps its
  version at 1, so the version guard of the upsert does not protect the newer status.\<close>

theorem redelivered_placement_reverts:
  assumes "uuid_laws L" and "wire_ok L e t" and "w_faults w = []" and "row_of (w_db w) (op_OrderID e) = None"
  shows "\<exists>d p. for_each (wire_apply L e) [WPlaced, WConfirmed at, WPlaced] w = (Inr (), w\<lparr>w_db := d\<rparr>)
    \<and> row_of d (op_OrderID e) = Some p \<and> pj_Status p = ''PENDING'' \<and> pj_Version p = 1"
proof -
  have "row_status (w_db w) e t None" using assms(4) by (simp add: row_status_def)
  from fold_log [OF assms(1-3) this, of "[WPlaced, WConfirmed at, WPlaced]"] show ?thesis
    by (auto simp: row_status_def placed_row_def)
qed

section \<open>The projector\<close>

lemma db_stmt_error: "db_stmt f w = (Inl e, w') \<Longrightarrow> e = Foreign ''pgx'' \<or> (\<exists>d. f d = Inl e)"
  by (auto simp: db_stmt_def split: fault.splits sum.splits prod.splits)

lemma upsert_error: "upsert_projection L p d = Inl e \<Longrightarrow> \<not> is_permanent e"
  by (auto simp: upsert_projection_def with_uuid_def pg_reject_def Let_def split: option.splits if_splits)

lemma status_error: "update_status L i s d = Inl e \<Longrightarrow> \<not> is_permanent e"
  by (auto simp: update_status_def with_uuid_def pg_reject_def split: option.splits if_splits)

lemma store_errors_transient:
  "UpsertOrderPlaced L p w = (Inl e, w') \<Longrightarrow> \<not> is_permanent e"
  "UpdateStatus L i s w = (Inl e, w') \<Longrightarrow> \<not> is_permanent e"
  by (auto simp: UpsertOrderPlaced_def UpdateStatus_def map_err_def split: prod.splits sum.splits
      dest!: db_stmt_error dest: upsert_error status_error)

lemma permanent_unparseable:
  assumes "Projection_Apply L ty payload w = (Inl err, w1)" and "is_permanent err"
  shows "ty = TypeOrderPlaced \<and> (\<forall>e. UnmarshalOrderPlaced payload = Inr e \<longrightarrow> (\<exists>err. ParsePlacedAt e = Inl err))
    \<or> ty = TypeOrderConfirmed \<and> (\<exists>err. UnmarshalOrderConfirmed payload = Inl err)
    \<or> ty = TypeOrderCancelled \<and> (\<exists>err. UnmarshalOrderCancelled payload = Inl err)"
proof -
  have p: "\<exists>err. ParsePlacedAt e = Inl err"
    if "applyOrderPlaced L payload w = (Inl err, w1)" "UnmarshalOrderPlaced payload = Inr e" for e
    using that assms(2) store_errors_transient
    by (cases "ParsePlacedAt e") (fastforce simp: applyOrderPlaced_def and_then_def of_result_def map_err_def
        split: prod.splits sum.splits)+
  have c: "\<exists>err. UnmarshalOrderConfirmed payload = Inl err" if "applyOrderConfirmed L payload w = (Inl err, w1)"
    using that assms(2) store_errors_transient
    by (cases "UnmarshalOrderConfirmed payload") (fastforce simp: applyOrderConfirmed_def and_then_def
        of_result_def map_err_def split: prod.splits sum.splits)+
  have x: "\<exists>err. UnmarshalOrderCancelled payload = Inl err" if "applyOrderCancelled L payload w = (Inl err, w1)"
    using that assms(2) store_errors_transient
    by (cases "UnmarshalOrderCancelled payload") (fastforce simp: applyOrderCancelled_def and_then_def
        of_result_def map_err_def split: prod.splits sum.splits)+
  from assms(1) p c x show ?thesis
    by (auto simp: Projection_Apply_def ok_def split: if_splits)
qed

text \<open>The projector commits the offset of a message only when the message was applied, or when it
  can never be parsed and a copy with its origin was accepted on the dead-letter topic; a
  database failure is never dead-lettered.\<close>

theorem projector_commits_handled:
  assumes "projector_step L dlq error_text d w = (Inr (), w')"
  defines "ty \<equiv> headerValue (msg_Headers (dl_message d)) HeaderEventType"
    and "payload \<equiv> msg_Value (dl_message d)"
  shows "(\<exists>w1. Projection_Apply L ty payload w = (Inr (), w1))
    \<or> (\<exists>cause. dlq_message dlq d cause \<in> set (w_sent w')
        \<and> (ty = TypeOrderPlaced \<and> (\<forall>e. UnmarshalOrderPlaced payload = Inr e \<longrightarrow> (\<exists>err. ParsePlacedAt e = Inl err))
           \<or> ty = TypeOrderConfirmed \<and> (\<exists>err. UnmarshalOrderConfirmed payload = Inl err)
           \<or> ty = TypeOrderCancelled \<and> (\<exists>err. UnmarshalOrderCancelled payload = Inl err)))"
proof -
  obtain r w1 where ap: "Projection_Apply L ty payload w = (r, w1)" by fastforce
  show ?thesis
  proof (cases r)
    case (Inr x)
    with ap show ?thesis by simp
  next
    case (Inl err)
    with assms(1) ap have perm: "is_permanent err"
      and "and_then (wrap_err ''dead-letter publish'' (DeadLetter_Publish dlq error_text d err))
             (\<lambda>_. wrap_err ''commit offset'' CommitMessages) w1 = (Inr (), w')"
      by (auto simp: projector_step_def consume_def ty_def payload_def split: if_splits)
    then have "dlq_message dlq d (error_text err) \<in> set (w_sent w')"
      by (auto simp: run_Inr DeadLetter_Publish_def CommitMessages_def broker_call_def next_fault_sent
          split: fault.splits prod.splits)
    moreover have "ty = TypeOrderPlaced \<and> (\<forall>e. UnmarshalOrderPlaced payload = Inr e \<longrightarrow> (\<exists>err. ParsePlacedAt e = Inl err))
           \<or> ty = TypeOrderConfirmed \<and> (\<exists>err. UnmarshalOrderConfirmed payload = Inl err)
           \<or> ty = TypeOrderCancelled \<and> (\<exists>err. UnmarshalOrderCancelled payload = Inl err)"
      using ap perm unfolding Inl by (rule permanent_unparseable)
    ultimately show ?thesis by blast
  qed
qed

section \<open>Witnesses\<close>

definition sample_wire :: OrderPlacedV1 where
  "sample_wire = \<lparr>op_OrderID = uuid_String std_lib 1, op_CustomerID = uuid_String std_lib 7, op_Items = [],
     op_ShipTo = zero_address, op_TotalMinor = 3000, op_Currency = ''USD'', op_PlacedAt = FormatTime 0\<rparr>"

lemma sample_wire_ok: "\<exists>t. wire_ok std_lib sample_wire t"
  using parse_FormatTime [of 0] by (auto simp: wire_ok_def sample_wire_def ParsePlacedAt_def)

theorem projection_folds_log_witness:
  "\<exists>t d. for_each (wire_apply std_lib sample_wire) [WPlaced, WPlaced, WCancelled [] []] empty_world
      = (Inr (), empty_world\<lparr>w_db := d\<rparr>) \<and> row_status d sample_wire t (Some ''CANCELLED'')"
proof -
  obtain t where ok: "wire_ok std_lib sample_wire t" using sample_wire_ok by blast
  have "row_status (w_db empty_world) sample_wire t None"
    by (simp add: row_status_def row_of_def empty_world_def empty_order_db_def)
  from projection_folds_log [OF std.uuid_laws_axioms ok _ this, of "[WPlaced, WPlaced, WCancelled [] []]"]
  show ?thesis by (auto simp: empty_world_def)
qed

theorem redelivered_placement_witness:
  "\<exists>d p. for_each (wire_apply std_lib sample_wire) [WPlaced, WConfirmed [], WPlaced] empty_world
      = (Inr (), empty_world\<lparr>w_db := d\<rparr>)
    \<and> row_of d (op_OrderID sample_wire) = Some p \<and> pj_Status p = ''PENDING''"
proof -
  obtain t where ok: "wire_ok std_lib sample_wire t" using sample_wire_ok by blast
  from redelivered_placement_reverts [OF std.uuid_laws_axioms ok, of empty_world "[]"]
  show ?thesis by (auto simp: empty_world_def row_of_def empty_order_db_def)
qed

definition poison :: delivery where
  "poison = \<lparr>dl_message = \<lparr>msg_Topic = ''orders.events'', msg_Key = [], msg_Value = None,
     msg_Headers = [(HeaderEventType, TypeOrderPlaced)]\<rparr>, dl_offset = 3\<rparr>"

theorem projector_commits_witness:
  "\<exists>w' cause. projector_step std_lib ''dlq'' (\<lambda>_. ''bad'') poison empty_world = (Inr (), w')
     \<and> dlq_message ''dlq'' poison cause \<in> set (w_sent w')"
proof -
  have u: "UnmarshalOrderPlaced None = Inl (Wrapf ''unmarshal order.placed.v1'' (Foreign ''json.Unmarshal''))"
    by (simp add: UnmarshalOrderPlaced_def json_Unmarshal_def)
  have no: "Projection_Apply std_lib TypeOrderPlaced None empty_world \<noteq> (Inr (), w1)" for w1
    by (simp add: Projection_Apply_def applyOrderPlaced_def u and_then_def of_result_def map_err_def)
  obtain w' where run: "projector_step std_lib ''dlq'' (\<lambda>_. ''bad'') poison empty_world = (Inr (), w')"
    by (simp add: projector_step_def consume_def poison_def Projection_Apply_def applyOrderPlaced_def u
        and_then_def of_result_def map_err_def Permanent_def DeadLetter_Publish_def CommitMessages_def
        broker_call_def empty_world_def HeaderEventType_def)
  from projector_commits_handled [OF run] run no show ?thesis
    by (auto simp: poison_def)
qed

end
