(* ===== verification/Saga_Samples.thy ===== *)
theory Saga_Samples
  imports Saga_Deployed Order_Decide Order_Projection
begin

text \<open>
  A deployment to run: the concrete library, the inventory service with an empty stock and no
  authentication, the stub gateway, and the order of the sample placement. It is an instance of
  \<open>saga_services\<close>, and the input of the witnesses.
\<close>

definition sample_event :: OrderPlacedV1 where
  "sample_event = sample_wire\<lparr>op_Items := [\<lparr>wl_SKU = ''SKU-1'', wl_Quantity = 2, wl_UnitPriceMinor = 1500\<rparr>]\<rparr>"

definition sample_server :: inv_server where
  "sample_server = \<lparr>is_text = (\<lambda>_. ''error''), is_verify = (\<lambda>_ _. None),
     is_auth = \<lparr>au_Enabled = False, au_JWTSecret = [], au_JWTIssuer = [], au_JWTAudience = []\<rparr>,
     is_cors = [], is_fresh = (\<lambda>w. (''correlation-1'', w)), is_ping = (\<lambda>w. (True, w))\<rparr>"

definition sample_pay :: "PaymentRequest \<Rightarrow> (saga_world, order_sentinel, PaymentResult) prog" where
  "sample_pay req = on_order (Stub_Authorize std_lib ''approve'' req)"

definition bare_inventory :: inv_world where
  "bare_inventory = \<lparr>w_db = \<lparr>t_stock = [], t_reservations = [], t_lines = []\<rparr>, w_uuids = 0, w_faults = [],
     w_sent = [], w_env = []\<rparr>"

definition sample_sagas :: "order_db world \<Rightarrow> saga_world" where
  "sample_sagas w = \<lparr>sw_order = w, sw_inv = bare_inventory, sw_net = []\<rparr>"

lemma sample_deployment: "deployment_ok std_lib sample_server sample_event True sample_pay"
proof -
  have "\<not> stub_declines ''approve''" by (simp add: stub_declines_def text_simps) (code_simp)?
  then have "gateway_ok oid True sample_pay" for oid
    using stub_gateway_ok [of oid "''approve''" std_lib] by (simp add: sample_pay_def [abs_def])
  moreover have "open_server sample_server" by (simp add: open_server_def sample_server_def)
  moreover have "canonical std_lib (op_OrderID sample_event)"
    by (auto simp: canonical_def sample_event_def sample_wire_def)
  ultimately show ?thesis using std.uuid_laws_axioms by (simp add: deployment_ok_def)
qed

interpretation std_saga: saga_services
  "orchestrator_ports std_lib sample_ctx 0 (serve std_lib sample_server) sample_pay" sample_event True
  "services_inv std_lib sample_event" "saga_order_status sample_event" "saga_reservation sample_event"
  "saga_saved sample_event"
  by (rule deployed_services) (use sample_deployment in \<open>simp_all add: deployment_ok_def\<close>)

lemma bare_reserve:
  "\<exists>err. Inventory_Reserve std_lib (uuid_String std_lib 1) [\<lparr>irl_SKU = ''SKU-1'', irl_Quantity = 2\<rparr>] bare_inventory
    = (Inl err, bare_inventory) \<and> errors_Is err ErrSKUNotFound
    \<and> \<not> errors_Is err ErrValidation_inv \<and> \<not> errors_Is err ErrInvalidIdentifier_inv"
  by (simp add: Inventory_Reserve_def maxOCCRetries_def numeral_eq_Suc reserveOnce_def reserve_body_def bare_inventory_def
    findReservationByOrder_def and_then_def ok_def fail_def of_result_def map_err_def tx_stmt_def env_step_def select_reservation_def
    load_and_reserve_def loadStockItem_def select_stock_def pg_param_def stock_of_def tx_begin_def NewSKU_inv_def text_simps plain_char_def
    std.pg_uuid_string)

lemma sample_lines:
  "validate_lines [] (map input_line (event_lines sample_event)) = Inr [\<lparr>irl_SKU = ''SKU-1'', irl_Quantity = 2\<rparr>]"
  by (simp add: sample_event_def input_line_def NewSKU_inv_def NewQuantity_inv_def text_simps plain_char_def)

lemma http_call_calm:
  "sw_net w = [] \<Longrightarrow> http_call server rq w =
    (case server empty_rctx rq (sw_inv w) of
       (None, i) \<Rightarrow> (NoReply, w\<lparr>sw_inv := i\<rparr>) | (Some rp, i) \<Rightarrow> (Reply rp, w\<lparr>sw_inv := i\<rparr>))"
  by (cases w) (simp add: http_call_def split: prod.split option.split)

text \<open>The stock of the sample order is unknown: inventory answers 404 and the client reports a rejection.\<close>

lemma bare_serve:
  "\<exists>hs b. serve std_lib sample_server empty_rctx
      (client_request sample_ctx ''POST'' ''/v1/reservations''
         (Some (enc_reserve_request (uuid_String std_lib 1) (event_lines sample_event)))) bare_inventory
    = (Some \<lparr>rp_Status = 404, rp_Headers = hs, rp_Body = b\<rparr>, bare_inventory)"
proof -
  let ?rq = "client_request sample_ctx ''POST'' ''/v1/reservations''
         (Some (enc_reserve_request (uuid_String std_lib 1) (event_lines sample_event)))"
  obtain ro where ro: "find_route (inv_routes std_lib (is_text sample_server) (is_verify sample_server)
       (is_auth sample_server) (is_ping sample_server)) ?rq = Some (ro, [])"
    "ro_Handler ro = authMiddleware (is_verify sample_server) (is_auth sample_server) (http_Reserve std_lib (is_text sample_server))"
    using reserve_route by blast
  obtain err where err: "Inventory_Reserve std_lib (uuid_String std_lib 1) [\<lparr>irl_SKU = ''SKU-1'', irl_Quantity = 2\<rparr>] bare_inventory
    = (Inl err, bare_inventory)" "errors_Is err ErrSKUNotFound"
    "\<not> errors_Is err ErrValidation_inv" "\<not> errors_Is err ErrInvalidIdentifier_inv" using bare_reserve by blast
  obtain i where i: "ParseOrderID_inv std_lib (uuid_String std_lib 1) = Inr i" "OrderID_String_inv std_lib i = uuid_String std_lib 1"
    using canonical_facts(4) [OF std.uuid_laws_axioms, of "uuid_String std_lib 1"] by (auto simp: canonical_def)
  have "ReserveStock_Handle std_lib \<lparr>rsc_OrderID = uuid_String std_lib 1, rsc_Lines = map input_line (event_lines sample_event)\<rparr>
      bare_inventory = (Inl err, bare_inventory)"
    using err(1) i sample_lines by (simp add: ReserveStock_Handle_def and_then_def of_result_def) (simp add: sample_event_def)
  then have run: "http_Reserve std_lib (is_text sample_server) cx ?rq bare_inventory
     = (Some (writeError (classify_inv (is_text sample_server)) cx err), bare_inventory)" for cx
    by (simp add: http_Reserve_def decodeJSON_inv_def client_request_def reserve_roundtrip respond_inv_def and_then_def
        of_result_def)
  have S: "open_server sample_server" by (simp add: open_server_def sample_server_def)
  have m: "rq_Method ?rq \<noteq> ''OPTIONS''" by (simp add: client_request_def)
  have "classify_inv (is_text sample_server) err = (404, ''NOT_FOUND'', ''error'')"
    using err(2-4) by (simp add: classify_inv_def sample_server_def)
  then show ?thesis
    using ro run m unfolding serve_def
    by (simp add: Inventory_Router_def chain_def corsMiddleware_def correlationMiddleware_def ServeMux_def
        recoveryMiddleware_def loggingMiddleware_def metricsMiddleware_def authMiddleware_def sample_server_def Let_def writeError_def writeJSON_def)
qed

lemma bare_rejects:
  assumes "sw_inv w = bare_inventory" and "sw_net w = []"
  shows "\<exists>m. Client_Reserve (http_call (serve std_lib sample_server)) sample_ctx (uuid_String std_lib 1)
      (event_lines sample_event) w = (Inl (Detailf ErrReservationRejected m), w)"
proof -
  obtain hs b where "serve std_lib sample_server empty_rctx
      (client_request sample_ctx ''POST'' ''/v1/reservations''
         (Some (enc_reserve_request (uuid_String std_lib 1) (event_lines sample_event)))) bare_inventory
    = (Some \<lparr>rp_Status = 404, rp_Headers = hs, rp_Body = b\<rparr>, bare_inventory)" using bare_serve by blast
  with assms show ?thesis
    by (cases w) (simp add: Client_Reserve_def client_do_def http_call_calm and_then_def of_result_def reserve_outcome_def)
qed

section \<open>Running the saga table without faults\<close>

lemma Saga_Load_calm:
  assumes "uuid_laws L" "canonical L u" "w_faults w = []"
  shows "Saga_Load L u w = (Inr (saga_record (w_db w) u), w)"
  using assms canonical_facts(1) [OF assms(1,2)]
  by (simp add: Saga_Load_def map_err_def db_stmt_calm with_uuid_def saga_record_def)

lemma Saga_Save_calm:
  assumes "uuid_laws L" "canonical L (in_OrderID i)" "w_faults w = []" "\<And>s. in_State i \<noteq> StateOther s"
    "pg_text (in_PaymentRef i)" "pg_text (in_Reason i)"
  shows "\<exists>S. Saga_Save L i w = (Inr (), w\<lparr>w_db := (w_db w)\<lparr>t_sagas := S\<rparr>\<rparr>)"
proof -
  have "pg_text (SagaState_string (in_State i))" using assms(4) by (cases "in_State i") auto
  then show ?thesis using assms canonical_facts(1) [OF assms(1,2)]
    by (simp add: Saga_Save_def map_err_def db_stmt_calm upsert_saga_def with_uuid_def pg_reject_def) blast
qed

lemma sagas_apart:
  assumes "uuid_laws L" and "store_inv L (w_db w)" and "w_faults w = []" and "Order_Load L oid w = (Inr agg, w)"
  shows "store_inv L ((w_db w)\<lparr>t_sagas := S\<rparr>)"
    and "Order_Load L oid (w\<lparr>w_db := (w_db w)\<lparr>t_sagas := S\<rparr>\<rparr>) = (Inr agg, w\<lparr>w_db := (w_db w)\<lparr>t_sagas := S\<rparr>\<rparr>)"
proof -
  show inv: "store_inv L ((w_db w)\<lparr>t_sagas := S\<rparr>)"
    using assms(2) by (simp add: store_inv_def rows_of_def outbox_of_def)
  show "Order_Load L oid (w\<lparr>w_db := (w_db w)\<lparr>t_sagas := S\<rparr>\<rparr>) = (Inr agg, w\<lparr>w_db := (w_db w)\<lparr>t_sagas := S\<rparr>\<rparr>)"
    using assms(4) Load_calm [OF assms(1,2,3), of oid] Load_calm [OF assms(1), of "w\<lparr>w_db := (w_db w)\<lparr>t_sagas := S\<rparr>\<rparr>" oid]
      inv assms(3) by (simp add: rows_of_def)
qed

text \<open>A run that ends: the reservation is rejected, so the order is cancelled.\<close>

lemma rejected_ends:
  assumes L: "uuid_laws L" and oid: "OrderID_String L oid = op_OrderID event"
    and inv: "store_inv L (w_db (sw_order w))" and calm: "w_faults (sw_order w) = []"
    and load: "Order_Load L oid (sw_order w) = (Inr agg, sw_order w)" and pend: "o_status agg = StatusPending"
    and fresh: "fresh_event L (w_db (sw_order w)) (w_uuids (sw_order w))"
    and none: "saga_saved event w = None"
    and ctx: "instant_ok now" "pg_text (ctx_traceID C)" "pg_json (enc_headers (InjectToMap C json_content))"
    and rej: "\<And>d. \<exists>m i. Client_Reserve (http_call server) C (op_OrderID event) (event_lines event) (w\<lparr>sw_order := d\<rparr>)
        = (Inl (Detailf ErrReservationRejected m), w\<lparr>sw_order := d, sw_inv := i\<rparr>) \<and> Q i"
  shows "\<exists>w'. Saga_Handle (orchestrator_ports L C now server pay) event w = (Inr (), w')
    \<and> saga_order_status event w' = StatusCancelled \<and> Q (sw_inv w')"
proof -
  let ?P = "orchestrator_ports L C now server pay" and ?u = "op_OrderID event" and ?d = "sw_order w"
  let ?i = "NewInstance ?u" and ?r = "''inventory reservation rejected''"
  have can: "canonical L ?u" by (cases oid) (auto simp: canonical_def oid [symmetric] OrderID_String_def)
  obtain S1 where s1: "Saga_Save L ?i ?d = (Inr (), ?d\<lparr>w_db := (w_db ?d)\<lparr>t_sagas := S1\<rparr>\<rparr>)"
    using Saga_Save_calm [OF L, of ?i ?d] can calm by (auto simp: NewInstance_def)
  let ?d1 = "?d\<lparr>w_db := (w_db ?d)\<lparr>t_sagas := S1\<rparr>\<rparr>"
  note apart = sagas_apart [OF L inv calm load, of S1]
  obtain m i where r: "Client_Reserve (http_call server) C ?u (event_lines event) (w\<lparr>sw_order := ?d1\<rparr>)
        = (Inl (Detailf ErrReservationRejected m), w\<lparr>sw_order := ?d1, sw_inv := i\<rparr>)" and Q: "Q i"
    using rej [of ?d1] by blast
  have t: "pg_text ?r" by simp
  have fresh1: "fresh_event L (w_db ?d1) (w_uuids ?d1)" using fresh by (simp add: fresh_event_def)
  obtain d2 where d2: "Cancel_Handle L C now ?u ?r ?d1 = (Inr (), d2)" "decided L oid StatusCancelled ?d1 d2"
    using commands_calm(2) [OF L _ _ apart(2) pend ctx(1) t ctx(2,3) fresh1] apart(1) calm oid by auto
  let ?j = "?i\<lparr>in_State := StateCancelled, in_Reason := ?r\<rparr>"
  obtain S3 where s3: "Saga_Save L ?j d2 = (Inr (), d2\<lparr>w_db := (w_db d2)\<lparr>t_sagas := S3\<rparr>\<rparr>)"
    using Saga_Save_calm [OF L, of ?j d2] can d2(2) by (auto simp: NewInstance_def decided_def)
  let ?w' = "w\<lparr>sw_order := d2\<lparr>w_db := (w_db d2)\<lparr>t_sagas := S3\<rparr>\<rparr>, sw_inv := i\<rparr>"
  have "saga_start ?P ?u w = (Inr ?i, w\<lparr>sw_order := ?d1\<rparr>)"
    using Saga_Load_calm [OF L can calm] s1 none
    by (simp add: saga_start_def orchestrator_ports_def on_order_def and_then_def map_err_def ok_def saga_saved_def)
  moreover have "step_reserve ?P event ?i (w\<lparr>sw_order := ?d1\<rparr>) = (Inr None, ?w')"
    using r d2(1) s3
    by (simp add: step_reserve_def orchestrator_ports_def saga_cancel_def on_order_def and_then_def map_err_def ok_def
        orderController_Cancel_def) (simp add: NewInstance_def on_order_def map_err_def ok_def)
  ultimately have "Saga_Handle ?P event w = (Inr (), ?w')"
    by (simp add: Saga_Handle_def and_then_def Terminal_def) (simp add: NewInstance_def ok_def)
  moreover have "order_status (w_db d2) ?u = StatusCancelled"
    using d2(2) Load_status [OF L, of d2 oid] oid by (intro order_status_types) (auto simp: decided_def)
  then have "saga_order_status event ?w' = StatusCancelled"
    by (simp add: saga_order_status_def order_status_def stream_types_def rows_of_def)
  ultimately show ?thesis using Q by auto
qed

lemma sample_context:
  "pg_text (ctx_traceID sample_ctx)" "pg_json (enc_headers (InjectToMap sample_ctx json_content))"
  by (simp_all add: sample_ctx_def InjectToMap_def json_content_def enc_headers_def HeaderContentType_def)

text \<open>The stock of the sample order is unknown.\<close>

lemma rejected_run:
  assumes w: "store_inv std_lib (w_db w)" "w_faults w = []" "Order_Load std_lib (OrderID 1) w = (Inr agg, w)"
    "o_status agg = StatusPending" "fresh_event std_lib (w_db w) (w_uuids w)" "t_sagas (w_db w) = []"
  shows "\<exists>w'. Saga_Handle (orchestrator_ports std_lib sample_ctx 0 (serve std_lib sample_server) sample_pay)
      sample_event (sample_sagas w) = (Inr (), w')"
proof -
  have oid: "op_OrderID sample_event = uuid_String std_lib 1" by (simp add: sample_event_def sample_wire_def)
  have "\<exists>m i. Client_Reserve (http_call (serve std_lib sample_server)) sample_ctx (op_OrderID sample_event)
      (event_lines sample_event) ((sample_sagas w)\<lparr>sw_order := d\<rparr>)
      = (Inl (Detailf ErrReservationRejected m), (sample_sagas w)\<lparr>sw_order := d, sw_inv := i\<rparr>) \<and> i = bare_inventory" for d
    using bare_rejects [of "sample_sagas d"] oid by (simp add: sample_sagas_def)
  from rejected_ends [OF std.uuid_laws_axioms _ _ _ _ w(4) _ _ instant_zero sample_context this, of "OrderID 1"] w oid
  show ?thesis by (auto simp: sample_sagas_def OrderID_String_def saga_saved_def saga_record_def)
qed

section \<open>Witnesses\<close>

lemma sample_ready:
  assumes "store_inv std_lib (w_db w)" "Order_Load std_lib (OrderID 1) w = (Inr agg, w)" "o_status agg = StatusPending"
    "t_sagas (w_db w) = []"
  shows "saga_ready std_lib sample_event (sample_sagas w)"
proof -
  have oid: "op_OrderID sample_event = OrderID_String std_lib (OrderID 1)"
    by (simp add: sample_event_def sample_wire_def OrderID_String_def)
  have "order_status (w_db w) (op_OrderID sample_event) = StatusPending"
    using Load_status [OF std.uuid_laws_axioms assms(1,2)] assms(3) oid by (intro order_status_types) simp_all
  moreover have "ledger_ok (w_db bare_inventory)" "w_env bare_inventory = []" "status_of (w_db bare_inventory) u = None" for u
    by (simp_all add: bare_inventory_def ledger_ok_def stock_of_def status_of_def)
  ultimately show ?thesis using assms(1,4)
    by (simp add: saga_ready_def services_inv_def saga_views sample_sagas_def saga_record_def known_def)
qed

theorem saga_stays_consistent_witness:
  "\<exists>w. let w' = saga_runs std_lib (serve std_lib sample_server) sample_pay sample_event [(sample_ctx, 0), (sample_ctx, 1)]
      (sample_sagas w) in
    saga_at True (map_option in_State (saga_saved sample_event w')) (saga_reservation sample_event w')
      (saga_order_status sample_event w')"
proof -
  obtain w agg where w: "store_inv std_lib (w_db w)" "Order_Load std_lib (OrderID 1) w = (Inr agg, w)"
    "o_status agg = StatusPending" "t_sagas (w_db w) = []" using sample_placed by blast
  from saga_stays_consistent [OF sample_deployment sample_ready [OF w], of "[(sample_ctx, 0), (sample_ctx, 1)]"]
  show ?thesis unfolding Let_def by blast
qed

theorem saga_nil_is_final_witness:
  "\<exists>w w'. Saga_Handle (orchestrator_ports std_lib sample_ctx 0 (serve std_lib sample_server) sample_pay)
      sample_event (sample_sagas w) = (Inr (), w')
    \<and> saga_settled True (saga_reservation sample_event w') (saga_order_status sample_event w')"
proof -
  obtain w agg where w: "store_inv std_lib (w_db w)" "w_faults w = []" "Order_Load std_lib (OrderID 1) w = (Inr agg, w)"
    "o_status agg = StatusPending" "fresh_event std_lib (w_db w) (w_uuids w)" "t_sagas (w_db w) = []"
    using sample_placed by blast
  obtain w' where run: "Saga_Handle (orchestrator_ports std_lib sample_ctx 0 (serve std_lib sample_server) sample_pay)
      sample_event (sample_sagas w) = (Inr (), w')" using rejected_run [OF w] by blast
  from saga_nil_is_final [OF sample_deployment sample_ready [OF w(1,3,4,6)], of _ _ "[]" w' "[]"] run
  show ?thesis by (auto simp: Let_def)
qed

theorem paid_cancelled_witness:
  "\<exists>w e w'. Saga_Handle (orchestrator_ports std_lib sample_ctx 1 (serve std_lib sample_server) sample_pay) sample_event
      (saga_runs std_lib (serve std_lib sample_server) sample_pay sample_event [(sample_ctx, 0)] w) = (Inl e, w')
    \<and> saga_order_status sample_event w' = StatusCancelled"
proof -
  obtain w agg where w: "store_inv std_lib (w_db w)" "w_faults w = []" "Order_Load std_lib (OrderID 1) w = (Inr agg, w)"
    "o_status agg = StatusPending" "fresh_event std_lib (w_db w) (w_uuids w)" "t_sagas (w_db w) = []"
    using sample_placed by blast
  have rt: "pg_text ''rejected''" by simp
  obtain w2 agg2 where c: "store_inv std_lib (w_db w2)" "w_faults w2 = []" "Order_Load std_lib (OrderID 1) w2 = (Inr agg2, w2)"
    "o_status agg2 = StatusCancelled"
    using commands_calm(2) [OF std.uuid_laws_axioms w(1-4) instant_zero rt _ _ w(5), of sample_ctx]
    by (auto simp: decided_def sample_ctx_def InjectToMap_def json_content_def enc_headers_def HeaderContentType_def)
  let ?i = "NewInstance (uuid_String std_lib 1)\<lparr>in_State := StatePaid\<rparr>"
  let ?w = "sample_sagas (w2\<lparr>w_db := (w_db w2)\<lparr>t_sagas := [(uuid_String std_lib 1, ?i)]\<rparr>\<rparr>)"
  have oid: "op_OrderID sample_event = uuid_String std_lib 1" by (simp add: sample_event_def sample_wire_def)
  have "order_status (w_db w2) (uuid_String std_lib 1) = StatusCancelled"
    using Load_status [OF std.uuid_laws_axioms c(1,3)] c(4)
    by (intro order_status_types) (simp_all add: OrderID_String_def)
  then have "saga_order_status sample_event ?w = StatusCancelled"
    by (simp add: saga_order_status_def oid sample_sagas_def order_status_def stream_types_def rows_of_def)
  moreover have "services_inv std_lib sample_event ?w"
    using sagas_apart(1) [OF std.uuid_laws_axioms c(1,2,3)]
    by (simp add: services_inv_def sample_sagas_def bare_inventory_def ledger_ok_def stock_of_def status_of_def known_def)
  moreover have "saga_saved sample_event ?w = Some ?i"
    by (simp add: saga_saved_def saga_record_def oid sample_sagas_def)
  ultimately show ?thesis
    using paid_cancelled_never_ends [OF sample_deployment, of ?w ?i sample_ctx 1 "[(sample_ctx, 0)]"] by auto
qed

end
