(* ===== verification/Projector_Loop.thy ===== *)
theory Projector_Loop
  imports Consumers Order_Projection
begin

text \<open>
  The projector over its partition: after any faults, crashes and restarts, the row of an order
  holds the data of a placement of that order, and the status of a message of that order that lies
  no earlier on the log than any that is committed. The dead-letter topic is shared with the other
  workers of Worker_Loops.
\<close>

section \<open>The worker\<close>

abbreviation event_type :: "delivery \<Rightarrow> string" where
  "event_type d \<equiv> headerValue (msg_Headers (dl_message d)) HeaderEventType"

abbreviation payload :: "delivery \<Rightarrow> body" where
  "payload d \<equiv> msg_Value (dl_message d)"

definition projector_worker :: "golib \<Rightarrow> string \<Rightarrow> (oerr \<Rightarrow> string) \<Rightarrow> time \<Rightarrow> bool \<Rightarrow> delivery \<Rightarrow> order_db world
    \<Rightarrow> order_sentinel turn_end \<times> order_db world" where
  "projector_worker L dlq error_text now =
     worker_turn CommitMessages (\<lambda>d. Projection_Apply L (event_type d) (payload d))
       (DeadLetter_Publish dlq error_text) (Wrapf ''apply event'')"

section \<open>The dead-letter topic\<close>

definition dead_lettered :: "string \<Rightarrow> delivery \<Rightarrow> ('db, 'z) world_scheme \<Rightarrow> bool" where
  "dead_lettered dlq d w \<longleftrightarrow> (\<exists>cause. dlq_message dlq d cause \<in> set (w_sent w))"

lemma dead_lettered_grows: "sent_grows m \<Longrightarrow> m w = (r, w') \<Longrightarrow> dead_lettered dlq d w \<Longrightarrow> dead_lettered dlq d w'"
  unfolding sent_grows_def dead_lettered_def using set_mono_prefix by (metis snd_conv subsetD)

lemma dead_letter_sent: "DeadLetter_Publish dlq et d err w = (Inr (), w') \<Longrightarrow> dead_lettered dlq d w'"
  by (auto simp: DeadLetter_Publish_def broker_call_def dead_lettered_def next_fault_sent split: fault.splits prod.splits)

text \<open>What a turn leaves of the state its handler left.\<close>

lemma broker_call_db: "broker_call ms w = (r, w') \<Longrightarrow> w_db w' = w_db w"
  by (auto simp: broker_call_def next_fault_db split: prod.splits fault.splits)

lemma turn_handled:
  fixes w w' :: "('db, 'z) world_scheme"
  assumes turn: "worker_turn CommitMessages handle (DeadLetter_Publish dlq et) wrap stopped d w = (t, w')"
  obtains r w1 where "handle d w = (r, w1)" "w_db w' = w_db w1" "prefix (w_sent w1) (w_sent w')"
    "(\<forall>err. t \<noteq> Abandoned err) \<longrightarrow> r = Inr () \<or> dead_lettered dlq d w'"
proof -
  obtain r w1 where h: "handle d w = (r, w1)" by fastforce
  obtain r2 w2 where m: "handle_or_route handle (DeadLetter_Publish dlq et) wrap d w = (r2, w2)" by fastforce
  have 1: "w_db w2 = w_db w1" "prefix (w_sent w1) (w_sent w2)" "r2 = Inr () \<longrightarrow> r = Inr () \<or> dead_lettered dlq d w2"
  proof -
    have "w_db w2 = w_db w1 \<and> prefix (w_sent w1) (w_sent w2) \<and> (r2 = Inr () \<longrightarrow> r = Inr () \<or> dead_lettered dlq d w2)"
    proof (cases "\<exists>err. r = Inl err \<and> is_permanent err")
      case True
      then obtain err where r: "r = Inl err" "is_permanent err" by blast
      obtain r3 where p: "DeadLetter_Publish dlq et d err w1 = (r3, w2)" and r3: "r2 = Inr () \<longrightarrow> r3 = Inr ()"
        using m h r by (auto simp: handle_or_route_def map_err_def split: prod.splits sum.splits)
      have "dead_lettered dlq d w2" if "r2 = Inr ()" using p r3 that dead_letter_sent by blast
      moreover have "w_db w2 = w_db w1" using p broker_call_db by (auto simp: DeadLetter_Publish_def)
      moreover have "prefix (w_sent w1) (w_sent w2)"
        using p sent_grows_broker_call [of "[dlq_message dlq d (et err)]"]
        unfolding DeadLetter_Publish_def WriteMessages_one sent_grows_def by (metis snd_conv)
      ultimately show ?thesis by blast
    next
      case False
      then show ?thesis using m h by (auto simp: handle_or_route_def split: sum.splits if_splits)
    qed
    then show "w_db w2 = w_db w1" "prefix (w_sent w1) (w_sent w2)" "r2 = Inr () \<longrightarrow> r = Inr () \<or> dead_lettered dlq d w2"
      by blast+
  qed
  show thesis
  proof (cases r2)
    case (Inl err)
    then show thesis using that [OF h] 1 m turn by (auto simp: worker_turn_def)
  next
    case (Inr u)
    obtain r4 w4 where c: "CommitMessages w2 = (r4 :: 'a err + unit, w4)" by fastforce
    then have w': "w' = w4" using m Inr turn by (cases r4) (auto simp: worker_turn_def)
    have "w_db w4 = w_db w2" using c broker_call_db by (auto simp: CommitMessages_def)
    moreover have "prefix (w_sent w2) (w_sent w4)"
      using c sent_grows_broker_call [of "[]"] unfolding CommitMessages_def sent_grows_def by (metis snd_conv)
    moreover from this have "dead_lettered dlq d w2 \<Longrightarrow> dead_lettered dlq d w4"
      unfolding dead_lettered_def using set_mono_prefix by blast
    ultimately show thesis using that [OF h] 1 Inr w' by (auto intro: prefix_order.trans)
  qed
qed

lemma turn_fine:
  assumes "handle d w = (Inr (), w1)" and "w_faults w1 = []"
  shows "worker_turn CommitMessages handle dead_letter wrap stopped d w = (Committed, w1)"
  using assms by (simp add: worker_turn_def handle_or_route_def CommitMessages_def broker_call_def)

section \<open>What a message does to the rows\<close>

text \<open>The order a message is about, as the row's key, and the status it stands for.\<close>

definition projects :: "golib \<Rightarrow> delivery \<Rightarrow> (string \<times> string) option" where
  "projects L d =
     (if event_type d = TypeOrderPlaced
      then (case UnmarshalOrderPlaced (payload d) of
              Inl _ \<Rightarrow> None | Inr e \<Rightarrow> map_option (\<lambda>u. (u, ''PENDING'')) (pg_uuid L (op_OrderID e)))
      else if event_type d = TypeOrderConfirmed
      then (case UnmarshalOrderConfirmed (payload d) of
              Inl _ \<Rightarrow> None | Inr e \<Rightarrow> map_option (\<lambda>u. (u, ''CONFIRMED'')) (pg_uuid L (oc_OrderID e)))
      else if event_type d = TypeOrderCancelled
      then (case UnmarshalOrderCancelled (payload d) of
              Inl _ \<Rightarrow> None | Inr e \<Rightarrow> map_option (\<lambda>u. (u, ''CANCELLED'')) (pg_uuid L (ox_OrderID e)))
      else None)"

text \<open>The row a placement writes, but for the status.\<close>

definition placed_by :: "golib \<Rightarrow> delivery \<Rightarrow> string \<Rightarrow> OrderProjection \<Rightarrow> bool" where
  "placed_by L d u p \<longleftrightarrow> event_type d = TypeOrderPlaced \<and>
     (\<exists>e t c. UnmarshalOrderPlaced (payload d) = Inr e \<and> pg_uuid L (op_OrderID e) = Some u \<and> ParsePlacedAt e = Inr t
        \<and> pg_uuid L (op_CustomerID e) = Some c
        \<and> p = \<lparr>pj_OrderID = u, pj_CustomerID = c, pj_Status = pj_Status p, pj_TotalMinor = op_TotalMinor e,
               pj_Currency = op_Currency e, pj_Version = 1, pj_PlacedAt = pg_timestamp t\<rparr>)"

lemma placed_by_status: "placed_by L d u (p\<lparr>pj_Status := s\<rparr>) = placed_by L d u p"
  by (cases p) (simp add: placed_by_def)

text \<open>The rows before and after a message took effect.\<close>

definition touches :: "golib \<Rightarrow> delivery \<Rightarrow> order_db \<Rightarrow> order_db \<Rightarrow> bool" where
  "touches L d db db' \<longleftrightarrow> (\<exists>u st. projects L d = Some (u, st) \<and> (\<forall>v. v \<noteq> u \<longrightarrow> row_of db' v = row_of db v)
     \<and> (if event_type d = TypeOrderPlaced then \<exists>p. row_of db' u = Some p \<and> pj_Status p = st \<and> placed_by L d u p
        else row_of db' u = map_option (\<lambda>p. p\<lparr>pj_Status := st\<rparr>) (row_of db u)))"

text \<open>The rows the projector writes are all of version 1, so the guard of its upsert lets every placement pass.\<close>

definition first_versions :: "order_db \<Rightarrow> bool" where
  "first_versions db \<longleftrightarrow> (\<forall>u p. row_of db u = Some p \<longrightarrow> pj_Version p = 1)"

definition order_event :: "delivery \<Rightarrow> bool" where
  "order_event d \<longleftrightarrow> event_type d \<in> {TypeOrderPlaced, TypeOrderConfirmed, TypeOrderCancelled}"

lemmas order_types = TypeOrderPlaced_def TypeOrderConfirmed_def TypeOrderCancelled_def

lemma db_stmt_outcome:
  "db_stmt f w = (r, w') \<Longrightarrow>
   w_db w' = w_db w \<and> (\<forall>a. r \<noteq> Inr a) \<or> (\<exists>a. f (w_db w) = Inr (a, w_db w'))"
  by (auto simp: db_stmt_def next_fault_def split: list.splits fault.splits sum.splits prod.splits)

lemma upsert_touches:
  assumes "upsert_projection L \<lparr>pj_OrderID = op_OrderID e, pj_CustomerID = op_CustomerID e,
      pj_Status = Status_string StatusPending, pj_TotalMinor = op_TotalMinor e, pj_Currency = op_Currency e,
      pj_Version = 1, pj_PlacedAt = t\<rparr> db = Inr (a, db')"
    and "first_versions db" and "event_type d = TypeOrderPlaced"
    and "UnmarshalOrderPlaced (payload d) = Inr e" and "ParsePlacedAt e = Inr t"
  shows "touches L d db db'"
proof -
  obtain u c where u: "pg_uuid L (op_OrderID e) = Some u" "pg_uuid L (op_CustomerID e) = Some c"
    using assms(1) by (auto simp: upsert_projection_def with_uuid_def split: option.splits)
  let ?p = "\<lparr>pj_OrderID = u, pj_CustomerID = c, pj_Status = ''PENDING'', pj_TotalMinor = op_TotalMinor e,
      pj_Currency = op_Currency e, pj_Version = 1, pj_PlacedAt = pg_timestamp t\<rparr>"
  have "db' = db\<lparr>t_projections := AList.update u ?p (t_projections db)\<rparr>"
    using assms(1,2) u
    by (auto simp: upsert_projection_def with_uuid_def pg_reject_def Let_def first_versions_def row_of_def
        split: option.splits if_splits)
  then show ?thesis
    using assms(3-5) u by (auto simp: touches_def projects_def row_of_def update_conv' placed_by_def)
qed

lemma status_touches:
  assumes "update_status L i st db = Inr (a, db')" and "\<And>u. pg_uuid L i = Some u \<Longrightarrow> projects L d = Some (u, st)"
    and "event_type d \<noteq> TypeOrderPlaced"
  shows "touches L d db db'"
proof -
  obtain u where u: "pg_uuid L i = Some u" using assms(1) by (auto simp: update_status_def with_uuid_def split: option.splits)
  then have "row_of db' u = map_option (\<lambda>p. p\<lparr>pj_Status := st\<rparr>) (row_of db u) \<and> (\<forall>v. v \<noteq> u \<longrightarrow> row_of db' v = row_of db v)"
    using assms(1)
    by (auto simp: update_status_def with_uuid_def pg_reject_def row_of_def update_conv' split: option.splits if_splits)
  then show ?thesis using assms(2) [OF u] assms(3) by (auto simp: touches_def)
qed

text \<open>Whatever fails, a message is applied or it is not, and a nil answer means that it was.\<close>

lemma Projection_touches:
  assumes run: "Projection_Apply L (event_type d) (payload d) w = (r, w')" and v: "first_versions (w_db w)"
  shows "w_db w' = w_db w \<and> (r = Inr () \<longrightarrow> \<not> order_event d) \<or> touches L d (w_db w) (w_db w')"
proof -
  consider (placed) "event_type d = TypeOrderPlaced" | (confirmed) "event_type d = TypeOrderConfirmed"
    | (cancelled) "event_type d = TypeOrderCancelled" | (other) "\<not> order_event d" by (auto simp: order_event_def)
  then show ?thesis
  proof cases
    case placed
    then have run: "applyOrderPlaced L (payload d) w = (r, w')" using run by (simp add: Projection_Apply_def)
    show ?thesis
    proof (cases "\<exists>e t. UnmarshalOrderPlaced (payload d) = Inr e \<and> ParsePlacedAt e = Inr t")
      case True
      then obtain e t where e: "UnmarshalOrderPlaced (payload d) = Inr e" "ParsePlacedAt e = Inr t" by blast
      let ?p = "\<lparr>pj_OrderID = op_OrderID e, pj_CustomerID = op_CustomerID e,
        pj_Status = Status_string StatusPending, pj_TotalMinor = op_TotalMinor e, pj_Currency = op_Currency e,
        pj_Version = 1, pj_PlacedAt = t\<rparr>"
      obtain r0 where st: "db_stmt (upsert_projection L ?p) w = (r0, w')" "r = Inr () \<longrightarrow> r0 = Inr ()"
        using run e by (auto simp: applyOrderPlaced_def and_then_def map_err_def of_result_def UpsertOrderPlaced_def
            split: prod.splits sum.splits)
      from db_stmt_outcome [OF st(1)] show ?thesis
        using upsert_touches [OF _ v placed e] st(2) by auto
    next
      case False
      then show ?thesis using run
        by (cases "UnmarshalOrderPlaced (payload d)")
          (auto simp: applyOrderPlaced_def and_then_def map_err_def of_result_def split: sum.splits)
    qed
  next
    case confirmed
    then have run: "applyOrderConfirmed L (payload d) w = (r, w')" using run by (simp add: Projection_Apply_def order_types)
    show ?thesis
    proof (cases "UnmarshalOrderConfirmed (payload d)")
      case (Inr e)
      obtain r0 where st: "db_stmt (update_status L (oc_OrderID e) ''CONFIRMED'') w = (r0, w')" "r = Inr () \<longrightarrow> r0 = Inr ()"
        using run Inr by (auto simp: applyOrderConfirmed_def and_then_def map_err_def of_result_def UpdateStatus_def
            split: prod.splits sum.splits)
      have "projects L d = Some (u, ''CONFIRMED'')" if "pg_uuid L (oc_OrderID e) = Some u" for u
        using that Inr confirmed by (simp add: projects_def order_types)
      with db_stmt_outcome [OF st(1)] status_touches [of L "oc_OrderID e" "''CONFIRMED''" "w_db w" _ "w_db w'" d] st(2) confirmed
      show ?thesis by (auto simp: order_types)
    qed (use run in \<open>auto simp: applyOrderConfirmed_def and_then_def map_err_def of_result_def\<close>)
  next
    case cancelled
    then have run: "applyOrderCancelled L (payload d) w = (r, w')" using run by (simp add: Projection_Apply_def order_types)
    show ?thesis
    proof (cases "UnmarshalOrderCancelled (payload d)")
      case (Inr e)
      obtain r0 where st: "db_stmt (update_status L (ox_OrderID e) ''CANCELLED'') w = (r0, w')" "r = Inr () \<longrightarrow> r0 = Inr ()"
        using run Inr by (auto simp: applyOrderCancelled_def and_then_def map_err_def of_result_def UpdateStatus_def
            split: prod.splits sum.splits)
      have "projects L d = Some (u, ''CANCELLED'')" if "pg_uuid L (ox_OrderID e) = Some u" for u
        using that Inr cancelled by (simp add: projects_def order_types)
      with db_stmt_outcome [OF st(1)] status_touches [of L "ox_OrderID e" "''CANCELLED''" "w_db w" _ "w_db w'" d] st(2) cancelled
      show ?thesis by (auto simp: order_types)
    qed (use run in \<open>auto simp: applyOrderCancelled_def and_then_def map_err_def of_result_def\<close>)
  next
    case other
    then show ?thesis using run by (auto simp: Projection_Apply_def order_event_def ok_def)
  qed
qed

lemma touches_first_versions: "touches L d db db' \<Longrightarrow> first_versions db \<Longrightarrow> first_versions db'"
proof -
  assume t: "touches L d db db'" and v: "first_versions db"
  from t obtain u st where rows: "\<forall>v. v \<noteq> u \<longrightarrow> row_of db' v = row_of db v"
    and u: "if event_type d = TypeOrderPlaced then \<exists>p. row_of db' u = Some p \<and> pj_Status p = st \<and> placed_by L d u p
        else row_of db' u = map_option (\<lambda>p. p\<lparr>pj_Status := st\<rparr>) (row_of db u)" by (auto simp: touches_def)
  have "pj_Version p = 1" if "row_of db' x = Some p" for x p
  proof (cases "x = u")
    case True
    then show ?thesis using that u v
      by (cases "event_type d = TypeOrderPlaced") (auto simp: placed_by_def first_versions_def, metis OrderProjection.select_convs(6))
  qed (use that rows v in \<open>auto simp: first_versions_def\<close>)
  then show "first_versions db'" by (simp add: first_versions_def)
qed

section \<open>What the rows say of the log\<close>

text \<open>
  Message \<open>i\<close> of the log was applied. The order of a placement has a row with the data of a placement
  of that order on the log. The row of the order, if there is one, has the status of message \<open>i\<close> or of
  a later one about the same order.
\<close>

definition projected :: "golib \<Rightarrow> delivery list \<Rightarrow> nat \<Rightarrow> order_db \<Rightarrow> bool" where
  "projected L log i db \<longleftrightarrow> (order_event (log ! i) \<longrightarrow>
     (\<exists>u st. projects L (log ! i) = Some (u, st)
        \<and> (event_type (log ! i) = TypeOrderPlaced \<longrightarrow>
             (\<exists>p. row_of db u = Some p \<and> (\<exists>d \<in> set log. placed_by L d u p)))
        \<and> (\<forall>p. row_of db u = Some p \<longrightarrow>
             (\<exists>j < length log. i \<le> j \<and> projects L (log ! j) = Some (u, pj_Status p)))))"

lemma projected_touched:
  assumes t: "touches L (log ! n) db db'" and n: "n < length log" and i: "i < n \<and> projected L log i db \<or> i = n"
  shows "projected L log i db'"
  unfolding projected_def
proof
  assume ev: "order_event (log ! i)"
  obtain u st where pr: "projects L (log ! n) = Some (u, st)" and rows: "\<forall>v. v \<noteq> u \<longrightarrow> row_of db' v = row_of db v"
    and u: "if event_type (log ! n) = TypeOrderPlaced
        then \<exists>p. row_of db' u = Some p \<and> pj_Status p = st \<and> placed_by L (log ! n) u p
        else row_of db' u = map_option (\<lambda>p. p\<lparr>pj_Status := st\<rparr>) (row_of db u)" using t by (auto simp: touches_def)
  have st: "pj_Status p = st" if "row_of db' u = Some p" for p
    using u that by (auto split: if_splits)
  have data: "\<exists>p. row_of db' u = Some p \<and> (\<exists>d \<in> set log. placed_by L d u p)"
    if "event_type (log ! n) = TypeOrderPlaced \<or> (\<exists>p. row_of db u = Some p \<and> (\<exists>d \<in> set log. placed_by L d u p))"
    using that u nth_mem [OF n] by (auto simp: placed_by_status split: if_splits)
  obtain v s where v: "projects L (log ! i) = Some (v, s)"
    "event_type (log ! i) = TypeOrderPlaced \<longrightarrow> i = n \<or> (\<exists>p. row_of db v = Some p \<and> (\<exists>d \<in> set log. placed_by L d v p))"
    "\<forall>p. row_of db v = Some p \<longrightarrow> i = n \<or> (\<exists>j < length log. i \<le> j \<and> projects L (log ! j) = Some (v, pj_Status p))"
    using i ev pr unfolding projected_def by auto
  show "\<exists>u st. projects L (log ! i) = Some (u, st)
        \<and> (event_type (log ! i) = TypeOrderPlaced \<longrightarrow> (\<exists>p. row_of db' u = Some p \<and> (\<exists>d \<in> set log. placed_by L d u p)))
        \<and> (\<forall>p. row_of db' u = Some p \<longrightarrow> (\<exists>j < length log. i \<le> j \<and> projects L (log ! j) = Some (u, pj_Status p)))"
  proof (cases "v = u")
    case True
    have "\<exists>j < length log. i \<le> j \<and> projects L (log ! j) = Some (u, pj_Status p)" if "row_of db' u = Some p" for p
      using st [OF that] pr n i by (intro exI [of _ n]) auto
    then show ?thesis using True v(1,2) data by blast
  next
    case False
    then have "i \<noteq> n" using pr v(1) by auto
    then show ?thesis using v False rows by auto
  qed
qed

text \<open>The invariant of the loop.\<close>

definition projected_upto :: "golib \<Rightarrow> string \<Rightarrow> delivery list \<Rightarrow> nat \<Rightarrow> order_db world \<Rightarrow> bool" where
  "projected_upto L dlq log n w \<longleftrightarrow> first_versions (w_db w) \<and> n \<le> length log
     \<and> (\<forall>i < n. dead_lettered dlq (log ! i) w \<or> projected L log i (w_db w))"

lemma Projection_sends: "sent_grows (Projection_Apply L ty b)"
  unfolding Projection_Apply_def applyOrderPlaced_def applyOrderConfirmed_def applyOrderCancelled_def
    UpsertOrderPlaced_def UpdateStatus_def
  by (auto intro!: sending)

lemma projector_advances:
  assumes inv: "projected_upto L dlq log n w" and n: "n < length log"
    and turn: "projector_worker L dlq et now stopped (log ! n) w = (t, w')"
  shows "projected_upto L dlq log n w' \<and> ((\<forall>err. t \<noteq> Abandoned err) \<longrightarrow> projected_upto L dlq log (n + 1) w')"
proof -
  let ?d = "log ! n"
  obtain r w1 where h: "Projection_Apply L (event_type ?d) (payload ?d) w = (r, w1)"
    and db: "w_db w' = w_db w1" and sent: "prefix (w_sent w1) (w_sent w')"
    and ended: "(\<forall>err. t \<noteq> Abandoned err) \<longrightarrow> r = Inr () \<or> dead_lettered dlq ?d w'"
    using turn unfolding projector_worker_def by (rule turn_handled)
  have v: "first_versions (w_db w)" and old: "\<And>i. i < n \<Longrightarrow> dead_lettered dlq (log ! i) w \<or> projected L log i (w_db w)"
    using inv by (simp_all add: projected_upto_def)
  have "prefix (w_sent w) (w_sent w')"
    using Projection_sends [of L "event_type ?d" "payload ?d"] h sent
    unfolding sent_grows_def by (metis prefix_order.trans snd_conv)
  then have dl: "dead_lettered dlq d w \<Longrightarrow> dead_lettered dlq d w'" for d
    unfolding dead_lettered_def using set_mono_prefix by blast
  from Projection_touches [OF h v] have "first_versions (w_db w') \<and>
    (\<forall>i < n. dead_lettered dlq (log ! i) w' \<or> projected L log i (w_db w'))
    \<and> (r = Inr () \<longrightarrow> projected L log n (w_db w'))"
  proof
    assume same: "w_db w1 = w_db w \<and> (r = Inr () \<longrightarrow> \<not> order_event ?d)"
    then show ?thesis using v old dl db by (auto simp: projected_def)
  next
    assume t: "touches L ?d (w_db w) (w_db w1)"
    show ?thesis
      using touches_first_versions [OF t v] projected_touched [OF t n] old dl db by auto
  qed
  then show ?thesis using ended n by (auto simp: projected_upto_def less_Suc_eq)
qed

interpretation projector: offset_log "projector_worker L dlq et" log "projected_upto L dlq log"
proof (unfold_locales, goal_cases)
  case (1 n w m)
  then show ?case by (auto simp: projected_upto_def)
next
  case (2 n w now stopped t w')
  then show ?case by (rule projector_advances)
qed

end
