(* ===== verification/Notification.thy ===== *)
theory Notification
  imports Order_Workers "HOL-Library.Signed_Division"
begin

text \<open>
  services/notification: the views of the events it consumes (internal/contracts), the rendering
  and the dispatcher (internal/app/dispatcher.go), the store (internal/infra/postgres), the
  simulated sender (internal/infra/notifier) and the worker. The service has no sentinel errors
  of its own. The state is the table and, beside it, the log of delivered notifications that the
  sender writes to; no statement touches the log.
\<close>

section \<open>Events\<close>

definition TypePaymentCaptured :: string where "TypePaymentCaptured = ''payment.captured.v1''"
definition TypePaymentDeclined :: string where "TypePaymentDeclined = ''payment.declined.v1''"
definition TypePaymentSettled :: string where "TypePaymentSettled = ''payment.settled.v1''"
definition TypePaymentRefunded :: string where "TypePaymentRefunded = ''payment.refunded.v1''"
definition TypePaymentFailed :: string where "TypePaymentFailed = ''payment.failed.v1''"
definition TypeShipmentCreated :: string where "TypeShipmentCreated = ''shipment.created.v1''"
definition TypeShipmentDispatched :: string where "TypeShipmentDispatched = ''shipment.dispatched.v1''"
definition TypeShipmentDelivered :: string where "TypeShipmentDelivered = ''shipment.delivered.v1''"
definition TypeShipmentFailed :: string where "TypeShipmentFailed = ''shipment.failed.v1''"

type_synonym nerr = "unit err"

record OrderPlaced_view =
  vp_OrderID :: string
  vp_CustomerID :: string
  vp_TotalMinor :: int64
  vp_Currency :: string

record PaymentEvent_view =
  vy_OrderID :: string
  vy_AmountMinor :: int64
  vy_Currency :: string
  vy_Status :: string

record ShipmentDispatched_view =
  vd_OrderID :: string
  vd_Carrier :: string
  vd_TrackingCode :: string

text \<open>The order id with the reason, shared by order.cancelled and shipment.failed.\<close>

record Reason_view =
  vr_OrderID :: string
  vr_Reason :: string

definition dec_OrderPlaced_view :: "OrderPlaced_view dec" where
  "dec_OrderPlaced_view = dec_struct (\<lambda>kvs v.
     Option.bind (dec_field ''orderId'' dec_string kvs (vp_OrderID v)) (\<lambda>i.
     Option.bind (dec_field ''customerId'' dec_string kvs (vp_CustomerID v)) (\<lambda>c.
     Option.bind (dec_field ''totalMinor'' dec_int64 kvs (vp_TotalMinor v)) (\<lambda>t.
     Option.bind (dec_field ''currency'' dec_string kvs (vp_Currency v)) (\<lambda>u.
       Some \<lparr>vp_OrderID = i, vp_CustomerID = c, vp_TotalMinor = t, vp_Currency = u\<rparr>)))))"

definition dec_PaymentEvent_view :: "PaymentEvent_view dec" where
  "dec_PaymentEvent_view = dec_struct (\<lambda>kvs v.
     Option.bind (dec_field ''orderId'' dec_string kvs (vy_OrderID v)) (\<lambda>i.
     Option.bind (dec_field ''amountMinor'' dec_int64 kvs (vy_AmountMinor v)) (\<lambda>a.
     Option.bind (dec_field ''currency'' dec_string kvs (vy_Currency v)) (\<lambda>u.
     Option.bind (dec_field ''status'' dec_string kvs (vy_Status v)) (\<lambda>s.
       Some \<lparr>vy_OrderID = i, vy_AmountMinor = a, vy_Currency = u, vy_Status = s\<rparr>)))))"

definition dec_ShipmentDispatched_view :: "ShipmentDispatched_view dec" where
  "dec_ShipmentDispatched_view = dec_struct (\<lambda>kvs v.
     Option.bind (dec_field ''orderId'' dec_string kvs (vd_OrderID v)) (\<lambda>i.
     Option.bind (dec_field ''carrier'' dec_string kvs (vd_Carrier v)) (\<lambda>c.
     Option.bind (dec_field ''trackingCode'' dec_string kvs (vd_TrackingCode v)) (\<lambda>t.
       Some \<lparr>vd_OrderID = i, vd_Carrier = c, vd_TrackingCode = t\<rparr>))))"

definition dec_Reason_view :: "Reason_view dec" where
  "dec_Reason_view = dec_struct (\<lambda>kvs v.
     Option.bind (dec_field ''orderId'' dec_string kvs (vr_OrderID v)) (\<lambda>i.
     Option.bind (dec_field ''reason'' dec_string kvs (vr_Reason v)) (\<lambda>r.
       Some \<lparr>vr_OrderID = i, vr_Reason = r\<rparr>)))"

definition dec_OrderRef :: "string dec" where
  "dec_OrderRef = dec_struct (dec_field ''orderId'' dec_string)"

definition Unmarshal_view :: "'a dec \<Rightarrow> 'a \<Rightarrow> body \<Rightarrow> nerr + 'a" where
  "Unmarshal_view d z raw =
     (case json_Unmarshal d z raw of
        None \<Rightarrow> Inl (Wrapf ''unmarshal event'' (Foreign ''json.Unmarshal''))
      | Some v \<Rightarrow> Inr v)"

section \<open>Rendering\<close>

definition parseOrder :: "golib \<Rightarrow> string \<Rightarrow> nerr + uuid" where
  "parseOrder L raw =
     (case uuid_Parse L raw of
        None \<Rightarrow> Inl (Wrapf ''parse orderId'' (Foreign ''uuid.Parse''))
      | Some u \<Rightarrow> Inr u)"

text \<open>Division truncates toward zero; the verb \<open>%02d\<close> pads the fraction, which is below 100.\<close>

definition money :: "int64 \<Rightarrow> string \<Rightarrow> string" where
  "money minor currency =
     (let whole = sint minor sdiv 100; frac = sint minor smod 100;
          frac = (if frac < 0 then - frac else frac);
          out = show_int whole @ ''.'' @ padded 10 2 (nat frac);
          c = TrimSpace currency in
      if c \<noteq> [] then out @ '' '' @ c else out)"

definition reasonSuffix :: "string \<Rightarrow> string" where
  "reasonSuffix reason =
     (let r = TrimSpace reason in if r \<noteq> [] then '' Reason: '' @ r @ ''.'' else [])"

record rendered =
  rm_orderID :: uuid
  rm_subject :: string
  rm_body :: string

definition paymentMessage :: "string \<Rightarrow> string \<Rightarrow> PaymentEvent_view \<Rightarrow> string \<times> string" where
  "paymentMessage eventType orderID e =
     (let amount = money (vy_AmountMinor e) (vy_Currency e) in
      if eventType = TypePaymentCaptured
      then (''Payment received'', ''We captured '' @ amount @ '' for order '' @ orderID @ ''.'')
      else if eventType = TypePaymentDeclined
      then (''Payment declined'', ''Payment for order '' @ orderID @ '' was declined.'')
      else if eventType = TypePaymentSettled
      then (''Payment settled'', ''Payment of '' @ amount @ '' for order '' @ orderID @ '' has settled.'')
      else if eventType = TypePaymentRefunded
      then (''Payment refunded'', ''We refunded '' @ amount @ '' for order '' @ orderID @ ''.'')
      else (''Payment failed'', ''Payment for order '' @ orderID @ '' failed.''))"

text \<open>Decode a view, parse its order id, build the text.\<close>

definition render_view ::
  "golib \<Rightarrow> 'a dec \<Rightarrow> 'a \<Rightarrow> ('a \<Rightarrow> string) \<Rightarrow> (string \<Rightarrow> 'a \<Rightarrow> string \<times> string) \<Rightarrow> body \<Rightarrow> nerr + rendered option" where
  "render_view L d z orderID text payload =
     (case Unmarshal_view d z payload of
        Inl err \<Rightarrow> Inl err
      | Inr e \<Rightarrow>
     (case parseOrder L (orderID e) of
        Inl err \<Rightarrow> Inl err
      | Inr i \<Rightarrow> (case text (uuid_String L i) e of (s, b) \<Rightarrow>
          Inr (Some \<lparr>rm_orderID = i, rm_subject = s, rm_body = b\<rparr>))))"

definition render :: "golib \<Rightarrow> string \<Rightarrow> body \<Rightarrow> nerr + rendered option" where
  "render L eventType payload =
     (if eventType = TypeOrderPlaced then
        render_view L dec_OrderPlaced_view \<lparr>vp_OrderID = [], vp_CustomerID = [], vp_TotalMinor = 0, vp_Currency = []\<rparr>
          vp_OrderID (\<lambda>i e. (''Order received'',
            ''We received your order '' @ i @ ''. Total '' @ money (vp_TotalMinor e) (vp_Currency e) @ ''.'')) payload
      else if eventType = TypeOrderConfirmed then
        render_view L dec_OrderRef [] id (\<lambda>i e. (''Order confirmed'',
          ''Your order '' @ i @ '' is confirmed and being prepared.'')) payload
      else if eventType = TypeOrderCancelled then
        render_view L dec_Reason_view \<lparr>vr_OrderID = [], vr_Reason = []\<rparr> vr_OrderID (\<lambda>i e. (''Order cancelled'',
          ''Your order '' @ i @ '' was cancelled.'' @ reasonSuffix (vr_Reason e))) payload
      else if eventType \<in> {TypePaymentCaptured, TypePaymentDeclined, TypePaymentSettled,
                           TypePaymentRefunded, TypePaymentFailed} then
        render_view L dec_PaymentEvent_view \<lparr>vy_OrderID = [], vy_AmountMinor = 0, vy_Currency = [], vy_Status = []\<rparr>
          vy_OrderID (paymentMessage eventType) payload
      else if eventType = TypeShipmentCreated then
        render_view L dec_OrderRef [] id (\<lambda>i e. (''Preparing your shipment'',
          ''A shipment was created for order '' @ i @ ''.'')) payload
      else if eventType = TypeShipmentDispatched then
        render_view L dec_ShipmentDispatched_view \<lparr>vd_OrderID = [], vd_Carrier = [], vd_TrackingCode = []\<rparr> vd_OrderID
          (\<lambda>i e. (''Your order shipped'', ''Order '' @ i @ '' shipped via '' @ vd_Carrier e
             @ '' (tracking '' @ vd_TrackingCode e @ '').'')) payload
      else if eventType = TypeShipmentDelivered then
        render_view L dec_OrderRef [] id (\<lambda>i e. (''Your order was delivered'',
          ''Order '' @ i @ '' has been delivered.'')) payload
      else if eventType = TypeShipmentFailed then
        render_view L dec_Reason_view \<lparr>vr_OrderID = [], vr_Reason = []\<rparr> vr_OrderID
          (\<lambda>i e. (''There was a problem with your shipment'',
             ''The shipment for order '' @ i @ '' failed.'' @ reasonSuffix (vr_Reason e))) payload
      else Inr None)"

section \<open>The dispatcher\<close>

datatype Channel = ChannelEmail

record Notification =
  no_id :: uuid
  no_dedupeKey :: string
  no_eventType :: string
  no_orderID :: uuid
  no_channel :: Channel
  no_recipient :: string
  no_subject :: string
  no_body :: string
  no_createdAt :: time

record notif_state =
  t_notifications :: "Notification list"
  delivered :: "Notification list"

type_synonym 'a notif_act = "(notif_state, unit, 'a) act"

definition insert_notification :: "Notification \<Rightarrow> notif_state \<Rightarrow> nerr + bool \<times> notif_state" where
  "insert_notification n d =
     (if \<not> (pg_text (no_dedupeKey n) \<and> pg_text (no_eventType n) \<and> pg_text (no_recipient n)
             \<and> pg_text (no_subject n) \<and> pg_text (no_body n))
      then Inl (Foreign ''22021'')
      else if list_ex (\<lambda>m. no_dedupeKey m = no_dedupeKey n) (t_notifications d) then Inr (False, d)
      else if list_ex (\<lambda>m. no_id m = no_id n) (t_notifications d) then Inl (Foreign ''23505'')
      else Inr (True, d\<lparr>t_notifications :=
             t_notifications d @ [n\<lparr>no_createdAt := pg_timestamp (no_createdAt n)\<rparr>]\<rparr>))"

definition RecordIfNew :: "Notification \<Rightarrow> bool notif_act" where
  "RecordIfNew n = wrap_err ''insert notification'' (db_stmt (insert_notification n))"

definition LogSender_Send :: "Notification \<Rightarrow> unit notif_act" where
  "LogSender_Send n w = (Inr (), w\<lparr>w_db := (w_db w)\<lparr>delivered := delivered (w_db w) @ [n]\<rparr>\<rparr>)"

definition recipientFor :: "golib \<Rightarrow> uuid \<Rightarrow> string" where
  "recipientFor L orderID = ''notify+'' @ uuid_String L orderID @ ''@example.com''"

definition new_notification :: "golib \<Rightarrow> time \<Rightarrow> string \<Rightarrow> rendered \<Rightarrow> uuid \<Rightarrow> Notification" where
  "new_notification L now eventType m i =
     \<lparr>no_id = i, no_dedupeKey = eventType @ '':'' @ uuid_String L (rm_orderID m), no_eventType = eventType,
      no_orderID = rm_orderID m, no_channel = ChannelEmail, no_recipient = recipientFor L (rm_orderID m),
      no_subject = rm_subject m, no_body = rm_body m, no_createdAt = now\<rparr>"

definition Dispatcher_Handle ::
  "golib \<Rightarrow> time \<Rightarrow> (Notification \<Rightarrow> unit notif_act) \<Rightarrow> string \<Rightarrow> body \<Rightarrow> unit notif_act" where
  "Dispatcher_Handle L now send eventType payload =
     (case render L eventType payload of
        Inl err \<Rightarrow> fail (Permanent err)
      | Inr None \<Rightarrow> ok ()
      | Inr (Some m) \<Rightarrow>
          and_then (new_uuid L) (\<lambda>i.
            let n = new_notification L now eventType m i in
            and_then (wrap_err ''record notification'' (RecordIfNew n)) (\<lambda>isNew.
              if \<not> isNew then ok () else send n)))"

section \<open>The worker\<close>

definition notification_step ::
  "golib \<Rightarrow> time \<Rightarrow> (Notification \<Rightarrow> unit notif_act) \<Rightarrow> string \<Rightarrow> (nerr \<Rightarrow> string) \<Rightarrow> delivery \<Rightarrow> unit notif_act" where
  "notification_step L now send dlqTopic error_text =
     consume CommitMessages
       (\<lambda>d. Dispatcher_Handle L now send (headerValue (msg_Headers (dl_message d)) HeaderEventType)
              (msg_Value (dl_message d)))
       (DeadLetter_Publish dlqTopic error_text) (Wrapf ''handle'')"

definition notification_Run ::
  "golib \<Rightarrow> time \<Rightarrow> (Notification \<Rightarrow> unit notif_act) \<Rightarrow> string \<Rightarrow> (nerr \<Rightarrow> string) \<Rightarrow> delivery list \<Rightarrow> unit notif_act" where
  "notification_Run L now send dlqTopic error_text = for_each (notification_step L now send dlqTopic error_text)"

end
