(* ===== verification/Notification_Delivery.thy ===== *)
theory Notification_Delivery
  imports Notification
begin

text \<open>
  What the notification service promises: an event of an order notifies at most once, whatever is
  redelivered and whatever fails, and at most is all it is: an event can also be lost. Amounts of
  less than one major unit lose their sign.
\<close>

section \<open>At most once\<close>

definition keys :: "Notification list \<Rightarrow> string list" where
  "keys = map no_dedupeKey"

definition recorded_once :: "notif_state \<Rightarrow> bool" where
  "recorded_once s \<longleftrightarrow> distinct (keys (delivered s)) \<and> set (keys (delivered s)) \<subseteq> set (keys (t_notifications s))"

lemma insert_notification_cases:
  assumes "insert_notification n d = Inr (isNew, d')"
  shows "delivered d' = delivered d \<and> (if isNew then no_dedupeKey n \<notin> set (keys (t_notifications d))
        \<and> keys (t_notifications d') = keys (t_notifications d) @ [no_dedupeKey n] else d' = d)"
  using assms by (auto simp: insert_notification_def keys_def list_ex_iff split: if_splits)

text \<open>An insert adds one row at most, and the answer True means that it did.\<close>

lemma record_cases:
  assumes "RecordIfNew n w = (r, w')"
  shows "delivered (w_db w') = delivered (w_db w) \<and> set (keys (t_notifications (w_db w))) \<subseteq> set (keys (t_notifications (w_db w')))
    \<and> (r = Inr True \<longrightarrow> no_dedupeKey n \<notin> set (keys (t_notifications (w_db w)))
          \<and> no_dedupeKey n \<in> set (keys (t_notifications (w_db w'))))"
  using assms unfolding RecordIfNew_def map_err_def db_stmt_def
  by (auto split: fault.splits sum.splits prod.splits if_splits dest!: next_fault_db insert_notification_cases)

lemma handle_once:
  "preserves recorded_once (Dispatcher_Handle L now LogSender_Send ty payload)"
  unfolding preserves_def
proof (intro allI impI)
  fix w :: "notif_state world" assume P: "recorded_once (w_db w)"
  show "recorded_once (w_db (snd (Dispatcher_Handle L now LogSender_Send ty payload w)))"
  proof (cases "render L ty payload")
    case (Inl err)
    then show ?thesis using P by (simp add: Dispatcher_Handle_def fail_def)
  next
    case (Inr x)
    show ?thesis
    proof (cases x)
      case None
      then show ?thesis using P Inr by (simp add: Dispatcher_Handle_def ok_def)
    next
      case (Some m)
      let ?n = "new_notification L now ty m (uuid_New L (w_uuids w))" and ?w = "w\<lparr>w_uuids := w_uuids w + 1\<rparr>"
      obtain r w1 where rec: "RecordIfNew ?n ?w = (r, w1)" by fastforce
      have run: "Dispatcher_Handle L now LogSender_Send ty payload w =
          (case r of Inl e \<Rightarrow> (Inl (Wrapf ''record notification'' e), w1)
           | Inr isNew \<Rightarrow> if \<not> isNew then (Inr (), w1) else LogSender_Send ?n w1)"
        using Inr Some rec
        by (auto simp: Dispatcher_Handle_def and_then_def new_uuid_def map_err_def ok_def Let_def split: sum.splits)
      show ?thesis unfolding run
        using record_cases [OF rec] P
        by (auto simp: recorded_once_def keys_def LogSender_Send_def split: sum.splits)
    qed
  qed
qed

lemma preserves_consume [preserving]:
  fixes commit :: "('db, 's, unit) act"
  assumes "preserves P commit" "\<And>d. preserves P (handle d)" "\<And>d e. preserves P (dead d e)"
  shows "preserves P (consume commit handle dead wrap d)"
  unfolding preserves_def
proof (intro allI impI)
  fix w :: "'db world" assume w: "P (w_db w)"
  obtain r w1 where h: "handle d w = (r, w1)" by fastforce
  have 1: "P (w_db w1)" using preservesD [OF assms(2) w h] .
  have "preserves P (wrap_err ''commit offset'' commit)"
    "preserves P (and_then (wrap_err ''dead-letter publish'' (dead d e)) (\<lambda>_. wrap_err ''commit offset'' commit))" for e
    by (intro preserving assms)+
  then show "P (w_db (snd (consume commit handle dead wrap d w)))"
    using 1 h by (auto simp: consume_def preserves_def split: sum.split)
qed

lemma step_once: "preserves recorded_once (notification_step L now LogSender_Send dlq et d)"
  unfolding notification_step_def CommitMessages_def DeadLetter_Publish_def
  by (intro preserving handle_once)

text \<open>The worker under supervision: each delivery is handled and the outcome forgotten; a failed one
  is among the deliveries again.\<close>

definition supervised ::
  "golib \<Rightarrow> time \<Rightarrow> string \<Rightarrow> (nerr \<Rightarrow> string) \<Rightarrow> delivery list \<Rightarrow> notif_state world \<Rightarrow> notif_state world" where
  "supervised L now dlq et ds w = fold (\<lambda>d w. snd (notification_step L now LogSender_Send dlq et d w)) ds w"

definition notif_start :: "nat \<Rightarrow> fault list \<Rightarrow> notif_state world" where
  "notif_start k fs = \<lparr>w_db = \<lparr>t_notifications = [], delivered = []\<rparr>, w_uuids = k, w_faults = fs, w_sent = []\<rparr>"

text \<open>C16. Whatever events are delivered, however often, in any order and whatever calls fail, no two
  delivered notifications have the same key (event type and order), and each delivered one is
  recorded in the table.\<close>

theorem notified_at_most_once:
  "distinct (map no_dedupeKey (delivered (w_db (supervised L now dlq et ds (notif_start k fs)))))
   \<and> no_dedupeKey ` set (delivered (w_db (supervised L now dlq et ds (notif_start k fs))))
       \<subseteq> no_dedupeKey ` set (t_notifications (w_db (supervised L now dlq et ds (notif_start k fs))))"
proof -
  have "recorded_once (w_db w) \<Longrightarrow> recorded_once (w_db (supervised L now dlq et ds w))" for w
    unfolding supervised_def
    by (induction ds arbitrary: w) (use step_once in \<open>auto simp: preserves_def\<close>)
  moreover have "recorded_once (w_db (notif_start k fs))"
    by (simp add: notif_start_def recorded_once_def keys_def)
  ultimately show ?thesis by (simp add: recorded_once_def keys_def)
qed

section \<open>Lost notifications\<close>

lemmas type_texts = TypeOrderPlaced_def TypeOrderConfirmed_def TypeOrderCancelled_def TypePaymentCaptured_def
  TypePaymentDeclined_def TypePaymentSettled_def TypePaymentRefunded_def TypePaymentFailed_def
  TypeShipmentCreated_def TypeShipmentDispatched_def TypeShipmentDelivered_def TypeShipmentFailed_def

lemma event_types_text: "render L ty payload = Inr (Some m) \<Longrightarrow> pg_text ty"
proof (rule ccontr)
  assume r: "render L ty payload = Inr (Some m)" and "\<not> pg_text ty"
  then have "ty \<notin> {TypeOrderPlaced, TypeOrderConfirmed, TypeOrderCancelled, TypePaymentCaptured, TypePaymentDeclined,
    TypePaymentSettled, TypePaymentRefunded, TypePaymentFailed, TypeShipmentCreated, TypeShipmentDispatched,
    TypeShipmentDelivered, TypeShipmentFailed}"
    by (auto simp: type_texts)
  then show False using r by (simp add: render_def)
qed

lemma insert_fresh:
  assumes "uuid_laws L" "render L ty payload = Inr (Some m)" "pg_text (rm_subject m)" "pg_text (rm_body m)"
  shows "insert_notification (new_notification L now ty m i) \<lparr>t_notifications = [], delivered = ds\<rparr>
     = Inr (True, \<lparr>t_notifications = [(new_notification L now ty m i)\<lparr>no_createdAt := pg_timestamp now\<rparr>], delivered = ds\<rparr>)"
    and "insert_notification (new_notification L now ty m j)
       \<lparr>t_notifications = [(new_notification L now ty m i)\<lparr>no_createdAt := t\<rparr>], delivered = ds\<rparr>
     = Inr (False, \<lparr>t_notifications = [(new_notification L now ty m i)\<lparr>no_createdAt := t\<rparr>], delivered = ds\<rparr>)"
  using assms(3,4) event_types_text [OF assms(2)] uuid_laws.string_text [OF assms(1)]
  by (simp_all add: insert_notification_def new_notification_def recipientFor_def)

text \<open>C18. A notification can be lost: when the answer to the INSERT does not arrive, the row is there,
  Handle fails and the message is delivered again, and the second time it is skipped as a
  duplicate. The same happens when the sender fails. The message is committed and nothing was
  ever sent.\<close>

theorem lost_reply_never_notified:
  assumes L: "uuid_laws L" and r: "render L ty payload = Inr (Some m)"
    and t: "pg_text (rm_subject m)" "pg_text (rm_body m)"
  shows "(\<exists>e w1 w2. Dispatcher_Handle L now LogSender_Send ty payload (notif_start k [ReplyLost]) = (Inl e, w1)
      \<and> \<not> is_permanent e \<and> Dispatcher_Handle L now LogSender_Send ty payload w1 = (Inr (), w2)
      \<and> delivered (w_db w2) = [])
    \<and> (\<exists>e w1 w2. Dispatcher_Handle L now (\<lambda>_. fail (Foreign ''smtp'')) ty payload (notif_start k []) = (Inl e, w1)
      \<and> \<not> is_permanent e \<and> Dispatcher_Handle L now LogSender_Send ty payload w1 = (Inr (), w2)
      \<and> delivered (w_db w2) = [])"
proof -
  note run = Dispatcher_Handle_def r notif_start_def RecordIfNew_def act_simps next_fault_def Let_def
    insert_fresh [OF L r t]
  show ?thesis by (auto simp: run)
qed

text \<open>A payment event, on the concrete library.\<close>

theorem lost_reply_witness:
  "\<exists>e w1 w2. Dispatcher_Handle std_lib 0 LogSender_Send TypeShipmentCreated
        (Some (JObj [(''orderId'', JStr (uuid_String std_lib 7))])) (notif_start 0 [ReplyLost]) = (Inl e, w1)
      \<and> \<not> is_permanent e
      \<and> Dispatcher_Handle std_lib 0 LogSender_Send TypeShipmentCreated
          (Some (JObj [(''orderId'', JStr (uuid_String std_lib 7))])) w1 = (Inr (), w2)
      \<and> delivered (w_db w2) = []"
proof -
  let ?m = "\<lparr>rm_orderID = 7, rm_subject = ''Preparing your shipment'',
    rm_body = ''A shipment was created for order '' @ uuid_String std_lib 7 @ ''.''\<rparr>"
  have "render std_lib TypeShipmentCreated (Some (JObj [(''orderId'', JStr (uuid_String std_lib 7))])) = Inr (Some ?m)"
    by (simp add: render_def type_texts render_view_def Unmarshal_view_def json_Unmarshal_def dec_OrderRef_def parseOrder_def
      std.parse_string)
  from lost_reply_never_notified [OF std.uuid_laws_axioms this, of 0 0] std.string_text [of 7]
  show ?thesis by simp
qed

section \<open>Runs without faults\<close>

text \<open>The specification: one notification per key, in the order of the first event that asks for it.\<close>

definition rendering :: "golib \<Rightarrow> delivery \<Rightarrow> nerr + rendered option" where
  "rendering L d = render L (headerValue (msg_Headers (dl_message d)) HeaderEventType) (msg_Value (dl_message d))"

definition wanted :: "golib \<Rightarrow> delivery \<Rightarrow> string option" where
  "wanted L d =
     (case rendering L d of
        Inr (Some m) \<Rightarrow>
          Some (headerValue (msg_Headers (dl_message d)) HeaderEventType @ '':'' @ uuid_String L (rm_orderID m))
      | _ \<Rightarrow> None)"

definition notify_spec :: "string option \<Rightarrow> string list \<Rightarrow> string list" where
  "notify_spec k ks = (case k of None \<Rightarrow> ks | Some k \<Rightarrow> if k \<in> set ks then ks else ks @ [k])"

definition storable :: "golib \<Rightarrow> delivery \<Rightarrow> bool" where
  "storable L d = (case rendering L d of Inr (Some m) \<Rightarrow> pg_text (rm_subject m) \<and> pg_text (rm_body m) | _ \<Rightarrow> True)"

text \<open>The table and the log agree, and the identifiers in the table were handed out before.\<close>

definition in_step :: "golib \<Rightarrow> string list \<Rightarrow> notif_state world \<Rightarrow> bool" where
  "in_step L ks w \<longleftrightarrow> w_faults w = [] \<and> keys (t_notifications (w_db w)) = ks \<and> keys (delivered (w_db w)) = ks
     \<and> (\<forall>n \<in> set (t_notifications (w_db w)). \<exists>k < w_uuids w. no_id n = uuid_New L k)"

lemma known_key: "list_ex (\<lambda>m. no_dedupeKey m = k) ns \<longleftrightarrow> k \<in> set (keys ns)"
  by (induction ns) (auto simp: keys_def)

lemma handle_calm:
  assumes L: "uuid_laws L" and inj: "inj_on (uuid_New L) {..w_uuids w}" and w: "in_step L ks w"
    and r: "render L ty payload = Inr (Some m)" "pg_text (rm_subject m)" "pg_text (rm_body m)"
  shows "\<exists>w'. Dispatcher_Handle L now LogSender_Send ty payload w = (Inr (), w')
    \<and> w_uuids w' = w_uuids w + 1 \<and> in_step L (notify_spec (Some (ty @ '':'' @ uuid_String L (rm_orderID m))) ks) w'"
proof -
  let ?k = "ty @ '':'' @ uuid_String L (rm_orderID m)"
  let ?n = "new_notification L now ty m (uuid_New L (w_uuids w))"
  have key: "no_dedupeKey ?n = ?k" "no_id ?n = uuid_New L (w_uuids w)" by (simp_all add: new_notification_def)
  have texts: "pg_text (no_dedupeKey ?n) \<and> pg_text (no_eventType ?n) \<and> pg_text (no_recipient ?n)
      \<and> pg_text (no_subject ?n) \<and> pg_text (no_body ?n)"
    using r event_types_text [OF r(1)] uuid_laws.string_text [OF L]
    by (simp add: new_notification_def recipientFor_def)
  have fresh: "\<not> list_ex (\<lambda>m. no_id m = no_id ?n) (t_notifications (w_db w))"
    using w inj unfolding in_step_def list_ex_iff key inj_on_def by (metis atMost_iff less_irrefl nat_le_linear nless_le)
  have known: "list_ex (\<lambda>m. no_dedupeKey m = ?k) (t_notifications (w_db w)) = (?k \<in> set ks)"
    using w by (simp add: in_step_def known_key)
  have ins: "insert_notification ?n (w_db w) =
      (if ?k \<in> set ks then Inr (False, w_db w)
       else Inr (True, (w_db w)\<lparr>t_notifications := t_notifications (w_db w) @ [?n\<lparr>no_createdAt := pg_timestamp (no_createdAt ?n)\<rparr>]\<rparr>))"
    using texts fresh known by (simp add: insert_notification_def key)
  have calm: "w_faults w = []" using w by (simp add: in_step_def)
  show ?thesis
  proof (cases "?k \<in> set ks")
    case True
    then have "Dispatcher_Handle L now LogSender_Send ty payload w = (Inr (), w\<lparr>w_uuids := w_uuids w + 1\<rparr>)"
      using calm ins by (simp add: Dispatcher_Handle_def r RecordIfNew_def act_simps Let_def)
    then show ?thesis using w True by (auto simp: in_step_def notify_spec_def less_Suc_eq)
  next
    case False
    let ?d = "(w_db w)\<lparr>t_notifications := t_notifications (w_db w) @ [?n\<lparr>no_createdAt := pg_timestamp (no_createdAt ?n)\<rparr>],
                delivered := delivered (w_db w) @ [?n]\<rparr>"
    have "Dispatcher_Handle L now LogSender_Send ty payload w = (Inr (), w\<lparr>w_uuids := w_uuids w + 1, w_db := ?d\<rparr>)"
      using calm ins False
      by (simp add: Dispatcher_Handle_def r RecordIfNew_def act_simps Let_def LogSender_Send_def)
    then show ?thesis using w False key by (auto simp: in_step_def notify_spec_def keys_def less_Suc_eq)
  qed
qed

lemma step_calm:
  assumes L: "uuid_laws L" and inj: "inj_on (uuid_New L) {..w_uuids w}" and w: "in_step L ks w" and d: "storable L d"
  shows "\<exists>w'. notification_step L now LogSender_Send dlq et d w = (Inr (), w')
    \<and> w_uuids w' \<le> w_uuids w + 1 \<and> in_step L (notify_spec (wanted L d) ks) w'"
proof -
  let ?ty = "headerValue (msg_Headers (dl_message d)) HeaderEventType" and ?b = "msg_Value (dl_message d)"
  have commit: "wrap_err ''commit offset'' CommitMessages w = (Inr () :: nerr + unit, w)" if "w_faults w = []" for w :: "notif_state world"
    using that by (simp add: CommitMessages_def act_simps)
  show ?thesis
  proof (cases "render L ?ty ?b")
    case (Inl err)
    let ?w = "w\<lparr>w_sent := w_sent w @ [dlq_message dlq d (et (Permanent err))]\<rparr>"
    have "notification_step L now LogSender_Send dlq et d w = (Inr (), ?w)"
      using Inl w commit [of ?w]
      by (simp add: notification_step_def consume_def Dispatcher_Handle_def Permanent_def DeadLetter_Publish_def
          act_simps in_step_def)
    then show ?thesis using Inl w by (auto simp: wanted_def rendering_def notify_spec_def in_step_def)
  next
    case (Inr x)
    show ?thesis
    proof (cases x)
      case None
      then have "notification_step L now LogSender_Send dlq et d w = (Inr (), w)"
        using Inr w commit by (simp add: notification_step_def consume_def Dispatcher_Handle_def ok_def in_step_def)
      then show ?thesis using None Inr w by (auto simp: wanted_def rendering_def notify_spec_def)
    next
      case (Some m)
      then have "pg_text (rm_subject m)" "pg_text (rm_body m)" using d Inr by (auto simp: storable_def rendering_def)
      from handle_calm [OF L inj w Inr [unfolded Some] this, of now] obtain w' where
        h: "Dispatcher_Handle L now LogSender_Send ?ty ?b w = (Inr (), w')" "w_uuids w' = w_uuids w + 1"
        "in_step L (notify_spec (Some (?ty @ '':'' @ uuid_String L (rm_orderID m))) ks) w'" by blast
      then have "notification_step L now LogSender_Send dlq et d w = (Inr (), w')"
        using commit [of w'] by (simp add: notification_step_def consume_def in_step_def)
      then show ?thesis using h(2,3) Inr Some by (auto simp: wanted_def rendering_def)
    qed
  qed
qed

text \<open>C17. Without faults the service refines its specification: it gets through any list of deliveries,
  the unreadable ones included, and what it has delivered is one notification for each event
  type and order that was asked for, in the order of the first time.\<close>

theorem notifications_refine:
  assumes "uuid_laws L" and "inj_on (uuid_New L) {..<k + length ds}" and "list_all (storable L) ds"
  shows "\<exists>w'. notification_Run L now LogSender_Send dlq et ds (notif_start k []) = (Inr (), w')
    \<and> map no_dedupeKey (delivered (w_db w')) = fold (\<lambda>d. notify_spec (wanted L d)) ds []"
proof -
  have "in_step L ks w \<Longrightarrow> list_all (storable L) ds \<Longrightarrow> inj_on (uuid_New L) {..<w_uuids w + length ds} \<Longrightarrow>
    \<exists>w'. notification_Run L now LogSender_Send dlq et ds w = (Inr (), w')
      \<and> in_step L (fold (\<lambda>d. notify_spec (wanted L d)) ds ks) w'" for ks w ds
    unfolding notification_Run_def
  proof (induction ds arbitrary: ks w)
    case Nil
    then show ?case by (simp add: ok_def)
  next
    case (Cons d ds)
    have inj: "inj_on (uuid_New L) {..w_uuids w}"
      by (rule inj_on_subset [OF Cons.prems(3)]) auto
    from step_calm [OF assms(1) inj Cons.prems(1), of d now dlq et] Cons.prems(2) obtain w1 where
      1: "notification_step L now LogSender_Send dlq et d w = (Inr (), w1)" "w_uuids w1 \<le> w_uuids w + 1"
      "in_step L (notify_spec (wanted L d) ks) w1" by auto
    have "inj_on (uuid_New L) {..<w_uuids w1 + length ds}"
      by (rule inj_on_subset [OF Cons.prems(3)]) (use 1(2) in auto)
    with Cons.IH [OF 1(3)] Cons.prems(2) 1(1) show ?case by (simp add: and_then_def)
  qed
  from this [of "[]" "notif_start k []" ds] assms(2,3) show ?thesis
    by (auto simp: in_step_def notif_start_def keys_def)
qed

text \<open>One event delivered twice, and one that nobody can read.\<close>

definition created_delivery :: "json \<Rightarrow> delivery" where
  "created_delivery j = \<lparr>dl_message = \<lparr>msg_Topic = ''fulfillment.events'', msg_Key = [], msg_Value = Some j,
     msg_Headers = [(HeaderEventType, TypeShipmentCreated)]\<rparr>, dl_offset = 0\<rparr>"

lemma created_rendering:
  "rendering std_lib (created_delivery (JObj [(''orderId'', JStr (uuid_String std_lib 7))])) =
     Inr (Some \<lparr>rm_orderID = 7, rm_subject = ''Preparing your shipment'',
       rm_body = ''A shipment was created for order '' @ uuid_String std_lib 7 @ ''.''\<rparr>)"
  "rendering std_lib (created_delivery (JArr [])) = Inl (Wrapf ''unmarshal event'' (Foreign ''json.Unmarshal''))"
  by (simp_all add: rendering_def created_delivery_def render_def type_texts render_view_def Unmarshal_view_def
      json_Unmarshal_def dec_OrderRef_def parseOrder_def std.parse_string)

theorem notifications_refine_witness:
  "\<exists>w'. notification_Run std_lib 0 LogSender_Send ''dlq'' (\<lambda>_. [])
      (let d = created_delivery (JObj [(''orderId'', JStr (uuid_String std_lib 7))])
       in [d, created_delivery (JArr []), d]) (notif_start 0 []) = (Inr (), w')
    \<and> map no_dedupeKey (delivered (w_db w')) = [TypeShipmentCreated @ '':'' @ uuid_String std_lib 7]"
proof -
  let ?d = "created_delivery (JObj [(''orderId'', JStr (uuid_String std_lib 7))])"
  have inj: "inj_on (uuid_New std_lib) {..<0 + length [?d, created_delivery (JArr []), ?d]}"
    by (auto simp: inj_on_def std_lib_def word_of_nat_eq_iff take_bit_nat_eq_self)
  have st: "list_all (storable std_lib) [?d, created_delivery (JArr []), ?d]"
    by (simp add: storable_def created_rendering std.string_text)
  have wanted: "wanted std_lib ?d = Some (TypeShipmentCreated @ '':'' @ uuid_String std_lib 7)"
    "wanted std_lib (created_delivery (JArr [])) = None"
    by (simp_all add: wanted_def created_rendering) (simp add: created_delivery_def)
  from notifications_refine [OF std.uuid_laws_axioms inj st, of 0 "''dlq''" "\<lambda>_. []"]
  show ?thesis by (simp add: Let_def wanted notify_spec_def)
qed

section \<open>Amounts\<close>

text \<open>Amounts between -0.99 and -0.01 are rendered without their sign: -50 USD cents read as
  0.50 USD.\<close>

lemma money_drops_sign:
  "if - 100 < sint minor \<and> sint minor < 0 then money minor currency = money (- minor) currency else True"
proof -
  have "sint (- minor) = - sint minor" if "- 100 < sint minor" "sint minor < 0"
    using that by (simp add: sint_word_ariths signed_take_bit_int_eq_self)
  then show ?thesis
    by (simp add: money_def signed_divide_int_def signed_modulo_int_def Let_def)
qed

end
