(* ===== verification/Fulfillment_Domain.thy ===== *)
theory Fulfillment_Domain
  imports Json Wire_Time
begin

text \<open>
  services/fulfillment/internal/domain/fulfillment: the shipment aggregate with its guarded
  transitions (each answers whether it changed anything), and the integration events of
  internal/contracts. The lemmas say what each transition does on every branch, and relate them
  to the lifecycle \<open>next_status\<close>.
\<close>

datatype fulfillment_sentinel =
    ErrValidation_ship | ErrInvalidIdentifier_ship | ErrShipmentNotFound | ErrShipmentExists
  | ErrConcurrency_ship | ErrInvalidTransition_ship

type_synonym ferr = "fulfillment_sentinel err"

text \<open>\<open>StatusText\<close> is any text the column could hold beside the four constants.\<close>

datatype ShipmentStatus = StatusCreated | StatusDispatched | StatusDelivered | StatusFailed | StatusText string

fun ShipmentStatus_string :: "ShipmentStatus \<Rightarrow> string" where
  "ShipmentStatus_string StatusCreated = ''CREATED''"
| "ShipmentStatus_string StatusDispatched = ''DISPATCHED''"
| "ShipmentStatus_string StatusDelivered = ''DELIVERED''"
| "ShipmentStatus_string StatusFailed = ''FAILED''"
| "ShipmentStatus_string (StatusText s) = s"

section \<open>The aggregate\<close>

record Shipment =
  sm_ID :: uuid
  sm_OrderID :: uuid
  sm_Status :: ShipmentStatus
  sm_Carrier :: string
  sm_TrackingCode :: string
  sm_FailureReason :: string
  sm_Version :: int64
  sm_CreatedAt :: time
  sm_UpdatedAt :: time

text \<open>The identifier is drawn by the caller's \<open>new_uuid\<close>.\<close>

definition new_shipment :: "uuid \<Rightarrow> uuid \<Rightarrow> time \<Rightarrow> Shipment" where
  "new_shipment i orderID now =
     \<lparr>sm_ID = i, sm_OrderID = orderID, sm_Status = StatusCreated, sm_Carrier = [], sm_TrackingCode = [],
      sm_FailureReason = [], sm_Version = 0, sm_CreatedAt = now, sm_UpdatedAt = now\<rparr>"

text \<open>The first component of a result is the aggregate after the call, the second is \<open>changed\<close>.\<close>

definition Shipment_Dispatch :: "Shipment \<Rightarrow> string \<Rightarrow> string \<Rightarrow> time \<Rightarrow> ferr + Shipment \<times> bool" where
  "Shipment_Dispatch s carrier trackingCode now =
     (if sm_Status s = StatusDispatched then Inr (s, False)
      else if sm_Status s \<noteq> StatusCreated then Inl (Detailf ErrInvalidTransition_ship ''cannot dispatch'')
      else if carrier = [] then Inl (Detailf ErrValidation_ship ''carrier is required'')
      else Inr (s\<lparr>sm_Status := StatusDispatched, sm_Carrier := carrier, sm_TrackingCode := trackingCode,
                  sm_UpdatedAt := now\<rparr>, True))"

definition Shipment_Deliver :: "Shipment \<Rightarrow> time \<Rightarrow> ferr + Shipment \<times> bool" where
  "Shipment_Deliver s now =
     (if sm_Status s = StatusDelivered then Inr (s, False)
      else if sm_Status s \<noteq> StatusDispatched then Inl (Detailf ErrInvalidTransition_ship ''cannot deliver'')
      else Inr (s\<lparr>sm_Status := StatusDelivered, sm_UpdatedAt := now\<rparr>, True))"

definition Shipment_Fail :: "Shipment \<Rightarrow> string \<Rightarrow> time \<Rightarrow> ferr + Shipment \<times> bool" where
  "Shipment_Fail s reason now =
     (if sm_Status s = StatusFailed then Inr (s, False)
      else if sm_Status s = StatusDelivered
      then Inl (Detailf ErrInvalidTransition_ship ''cannot fail a delivered shipment'')
      else Inr (s\<lparr>sm_Status := StatusFailed, sm_FailureReason := reason, sm_UpdatedAt := now\<rparr>, True))"

section \<open>Events\<close>

definition TopicFulfillmentEvents :: string where "TopicFulfillmentEvents = ''fulfillment.events''"
definition TypeShipmentCreated_ship :: string where "TypeShipmentCreated_ship = ''shipment.created.v1''"
definition TypeShipmentDispatched_ship :: string where "TypeShipmentDispatched_ship = ''shipment.dispatched.v1''"
definition TypeShipmentDelivered_ship :: string where "TypeShipmentDelivered_ship = ''shipment.delivered.v1''"
definition TypeShipmentFailed_ship :: string where "TypeShipmentFailed_ship = ''shipment.failed.v1''"

record ShipmentCreatedV1 =
  sc_ShipmentID :: string
  sc_Order :: string
  sc_Status :: string
  sc_CreatedAt :: string

record ShipmentDispatchedV1 =
  sd_ShipmentID :: string
  sd_Order :: string
  sd_Carrier :: string
  sd_TrackingCode :: string
  sd_DispatchedAt :: string

record ShipmentDeliveredV1 =
  sl_ShipmentID :: string
  sl_Order :: string
  sl_DeliveredAt :: string

record ShipmentFailedV1 =
  sf_ShipmentID :: string
  sf_Order :: string
  sf_Reason :: string
  sf_FailedAt :: string

definition Marshal_ShipmentCreated :: "ShipmentCreatedV1 \<Rightarrow> body" where
  "Marshal_ShipmentCreated e = Some (
     JObj [(''shipmentId'', JStr (sc_ShipmentID e)), (''orderId'', JStr (sc_Order e)),
           (''status'', JStr (sc_Status e)), (''createdAt'', JStr (sc_CreatedAt e))])"

definition Marshal_ShipmentDispatched :: "ShipmentDispatchedV1 \<Rightarrow> body" where
  "Marshal_ShipmentDispatched e = Some (
     JObj [(''shipmentId'', JStr (sd_ShipmentID e)), (''orderId'', JStr (sd_Order e)),
           (''carrier'', JStr (sd_Carrier e)), (''trackingCode'', JStr (sd_TrackingCode e)),
           (''dispatchedAt'', JStr (sd_DispatchedAt e))])"

definition Marshal_ShipmentDelivered :: "ShipmentDeliveredV1 \<Rightarrow> body" where
  "Marshal_ShipmentDelivered e = Some (
     JObj [(''shipmentId'', JStr (sl_ShipmentID e)), (''orderId'', JStr (sl_Order e)),
           (''deliveredAt'', JStr (sl_DeliveredAt e))])"

definition Marshal_ShipmentFailed :: "ShipmentFailedV1 \<Rightarrow> body" where
  "Marshal_ShipmentFailed e = Some (
     JObj [(''shipmentId'', JStr (sf_ShipmentID e)), (''orderId'', JStr (sf_Order e)),
           (''reason'', JStr (sf_Reason e)), (''failedAt'', JStr (sf_FailedAt e))])"

record OrderConfirmed_ship =
  fc_OrderID :: string
  fc_ConfirmedAt :: string

definition dec_OrderConfirmed_ship :: "OrderConfirmed_ship dec" where
  "dec_OrderConfirmed_ship = dec_struct (\<lambda>kvs e.
     Option.bind (dec_field ''orderId'' dec_string kvs (fc_OrderID e)) (\<lambda>i.
     Option.bind (dec_field ''confirmedAt'' dec_string kvs (fc_ConfirmedAt e)) (\<lambda>c.
       Some \<lparr>fc_OrderID = i, fc_ConfirmedAt = c\<rparr>)))"

definition UnmarshalOrderConfirmed_ship :: "body \<Rightarrow> ferr + OrderConfirmed_ship" where
  "UnmarshalOrderConfirmed_ship raw =
     (case json_Unmarshal dec_OrderConfirmed_ship \<lparr>fc_OrderID = [], fc_ConfirmedAt = []\<rparr> raw of
        None \<Rightarrow> Inl (Wrapf ''unmarshal order.confirmed.v1'' (Foreign ''json.Unmarshal''))
      | Some e \<Rightarrow> Inr e)"

section \<open>The lifecycle\<close>

text \<open>CREATED, DISPATCHED, DELIVERED in this order, and FAILED from every open status.\<close>

inductive next_status :: "ShipmentStatus \<Rightarrow> ShipmentStatus \<Rightarrow> bool" where
  dispatched: "next_status StatusCreated StatusDispatched"
| delivered: "next_status StatusDispatched StatusDelivered"
| failed: "s \<noteq> StatusDelivered \<Longrightarrow> s \<noteq> StatusFailed \<Longrightarrow> next_status s StatusFailed"

code_pred next_status .

inductive_simps next_status_simps [simp]:
  "next_status s StatusCreated" "next_status s StatusDispatched" "next_status s StatusDelivered"
  "next_status s StatusFailed" "next_status StatusDelivered s" "next_status StatusFailed s"

text \<open>The successful branches of the transitions.\<close>

lemma Dispatch_Inr:
  "Shipment_Dispatch s carrier code now = Inr (s', c) \<longleftrightarrow>
     \<not> c \<and> sm_Status s = StatusDispatched \<and> s' = s
     \<or> c \<and> sm_Status s = StatusCreated \<and> carrier \<noteq> []
       \<and> s' = s\<lparr>sm_Status := StatusDispatched, sm_Carrier := carrier, sm_TrackingCode := code, sm_UpdatedAt := now\<rparr>"
  by (auto simp: Shipment_Dispatch_def)

lemma Deliver_Inr:
  "Shipment_Deliver s now = Inr (s', c) \<longleftrightarrow>
     \<not> c \<and> sm_Status s = StatusDelivered \<and> s' = s
     \<or> c \<and> sm_Status s = StatusDispatched \<and> s' = s\<lparr>sm_Status := StatusDelivered, sm_UpdatedAt := now\<rparr>"
  by (auto simp: Shipment_Deliver_def)

lemma Fail_Inr:
  "Shipment_Fail s reason now = Inr (s', c) \<longleftrightarrow>
     \<not> c \<and> sm_Status s = StatusFailed \<and> s' = s
     \<or> c \<and> next_status (sm_Status s) StatusFailed
       \<and> s' = s\<lparr>sm_Status := StatusFailed, sm_FailureReason := reason, sm_UpdatedAt := now\<rparr>"
  by (auto simp: Shipment_Fail_def)

end
