(* ===== verification/Fulfillment_Service.thy ===== *)
theory Fulfillment_Service
  imports Fulfillment_Domain Order_Workers
begin

text \<open>
  The fulfillment service: its shipments table (infra/postgres/shipment\_repository.go), its event
  publisher (infra/kafka/publisher.go), its use cases (app/service.go) and the consumer of
  order.confirmed (worker/consumer). Every statement of the repository is a transaction of its
  own; \<open>w_others\<close> lists what other processes commit to the table, one entry before each statement.
  Identifiers are passed to the server as binary UUIDs, so no text is parsed there.
\<close>

section \<open>The table\<close>

record ship_db =
  t_shipments :: "Shipment list"

record ship_world = "ship_db world" +
  w_others :: "(ship_db \<Rightarrow> ship_db) list"

type_synonym 'a ship_act = "(ship_world, fulfillment_sentinel, 'a) prog"

definition others_step :: "ship_world \<Rightarrow> ship_world" where
  "others_step w = (case w_others w of [] \<Rightarrow> w | f # fs \<Rightarrow> w\<lparr>w_others := fs, w_db := f (w_db w)\<rparr>)"

definition ship_stmt :: "(ship_db \<Rightarrow> ferr + 'a \<times> ship_db) \<Rightarrow> 'a ship_act" where
  "ship_stmt f w =
     (case next_fault (others_step w) of
        (Fine, w') \<Rightarrow> (case f (w_db w') of Inl e \<Rightarrow> (Inl e, w') | Inr (a, d) \<Rightarrow> (Inr a, w'\<lparr>w_db := d\<rparr>))
      | (Failed, w') \<Rightarrow> (Inl (Foreign ''pgx''), w')
      | (ReplyLost, w') \<Rightarrow>
          (Inl (Foreign ''pgx''), (case f (w_db w') of Inl e \<Rightarrow> w' | Inr (a, d) \<Rightarrow> w'\<lparr>w_db := d\<rparr>)))"

definition GetByOrderID :: "uuid \<Rightarrow> Shipment ship_act" where
  "GetByOrderID orderID w =
     (case ship_stmt (\<lambda>d. Inr (find (\<lambda>r. sm_OrderID r = orderID) (t_shipments d), d)) w of
        (Inl err, w') \<Rightarrow> (Inl (Wrapf ''query shipment'' err), w')
      | (Inr None, w') \<Rightarrow> (Inl (Sentinel ErrShipmentNotFound), w')
      | (Inr (Some s), w') \<Rightarrow> (Inr s, w'))"

text \<open>The texts Postgres takes, and the microseconds it keeps.\<close>

definition shipment_texts :: "Shipment \<Rightarrow> bool" where
  "shipment_texts s \<longleftrightarrow>
     pg_text (ShipmentStatus_string (sm_Status s)) \<and> pg_text (sm_Carrier s) \<and> pg_text (sm_TrackingCode s)
     \<and> pg_text (sm_FailureReason s)"

definition insert_shipment :: "Shipment \<Rightarrow> ship_db \<Rightarrow> ferr + unit \<times> ship_db" where
  "insert_shipment s d =
     (if \<not> shipment_texts s then Inl (Foreign ''22021'')
      else if list_ex (\<lambda>r. sm_ID r = sm_ID s \<or> sm_OrderID r = sm_OrderID s) (t_shipments d)
      then Inl (Foreign ''23505'')
      else Inr ((), d\<lparr>t_shipments := t_shipments d @
             [s\<lparr>sm_CreatedAt := pg_timestamp (sm_CreatedAt s), sm_UpdatedAt := pg_timestamp (sm_UpdatedAt s)\<rparr>]\<rparr>))"

definition Shipment_Insert :: "Shipment \<Rightarrow> unit ship_act" where
  "Shipment_Insert s =
     map_err (\<lambda>err. if err = Foreign ''23505'' then Sentinel ErrShipmentExists else Wrapf ''insert shipment'' err)
       (ship_stmt (insert_shipment s))"

definition updated_row :: "Shipment \<Rightarrow> Shipment \<Rightarrow> Shipment" where
  "updated_row s r = r\<lparr>sm_Status := sm_Status s, sm_Carrier := sm_Carrier s, sm_TrackingCode := sm_TrackingCode s,
     sm_FailureReason := sm_FailureReason s, sm_Version := sm_Version r + 1, sm_UpdatedAt := pg_timestamp (sm_UpdatedAt s)\<rparr>"

text \<open>The guarded update: the number of rows it changed. The id is the primary key.\<close>

definition update_shipment :: "Shipment \<Rightarrow> ship_db \<Rightarrow> ferr + nat \<times> ship_db" where
  "update_shipment s d =
     (let hit = (\<lambda>r. sm_ID r = sm_ID s \<and> sm_Version r = sm_Version s) in
      if \<not> shipment_texts s then Inl (Foreign ''22021'')
      else if \<not> list_ex hit (t_shipments d) then Inr (0, d)
      else if sint (sm_Version s) = 2 ^ 63 - 1 then Inl (Foreign ''22003'')
      else Inr (length (filter hit (t_shipments d)),
                d\<lparr>t_shipments := map (\<lambda>r. if hit r then updated_row s r else r) (t_shipments d)\<rparr>))"

definition Shipment_Update :: "Shipment \<Rightarrow> unit ship_act" where
  "Shipment_Update s =
     and_then (wrap_err ''update shipment'' (ship_stmt (update_shipment s))) (\<lambda>affected.
       if affected = 0 then fail (Sentinel ErrConcurrency_ship) else ok ())"

section \<open>Publishing\<close>

record ShipEvent =
  ev_Type :: string
  ev_Key :: string
  ev_Payload :: body

text \<open>kafkaHeaderCarrier.Set: the first header of the name is replaced.\<close>

fun carrier_Set :: "string \<Rightarrow> string \<Rightarrow> headers \<Rightarrow> headers" where
  "carrier_Set key v [] = [(key, v)]"
| "carrier_Set key v ((k, x) # hs) = (if k = key then (k, v) # hs else (k, x) # carrier_Set key v hs)"

definition InjectToKafkaHeaders :: "ctx \<Rightarrow> headers \<Rightarrow> headers" where
  "InjectToKafkaHeaders C hs = fold (\<lambda>(k, v). carrier_Set k v) (ctx_propagated C) hs"

definition event_message :: "ctx \<Rightarrow> string \<Rightarrow> ShipEvent \<Rightarrow> message" where
  "event_message C topic e =
     \<lparr>msg_Topic = topic, msg_Key = ev_Key e, msg_Value = ev_Payload e,
      msg_Headers = InjectToKafkaHeaders C [(HeaderEventType, ev_Type e)]\<rparr>"

definition Publisher_Publish_ship :: "ctx \<Rightarrow> string \<Rightarrow> ShipEvent list \<Rightarrow> unit ship_act" where
  "Publisher_Publish_ship C topic events =
     (if events = [] then ok ()
      else wrap_err ''publish fulfillment events'' (WriteMessages (map (event_message C topic) events)))"

section \<open>Use cases\<close>

definition service_publish :: "golib \<Rightarrow> ctx \<Rightarrow> string \<Rightarrow> string \<Rightarrow> uuid \<Rightarrow> body \<Rightarrow> unit ship_act" where
  "service_publish L C topic eventType orderID payload =
     wrap_err (''publish '' @ eventType)
       (Publisher_Publish_ship C topic
          [\<lparr>ev_Type = eventType, ev_Key = uuid_String L orderID, ev_Payload = payload\<rparr>])"

definition created_payload :: "golib \<Rightarrow> Shipment \<Rightarrow> body" where
  "created_payload L s =
     Marshal_ShipmentCreated
       \<lparr>sc_ShipmentID = uuid_String L (sm_ID s), sc_Order = uuid_String L (sm_OrderID s),
        sc_Status = ShipmentStatus_string (sm_Status s), sc_CreatedAt = FormatTime (sm_CreatedAt s)\<rparr>"

definition Shipment_Create :: "golib \<Rightarrow> uuid \<Rightarrow> time \<Rightarrow> Shipment ship_act" where
  "Shipment_Create L orderID now =
     (if orderID = 0 then fail (Detailf ErrValidation_ship ''orderId is required'')
      else and_then (new_uuid L) (\<lambda>u. ok (new_shipment u orderID now)))"

definition open_shipment :: "golib \<Rightarrow> time \<Rightarrow> uuid \<Rightarrow> Shipment ship_act" where
  "open_shipment L now orderID =
     and_then (Shipment_Create L orderID now) (\<lambda>shipment w.
       (case Shipment_Insert shipment w of
          (Inr _, w') \<Rightarrow> (Inr shipment, w')
        | (Inl err, w') \<Rightarrow>
            if errors_Is err ErrShipmentExists then GetByOrderID orderID w'
            else (Inl (Wrapf ''insert shipment'' err), w')))"

definition CreateForOrder :: "golib \<Rightarrow> ctx \<Rightarrow> string \<Rightarrow> time \<Rightarrow> uuid \<Rightarrow> Shipment ship_act" where
  "CreateForOrder L C topic now orderID =
     and_then
       (\<lambda>w. (case GetByOrderID orderID w of
              (Inr shipment, w') \<Rightarrow> (Inr shipment, w')
            | (Inl err, w') \<Rightarrow>
                if errors_Is err ErrShipmentNotFound then open_shipment L now orderID w'
                else (Inl (Wrapf ''load shipment'' err), w')))
       (\<lambda>shipment.
          if sm_Status shipment = StatusCreated
          then and_then (service_publish L C topic TypeShipmentCreated_ship (sm_OrderID shipment) (created_payload L shipment))
                 (\<lambda>_. ok shipment)
          else ok shipment)"

text \<open>Dispatch and Deliver return the aggregate they updated, as they read it.\<close>

definition Service_Dispatch ::
  "golib \<Rightarrow> ctx \<Rightarrow> string \<Rightarrow> time \<Rightarrow> uuid \<Rightarrow> string \<Rightarrow> string \<Rightarrow> Shipment ship_act" where
  "Service_Dispatch L C topic now orderID carrier trackingCode =
     and_then (GetByOrderID orderID) (\<lambda>s0.
     and_then (of_result (Shipment_Dispatch s0 carrier trackingCode now)) (\<lambda>(shipment, changed).
       if changed then
         and_then (Shipment_Update shipment) (\<lambda>_.
         and_then (service_publish L C topic TypeShipmentDispatched_ship orderID
            (Marshal_ShipmentDispatched
               \<lparr>sd_ShipmentID = uuid_String L (sm_ID shipment), sd_Order = uuid_String L (sm_OrderID shipment),
                sd_Carrier = sm_Carrier shipment, sd_TrackingCode = sm_TrackingCode shipment,
                sd_DispatchedAt = FormatTime (sm_UpdatedAt shipment)\<rparr>))
           (\<lambda>_. ok shipment))
       else ok shipment))"

definition Service_Deliver :: "golib \<Rightarrow> ctx \<Rightarrow> string \<Rightarrow> time \<Rightarrow> uuid \<Rightarrow> Shipment ship_act" where
  "Service_Deliver L C topic now orderID =
     and_then (GetByOrderID orderID) (\<lambda>s0.
     and_then (of_result (Shipment_Deliver s0 now)) (\<lambda>(shipment, changed).
       if changed then
         and_then (Shipment_Update shipment) (\<lambda>_.
         and_then (service_publish L C topic TypeShipmentDelivered_ship orderID
            (Marshal_ShipmentDelivered
               \<lparr>sl_ShipmentID = uuid_String L (sm_ID shipment), sl_Order = uuid_String L (sm_OrderID shipment),
                sl_DeliveredAt = FormatTime (sm_UpdatedAt shipment)\<rparr>))
           (\<lambda>_. ok shipment))
       else ok shipment))"

definition Service_Get :: "uuid \<Rightarrow> Shipment ship_act" where
  "Service_Get orderID = GetByOrderID orderID"

section \<open>The worker\<close>

text \<open>\<open>ctx_of\<close> is the propagator reading the context out of the message headers.\<close>

definition handleConfirmed ::
  "golib \<Rightarrow> (headers \<Rightarrow> ctx) \<Rightarrow> string \<Rightarrow> time \<Rightarrow> delivery \<Rightarrow> unit ship_act" where
  "handleConfirmed L ctx_of topic now d =
     (case UnmarshalOrderConfirmed_ship (msg_Value (dl_message d)) of
        Inl err \<Rightarrow> fail (Permanent (Wrapf ''unmarshal order.confirmed'' err))
      | Inr event \<Rightarrow>
          (case uuid_Parse L (fc_OrderID event) of
             None \<Rightarrow> fail (Permanent (Wrapf ''parse orderId'' (Foreign ''uuid.Parse'')))
           | Some orderID \<Rightarrow>
               and_then (wrap_err ''create shipment for order''
                   (CreateForOrder L (ctx_of (msg_Headers (dl_message d))) topic now orderID)) (\<lambda>_. ok ())))"

definition fulfillment_step ::
  "golib \<Rightarrow> (headers \<Rightarrow> ctx) \<Rightarrow> string \<Rightarrow> string \<Rightarrow> (ferr \<Rightarrow> string) \<Rightarrow> time \<Rightarrow> delivery \<Rightarrow> unit ship_act" where
  "fulfillment_step L ctx_of topic dlqTopic error_text now =
     consume CommitMessages
       (\<lambda>d. if headerValue (msg_Headers (dl_message d)) HeaderEventType = ''order.confirmed.v1''
             then handleConfirmed L ctx_of topic now d else ok ())
       (DeadLetter_Publish dlqTopic error_text) id"

end
