(* ===== verification/Fulfillment_Races.thy ===== *)
theory Fulfillment_Races
  imports Fulfillment_Service
begin

text \<open>
  The shipments table under concurrency: any number of processes create, dispatch and deliver
  while a call runs. \<open>ship_ok\<close> is the invariant of the table (one shipment per order, the version
  counts the transitions), \<open>advances\<close> what any two states of it have in common: shipments never
  disappear and only move forward.
\<close>

section \<open>The invariant\<close>

definition row_fits :: "Shipment \<Rightarrow> bool" where
  "row_fits r \<longleftrightarrow> sm_OrderID r \<noteq> 0 \<and> sm_FailureReason r = []
     \<and> (sm_Status r = StatusCreated \<and> sm_Version r = 0 \<and> sm_Carrier r = []
        \<or> sm_Status r = StatusDispatched \<and> sm_Version r = 1 \<and> sm_Carrier r \<noteq> []
        \<or> sm_Status r = StatusDelivered \<and> sm_Version r = 2 \<and> sm_Carrier r \<noteq> [])"

definition ship_ok :: "ship_db \<Rightarrow> bool" where
  "ship_ok d \<longleftrightarrow> distinct (map sm_ID (t_shipments d)) \<and> distinct (map sm_OrderID (t_shipments d))
     \<and> (\<forall>r \<in> set (t_shipments d). row_fits r)"

definition later :: "Shipment \<Rightarrow> Shipment \<Rightarrow> bool" where
  "later r r' \<longleftrightarrow> sm_ID r' = sm_ID r \<and> sm_OrderID r' = sm_OrderID r \<and> sm_CreatedAt r' = sm_CreatedAt r
     \<and> (r' = r \<or> sint (sm_Version r) < sint (sm_Version r'))
     \<and> (0 < sint (sm_Version r) \<longrightarrow> sm_Carrier r' = sm_Carrier r \<and> sm_TrackingCode r' = sm_TrackingCode r)"

definition advances :: "ship_db \<Rightarrow> ship_db \<Rightarrow> bool" where
  "advances d d' \<longleftrightarrow> (\<forall>r \<in> set (t_shipments d). \<exists>r' \<in> set (t_shipments d'). later r r')"

lemma later_refl [simp]: "later r r"
  by (simp add: later_def)

lemma later_trans: "later a b \<Longrightarrow> later b c \<Longrightarrow> later a c"
  by (auto simp: later_def)

lemma advances_refl [simp]: "advances d d"
  unfolding advances_def using later_refl by blast

lemma advances_trans: "advances a b \<Longrightarrow> advances b c \<Longrightarrow> advances a c"
  unfolding advances_def by (meson later_trans)

section \<open>Programs among others\<close>

definition ship_relies :: "ship_world \<Rightarrow> bool" where
  "ship_relies w \<longleftrightarrow> (\<forall>f \<in> set (w_others w). \<forall>d. ship_ok d \<longrightarrow> ship_ok (f d) \<and> advances d (f d))"

text \<open>What holds of the table and keeps holding whatever the others do.\<close>

definition ship_stable :: "(ship_db \<Rightarrow> bool) \<Rightarrow> bool" where
  "ship_stable P \<longleftrightarrow> (\<forall>d d'. ship_ok d' \<longrightarrow> advances d d' \<longrightarrow> P d \<longrightarrow> P d')"

definition sound :: "(ship_db \<Rightarrow> bool) \<Rightarrow> 'a ship_act \<Rightarrow> ('a \<Rightarrow> ship_db \<Rightarrow> bool) \<Rightarrow> bool" where
  "sound P m Q \<longleftrightarrow> (\<forall>w r w'. m w = (r, w') \<longrightarrow> ship_relies w \<longrightarrow> ship_ok (w_db w) \<longrightarrow> P (w_db w) \<longrightarrow>
     ship_relies w' \<and> ship_ok (w_db w') \<and> advances (w_db w) (w_db w') \<and> (\<forall>a. r = Inr a \<longrightarrow> Q a (w_db w')))"

lemma soundD: "sound P m Q \<Longrightarrow> m w = (r, w') \<Longrightarrow> ship_relies w \<Longrightarrow> ship_ok (w_db w) \<Longrightarrow> P (w_db w) \<Longrightarrow>
   ship_relies w' \<and> ship_ok (w_db w') \<and> advances (w_db w) (w_db w') \<and> (\<forall>a. r = Inr a \<longrightarrow> Q a (w_db w'))"
  unfolding sound_def by blast

named_theorems soundness \<open>programs that keep the table in order\<close>

lemma sound_pure [soundness]:
  "(\<And>d. P d \<Longrightarrow> Q a d) \<Longrightarrow> sound P (ok a) Q" "sound P (fail e) Q"
  "(\<And>a d. r = Inr a \<Longrightarrow> P d \<Longrightarrow> Q a d) \<Longrightarrow> sound P (of_result r) Q"
  by (auto simp: sound_def ok_def fail_def of_result_def)

lemma sound_new_uuid [soundness]: "(\<And>u d. P d \<Longrightarrow> Q u d) \<Longrightarrow> sound P (new_uuid L) Q"
  by (auto simp: sound_def new_uuid_def ship_relies_def)

lemma next_fault_others: "next_fault w = (f, w') \<Longrightarrow> w_others w' = w_others w \<and> w_db w' = w_db w"
  by (auto simp: next_fault_def split: list.splits)

lemma sound_broker_call [soundness]: "(\<And>d. P d \<Longrightarrow> Q () d) \<Longrightarrow> sound P (broker_call ms) Q"
  by (auto simp: sound_def broker_call_def ship_relies_def split: prod.splits fault.splits
      dest!: next_fault_others)

lemma WriteMessages_others:
  "WriteMessages ms w = (r :: 's err + unit, w') \<Longrightarrow> w_others w' = w_others w \<and> w_db w' = w_db w"
proof (induction ms arbitrary: w r)
  case (Cons m ms)
  from Cons.prems obtain r1 r2 :: "'s err + unit" and w1 where 1: "broker_call [m] w = (r1, w1)"
    and 2: "WriteMessages ms w1 = (r2, w')" by (rule WriteMessages_ConsE)
  from 1 have "w_others w1 = w_others w \<and> w_db w1 = w_db w"
    by (auto simp: broker_call_def next_fault_db split: prod.splits fault.splits dest!: next_fault_others)
  with Cons.IH [OF 2] show ?case by simp
qed (simp add: ok_def)

lemma sound_WriteMessages [soundness]: "(\<And>d. P d \<Longrightarrow> Q () d) \<Longrightarrow> sound P (WriteMessages ms) Q"
  by (auto simp: sound_def ship_relies_def dest!: WriteMessages_others)

text \<open>A call whose error is handled: \<open>f\<close> goes on after a result, \<open>g\<close> after an error.\<close>

lemma sound_try:
  assumes m: "sound P m Q" and f: "\<And>a. sound (Q a) (f a) R" and g: "\<And>e. sound (\<lambda>_. True) (g e) R"
  shows "sound P (\<lambda>w. case m w of (Inr a, w') \<Rightarrow> f a w' | (Inl e, w') \<Rightarrow> g e w') R"
  unfolding sound_def
proof (intro allI impI)
  fix w r w' assume run: "(case m w of (Inr a, w') \<Rightarrow> f a w' | (Inl e, w') \<Rightarrow> g e w') = (r, w')"
    and w: "ship_relies w" "ship_ok (w_db w)" "P (w_db w)"
  obtain r1 w1 where m1: "m w = (r1, w1)" by fastforce
  from soundD [OF m m1 w] have 1: "ship_relies w1" "ship_ok (w_db w1)" "advances (w_db w) (w_db w1)"
    "\<And>a. r1 = Inr a \<Longrightarrow> Q a (w_db w1)" by auto
  have "ship_relies w' \<and> ship_ok (w_db w') \<and> advances (w_db w1) (w_db w') \<and> (\<forall>a. r = Inr a \<longrightarrow> R a (w_db w'))"
  proof (cases r1)
    case (Inl e)
    then have "g e w1 = (r, w')" using run m1 by simp
    from soundD [OF g this 1(1,2)] show ?thesis by simp
  next
    case (Inr a)
    then have "f a w1 = (r, w')" using run m1 by simp
    from soundD [OF f this 1(1,2) 1(4) [OF Inr]] show ?thesis .
  qed
  then show "ship_relies w' \<and> ship_ok (w_db w') \<and> advances (w_db w) (w_db w') \<and> (\<forall>a. r = Inr a \<longrightarrow> R a (w_db w'))"
    using advances_trans [OF 1(3)] by blast
qed

lemma sound_and_then: "sound P m Q \<Longrightarrow> (\<And>a. sound (Q a) (f a) R) \<Longrightarrow> sound P (and_then m f) R"
proof -
  assume a: "sound P m Q" "\<And>a. sound (Q a) (f a) R"
  have "and_then m f = (\<lambda>w. case m w of (Inr a, w') \<Rightarrow> f a w' | (Inl e, w') \<Rightarrow> fail e w')"
    by (auto simp: and_then_def fail_def split: prod.split sum.split)
  then show ?thesis using sound_try [OF a sound_pure(2)] by simp
qed

lemma sound_map_err [soundness]: "sound P m Q \<Longrightarrow> sound P (map_err h m) Q"
  unfolding sound_def map_err_def by (fastforce split: prod.splits sum.splits)

lemma sound_pre: "sound P' m Q \<Longrightarrow> (\<And>d. P d \<Longrightarrow> P' d) \<Longrightarrow> sound P m Q"
  unfolding sound_def by blast

lemma sound_if [soundness]: "(b \<Longrightarrow> sound P m Q) \<Longrightarrow> (\<not> b \<Longrightarrow> sound P n Q) \<Longrightarrow> sound P (if b then m else n) Q"
  by simp

lemma others_sound:
  assumes "ship_relies w" and "ship_ok (w_db w)"
  shows "ship_relies (others_step w) \<and> ship_ok (w_db (others_step w)) \<and> advances (w_db w) (w_db (others_step w))"
  using assms by (auto simp: others_step_def ship_relies_def split: list.split)

text \<open>A statement may do, and must promise, whatever it does in every state \<open>P\<close> allows.\<close>

lemma sound_stmt:
  assumes P: "ship_stable P"
    and f: "\<And>d a d'. ship_ok d \<Longrightarrow> P d \<Longrightarrow> f d = Inr (a, d') \<Longrightarrow> ship_ok d' \<and> advances d d' \<and> Q a d'"
  shows "sound P (ship_stmt f) Q"
  unfolding sound_def
proof (intro allI impI)
  fix w r w' assume run: "ship_stmt f w = (r, w')" and w: "ship_relies w" "ship_ok (w_db w)" "P (w_db w)"
  obtain ft w1 where n: "next_fault (others_step w) = (ft, w1)" by fastforce
  have o: "ship_relies w1" "ship_ok (w_db w1)" "advances (w_db w) (w_db w1)"
    using others_sound [OF w(1,2)] next_fault_others [OF n] by (simp_all add: ship_relies_def)
  then have P1: "P (w_db w1)" using P w(3) unfolding ship_stable_def by blast
  consider "w' = w1" "\<exists>e. r = Inl e"
    | a d' where "f (w_db w1) = Inr (a, d')" "w' = w1\<lparr>w_db := d'\<rparr>" "\<And>b. r = Inr b \<Longrightarrow> b = a"
    using run n by (cases ft; cases "f (w_db w1)") (auto simp: ship_stmt_def split: prod.splits)
  then show "ship_relies w' \<and> ship_ok (w_db w') \<and> advances (w_db w) (w_db w') \<and> (\<forall>a. r = Inr a \<longrightarrow> Q a (w_db w'))"
  proof cases
    case 1
    with o show ?thesis by auto
  next
    case 2
    from f [OF o(2) P1 2(1)] advances_trans [OF o(3)] show ?thesis
      using 2 o(1) by (auto simp: ship_relies_def)
  qed
qed

section \<open>The statements\<close>

text \<open>The shipment that was read, or one that has moved on from it.\<close>

definition on_file :: "Shipment \<Rightarrow> ship_db \<Rightarrow> bool" where
  "on_file s d \<longleftrightarrow> (\<exists>r \<in> set (t_shipments d). later s r)"

lemma on_fileI: "s \<in> set (t_shipments d) \<Longrightarrow> on_file s d"
  unfolding on_file_def using later_refl by blast

lemma advancesI: "set (t_shipments d) \<subseteq> set (t_shipments d') \<Longrightarrow> advances d d'"
  unfolding advances_def using later_refl by blast

lemma on_file_stable: "ship_stable (on_file s)" "ship_stable (\<lambda>_. True)"
  unfolding ship_stable_def on_file_def advances_def by (meson later_trans) simp

text \<open>What a caller may conclude from a shipment it was given.\<close>

definition reached :: "Shipment \<Rightarrow> ship_db \<Rightarrow> bool" where
  "reached s d \<longleftrightarrow> (\<exists>r \<in> set (t_shipments d). sm_ID r = sm_ID s \<and> sm_OrderID r = sm_OrderID s
     \<and> next_status\<^sup>*\<^sup>* (sm_Status s) (sm_Status r))"

lemma later_status:
  assumes "later s r" and "row_fits s" and "row_fits r"
  shows "next_status\<^sup>*\<^sup>* (sm_Status s) (sm_Status r)"
proof -
  have steps: "next_status\<^sup>*\<^sup>* StatusCreated StatusDispatched" "next_status\<^sup>*\<^sup>* StatusDispatched StatusDelivered"
    by (auto intro: r_into_rtranclp)
  then have "next_status\<^sup>*\<^sup>* StatusCreated StatusDelivered" by (rule rtranclp_trans)
  with steps assms show ?thesis by (auto simp: later_def row_fits_def)
qed

lemma reached_stable: "ship_stable (\<lambda>d. ship_ok d \<and> reached s d)"
  unfolding ship_stable_def
proof (intro allI impI)
  fix d d' assume d': "ship_ok d'" and adv: "advances d d'" and r: "ship_ok d \<and> reached s d"
  then obtain r where r: "r \<in> set (t_shipments d)" "sm_ID r = sm_ID s" "sm_OrderID r = sm_OrderID s"
    "next_status\<^sup>*\<^sup>* (sm_Status s) (sm_Status r)" "row_fits r" by (auto simp: reached_def ship_ok_def)
  then obtain r' where r': "r' \<in> set (t_shipments d')" "later r r'" using adv by (auto simp: advances_def)
  then have "row_fits r'" using d' by (simp add: ship_ok_def)
  from later_status [OF r'(2) r(5) this] r r' have "reached s d'"
    unfolding reached_def later_def by (metis rtranclp_trans)
  with d' show "ship_ok d' \<and> reached s d'" by simp
qed

lemma GetByOrderID_sound:
  "sound P (GetByOrderID i) (\<lambda>s d. on_file s d \<and> row_fits s \<and> sm_OrderID s = i)" if P: "ship_stable P"
proof -
  let ?Q = "\<lambda>x d. \<forall>s. x = Some s \<longrightarrow> on_file s d \<and> row_fits s \<and> sm_OrderID s = i"
  have st: "sound P (ship_stmt (\<lambda>d. Inr (find (\<lambda>r. sm_OrderID r = i) (t_shipments d), d))) ?Q"
    by (rule sound_stmt [OF P]) (auto simp: ship_ok_def find_Some_iff intro!: on_fileI)
  have "GetByOrderID i = and_then (wrap_err ''query shipment'' (ship_stmt (\<lambda>d. Inr (find (\<lambda>r. sm_OrderID r = i) (t_shipments d), d))))
      (\<lambda>x. case x of None \<Rightarrow> fail (Sentinel ErrShipmentNotFound) | Some s \<Rightarrow> ok s)"
    by (auto simp: GetByOrderID_def and_then_def map_err_def fail_def ok_def split: prod.split sum.split option.split)
  moreover have "sound P \<dots> (\<lambda>s d. on_file s d \<and> row_fits s \<and> sm_OrderID s = i)"
    by (rule sound_and_then [OF sound_map_err [OF st]]) (auto split: option.split intro!: sound_pure)
  ultimately show ?thesis by simp
qed

lemma insert_sound:
  assumes s: "s = new_shipment u i now" and i: "i \<noteq> 0"
    and run: "insert_shipment s d = Inr (a, d')" and ok: "ship_ok d"
  shows "ship_ok d' \<and> advances d d' \<and> reached s d'"
proof -
  let ?r = "s\<lparr>sm_CreatedAt := pg_timestamp (sm_CreatedAt s), sm_UpdatedAt := pg_timestamp (sm_UpdatedAt s)\<rparr>"
  have d': "t_shipments d' = t_shipments d @ [?r]"
    and free: "\<forall>r \<in> set (t_shipments d). sm_ID r \<noteq> sm_ID s \<and> sm_OrderID r \<noteq> sm_OrderID s"
    using run by (auto simp: insert_shipment_def list_ex_iff split: if_splits)
  have "row_fits ?r" using s i by (simp add: row_fits_def new_shipment_def)
  with ok free have "ship_ok d'" by (auto simp: ship_ok_def d')
  moreover have "advances d d'" by (rule advancesI) (auto simp: d')
  ultimately show ?thesis by (auto simp: reached_def d')
qed

text \<open>The guarded update moves the row that was read, and only while it is unchanged.\<close>

definition ship_move :: "Shipment \<Rightarrow> Shipment \<Rightarrow> bool" where
  "ship_move s0 s \<longleftrightarrow> sm_ID s = sm_ID s0 \<and> sm_OrderID s = sm_OrderID s0 \<and> sm_Version s = sm_Version s0
     \<and> sm_FailureReason s = sm_FailureReason s0 \<and> sm_CreatedAt s = sm_CreatedAt s0
     \<and> (sm_Status s0 = StatusCreated \<and> sm_Status s = StatusDispatched \<and> sm_Carrier s \<noteq> []
        \<or> sm_Status s0 = StatusDispatched \<and> sm_Status s = StatusDelivered
          \<and> sm_Carrier s = sm_Carrier s0 \<and> sm_TrackingCode s = sm_TrackingCode s0)"

lemma updated_fits:
  "row_fits s0 \<Longrightarrow> ship_move s0 s \<Longrightarrow> row_fits (updated_row s s0) \<and> later s0 (updated_row s s0)"
  by (auto simp: row_fits_def ship_move_def updated_row_def later_def)

lemma update_sound:
  assumes s0: "on_file s0 d" "row_fits s0" and mv: "ship_move s0 s"
    and run: "update_shipment s d = Inr (n, d')" and ok: "ship_ok d"
  shows "ship_ok d' \<and> advances d d' \<and> (n \<noteq> 0 \<longrightarrow> reached s d')"
proof -
  let ?hit = "\<lambda>r. sm_ID r = sm_ID s \<and> sm_Version r = sm_Version s"
  let ?up = "\<lambda>r. if ?hit r then updated_row s r else r"
  have only: "r = s0" if r: "r \<in> set (t_shipments d)" and h: "?hit r" for r
  proof -
    obtain q where q: "q \<in> set (t_shipments d)" "later s0 q" using s0(1) by (auto simp: on_file_def)
    then have "sm_ID q = sm_ID r" using mv h by (simp add: later_def ship_move_def)
    then have "q = r" using ok q(1) r by (auto simp: ship_ok_def distinct_map inj_on_def)
    then show ?thesis using q(2) h mv by (auto simp: later_def ship_move_def)
  qed
  show ?thesis
  proof (cases "list_ex ?hit (t_shipments d)")
    case False
    then show ?thesis using run ok by (auto simp: update_shipment_def Let_def split: if_splits)
  next
    case True
    then obtain r where r: "r \<in> set (t_shipments d)" "?hit r" by (auto simp: list_ex_iff)
    then have s0in: "s0 \<in> set (t_shipments d)" using only by blast
    have d': "t_shipments d' = map ?up (t_shipments d)"
      using run True by (auto simp: update_shipment_def Let_def split: if_splits)
    have up: "row_fits (?up q) \<and> later q (?up q)" if "q \<in> set (t_shipments d)" for q
      using only [OF that] updated_fits [OF s0(2) mv] ok that by (auto simp: ship_ok_def)
    have ids: "map sm_ID (t_shipments d') = map sm_ID (t_shipments d)"
      "map sm_OrderID (t_shipments d') = map sm_OrderID (t_shipments d)"
      by (simp_all add: d' updated_row_def)
    have "\<forall>q \<in> set (t_shipments d'). row_fits q" using up unfolding d' by fastforce
    with ok have "ship_ok d'" unfolding ship_ok_def ids by blast
    moreover have "advances d d'" unfolding advances_def d' set_map using up by blast
    moreover have "?up s0 \<in> set (t_shipments d')" using s0in by (auto simp: d')
    then have "reached s d'"
      using only [OF r] r(2) mv by (intro bexI [of _ "?up s0"] reached_def [THEN iffD2]) (auto simp: updated_row_def ship_move_def)
    ultimately show ?thesis by blast
  qed
qed

section \<open>The use cases\<close>

lemma Shipment_Update_sound:
  assumes "row_fits s0" and "ship_move s0 s"
  shows "sound (on_file s0) (Shipment_Update s) (\<lambda>_ d. ship_ok d \<and> reached s d)"
  unfolding Shipment_Update_def
proof (rule sound_and_then [OF sound_map_err])
  show "sound (on_file s0) (ship_stmt (update_shipment s)) (\<lambda>n d. n \<noteq> 0 \<longrightarrow> ship_ok d \<and> reached s d)"
    by (rule sound_stmt [OF on_file_stable(1)]) (use update_sound assms in blast)
qed (auto intro!: soundness)

lemma Shipment_Insert_sound:
  assumes "s = new_shipment u i now" and "i \<noteq> 0"
  shows "sound P (Shipment_Insert s) (\<lambda>_ d. ship_ok d \<and> reached s d)"
  unfolding Shipment_Insert_def
  by (rule sound_map_err, rule sound_pre [OF sound_stmt [OF on_file_stable(2)]])
    (use insert_sound [OF assms] in blast)+

lemma read_reached: "on_file s d \<and> row_fits s \<and> Q \<Longrightarrow> ship_ok d \<Longrightarrow> ship_ok d \<and> reached s d"
  using later_status unfolding on_file_def reached_def ship_ok_def later_def by metis

lemma sound_ok_post: "sound P m Q \<Longrightarrow> (\<And>a d. ship_ok d \<Longrightarrow> Q a d \<Longrightarrow> R a d) \<Longrightarrow> sound P m R"
  unfolding sound_def by blast

lemma service_publish_sound: "sound P (service_publish L C topic ty i p) (\<lambda>_. P)"
  unfolding service_publish_def Publisher_Publish_ship_def by (auto intro!: soundness)

lemma read_sound: "sound (\<lambda>_. True) (GetByOrderID i) (\<lambda>s d. ship_ok d \<and> reached s d)"
  by (rule sound_ok_post [OF GetByOrderID_sound [OF on_file_stable(2)]]) (rule read_reached)

lemma open_shipment_sound: "sound (\<lambda>_. True) (open_shipment L now i) (\<lambda>s d. ship_ok d \<and> reached s d)"
  unfolding open_shipment_def
proof (rule sound_and_then)
  show "sound (\<lambda>_. True) (Shipment_Create L i now) (\<lambda>s d. i \<noteq> 0 \<and> (\<exists>u. s = new_shipment u i now))"
    unfolding Shipment_Create_def
    by (intro sound_if sound_pure sound_and_then [OF sound_new_uuid, where R = "\<lambda>s d. i \<noteq> 0 \<and> (\<exists>u. s = new_shipment u i now)"]) auto
  fix s
  show "sound (\<lambda>d. i \<noteq> 0 \<and> (\<exists>u. s = new_shipment u i now))
     (\<lambda>w. case Shipment_Insert s w of
        (Inl err, w') \<Rightarrow> if errors_Is err ErrShipmentExists then GetByOrderID i w' else (Inl (Wrapf ''insert shipment'' err), w')
      | (Inr _, w') \<Rightarrow> (Inr s, w')) (\<lambda>s d. ship_ok d \<and> reached s d)" (is "sound ?P ?m ?Q")
  proof (cases "i \<noteq> 0 \<and> (\<exists>u. s = new_shipment u i now)")
    case True
    then obtain u where s: "s = new_shipment u i now" "i \<noteq> 0" by blast
    have "sound ?P (\<lambda>w. case Shipment_Insert s w of (Inr _, w') \<Rightarrow> ok s w'
        | (Inl err, w') \<Rightarrow> (if errors_Is err ErrShipmentExists then GetByOrderID i else fail (Wrapf ''insert shipment'' err)) w') ?Q"
      by (rule sound_try [OF Shipment_Insert_sound [OF s]]) (auto intro!: sound_pure read_sound)
    moreover have "?m = (\<lambda>w. case Shipment_Insert s w of (Inr _, w') \<Rightarrow> ok s w'
        | (Inl err, w') \<Rightarrow> (if errors_Is err ErrShipmentExists then GetByOrderID i else fail (Wrapf ''insert shipment'' err)) w')"
      by (auto simp: ok_def fail_def split: prod.split sum.split)
    ultimately show ?thesis by (simp only:)
  next
    case False
    then show ?thesis by (auto simp: sound_def)
  qed
qed

lemma CreateForOrder_sound: "sound (\<lambda>_. True) (CreateForOrder L C topic now i) (\<lambda>s d. ship_ok d \<and> reached s d)"
  unfolding CreateForOrder_def
proof (rule sound_and_then)
  have "sound (\<lambda>_. True) (\<lambda>w. case GetByOrderID i w of (Inr s, w') \<Rightarrow> ok s w'
      | (Inl err, w') \<Rightarrow> (if errors_Is err ErrShipmentNotFound then open_shipment L now i else fail (Wrapf ''load shipment'' err)) w')
     (\<lambda>s d. ship_ok d \<and> reached s d)"
    by (rule sound_try [OF read_sound]) (auto intro!: sound_pure open_shipment_sound)
  moreover have "(\<lambda>w. case GetByOrderID i w of
        (Inl err, w') \<Rightarrow> if errors_Is err ErrShipmentNotFound then open_shipment L now i w' else (Inl (Wrapf ''load shipment'' err), w')
      | (Inr shipment, w') \<Rightarrow> (Inr shipment, w')) = (\<lambda>w. case GetByOrderID i w of (Inr s, w') \<Rightarrow> ok s w'
      | (Inl err, w') \<Rightarrow> (if errors_Is err ErrShipmentNotFound then open_shipment L now i else fail (Wrapf ''load shipment'' err)) w')"
    by (auto simp: ok_def fail_def split: prod.split sum.split)
  ultimately show "sound (\<lambda>_. True) (\<lambda>w. case GetByOrderID i w of
        (Inl err, w') \<Rightarrow> if errors_Is err ErrShipmentNotFound then open_shipment L now i w' else (Inl (Wrapf ''load shipment'' err), w')
      | (Inr shipment, w') \<Rightarrow> (Inr shipment, w')) (\<lambda>s d. ship_ok d \<and> reached s d)" by (simp only:)
  show "sound (\<lambda>d. ship_ok d \<and> reached s d)
     (if sm_Status s = StatusCreated
      then and_then (service_publish L C topic TypeShipmentCreated_ship (sm_OrderID s) (created_payload L s)) (\<lambda>_. ok s)
      else ok s) (\<lambda>s d. ship_ok d \<and> reached s d)" for s
    by (intro sound_if sound_and_then [OF service_publish_sound] sound_pure) simp_all
qed

lemma advance_sound:
  assumes "\<And>s c. move s0 = Inr (s, c) \<Longrightarrow> (if c then ship_move s0 s else s = s0)"
  shows "sound (\<lambda>d. on_file s0 d \<and> row_fits s0)
    (and_then (of_result (move s0)) (\<lambda>(shipment, changed).
       if changed then and_then (Shipment_Update shipment) (\<lambda>_. and_then (service_publish L C topic ty i (pl shipment)) (\<lambda>_. ok shipment))
       else ok shipment)) (\<lambda>s d. ship_ok d \<and> reached s d)"
proof (rule sound_and_then)
  show "sound (\<lambda>d. on_file s0 d \<and> row_fits s0) (of_result (move s0))
      (\<lambda>p d. on_file s0 d \<and> row_fits s0 \<and> (if snd p then ship_move s0 (fst p) else fst p = s0))"
    by (rule sound_pure(3)) (use assms in auto)
  fix p :: "Shipment \<times> bool"
  obtain s c where p: "p = (s, c)" by fastforce
  let ?P = "\<lambda>d. on_file s0 d \<and> row_fits s0 \<and> (if snd p then ship_move s0 (fst p) else fst p = s0)"
  show "sound ?P (case p of (shipment, changed) \<Rightarrow>
       if changed then and_then (Shipment_Update shipment) (\<lambda>_. and_then (service_publish L C topic ty i (pl shipment)) (\<lambda>_. ok shipment))
       else ok shipment) (\<lambda>s d. ship_ok d \<and> reached s d)"
  proof (cases "row_fits s0 \<and> (if c then ship_move s0 s else s = s0)")
    case False
    then show ?thesis by (auto simp: sound_def p)
  next
    case fits: True
    have "sound (on_file s0) (and_then (Shipment_Update s) (\<lambda>_. and_then (service_publish L C topic ty i (pl s)) (\<lambda>_. ok s)))
        (\<lambda>s d. ship_ok d \<and> reached s d)" if c
      by (rule sound_and_then [OF Shipment_Update_sound [of s0]])
        (use fits that in \<open>auto intro!: sound_and_then [OF service_publish_sound] sound_pure\<close>)
    moreover have "sound ?P (ok s) (\<lambda>s d. ship_ok d \<and> reached s d)" if "\<not> c"
    proof (rule sound_ok_post)
      show "sound ?P (ok s) (\<lambda>a d. a = s0 \<and> on_file s0 d \<and> row_fits s0)"
        by (rule sound_pure(1)) (use that fits in \<open>auto simp: p\<close>)
    qed (use read_reached [of s0 _ True] in auto)
    ultimately show ?thesis by (auto simp: p elim: sound_pre)
  qed
qed

lemma Service_Dispatch_sound:
  "sound (\<lambda>_. True) (Service_Dispatch L C topic now i carrier code) (\<lambda>s d. ship_ok d \<and> reached s d)"
  unfolding Service_Dispatch_def
  by (rule sound_and_then [OF GetByOrderID_sound [OF on_file_stable(2)]], rule sound_pre, rule advance_sound)
    (auto simp: Dispatch_Inr ship_move_def)

lemma Service_Deliver_sound:
  "sound (\<lambda>_. True) (Service_Deliver L C topic now i) (\<lambda>s d. ship_ok d \<and> reached s d)"
  unfolding Service_Deliver_def
  by (rule sound_and_then [OF GetByOrderID_sound [OF on_file_stable(2)]], rule sound_pre, rule advance_sound)
    (auto simp: Deliver_Inr ship_move_def)

section \<open>Races\<close>

datatype ship_call = CallCreate time uuid | CallDispatch time uuid string string | CallShip time uuid | CallGet uuid

fun run_ship :: "golib \<Rightarrow> ctx \<Rightarrow> string \<Rightarrow> ship_call \<Rightarrow> Shipment ship_act" where
  "run_ship L C topic (CallCreate now i) = CreateForOrder L C topic now i"
| "run_ship L C topic (CallDispatch now i carrier code) = Service_Dispatch L C topic now i carrier code"
| "run_ship L C topic (CallShip now i) = Service_Deliver L C topic now i"
| "run_ship L C topic (CallGet i) = Service_Get i"

lemma run_ship_sound: "sound (\<lambda>_. True) (run_ship L C topic c) (\<lambda>s d. ship_ok d \<and> reached s d)"
  by (cases c) (simp_all add: CreateForOrder_sound Service_Dispatch_sound Service_Deliver_sound Service_Get_def read_sound)

text \<open>What a whole call of another process, with its own faults, does to the table.\<close>

definition committed_ship :: "golib \<Rightarrow> ctx \<Rightarrow> string \<Rightarrow> ship_call \<Rightarrow> ship_world \<Rightarrow> ship_db \<Rightarrow> ship_db" where
  "committed_ship L C topic c w = (\<lambda>d. w_db (snd (run_ship L C topic c (w\<lparr>w_db := d, w_others := []\<rparr>))))"

lemma ship_relies_committed:
  assumes "w_others w = map (\<lambda>(C', c', w'). committed_ship L C' topic c' w') cs"
  shows "ship_relies w"
  unfolding ship_relies_def
proof (intro ballI allI impI)
  fix f d assume "f \<in> set (w_others w)" and d: "ship_ok d"
  then obtain C' c' w' where f: "f = committed_ship L C' topic c' w'" using assms by auto
  let ?w = "w'\<lparr>w_db := d, w_others := []\<rparr>"
  obtain r w2 where run: "run_ship L C' topic c' ?w = (r, w2)" by fastforce
  from soundD [OF run_ship_sound run] d show "ship_ok (f d) \<and> advances d (f d)"
    by (simp add: f committed_ship_def run ship_relies_def)
qed

text \<open>C23. However many processes create, dispatch, deliver and read shipments at once, whatever fails:
  there is at most one shipment per order and per identifier, its version counts its transitions,
  no shipment disappears or moves backwards, and its carrier is fixed when it is dispatched. A
  call that answers with a shipment describes one that exists, in a status it has reached.\<close>

theorem shipments_race_safely:
  assumes "ship_ok (w_db w)" and "w_others w = map (\<lambda>(C', c', w'). committed_ship L C' topic c' w') cs"
    and "run_ship L C topic c w = (r, w')"
  shows "ship_ok (w_db w') \<and> advances (w_db w) (w_db w')
    \<and> (case r of Inl e \<Rightarrow> True | Inr s \<Rightarrow> reached s (w_db w'))"
  using soundD [OF run_ship_sound assms(3) ship_relies_committed [OF assms(2)] assms(1)]
  by (auto split: sum.split)

end
