(* ===== verification/Fulfillment_Calm.thy ===== *)
theory Fulfillment_Calm
  imports Fulfillment_Races
begin

text \<open>
  Single runs of the fulfillment service in closed form: a confirmed order gets its shipment and
  its shipment.created event, a redelivery announces the same shipment again; what is lost when
  a publish fails and the shipment moves on before the redelivery; the version the API reports;
  a confirmation without an order id.
\<close>

section \<open>Statements without faults\<close>

definition undisturbed :: "ship_world \<Rightarrow> bool" where
  "undisturbed w \<longleftrightarrow> w_faults w = [] \<and> w_others w = []"

lemma ship_stmt_alone: "undisturbed w \<Longrightarrow>
   ship_stmt f w = (case f (w_db w) of Inl e \<Rightarrow> (Inl e, w) | Inr (a, d) \<Rightarrow> (Inr a, w\<lparr>w_db := d\<rparr>))"
  by (simp add: ship_stmt_def others_step_def undisturbed_def split: sum.split)

definition shipment_for :: "ship_db \<Rightarrow> uuid \<Rightarrow> Shipment option" where
  "shipment_for d i = find (\<lambda>r. sm_OrderID r = i) (t_shipments d)"

lemma GetByOrderID_alone: "undisturbed w \<Longrightarrow> GetByOrderID i w =
   (case shipment_for (w_db w) i of None \<Rightarrow> (Inl (Sentinel ErrShipmentNotFound), w) | Some s \<Rightarrow> (Inr s, w))"
  by (simp add: GetByOrderID_def ship_stmt_alone shipment_for_def split: option.split)

lemma publish_alone: "w_faults w = [] \<Longrightarrow> service_publish L C topic ty i p w =
   (Inr (), w\<lparr>w_sent := w_sent w @ [event_message C topic \<lparr>ev_Type = ty, ev_Key = uuid_String L i, ev_Payload = p\<rparr>]\<rparr>)"
  by (simp add: service_publish_def Publisher_Publish_ship_def map_err_def broker_call_def)

text \<open>What the table holds of a shipment: instants to the microsecond. The wire format has milliseconds.\<close>

definition stored :: "Shipment \<Rightarrow> Shipment" where
  "stored s = s\<lparr>sm_CreatedAt := pg_timestamp (sm_CreatedAt s), sm_UpdatedAt := pg_timestamp (sm_UpdatedAt s)\<rparr>"

lemma FormatTime_stored: "FormatTime (pg_timestamp t) = FormatTime t"
proof -
  define n where "n = nat (t + epoch_ns)"
  have e: "epoch_ns = 1000 * (epoch_ns div 1000)" by (simp add: epoch_ns_def)
  have "(t + epoch_ns) mod 1000 = t mod 1000" by (subst e) simp
  then have "nat (pg_timestamp t + epoch_ns) = nat (t + epoch_ns - (t + epoch_ns) mod 1000)"
    by (simp add: pg_timestamp_def algebra_simps)
  also have "\<dots> = 1000 * (n div 1000)"
  proof (cases "0 \<le> t + epoch_ns")
    case True
    then show ?thesis
      by (simp add: n_def minus_mod_eq_mult_div nat_mult_distrib nat_div_distrib)
  next
    case False
    moreover have "0 \<le> (t + epoch_ns) mod 1000" by simp
    ultimately show ?thesis by (simp add: n_def)
  qed
  finally have m: "nat (pg_timestamp t + epoch_ns) = 1000 * (n div 1000)" .
  have "1000 * k div (1000 * b) = k div b" for k b :: nat by (cases "b = 0") simp_all
  then have "1000 * (n div 1000) div (1000 * 1000000) = n div (1000 * 1000000)"
    by (simp only: div_mult2_eq)
  moreover have "1000 * (n div 1000) mod (1000 * 1000000) div (1000 * 1000) = n mod (1000 * 1000000) div (1000 * 1000)"
    by (simp only: mod_mult2_eq div_mult2_eq) (simp add: mult_mod_right [symmetric])
  ultimately show ?thesis unfolding FormatTime_def Let_def m n_def [symmetric] by simp
qed

lemma stored_payload: "created_payload L (stored s) = created_payload L s"
  by (simp add: created_payload_def stored_def FormatTime_stored)

definition created_message :: "golib \<Rightarrow> ctx \<Rightarrow> string \<Rightarrow> Shipment \<Rightarrow> message" where
  "created_message L C topic s =
     event_message C topic \<lparr>ev_Type = TypeShipmentCreated_ship, ev_Key = uuid_String L (sm_OrderID s), ev_Payload = created_payload L s\<rparr>"

lemma Insert_alone:
  assumes "undisturbed w" and "shipment_for (w_db w) i = None" and "\<forall>r \<in> set (t_shipments (w_db w)). sm_ID r \<noteq> u"
  shows "Shipment_Insert (new_shipment u i now) w =
    (Inr (), w\<lparr>w_db := (w_db w)\<lparr>t_shipments := t_shipments (w_db w) @ [stored (new_shipment u i now)]\<rparr>\<rparr>)"
  using assms
  by (auto simp: Shipment_Insert_def ship_stmt_alone map_err_def insert_shipment_def list_ex_iff shipment_for_def
      find_None_iff new_shipment_def stored_def shipment_texts_def)

text \<open>The world after the first delivery of a confirmation.\<close>

definition opened :: "golib \<Rightarrow> ctx \<Rightarrow> string \<Rightarrow> Shipment \<Rightarrow> ship_world \<Rightarrow> ship_world" where
  "opened L C topic s w =
     w\<lparr>w_uuids := w_uuids w + 1, w_db := (w_db w)\<lparr>t_shipments := t_shipments (w_db w) @ [stored s]\<rparr>,
       w_sent := w_sent w @ [created_message L C topic s]\<rparr>"

lemma CreateForOrder_new:
  assumes w: "undisturbed w" and i: "i \<noteq> 0" and none: "shipment_for (w_db w) i = None"
    and fresh: "\<forall>r \<in> set (t_shipments (w_db w)). sm_ID r \<noteq> uuid_New L (w_uuids w)"
  shows "CreateForOrder L C topic now i w =
    (Inr (new_shipment (uuid_New L (w_uuids w)) i now),
     opened L C topic (new_shipment (uuid_New L (w_uuids w)) i now) w)"
proof -
  let ?w1 = "w\<lparr>w_uuids := w_uuids w + 1\<rparr>"
  have "undisturbed ?w1" using w by (simp add: undisturbed_def)
  then show ?thesis
    using assms Insert_alone [of ?w1 i "uuid_New L (w_uuids w)" now]
    by (simp add: CreateForOrder_def and_then_def GetByOrderID_alone open_shipment_def Shipment_Create_def new_uuid_def
        ok_def publish_alone undisturbed_def opened_def created_message_def)
      (simp add: new_shipment_def)
qed

lemma CreateForOrder_again:
  assumes "undisturbed w" and "shipment_for (w_db w) i = Some s"
  shows "CreateForOrder L C topic now i w =
    (Inr s, if sm_Status s = StatusCreated then w\<lparr>w_sent := w_sent w @ [created_message L C topic s]\<rparr> else w)"
  using assms
  by (simp add: CreateForOrder_def and_then_def GetByOrderID_alone ok_def publish_alone undisturbed_def created_message_def)

text \<open>C25. A confirmed order gets one shipment: the first delivery stores it and announces it, any
  further delivery stores nothing, draws no identifier and announces the same shipment with the
  very same message, as long as it has not been dispatched.\<close>

theorem confirmations_idempotent:
  assumes "undisturbed w" and "i \<noteq> 0" and "shipment_for (w_db w) i = None"
    and "\<forall>r \<in> set (t_shipments (w_db w)). sm_ID r \<noteq> uuid_New L (w_uuids w)"
  shows "\<exists>s w1 s2 w2. CreateForOrder L C topic now i w = (Inr s, w1)
    \<and> shipment_for (w_db w1) i = Some (stored s) \<and> sm_Status s = StatusCreated
    \<and> w_sent w1 = w_sent w @ [created_message L C topic s]
    \<and> CreateForOrder L C topic now' i w1 = (Inr s2, w2) \<and> s2 = stored s \<and> w_db w2 = w_db w1
    \<and> w_uuids w2 = w_uuids w1 \<and> w_sent w2 = w_sent w1 @ [created_message L C topic s]"
proof -
  let ?s = "new_shipment (uuid_New L (w_uuids w)) i now"
  let ?w1 = "opened L C topic ?s w"
  have 1: "undisturbed ?w1" using assms(1) by (simp add: undisturbed_def opened_def)
  have "shipment_for (w_db ?w1) i = Some (stored ?s)"
    using assms(3) by (simp add: shipment_for_def opened_def stored_def new_shipment_def find_append)
  moreover have "created_message L C topic (stored ?s) = created_message L C topic ?s"
    by (simp only: created_message_def stored_payload) (simp add: stored_def)
  ultimately show ?thesis
    using CreateForOrder_new [OF assms] CreateForOrder_again [OF 1]
    by (intro exI [of _ ?s] exI [of _ ?w1] exI [of _ "stored ?s"] exI) (auto simp: opened_def new_shipment_def stored_def)
qed

section \<open>Advancing\<close>

lemma filter_only: "distinct xs \<Longrightarrow> x \<in> set xs \<Longrightarrow> filter (\<lambda>r. r = x) xs = [x]"
  by (induction xs) (auto simp: filter_empty_conv)

lemma update_found:
  assumes ok: "ship_ok d" and s0: "s0 \<in> set (t_shipments d)" and mv: "ship_move s0 s" and tx: "shipment_texts s"
  shows "\<exists>d'. update_shipment s d = Inr (1, d') \<and> shipment_for d' (sm_OrderID s0) = Some (updated_row s s0)"
proof -
  let ?hit = "\<lambda>r. sm_ID r = sm_ID s \<and> sm_Version r = sm_Version s"
  have hit: "?hit s0" using mv by (simp add: ship_move_def)
  have only: "r = s0" if "r \<in> set (t_shipments d)" "?hit r" for r
    using that s0 ok mv by (auto simp: ship_ok_def distinct_map inj_on_def ship_move_def)
  have "filter ?hit (t_shipments d) = [s0]"
  proof -
    have "filter ?hit (t_shipments d) = filter (\<lambda>r. r = s0) (t_shipments d)"
      by (rule filter_cong) (use only hit in auto)
    moreover have "distinct (t_shipments d)" using ok by (auto simp: ship_ok_def distinct_map)
    ultimately show ?thesis using s0 by (simp add: filter_only)
  qed
  moreover have "list_ex ?hit (t_shipments d)" using hit s0 by (auto simp: list_ex_iff)
  moreover have "sint (sm_Version s) \<noteq> 2 ^ 63 - 1"
    using ok s0 mv by (auto simp: ship_ok_def row_fits_def ship_move_def)
  ultimately have run: "update_shipment s d = Inr (1, d\<lparr>t_shipments := map (\<lambda>r. if ?hit r then updated_row s r else r) (t_shipments d)\<rparr>)"
    using tx by (simp add: update_shipment_def Let_def)
  let ?d = "d\<lparr>t_shipments := map (\<lambda>r. if ?hit r then updated_row s r else r) (t_shipments d)\<rparr>"
  have "ship_ok ?d" using update_sound [OF on_fileI [OF s0] _ mv run ok] ok s0 by (auto simp: ship_ok_def)
  moreover have "updated_row s s0 \<in> set (t_shipments ?d)" using s0 hit by force
  ultimately have "find (\<lambda>r. sm_OrderID r = sm_OrderID (updated_row s s0)) (t_shipments ?d) = Some (updated_row s s0)"
    by (intro find_unique) (simp_all only: ship_ok_def)
  then show ?thesis using run by (auto simp: shipment_for_def updated_row_def)
qed

lemma Update_undisturbed:
  assumes "undisturbed w" and "ship_ok (w_db w)" and "s0 \<in> set (t_shipments (w_db w))" and "ship_move s0 s"
    and "shipment_texts s"
  shows "\<exists>d'. Shipment_Update s w = (Inr (), w\<lparr>w_db := d'\<rparr>) \<and> ship_ok d'
    \<and> shipment_for d' (sm_OrderID s0) = Some (updated_row s s0)"
proof -
  obtain d' where d': "update_shipment s (w_db w) = Inr (1, d')" "shipment_for d' (sm_OrderID s0) = Some (updated_row s s0)"
    using update_found [OF assms(2-5)] by blast
  have "ship_ok d'"
    using update_sound [OF on_fileI [OF assms(3)] _ assms(4) d'(1) assms(2)] assms(2,3) by (auto simp: ship_ok_def)
  then show ?thesis
    using assms(1) d' by (intro exI [of _ d']) (simp add: Shipment_Update_def and_then_def map_err_def ship_stmt_alone ok_def)
qed

lemma shipment_for_in: "shipment_for d i = Some s \<Longrightarrow> s \<in> set (t_shipments d) \<and> sm_OrderID s = i"
  by (auto simp: shipment_for_def find_Some_iff)

text \<open>The messages of a dispatch and a delivery.\<close>

definition dispatched_message :: "golib \<Rightarrow> ctx \<Rightarrow> string \<Rightarrow> Shipment \<Rightarrow> message" where
  "dispatched_message L C topic s =
     event_message C topic \<lparr>ev_Type = TypeShipmentDispatched_ship, ev_Key = uuid_String L (sm_OrderID s),
       ev_Payload = Marshal_ShipmentDispatched
         \<lparr>sd_ShipmentID = uuid_String L (sm_ID s), sd_Order = uuid_String L (sm_OrderID s),
          sd_Carrier = sm_Carrier s, sd_TrackingCode = sm_TrackingCode s, sd_DispatchedAt = FormatTime (sm_UpdatedAt s)\<rparr>\<rparr>"

definition delivered_message :: "golib \<Rightarrow> ctx \<Rightarrow> string \<Rightarrow> Shipment \<Rightarrow> message" where
  "delivered_message L C topic s =
     event_message C topic \<lparr>ev_Type = TypeShipmentDelivered_ship, ev_Key = uuid_String L (sm_OrderID s),
       ev_Payload = Marshal_ShipmentDelivered
         \<lparr>sl_ShipmentID = uuid_String L (sm_ID s), sl_Order = uuid_String L (sm_OrderID s),
          sl_DeliveredAt = FormatTime (sm_UpdatedAt s)\<rparr>\<rparr>"

lemma Dispatch_undisturbed:
  fixes now :: time
  assumes w: "undisturbed w" and ok: "ship_ok (w_db w)" and s0: "shipment_for (w_db w) i = Some s0"
    and st: "sm_Status s0 = StatusCreated" and c: "carrier \<noteq> []" "pg_text carrier" "pg_text code"
  defines "s \<equiv> s0\<lparr>sm_Status := StatusDispatched, sm_Carrier := carrier, sm_TrackingCode := code, sm_UpdatedAt := now\<rparr>"
  shows "\<exists>d'. Service_Dispatch L C topic now i carrier code w =
      (Inr s, w\<lparr>w_db := d', w_sent := w_sent w @ [dispatched_message L C topic s]\<rparr>)
    \<and> ship_ok d' \<and> shipment_for d' i = Some (updated_row s s0)"
proof -
  note mem = shipment_for_in [OF s0]
  then have fits: "row_fits s0" using ok by (simp add: ship_ok_def)
  have mv: "ship_move s0 s" using st c by (simp add: ship_move_def s_def)
  have tx: "shipment_texts s" using fits c by (simp add: shipment_texts_def s_def row_fits_def)
  obtain d' where d': "Shipment_Update s w = (Inr (), w\<lparr>w_db := d'\<rparr>)" "ship_ok d'"
    "shipment_for d' i = Some (updated_row s s0)" using Update_undisturbed [OF w ok _ mv tx] mem by blast
  have "Shipment_Dispatch s0 carrier code now = Inr (s, True)"
    using st c by (simp add: Dispatch_Inr s_def)
  then show ?thesis using d' w mem s0
    by (intro exI [of _ d'])
      (simp add: Service_Dispatch_def and_then_def GetByOrderID_alone of_result_def publish_alone undisturbed_def ok_def
        dispatched_message_def s_def)
qed

lemma Deliver_undisturbed:
  fixes now :: time
  assumes w: "undisturbed w" and ok: "ship_ok (w_db w)" and s0: "shipment_for (w_db w) i = Some s0"
    and st: "sm_Status s0 = StatusDispatched" and t: "shipment_texts s0"
  defines "s \<equiv> s0\<lparr>sm_Status := StatusDelivered, sm_UpdatedAt := now\<rparr>"
  shows "\<exists>d'. Service_Deliver L C topic now i w =
      (Inr s, w\<lparr>w_db := d', w_sent := w_sent w @ [delivered_message L C topic s]\<rparr>)
    \<and> ship_ok d' \<and> shipment_for d' i = Some (updated_row s s0)"
proof -
  note mem = shipment_for_in [OF s0]
  have mv: "ship_move s0 s" using st by (simp add: ship_move_def s_def)
  have tx: "shipment_texts s" using t by (simp add: shipment_texts_def s_def)
  obtain d' where d': "Shipment_Update s w = (Inr (), w\<lparr>w_db := d'\<rparr>)" "ship_ok d'"
    "shipment_for d' i = Some (updated_row s s0)" using Update_undisturbed [OF w ok _ mv tx] mem by blast
  have "Shipment_Deliver s0 now = Inr (s, True)" using st by (simp add: Deliver_Inr s_def)
  then show ?thesis using d' w mem s0
    by (intro exI [of _ d'])
      (simp add: Service_Deliver_def and_then_def GetByOrderID_alone of_result_def publish_alone undisturbed_def ok_def
        delivered_message_def s_def)
qed

text \<open>C28. Undisturbed, a created shipment can be dispatched and then delivered: both calls succeed, each
  publishes exactly its one event after the table was updated, and in the end the shipment is
  DELIVERED at version 2 with the carrier it was dispatched with.\<close>

theorem shipment_comes_through:
  assumes w: "undisturbed w" and ok: "ship_ok (w_db w)" and s0: "shipment_for (w_db w) i = Some s0"
    and st: "sm_Status s0 = StatusCreated" and c: "carrier \<noteq> []" "pg_text carrier" "pg_text code"
  shows "\<exists>s1 w1 s2 w2 r. Service_Dispatch L C topic t1 i carrier code w = (Inr s1, w1)
    \<and> w_sent w1 = w_sent w @ [dispatched_message L C topic s1]
    \<and> Service_Deliver L C topic t2 i w1 = (Inr s2, w2)
    \<and> w_sent w2 = w_sent w1 @ [delivered_message L C topic s2]
    \<and> shipment_for (w_db w2) i = Some r \<and> sm_ID r = sm_ID s0 \<and> sm_Status r = StatusDelivered \<and> sm_Version r = 2
    \<and> sm_Carrier r = carrier \<and> sm_TrackingCode r = code"
proof -
  let ?s = "s0\<lparr>sm_Status := StatusDispatched, sm_Carrier := carrier, sm_TrackingCode := code, sm_UpdatedAt := t1\<rparr>"
  let ?r1 = "updated_row ?s s0"
  obtain d1 where 1: "Service_Dispatch L C topic t1 i carrier code w =
      (Inr ?s, w\<lparr>w_db := d1, w_sent := w_sent w @ [dispatched_message L C topic ?s]\<rparr>)"
    "ship_ok d1" "shipment_for d1 i = Some ?r1" using Dispatch_undisturbed [OF w ok s0 st c] by blast
  let ?w1 = "w\<lparr>w_db := d1, w_sent := w_sent w @ [dispatched_message L C topic ?s]\<rparr>"
  have fits: "row_fits s0" using shipment_for_in [OF s0] ok by (simp add: ship_ok_def)
  have w1: "undisturbed ?w1" "ship_ok (w_db ?w1)" "shipment_for (w_db ?w1) i = Some ?r1"
    "sm_Status ?r1 = StatusDispatched" "shipment_texts ?r1"
    using w 1 fits c by (simp_all add: undisturbed_def updated_row_def shipment_texts_def row_fits_def)
  let ?s2 = "?r1\<lparr>sm_Status := StatusDelivered, sm_UpdatedAt := t2\<rparr>"
  obtain d2 where 2: "Service_Deliver L C topic t2 i ?w1 =
      (Inr ?s2, ?w1\<lparr>w_db := d2, w_sent := w_sent ?w1 @ [delivered_message L C topic ?s2]\<rparr>)"
    "shipment_for d2 i = Some (updated_row ?s2 ?r1)" using Deliver_undisturbed [OF w1, of L C topic t2] by blast
  have "sm_Version (updated_row ?s2 ?r1) = 2" using fits st by (auto simp: updated_row_def row_fits_def)
  then show ?thesis
    using 1(1) 2
    by (intro exI [of _ ?s] exI [of _ ?w1] exI [of _ ?s2] exI [of _ "updated_row ?s2 ?r1"] exI
        [of _ "?w1\<lparr>w_db := d2, w_sent := w_sent ?w1 @ [delivered_message L C topic ?s2]\<rparr>"] conjI)
      (simp_all add: updated_row_def)
qed

text \<open>The shipment a dispatch answers with is not the one stored: it carries the version that was read,
  one less than the version the same update wrote, so a client that sends that version back as
  its expectation is always behind.\<close>

theorem dispatch_reports_stale_version:
  assumes "undisturbed w" and "ship_ok (w_db w)" and "shipment_for (w_db w) i = Some s0"
    and "sm_Status s0 = StatusCreated" and "carrier \<noteq> []" and "pg_text carrier" and "pg_text code"
  shows "\<exists>s w' r. Service_Dispatch L C topic now i carrier code w = (Inr s, w')
    \<and> shipment_for (w_db w') i = Some r \<and> sm_Status s = sm_Status r \<and> sm_Version r = sm_Version s + 1"
proof -
  let ?s = "s0\<lparr>sm_Status := StatusDispatched, sm_Carrier := carrier, sm_TrackingCode := code, sm_UpdatedAt := now\<rparr>"
  obtain d' where "Service_Dispatch L C topic now i carrier code w =
      (Inr ?s, w\<lparr>w_db := d', w_sent := w_sent w @ [dispatched_message L C topic ?s]\<rparr>)"
    "shipment_for d' i = Some (updated_row ?s s0)" using Dispatch_undisturbed [OF assms, of L C topic now] by blast
  then show ?thesis
    by (intro exI [of _ ?s] exI [of _ "w\<lparr>w_db := d', w_sent := w_sent w @ [dispatched_message L C topic ?s]\<rparr>"]
        exI [of _ "updated_row ?s s0"]) (simp add: updated_row_def)
qed

section \<open>What gets lost\<close>

text \<open>The first delivery of a confirmation whose publish fails: the shipment is stored, the event is not sent.\<close>

lemma CreateForOrder_unannounced:
  assumes "w_faults w = [Fine, Fine, Failed]" and "w_others w = []" and "i \<noteq> 0"
    and "shipment_for (w_db w) i = None" and "\<forall>r \<in> set (t_shipments (w_db w)). sm_ID r \<noteq> uuid_New L (w_uuids w)"
  shows "\<exists>e. CreateForOrder L C topic now i w = (Inl e,
      w\<lparr>w_uuids := w_uuids w + 1, w_faults := [],
        w_db := (w_db w)\<lparr>t_shipments := t_shipments (w_db w) @ [stored (new_shipment (uuid_New L (w_uuids w)) i now)]\<rparr>\<rparr>)
    \<and> \<not> is_permanent e"
proof -
  let ?s = "new_shipment (uuid_New L (w_uuids w)) i now"
  have "insert_shipment ?s (w_db w) = Inr ((), (w_db w)\<lparr>t_shipments := t_shipments (w_db w) @ [stored ?s]\<rparr>)"
    using assms(4,5)
    by (auto simp: insert_shipment_def list_ex_iff shipment_for_def find_None_iff new_shipment_def stored_def shipment_texts_def)
  then show ?thesis
    using assms
    by (simp add: CreateForOrder_def and_then_def GetByOrderID_def ship_stmt_def others_step_def next_fault_def
        shipment_for_def open_shipment_def Shipment_Create_def new_uuid_def ok_def Shipment_Insert_def map_err_def
        service_publish_def Publisher_Publish_ship_def broker_call_def)
      (simp add: new_shipment_def)
qed

text \<open>C24. The created event of a shipment can be lost for good. If the publish of shipment.created fails,
  and the shipment is dispatched before the confirmation is delivered again, that redelivery finds
  it no longer CREATED, publishes nothing and answers nil, so its offset is committed: of this
  shipment only the dispatched event was ever sent.\<close>

theorem created_event_lost:
  assumes "w_faults w = [Fine, Fine, Failed]" and "w_others w = []" and i: "i \<noteq> 0" and ok: "ship_ok (w_db w)"
    and none: "shipment_for (w_db w) i = None"
    and fresh: "\<forall>r \<in> set (t_shipments (w_db w)). sm_ID r \<noteq> uuid_New L (w_uuids w)"
    and c: "carrier \<noteq> []" "pg_text carrier" "pg_text code"
  shows "\<exists>e w1 s2 w2 s3. CreateForOrder L C topic t1 i w = (Inl e, w1) \<and> \<not> is_permanent e
    \<and> Service_Dispatch L C topic t2 i carrier code w1 = (Inr s2, w2)
    \<and> CreateForOrder L C topic t3 i w2 = (Inr s3, w2)
    \<and> w_sent w2 = w_sent w @ [dispatched_message L C topic s2]"
proof -
  let ?n = "new_shipment (uuid_New L (w_uuids w)) i t1"
  let ?w1 = "w\<lparr>w_uuids := w_uuids w + 1, w_faults := [],
        w_db := (w_db w)\<lparr>t_shipments := t_shipments (w_db w) @ [stored ?n]\<rparr>\<rparr>"
  obtain e where 1: "CreateForOrder L C topic t1 i w = (Inl e, ?w1)" "\<not> is_permanent e"
    using CreateForOrder_unannounced [OF assms(1,2) i none fresh] by blast
  have "insert_shipment ?n (w_db w) = Inr ((), w_db ?w1)"
    using none fresh
    by (auto simp: insert_shipment_def list_ex_iff shipment_for_def find_None_iff new_shipment_def stored_def shipment_texts_def)
  from insert_sound [OF _ i this ok] have ok1: "ship_ok (w_db ?w1)" by simp
  have w1: "undisturbed ?w1" "shipment_for (w_db ?w1) i = Some (stored ?n)" "sm_Status (stored ?n) = StatusCreated"
    using assms(2) none by (simp_all add: undisturbed_def shipment_for_def find_append stored_def new_shipment_def)
  let ?s = "stored ?n\<lparr>sm_Status := StatusDispatched, sm_Carrier := carrier, sm_TrackingCode := code, sm_UpdatedAt := t2\<rparr>"
  obtain d2 where 2: "Service_Dispatch L C topic t2 i carrier code ?w1 =
      (Inr ?s, ?w1\<lparr>w_db := d2, w_sent := w_sent ?w1 @ [dispatched_message L C topic ?s]\<rparr>)"
    "shipment_for d2 i = Some (updated_row ?s (stored ?n))"
    using Dispatch_undisturbed [OF w1(1) ok1 w1(2,3) c] by blast
  let ?w2 = "?w1\<lparr>w_db := d2, w_sent := w_sent ?w1 @ [dispatched_message L C topic ?s]\<rparr>"
  have w2: "undisturbed ?w2" "shipment_for (w_db ?w2) i = Some (updated_row ?s (stored ?n))"
    using w1(1) 2(2) by (simp_all add: undisturbed_def)
  have "CreateForOrder L C topic t3 i ?w2 = (Inr (updated_row ?s (stored ?n)), ?w2)"
    using CreateForOrder_again [OF w2, of L C topic t3] by (simp add: updated_row_def)
  with 1 2(1) show ?thesis by (intro exI conjI) (assumption+, simp)
qed

lemma nil_order_unread:
  assumes "ship_ok (w_db w)" and "ship_relies w" and run: "GetByOrderID 0 w = (r, w')"
  shows "(\<exists>e. r = Inl e \<and> \<not> is_permanent e) \<and> w_sent w' = w_sent w"
proof -
  let ?w = "others_step w"
  have "w_sent ?w = w_sent w" by (simp add: others_step_def split: list.split)
  moreover have "find (\<lambda>r. sm_OrderID r = 0) (t_shipments (w_db ?w)) = None"
    using others_sound [OF assms(2,1)] by (auto simp: find_None_iff ship_ok_def row_fits_def)
  moreover obtain f w1 where n: "next_fault ?w = (f, w1)" by fastforce
  ultimately show ?thesis
    using run next_fault_others [OF n] next_fault_sent [OF n]
    by (cases f) (auto simp: GetByOrderID_def ship_stmt_def)
qed

text \<open>C30. A confirmation of the nil order id blocks its partition: the handler fails with a validation
  error that is not marked permanent (or with an error of the database), so the worker neither
  commits nor dead-letters it but returns, and finds the same message again when it restarts.\<close>

theorem nil_order_blocks_partition:
  assumes "ship_ok (w_db w)" and "w_others w = map (\<lambda>(C', c', w'). committed_ship L C' topic c' w') cs"
    and "headerValue (msg_Headers (dl_message d)) HeaderEventType = ''order.confirmed.v1''"
    and "UnmarshalOrderConfirmed_ship (msg_Value (dl_message d)) = Inr event"
    and "uuid_Parse L (fc_OrderID event) = Some 0"
  shows "\<exists>e w'. fulfillment_step L ctx_of topic dlqTopic error_text now d w = (Inl e, w')
    \<and> \<not> is_permanent e \<and> w_sent w' = w_sent w"
proof -
  obtain r w1 where g: "GetByOrderID 0 w = (r, w1)" by fastforce
  obtain e where e: "r = Inl e" "\<not> is_permanent e" "w_sent w1 = w_sent w"
    using nil_order_unread [OF assms(1) ship_relies_committed [OF assms(2)] g] by blast
  have "\<exists>e' w'. CreateForOrder L (ctx_of (msg_Headers (dl_message d))) topic now 0 w = (Inl e', w')
      \<and> \<not> is_permanent e' \<and> w_sent w' = w_sent w"
    using g e by (auto simp: CreateForOrder_def and_then_def open_shipment_def Shipment_Create_def fail_def)
  then show ?thesis
    using assms(3-5) by (auto simp: fulfillment_step_def consume_def handleConfirmed_def and_then_def map_err_def)
qed

section \<open>Witnesses\<close>

definition bare_shipments :: "fault list \<Rightarrow> (ship_db \<Rightarrow> ship_db) list \<Rightarrow> ship_world" where
  "bare_shipments fs others = \<lparr>w_db = \<lparr>t_shipments = []\<rparr>, w_uuids = 0, w_faults = fs, w_sent = [], w_others = others\<rparr>"

definition quiet_ctx :: ctx where
  "quiet_ctx = \<lparr>ctx_propagated = [], ctx_traceID = []\<rparr>"

lemma bare_ok: "ship_ok (w_db (bare_shipments fs others))"
  by (simp add: ship_ok_def bare_shipments_def)

theorem shipments_race_safely_witness:
  "\<exists>r w'. run_ship std_lib quiet_ctx ''fulfillment.events'' (CallCreate 0 5)
      (bare_shipments [] [committed_ship std_lib quiet_ctx ''fulfillment.events'' (CallCreate 0 5) (bare_shipments [] [])])
      = (r, w') \<and> ship_ok (w_db w')"
proof -
  let ?w = "bare_shipments [] [committed_ship std_lib quiet_ctx ''fulfillment.events'' (CallCreate 0 5) (bare_shipments [] [])]"
  obtain r w' where run: "run_ship std_lib quiet_ctx ''fulfillment.events'' (CallCreate 0 5) ?w = (r, w')" by fastforce
  from shipments_race_safely [OF bare_ok _ run, of "[(quiet_ctx, CallCreate 0 5, bare_shipments [] [])]"] run
  show ?thesis by (auto simp: bare_shipments_def)
qed

theorem confirmations_idempotent_witness:
  "\<exists>s w1 w2. CreateForOrder std_lib quiet_ctx ''fulfillment.events'' 0 5 (bare_shipments [] []) = (Inr s, w1)
    \<and> CreateForOrder std_lib quiet_ctx ''fulfillment.events'' 7 5 w1 = (Inr (stored s), w2) \<and> w_db w2 = w_db w1"
  using confirmations_idempotent [of "bare_shipments [] []" 5 std_lib quiet_ctx "''fulfillment.events''" 0 7]
  by (auto simp: undisturbed_def bare_shipments_def shipment_for_def)

text \<open>A table with one open shipment.\<close>

definition one_shipment :: ship_world where
  "one_shipment = (bare_shipments [] [])\<lparr>w_db := \<lparr>t_shipments = [new_shipment 9 5 0]\<rparr>\<rparr>"

lemma one_shipment_facts:
  "undisturbed one_shipment" "ship_ok (w_db one_shipment)" "shipment_for (w_db one_shipment) 5 = Some (new_shipment 9 5 0)"
  "sm_Status (new_shipment 9 5 0) = StatusCreated"
  by (simp_all add: one_shipment_def bare_shipments_def undisturbed_def ship_ok_def row_fits_def shipment_for_def new_shipment_def)

theorem shipment_comes_through_witness:
  "\<exists>s1 w1 s2 w2. Service_Dispatch std_lib quiet_ctx ''fulfillment.events'' 1 5 ''UPS'' ''1Z999'' one_shipment = (Inr s1, w1)
    \<and> Service_Deliver std_lib quiet_ctx ''fulfillment.events'' 2 5 w1 = (Inr s2, w2)"
  using shipment_comes_through [OF one_shipment_facts, of "''UPS''" "''1Z999''" std_lib quiet_ctx "''fulfillment.events''" 1 2]
  by (auto; blast)

theorem dispatch_reports_stale_version_witness:
  "\<exists>s w' r. Service_Dispatch std_lib quiet_ctx ''fulfillment.events'' 1 5 ''UPS'' ''1Z999'' one_shipment = (Inr s, w')
    \<and> shipment_for (w_db w') 5 = Some r \<and> sm_Version r = sm_Version s + 1"
  using dispatch_reports_stale_version [OF one_shipment_facts, of "''UPS''" "''1Z999''" std_lib quiet_ctx "''fulfillment.events''" 1]
  by (auto; blast)

theorem created_event_lost_witness:
  "\<exists>e w1 s2 w2. CreateForOrder std_lib quiet_ctx ''fulfillment.events'' 0 5 (bare_shipments [Fine, Fine, Failed] []) = (Inl e, w1)
    \<and> Service_Dispatch std_lib quiet_ctx ''fulfillment.events'' 1 5 ''UPS'' ''1Z999'' w1 = (Inr s2, w2)
    \<and> length (w_sent w2) = 1"
  using created_event_lost [of "bare_shipments [Fine, Fine, Failed] []" 5 std_lib "''UPS''" "''1Z999''" quiet_ctx
      "''fulfillment.events''" 0 1 2] bare_ok [of "[Fine, Fine, Failed]" "[]"]
  by (auto simp: bare_shipments_def shipment_for_def)

theorem nil_order_blocks_witness:
  "\<exists>e w'. fulfillment_step std_lib (\<lambda>_. quiet_ctx) ''fulfillment.events'' ''dlq'' (\<lambda>_. []) 0
      \<lparr>dl_message = \<lparr>msg_Topic = ''orders.events'', msg_Key = [],
          msg_Value = Some (JObj [(''orderId'', JStr (uuid_String std_lib 0)), (''confirmedAt'', JStr [])]),
          msg_Headers = [(HeaderEventType, ''order.confirmed.v1'')]\<rparr>, dl_offset = 0\<rparr> (bare_shipments [] []) = (Inl e, w')
    \<and> w_sent w' = []"
proof -
  let ?d = "\<lparr>dl_message = \<lparr>msg_Topic = ''orders.events'', msg_Key = [],
          msg_Value = Some (JObj [(''orderId'', JStr (uuid_String std_lib 0)), (''confirmedAt'', JStr [])]),
          msg_Headers = [(HeaderEventType, ''order.confirmed.v1'')]\<rparr>, dl_offset = 0\<rparr>"
  have "UnmarshalOrderConfirmed_ship (msg_Value (dl_message ?d))
      = Inr \<lparr>fc_OrderID = uuid_String std_lib 0, fc_ConfirmedAt = []\<rparr>"
    by (simp add: UnmarshalOrderConfirmed_ship_def json_Unmarshal_def dec_OrderConfirmed_ship_def field_simps_json)
  note b = nil_order_blocks_partition [OF bare_ok _ _ this, where L = std_lib and cs = "[]" and ctx_of = "\<lambda>_. quiet_ctx"
      and topic = "''fulfillment.events''" and dlqTopic = "''dlq''" and error_text = "\<lambda>_. []" and now = 0]
  have "\<exists>e w'. fulfillment_step std_lib (\<lambda>_. quiet_ctx) ''fulfillment.events'' ''dlq'' (\<lambda>_. []) 0 ?d (bare_shipments [] [])
      = (Inl e, w') \<and> \<not> is_permanent e \<and> w_sent w' = w_sent (bare_shipments [] [])"
    by (rule b) (simp_all add: bare_shipments_def std.parse_string)
  then show ?thesis by (auto simp: bare_shipments_def)
qed

end
