(* ===== verification/Worker_Loops.thy ===== *)
theory Worker_Loops
  imports Projector_Loop Saga Notification_Delivery Fulfillment_Calm
begin

text \<open>
  The workers as instances of \<open>consumer\<close>: what the read model, the notifications table and the
  shipments table say about every message below the group's offset, whatever failed and however
  often the worker was restarted.
\<close>

section \<open>The workers\<close>

text \<open>The orchestrator's ports depend on the clock and on the context read from the message.\<close>

definition orchestrator_worker :: "(time \<Rightarrow> delivery \<Rightarrow> 'w ports) \<Rightarrow> (delivery \<Rightarrow> oerr \<Rightarrow> ('w, order_sentinel, unit) prog)
    \<Rightarrow> ('w, order_sentinel, unit) prog \<Rightarrow> time \<Rightarrow> bool \<Rightarrow> delivery \<Rightarrow> 'w \<Rightarrow> order_sentinel turn_end \<times> 'w" where
  "orchestrator_worker P dead_letter commit now =
     worker_turn commit (\<lambda>d. if event_type d = TypeOrderPlaced then handlePlaced (P now d) d else ok ()) dead_letter id"

definition notification_worker :: "golib \<Rightarrow> (Notification \<Rightarrow> unit notif_act) \<Rightarrow> string \<Rightarrow> (nerr \<Rightarrow> string) \<Rightarrow> time \<Rightarrow> bool
    \<Rightarrow> delivery \<Rightarrow> notif_state world \<Rightarrow> unit turn_end \<times> notif_state world" where
  "notification_worker L send dlq error_text now =
     worker_turn CommitMessages (\<lambda>d. Dispatcher_Handle L now send (event_type d) (payload d))
       (DeadLetter_Publish dlq error_text) (Wrapf ''handle'')"

definition fulfillment_worker :: "golib \<Rightarrow> (headers \<Rightarrow> ctx) \<Rightarrow> string \<Rightarrow> string \<Rightarrow> (ferr \<Rightarrow> string) \<Rightarrow> time \<Rightarrow> bool
    \<Rightarrow> delivery \<Rightarrow> ship_world \<Rightarrow> fulfillment_sentinel turn_end \<times> ship_world" where
  "fulfillment_worker L ctx_of topic dlq error_text now =
     worker_turn CommitMessages
       (\<lambda>d. if event_type d = ''order.confirmed.v1'' then handleConfirmed L ctx_of topic now d else ok ())
       (DeadLetter_Publish dlq error_text) id"

section \<open>Handlers with lasting effects\<close>

text \<open>A worker whose handler achieves \<open>E\<close>, and whose invariant and achievements survive a call to the broker.\<close>

lemma worker_consumer:
  fixes handle :: "time \<Rightarrow> delivery \<Rightarrow> (('db, 'z) world_scheme, 's, unit) prog"
  assumes handle: "\<And>now d w r w'. handle now d w = (r, w') \<Longrightarrow> I w \<Longrightarrow>
      I w' \<and> (\<forall>e. E e (w_db w) \<longrightarrow> E e (w_db w')) \<and> (r = Inr () \<longrightarrow> E d (w_db w'))"
    and sent: "\<And>now d. sent_grows (handle now d)"
    and broker: "\<And>ms w (r :: 's err + unit) w'. broker_call ms w = (r, w') \<Longrightarrow> I w \<Longrightarrow> I w'"
  shows "consumer CommitMessages handle (DeadLetter_Publish dlq et) I (\<lambda>d w. dead_lettered dlq d w \<or> E d (w_db w)) UNIV"
proof (unfold_locales, goal_cases)
  case (1 now d w r w')
  with handle [OF 1(1,3)] dead_lettered_grows [OF sent 1(1)] show ?case by blast
next
  case (2 now d w0 err w r w')
  then have run: "broker_call [dlq_message dlq d (et err)] w = (r, w')" by (simp add: DeadLetter_Publish_def)
  have "w_db w' = w_db w"
    using run by (auto simp: broker_call_def next_fault_db split: prod.splits fault.splits)
  with 2 dead_letter_sent [of dlq et d err w w'] broker [OF run] dead_lettered_grows [OF sent_grows_broker_call run]
  show ?case by auto
next
  case (3 w r w')
  then have run: "broker_call [] w = (r, w')" by (simp add: CommitMessages_def)
  have "w_db w' = w_db w"
    using run by (auto simp: broker_call_def next_fault_db split: prod.splits fault.splits)
  with 3 broker [OF run] dead_lettered_grows [OF sent_grows_broker_call run] show ?case by auto
qed

section \<open>The notification consumer\<close>

text \<open>An event that was handled needs no notification, or has one on record.\<close>

definition recorded :: "golib \<Rightarrow> delivery \<Rightarrow> notif_state \<Rightarrow> bool" where
  "recorded L d db \<longleftrightarrow> (\<exists>x. rendering L d = Inr x) \<and> (\<forall>k. wanted L d = Some k \<longrightarrow> k \<in> set (keys (t_notifications db)))"

lemma insert_keys:
  "insert_notification n d = Inr (b, d') \<Longrightarrow>
   no_dedupeKey n \<in> set (keys (t_notifications d')) \<and> set (keys (t_notifications d)) \<subseteq> set (keys (t_notifications d'))"
  by (auto simp: insert_notification_def known_key keys_def split: if_splits)

lemma keys_stay: "preserves (\<lambda>d. k \<in> set (keys (t_notifications d))) (Dispatcher_Handle L now LogSender_Send ty b)"
proof -
  have "preserves (\<lambda>d. k \<in> set (keys (t_notifications d))) (LogSender_Send n)" for n
    by (simp add: preserves_def LogSender_Send_def)
  then show ?thesis unfolding Dispatcher_Handle_def RecordIfNew_def Let_def
    by (auto intro!: preserving dest: insert_keys split: sum.splits option.splits)
qed

lemma handled_recorded:
  assumes "Dispatcher_Handle L now LogSender_Send (event_type d) (payload d) w = (Inr (), w')"
  shows "recorded L d (w_db w')"
proof (cases "rendering L d")
  case (Inl err)
  then show ?thesis using assms by (simp add: Dispatcher_Handle_def rendering_def fail_def)
next
  case (Inr x)
  show ?thesis
  proof (cases x)
    case None
    then show ?thesis using Inr by (simp add: recorded_def wanted_def)
  next
    case (Some m)
    obtain i b w0 w1 where ins: "db_stmt (insert_notification (new_notification L now (event_type d) m i)) w0 = (Inr b, w1)"
      and w': "w' = w1 \<or> w' = snd (LogSender_Send (new_notification L now (event_type d) m i) w1)"
      using assms Inr Some
      by (auto simp: Dispatcher_Handle_def rendering_def run_Inr Let_def RecordIfNew_def ok_def split: if_splits)
    have "no_dedupeKey (new_notification L now (event_type d) m i) \<in> set (keys (t_notifications (w_db w1)))"
      using insert_keys db_stmt_Inr [OF ins] by blast
    moreover have "t_notifications (w_db w') = t_notifications (w_db w1)"
      using w' by (auto simp: LogSender_Send_def)
    ultimately show ?thesis using Inr Some by (simp add: recorded_def wanted_def new_notification_def)
  qed
qed

lemma Dispatcher_sends: "sent_grows (Dispatcher_Handle L now LogSender_Send ty b)"
proof -
  have "sent_grows (LogSender_Send n)" for n by (simp add: sent_grows_def LogSender_Send_def)
  then show ?thesis unfolding Dispatcher_Handle_def RecordIfNew_def Let_def
    by (auto intro!: sending split: sum.splits option.splits)
qed

interpretation notifier: consumer CommitMessages "\<lambda>now d. Dispatcher_Handle L now LogSender_Send (event_type d) (payload d)"
  "DeadLetter_Publish dlq et" "Wrapf ''handle''" "\<lambda>w. True" "\<lambda>d w. dead_lettered dlq d w \<or> recorded L d (w_db w)" UNIV
proof (rule worker_consumer)
  fix now d w r w' assume run: "Dispatcher_Handle L now LogSender_Send (event_type d) (payload d) w = (r, w')"
  have "recorded L e (w_db w')" if "recorded L e (w_db w)" for e
    using that preservesD [OF keys_stay _ run] unfolding recorded_def by blast
  with handled_recorded run show "True \<and> (\<forall>e. recorded L e (w_db w) \<longrightarrow> recorded L e (w_db w'))
      \<and> (r = Inr () \<longrightarrow> recorded L d (w_db w'))" by blast
qed (rule Dispatcher_sends, simp)

section \<open>The fulfillment consumer\<close>

text \<open>A confirmation that was handled has its shipment.\<close>

definition shipped :: "golib \<Rightarrow> delivery \<Rightarrow> ship_db \<Rightarrow> bool" where
  "shipped L d db \<longleftrightarrow> (event_type d = ''order.confirmed.v1'' \<longrightarrow>
     (\<exists>e i. UnmarshalOrderConfirmed_ship (payload d) = Inr e \<and> uuid_Parse L (fc_OrderID e) = Some i
        \<and> i \<in> sm_OrderID ` set (t_shipments db)))"

abbreviation confirmed_handler ::
  "golib \<Rightarrow> (headers \<Rightarrow> ctx) \<Rightarrow> string \<Rightarrow> time \<Rightarrow> delivery \<Rightarrow> unit ship_act" where
  "confirmed_handler L ctx_of topic now d \<equiv>
     (if event_type d = ''order.confirmed.v1'' then handleConfirmed L ctx_of topic now d else ok ())"

lemma created_for: "CreateForOrder L C topic now i w = (Inr s, w') \<Longrightarrow> sm_OrderID s = i"
proof -
  have g: "sm_OrderID s = i" if "GetByOrderID i w = (Inr s, w')" for s w w'
    using that by (auto simp: GetByOrderID_def ship_stmt_def find_Some_iff split: prod.splits sum.splits option.splits fault.splits)
  have o: "sm_OrderID s = i" if run: "open_shipment L now i w = (Inr s, w')" for s w w'
  proof -
    obtain sh w1 where c: "Shipment_Create L i now w = (Inr sh, w1)"
      and rest: "(case Shipment_Insert sh w1 of (Inr _, w') \<Rightarrow> (Inr sh, w')
        | (Inl err, w') \<Rightarrow> if errors_Is err ErrShipmentExists then GetByOrderID i w' else (Inl (Wrapf ''insert shipment'' err), w'))
        = (Inr s, w')"
      using run by (auto simp: open_shipment_def and_then_Inr)
    have "sm_OrderID sh = i"
      using c by (auto simp: Shipment_Create_def run_Inr new_shipment_def fail_def split: if_splits)
    then show ?thesis using rest g by (auto split: prod.splits sum.splits if_splits)
  qed
  assume "CreateForOrder L C topic now i w = (Inr s, w')"
  then obtain s' w1 where "(case GetByOrderID i w of
       (Inr shipment, w') \<Rightarrow> (Inr shipment, w')
     | (Inl err, w') \<Rightarrow> if errors_Is err ErrShipmentNotFound then open_shipment L now i w' else (Inl (Wrapf ''load shipment'' err), w'))
     = (Inr s', w1)" and "s = s'"
    by (auto simp: CreateForOrder_def and_then_Inr ok_def split: if_splits)
  then show "sm_OrderID s = i" using g o by (auto split: prod.splits sum.splits if_splits)
qed

lemma confirmed_sound:
  "sound (\<lambda>_. True) (confirmed_handler L ctx_of topic now d) (\<lambda>_. shipped L d)"
  unfolding sound_def
proof (intro allI impI)
  fix w r w' assume run: "confirmed_handler L ctx_of topic now d w = (r, w')" and w: "ship_relies w" "ship_ok (w_db w)"
  let ?goal = "ship_relies w' \<and> ship_ok (w_db w') \<and> advances (w_db w) (w_db w') \<and> (\<forall>a. r = Inr a \<longrightarrow> shipped L d (w_db w'))"
  show ?goal
  proof (cases "event_type d = ''order.confirmed.v1'' \<and> (\<exists>e i. UnmarshalOrderConfirmed_ship (payload d) = Inr e \<and> uuid_Parse L (fc_OrderID e) = Some i)")
    case True
    then obtain e i where e: "UnmarshalOrderConfirmed_ship (payload d) = Inr e" "uuid_Parse L (fc_OrderID e) = Some i" by blast
    obtain r1 w1 where c: "CreateForOrder L (ctx_of (msg_Headers (dl_message d))) topic now i w = (r1, w1)" by fastforce
    from soundD [OF CreateForOrder_sound c w] have 1: "ship_relies w1" "ship_ok (w_db w1)" "advances (w_db w) (w_db w1)"
      "\<And>s. r1 = Inr s \<Longrightarrow> reached s (w_db w1)" by auto
    have "w' = w1" "\<And>a. r = Inr a \<Longrightarrow> \<exists>s. r1 = Inr s"
      using run c e True by (cases r1; auto simp: handleConfirmed_def and_then_def map_err_def ok_def)+
    moreover have "shipped L d (w_db w1)" if "r1 = Inr s" for s
      using 1(4) [OF that] created_for [OF c [unfolded that]] e by (auto simp: shipped_def reached_def intro: rev_image_eqI)
    ultimately show ?goal using 1 by blast
  next
    case False
    then show ?goal using run w
      by (auto simp: handleConfirmed_def ok_def fail_def shipped_def split: if_splits sum.splits option.splits)
  qed
qed

lemma shipped_stays: "advances d d' \<Longrightarrow> shipped L e d \<Longrightarrow> shipped L e d'"
proof -
  assume a: "advances d d'" and s: "shipped L e d"
  have "i \<in> sm_OrderID ` set (t_shipments d')" if "i \<in> sm_OrderID ` set (t_shipments d)" for i
  proof -
    from that obtain r where "r \<in> set (t_shipments d)" "sm_OrderID r = i" by auto
    with a obtain r' where "r' \<in> set (t_shipments d')" "sm_OrderID r' = i" unfolding advances_def later_def by metis
    then show ?thesis by (metis imageI)
  qed
  with s show "shipped L e d'" by (auto simp: shipped_def)
qed

lemma ship_stmt_sends: "sent_grows (ship_stmt f)"
  by (auto simp: sent_grows_def ship_stmt_def others_step_def dest!: next_fault_sent
      split: fault.splits sum.splits prod.splits list.splits)


lemma sent_grows_try:
  "sent_grows m \<Longrightarrow> (\<And>a. sent_grows (f a)) \<Longrightarrow> (\<And>e. sent_grows (g e)) \<Longrightarrow>
   sent_grows (\<lambda>w. case m w of (Inr a, w') \<Rightarrow> f a w' | (Inl e, w') \<Rightarrow> g e w')"
  unfolding sent_grows_def by (auto split: prod.splits sum.splits) (metis prefix_order.trans snd_conv)+

lemma confirmed_sends: "sent_grows (confirmed_handler L ctx_of topic now d)"
proof -
  have g: "sent_grows (GetByOrderID i)" for i
  proof -
    have "GetByOrderID i = (\<lambda>w. case ship_stmt (\<lambda>d. Inr (find (\<lambda>r. sm_OrderID r = i) (t_shipments d), d)) w of
        (Inr x, w') \<Rightarrow> (case x of None \<Rightarrow> fail (Sentinel ErrShipmentNotFound) | Some s \<Rightarrow> ok s) w'
      | (Inl err, w') \<Rightarrow> fail (Wrapf ''query shipment'' err) w')"
      by (auto simp: GetByOrderID_def fail_def ok_def split: prod.split sum.split option.split)
    moreover have "sent_grows \<dots>"
      by (rule sent_grows_try [OF ship_stmt_sends]) (auto intro!: sending split: option.split)
    ultimately show ?thesis by simp
  qed
  have ins: "sent_grows (\<lambda>w. case Shipment_Insert s w of (Inr u, w') \<Rightarrow> ok s w'
      | (Inl err, w') \<Rightarrow> (if errors_Is err ErrShipmentExists then GetByOrderID i else fail (Wrapf ''insert shipment'' err)) w')" for s i
    by (rule sent_grows_try) (auto simp: Shipment_Insert_def intro!: sending ship_stmt_sends g)
  have o: "sent_grows (open_shipment L now i)" for i
  proof -
    have "open_shipment L now i = and_then (Shipment_Create L i now) (\<lambda>s w. case Shipment_Insert s w of (Inr u, w') \<Rightarrow> ok s w'
      | (Inl err, w') \<Rightarrow> (if errors_Is err ErrShipmentExists then GetByOrderID i else fail (Wrapf ''insert shipment'' err)) w')"
      unfolding open_shipment_def by (rule arg_cong [where f = "and_then _"], intro ext)
        (auto simp: fail_def ok_def split: prod.split sum.split)
    moreover have "sent_grows (Shipment_Create L i now :: Shipment ship_act)"
      unfolding Shipment_Create_def by (auto intro!: sending)
    ultimately show ?thesis using ins by (auto intro!: sending)
  qed
  have l: "sent_grows (\<lambda>w. case GetByOrderID i w of (Inr s, w') \<Rightarrow> ok s w'
      | (Inl err, w') \<Rightarrow> (if errors_Is err ErrShipmentNotFound then open_shipment L now i else fail (Wrapf ''load shipment'' err)) w')" for i
    by (rule sent_grows_try [OF g]) (auto intro!: sending o)
  have "sent_grows (CreateForOrder L C topic now i)" for C i
  proof -
    have "(\<lambda>w. case GetByOrderID i w of (Inr s, w') \<Rightarrow> (Inr s, w')
        | (Inl err, w') \<Rightarrow> if errors_Is err ErrShipmentNotFound then open_shipment L now i w' else (Inl (Wrapf ''load shipment'' err), w'))
      = (\<lambda>w. case GetByOrderID i w of (Inr s, w') \<Rightarrow> ok s w'
        | (Inl err, w') \<Rightarrow> (if errors_Is err ErrShipmentNotFound then open_shipment L now i else fail (Wrapf ''load shipment'' err)) w')"
      by (auto simp: fail_def ok_def split: prod.split sum.split)
    then show ?thesis unfolding CreateForOrder_def service_publish_def Publisher_Publish_ship_def
      using l by (auto intro!: sending)
  qed
  then show ?thesis by (auto simp: handleConfirmed_def intro!: sending split: sum.splits option.splits)
qed

interpretation fulfiller: consumer CommitMessages "confirmed_handler L ctx_of topic" "DeadLetter_Publish dlq et" id
  "\<lambda>w. ship_relies w \<and> ship_ok (w_db w)" "\<lambda>d w. dead_lettered dlq d w \<or> shipped L d (w_db w)" UNIV
proof (rule worker_consumer)
  fix now d w r w' assume run: "confirmed_handler L ctx_of topic now d w = (r, w')" and w: "ship_relies w \<and> ship_ok (w_db w)"
  from soundD [OF confirmed_sound run] w shipped_stays
  show "(ship_relies w' \<and> ship_ok (w_db w')) \<and> (\<forall>e. shipped L e (w_db w) \<longrightarrow> shipped L e (w_db w'))
      \<and> (r = Inr () \<longrightarrow> shipped L d (w_db w'))" by blast
next
  fix ms and w :: ship_world and r :: "ferr + unit" and w'
  assume "broker_call ms w = (r, w')" "ship_relies w \<and> ship_ok (w_db w)"
  with soundD [OF sound_broker_call, of "\<lambda>_. True" "\<lambda>_ _. True" ms w r w']
  show "ship_relies w' \<and> ship_ok (w_db w')" by simp
qed (rule confirmed_sends)

section \<open>Committed means done\<close>

text \<open>C38. Whatever fails, however often the three workers are stopped, crash and start over from any
  offset they asked for, every message below the offset of their group is on the dead-letter topic
  or dealt with. For the projector: the order of a placement has a row, with the data of a placement
  of that order on the log, and the row of the order of any message shows the status of that
  message or of a later one about the same order, so no confirmation or cancellation is lost on a
  row. For the notification service: the event is recorded. For fulfillment: the confirmed order
  has its shipment.\<close>

theorem committed_offsets_done:
  assumes "worker_sessions (projector_worker L dlq et1) log1 ss1 (0, w1) = (c1, v1)"
    and "worker_sessions (notification_worker L LogSender_Send dlq et2) log2 ss2 (0, w2) = (c2, v2)"
    and "worker_sessions (fulfillment_worker L ctx_of topic dlq et3) log3 ss3 (0, w3) = (c3, v3)"
    and "first_versions (w_db w1)"
    and "ship_ok (w_db w3)" and "w_others w3 = map (\<lambda>(C, c, w). committed_ship L C topic c w) cs"
  shows "(\<forall>i < c1. dead_lettered dlq (log1 ! i) v1 \<or> projected L log1 i (w_db v1))
    \<and> (\<forall>i < c2. dead_lettered dlq (log2 ! i) v2 \<or> recorded L (log2 ! i) (w_db v2))
    \<and> (\<forall>i < c3. dead_lettered dlq (log3 ! i) v3 \<or> shipped L (log3 ! i) (w_db v3))"
  using projector.sessions_upto [OF assms(1)]
    notifier.sessions_settle [of L dlq et2 log2 ss2 0 w2 c2 v2]
    fulfiller.sessions_settle [of L ctx_of topic dlq et3 log3 ss3 0 w3 c3 v3] assms ship_relies_committed [OF assms(6)]
  by (simp add: projected_upto_def notifier.settled_below_def fulfiller.settled_below_def
      notifier.turn_def [abs_def] fulfiller.turn_def [abs_def]
      notification_worker_def [abs_def] fulfillment_worker_def [abs_def])

section \<open>Witness\<close>

text \<open>A topic with a placement, its confirmation, and a message nobody can read.\<close>

definition wire_delivery :: "string \<Rightarrow> body \<Rightarrow> delivery" where
  "wire_delivery ty b = \<lparr>dl_message = \<lparr>msg_Topic = ''orders.events'', msg_Key = [], msg_Value = b,
     msg_Headers = [(HeaderEventType, ty)]\<rparr>, dl_offset = 0\<rparr>"

definition sample_confirmation :: OrderConfirmedV1 where
  "sample_confirmation = \<lparr>oc_OrderID = uuid_String std_lib 1, oc_ConfirmedAt = []\<rparr>"

definition sample_log :: "delivery list" where
  "sample_log = [wire_delivery TypeOrderPlaced (Marshal_OrderPlaced sample_wire),
     wire_delivery TypeOrderConfirmed (Marshal_OrderConfirmed sample_confirmation), poison]"

lemma wire_delivery_simps [simp]:
  "event_type (wire_delivery ty b) = ty" "payload (wire_delivery ty b) = b"
  by (simp_all add: wire_delivery_def)

abbreviation poisoned :: "('db, 'z) world_scheme \<Rightarrow> ('db, 'z) world_scheme" where
  "poisoned w \<equiv> w\<lparr>w_sent := w_sent w @ [dlq_message ''dlq'' poison ''bad'']\<rparr>"

lemma poison_unreadable: "UnmarshalOrderPlaced (payload poison) = Inl (Wrapf ''unmarshal order.placed.v1'' (Foreign ''json.Unmarshal''))"
  by (simp add: poison_def UnmarshalOrderPlaced_def json_Unmarshal_def)

lemma poison_type: "event_type poison = TypeOrderPlaced"
  by (simp add: poison_def HeaderEventType_def)

lemma poison_projector: "w_faults w = [] \<Longrightarrow>
  projector_worker std_lib ''dlq'' (\<lambda>_. ''bad'') 0 False poison w = (Committed, poisoned w)"
  using poison_unreadable poison_type
  by (simp add: projector_worker_def worker_turn_def handle_or_route_def Projection_Apply_def applyOrderPlaced_def
      and_then_def of_result_def map_err_def Permanent_def DeadLetter_Publish_def CommitMessages_def broker_call_def)

lemma poison_notifier: "w_faults w = [] \<Longrightarrow>
  notification_worker std_lib LogSender_Send ''dlq'' (\<lambda>_. ''bad'') 0 False poison w = (Committed, poisoned w)"
proof -
  assume calm: "w_faults w = []"
  have "msg_Value (dl_message poison) = None" by (simp add: poison_def)
  then show ?thesis using poison_type calm
    by (simp add: notification_worker_def worker_turn_def handle_or_route_def Dispatcher_Handle_def render_def
        render_view_def Unmarshal_view_def json_Unmarshal_def fail_def Permanent_def DeadLetter_Publish_def CommitMessages_def
        broker_call_def map_err_def)
qed

lemma sample_row:
  assumes "row_of (w_db w) (uuid_String std_lib 1) = None \<or> (\<exists>p. row_of (w_db w) (uuid_String std_lib 1) = Some p \<and> pj_Version p = 1)"
    and calm: "w_faults w = []"
  shows "\<exists>d p. projector_worker std_lib ''dlq'' (\<lambda>_. ''bad'') 0 False (sample_log ! 0) w = (Committed, w\<lparr>w_db := d\<rparr>)
    \<and> row_of d (uuid_String std_lib 1) = Some p \<and> pj_Version p = 1"
proof -
  obtain t where t: "wire_ok std_lib sample_wire t" using sample_wire_ok by blast
  have u: "op_OrderID sample_wire = uuid_String std_lib 1" by (simp add: sample_wire_def)
  from apply_placed [OF std.uuid_laws_axioms t calm] assms(1) u obtain d where
    d: "Projection_Apply std_lib TypeOrderPlaced (Marshal_OrderPlaced sample_wire) w = (Inr (), w\<lparr>w_db := d\<rparr>)"
    "row_of d (uuid_String std_lib 1) = Some (placed_row sample_wire t)" by metis
  then show ?thesis using calm
    by (intro exI [of _ d] exI [of _ "placed_row sample_wire t"])
      (simp add: projector_worker_def turn_fine sample_log_def placed_row_def)
qed

lemma sample_confirmed:
  assumes "row_of (w_db w) (uuid_String std_lib 1) = Some p" and calm: "w_faults w = []"
  shows "\<exists>d. projector_worker std_lib ''dlq'' (\<lambda>_. ''bad'') 0 False (sample_log ! 1) w = (Committed, w\<lparr>w_db := d\<rparr>)
    \<and> row_of d (uuid_String std_lib 1) = Some (p\<lparr>pj_Status := ''CONFIRMED''\<rparr>)"
proof -
  from apply_terminal [OF std.uuid_laws_axioms refl calm, of TypeOrderConfirmed
      "Marshal_OrderConfirmed sample_confirmation" 1 "[]" "''CONFIRMED''"] assms(1) obtain d where
    "Projection_Apply std_lib TypeOrderConfirmed (Marshal_OrderConfirmed sample_confirmation) w = (Inr (), w\<lparr>w_db := d\<rparr>)"
    "row_of d (uuid_String std_lib 1) = Some (p\<lparr>pj_Status := ''CONFIRMED''\<rparr>)"
    by (auto simp: sample_confirmation_def)
  then show ?thesis using calm
    by (intro exI [of _ d]) (simp add: projector_worker_def turn_fine sample_log_def)
qed

text \<open>The projector gets through the log, falls back to the confirmation and gets through again.\<close>

lemma sample_projection:
  "\<exists>v p. worker_sessions (projector_worker std_lib ''dlq'' (\<lambda>_. ''bad'')) sample_log
      [([Fetch 0 False, Fetch 0 False, Fetch 0 False], 1), ([Fetch 0 False, Fetch 0 False], 3)] (0, empty_world) = (3, v)
    \<and> row_of (w_db v) (uuid_String std_lib 1) = Some p \<and> pj_Status p = ''CONFIRMED''"
proof -
  have "row_of (w_db empty_world) (uuid_String std_lib 1) = None" and calm: "w_faults empty_world = []"
    by (simp_all add: empty_world_def empty_order_db_def row_of_def)
  then obtain d1 p1 where 1: "projector_worker std_lib ''dlq'' (\<lambda>_. ''bad'') 0 False (sample_log ! 0) empty_world
      = (Committed, empty_world\<lparr>w_db := d1\<rparr>)" "row_of d1 (uuid_String std_lib 1) = Some p1"
    using sample_row [of empty_world] by blast
  let ?w1 = "empty_world\<lparr>w_db := d1\<rparr>"
  obtain d2 where 2: "projector_worker std_lib ''dlq'' (\<lambda>_. ''bad'') 0 False (sample_log ! 1) ?w1
      = (Committed, ?w1\<lparr>w_db := d2\<rparr>)" "row_of d2 (uuid_String std_lib 1) = Some (p1\<lparr>pj_Status := ''CONFIRMED''\<rparr>)"
    using sample_confirmed [of ?w1 p1] 1(2) calm by auto
  let ?w2 = "poisoned (?w1\<lparr>w_db := d2\<rparr>)"
  have p: "sample_log ! 2 = poison" "length sample_log = 3" by (simp_all add: sample_log_def)
  have 3: "projector_worker std_lib ''dlq'' (\<lambda>_. ''bad'') 0 False (sample_log ! 2) (?w1\<lparr>w_db := d2\<rparr>) = (Committed, ?w2)"
    using poison_projector calm p by simp
  obtain d4 where 4: "projector_worker std_lib ''dlq'' (\<lambda>_. ''bad'') 0 False (sample_log ! 1) ?w2
      = (Committed, ?w2\<lparr>w_db := d4\<rparr>)" "row_of d4 (uuid_String std_lib 1) = Some (p1\<lparr>pj_Status := ''CONFIRMED''\<rparr>)"
    using sample_confirmed [of ?w2 "p1\<lparr>pj_Status := ''CONFIRMED''\<rparr>"] 2(2) calm by auto
  have 5: "projector_worker std_lib ''dlq'' (\<lambda>_. ''bad'') 0 False (sample_log ! 2) (?w2\<lparr>w_db := d4\<rparr>)
      = (Committed, poisoned (?w2\<lparr>w_db := d4\<rparr>))" using poison_projector calm p by simp
  show ?thesis
    using 1(1) 2(1) 3 4 5 p by (simp add: numeral_2_eq_2)
qed

lemma sample_notification:
  "\<exists>v. worker_sessions (notification_worker std_lib LogSender_Send ''dlq'' (\<lambda>_. ''bad''))
      [created_delivery (JObj [(''orderId'', JStr (uuid_String std_lib 7))]), poison]
      [([Fetch 0 False, Fetch 0 False], 2)] (0, notif_start 0 []) = (2, v)"
proof -
  let ?d = "created_delivery (JObj [(''orderId'', JStr (uuid_String std_lib 7))])"
  let ?m = "\<lparr>rm_orderID = 7, rm_subject = ''Preparing your shipment'',
       rm_body = ''A shipment was created for order '' @ uuid_String std_lib 7 @ ''.''\<rparr>"
  have r: "render std_lib (event_type ?d) (payload ?d) = Inr (Some ?m)" using created_rendering(1) by (simp add: rendering_def)
  have w: "in_step std_lib [] (notif_start 0 [])" by (simp add: in_step_def notif_start_def keys_def)
  have inj: "inj_on (uuid_New std_lib) {..w_uuids (notif_start 0 [])}" by (simp add: notif_start_def)
  obtain w' where h: "Dispatcher_Handle std_lib 0 LogSender_Send (event_type ?d) (payload ?d) (notif_start 0 []) = (Inr (), w')"
    and calm: "w_faults w' = []"
    using handle_calm [OF std.uuid_laws_axioms inj w r, of 0] std.string_text [of 7] by (auto simp: in_step_def)
  have "notification_worker std_lib LogSender_Send ''dlq'' (\<lambda>_. ''bad'') 0 False ?d (notif_start 0 []) = (Committed, w')"
    unfolding notification_worker_def by (rule turn_fine) (fact h calm)+
  then show ?thesis using poison_notifier [OF calm] by simp
qed

lemma sample_shipping:
  "\<exists>v. worker_sessions (fulfillment_worker std_lib (\<lambda>_. quiet_ctx) ''shipments'' ''dlq'' (\<lambda>_. ''bad'')) sample_log
      [([Fetch 0 False, Fetch 0 False], 2)] (0, bare_shipments [] []) = (2, v)"
proof -
  let ?w = "bare_shipments [] []" and ?b = "Marshal_OrderConfirmed sample_confirmation"
  have 0: "fulfillment_worker std_lib (\<lambda>_. quiet_ctx) ''shipments'' ''dlq'' (\<lambda>_. ''bad'') 0 False (sample_log ! 0) ?w = (Committed, ?w)"
    unfolding fulfillment_worker_def
    by (rule turn_fine) (simp_all add: sample_log_def TypeOrderPlaced_def ok_def bare_shipments_def)
  have "UnmarshalOrderConfirmed_ship ?b = Inr \<lparr>fc_OrderID = uuid_String std_lib 1, fc_ConfirmedAt = []\<rparr>"
    by (simp add: UnmarshalOrderConfirmed_ship_def json_Unmarshal_def dec_OrderConfirmed_ship_def field_simps_json
        Marshal_OrderConfirmed_def sample_confirmation_def)
  moreover have "undisturbed ?w" "shipment_for (w_db ?w) 1 = None" "t_shipments (w_db ?w) = []"
    by (simp_all add: undisturbed_def bare_shipments_def shipment_for_def)
  ultimately have "handleConfirmed std_lib (\<lambda>_. quiet_ctx) ''shipments'' 0 (sample_log ! 1) ?w
      = (Inr (), opened std_lib quiet_ctx ''shipments'' (new_shipment (uuid_New std_lib (w_uuids ?w)) 1 0) ?w)"
    using CreateForOrder_new [of ?w 1 std_lib quiet_ctx "''shipments''" 0]
    by (simp add: handleConfirmed_def sample_log_def std.parse_string and_then_def map_err_def ok_def)
  then have "fulfillment_worker std_lib (\<lambda>_. quiet_ctx) ''shipments'' ''dlq'' (\<lambda>_. ''bad'') 0 False (sample_log ! 1) ?w
      = (Committed, opened std_lib quiet_ctx ''shipments'' (new_shipment (uuid_New std_lib (w_uuids ?w)) 1 0) ?w)"
    unfolding fulfillment_worker_def
    by (intro turn_fine) (simp_all add: sample_log_def TypeOrderConfirmed_def opened_def bare_shipments_def)
  moreover have "length sample_log = 3" by (simp add: sample_log_def)
  ultimately show ?thesis using 0 by simp
qed

theorem committed_offsets_done_witness:
  "\<exists>v1 p (v2 :: notif_state world) (v3 :: ship_world). worker_sessions (projector_worker std_lib ''dlq'' (\<lambda>_. ''bad'')) sample_log
      [([Fetch 0 False, Fetch 0 False, Fetch 0 False], 1), ([Fetch 0 False, Fetch 0 False], 3)] (0, empty_world) = (3, v1)
    \<and> row_of (w_db v1) (uuid_String std_lib 1) = Some p \<and> pj_Status p = ''CONFIRMED''
    \<and> (\<forall>i < 3. dead_lettered ''dlq'' (sample_log ! i) v1 \<or> projected std_lib sample_log i (w_db v1))
    \<and> (\<forall>i < 2. dead_lettered ''dlq'' ([created_delivery (JObj [(''orderId'', JStr (uuid_String std_lib 7))]), poison] ! i) v2
         \<or> recorded std_lib ([created_delivery (JObj [(''orderId'', JStr (uuid_String std_lib 7))]), poison] ! i) (w_db v2))
    \<and> (\<forall>i < 2. dead_lettered ''dlq'' (sample_log ! i) v3 \<or> shipped std_lib (sample_log ! i) (w_db v3))"
proof -
  obtain v1 p where 1: "worker_sessions (projector_worker std_lib ''dlq'' (\<lambda>_. ''bad'')) sample_log
      [([Fetch 0 False, Fetch 0 False, Fetch 0 False], 1), ([Fetch 0 False, Fetch 0 False], 3)] (0, empty_world) = (3, v1)"
    "row_of (w_db v1) (uuid_String std_lib 1) = Some p" "pj_Status p = ''CONFIRMED''" using sample_projection by blast
  obtain v2 where 2: "worker_sessions (notification_worker std_lib LogSender_Send ''dlq'' (\<lambda>_. ''bad''))
      [created_delivery (JObj [(''orderId'', JStr (uuid_String std_lib 7))]), poison]
      [([Fetch 0 False, Fetch 0 False], 2)] (0, notif_start 0 []) = (2, v2)" using sample_notification by blast
  obtain v3 where 3: "worker_sessions (fulfillment_worker std_lib (\<lambda>_. quiet_ctx) ''shipments'' ''dlq'' (\<lambda>_. ''bad'')) sample_log
      [([Fetch 0 False, Fetch 0 False], 2)] (0, bare_shipments [] []) = (2, v3)" using sample_shipping by blast
  have first: "first_versions (w_db empty_world)"
    by (simp add: first_versions_def empty_world_def empty_order_db_def row_of_def)
  have others: "w_others (bare_shipments [] []) = map (\<lambda>(C, c, w). committed_ship std_lib C ''shipments'' c w) []"
    by (simp add: bare_shipments_def)
  from committed_offsets_done [OF 1(1) 2 3 first bare_ok others] 1 show ?thesis by blast
qed

end
