(* ===== verification/Order_Errors.thy ===== *)
theory Order_Errors
  imports Order_Clients Order_Commands
begin

text \<open>
  Which errors are permanent: none that a command, a table of the order service or the client of
  the inventory service returns. So the orchestrator routes a message to the dead-letter topic
  only when its payload cannot be read, and stops on everything else.
\<close>

definition passing :: "'s err + 'a \<Rightarrow> bool" where
  "passing r \<longleftrightarrow> (\<forall>e. r = Inl e \<longrightarrow> \<not> is_permanent e)"

definition transient :: "('w, 's, 'a) prog \<Rightarrow> bool" where
  "transient m \<longleftrightarrow> (\<forall>w. passing (fst (m w)))"

named_theorems transience \<open>programs without permanent errors\<close>

lemma transientD: "transient m \<Longrightarrow> m w = (Inl e, w') \<Longrightarrow> \<not> is_permanent e"
  unfolding transient_def passing_def by (metis fst_conv)

lemma passing_simps [simp]: "passing (Inr a)" "passing (Inl e) \<longleftrightarrow> \<not> is_permanent e"
  by (simp_all add: passing_def)

lemma transient_pure [transience]:
  "transient (ok a)" "\<not> is_permanent e \<Longrightarrow> transient (fail e)"
  "passing r \<Longrightarrow> transient (of_result r)"
  "transient (new_uuid L)"
  by (simp_all add: transient_def passing_def act_simps)

lemma transient_and_then [transience]:
  "transient m \<Longrightarrow> (\<And>a. transient (f a)) \<Longrightarrow> transient (and_then m f)"
  unfolding transient_def passing_def and_then_def by (auto split: prod.splits sum.splits) (metis fst_conv)+

lemma transient_map_err [transience]:
  "transient m \<Longrightarrow> (\<And>e. is_permanent (h e) \<Longrightarrow> is_permanent e) \<Longrightarrow> transient (map_err h m)"
  unfolding transient_def passing_def map_err_def by (auto split: prod.splits sum.splits) (metis fst_conv)+

lemma transient_db_stmt [transience]: "(\<And>d. passing (f d)) \<Longrightarrow> transient (db_stmt f)"
  unfolding transient_def passing_def db_stmt_def by (auto split: fault.splits sum.splits prod.splits)

lemma transient_db_ping [transience]: "transient db_ping"
  unfolding db_ping_def by (intro transience) simp

lemma transient_for_each [transience]: "(\<And>x. transient (f x)) \<Longrightarrow> transient (for_each f xs)"
  by (induction xs) (auto intro!: transience)

lemma transient_db_tx [transience]:
  assumes "transient m" and "\<And>e. is_permanent (bw e) = is_permanent e" and "\<And>a e. is_permanent (cw a e) = is_permanent e"
  shows "transient (pgx_tx bw cw m)"
  using assms unfolding transient_def passing_def pgx_tx_def
  by (auto split: fault.splits sum.splits prod.splits) (metis fst_conv)+

section \<open>The order service\<close>

lemma passing_ParseOrderID: "passing (ParseOrderID L s)"
  by (auto simp: ParseOrderID_def split: option.split)

text \<open>The constructors of the domain fail with errors of their own.\<close>

lemma passing_values:
  "passing (ParseCustomerID L s)" "passing (NewSKU s)" "passing (NewQuantity q)" "passing (NewMoney L c a)"
  "passing (NewAddress L l1 l2 ci re po co)"
  by (auto simp: ParseCustomerID_def NewSKU_def NewQuantity_def NewMoney_def NewAddress_def Let_def split: option.split)

lemma passing_case: "passing r \<Longrightarrow> (\<And>a. r = Inr a \<Longrightarrow> passing (f a)) \<Longrightarrow> passing (case r of Inl err \<Rightarrow> Inl err | Inr a \<Rightarrow> f a)"
  by (cases r) (auto simp: passing_def)

lemma passing_map: "passing r \<Longrightarrow> passing (map_sum id f r)"
  by (cases r) (auto simp: passing_def)

lemma passing_decode_lines: "passing (decode_lines L its)"
  by (induction its) (auto simp: decode_line_def intro!: passing_case passing_values passing_map)

lemma passing_decode_placed: "passing (decode_placed L p)"
  unfolding decode_placed_def
  by (intro passing_case passing_values passing_ParseOrderID passing_decode_lines) simp

lemma passing_if: "passing r \<Longrightarrow> passing r' \<Longrightarrow> passing (if b then r else r')"
  by simp

lemma passing_option: "passing r \<Longrightarrow> (\<And>a. passing (f a)) \<Longrightarrow> passing (case x of None \<Rightarrow> r | Some a \<Rightarrow> f a)"
  by (cases x) simp_all

lemma passing_decodeEvent: "passing (decodeEvent L ty raw)"
  unfolding decodeEvent_def
  by (intro passing_if passing_option passing_decode_placed passing_case passing_ParseOrderID) simp_all

lemma passing_encodeEvent: "passing (encodeEvent L e)"
  by (cases e) auto

lemma passing_decode_rows: "passing (decode_rows L rs)"
  by (induction rs) (auto intro!: passing_case passing_decodeEvent passing_map)

lemma passing_sql: "(\<And>u. passing (f u)) \<Longrightarrow> passing (with_uuid L s f)" "passing r \<Longrightarrow> passing (pg_reject b r)"
  by (auto simp: with_uuid_def pg_reject_def split: option.split)

lemma transient_Load [transience]: "transient (Order_Load L i)"
  unfolding Order_Load_def
  by (auto intro!: transience simp: select_events_def passing_sql passing_decode_rows Rehydrate_def)

lemma transient_Save [transience]: "transient (Order_Save L C agg v outbox)"
  unfolding Order_Save_def Save_event_def Save_message_def Let_def
  by (auto intro!: transience passing_sql passing_encodeEvent simp: insert_event_def insert_outbox_def save_error_def
      split: prod.splits option.split if_splits)

lemma transient_commands [transience]:
  "transient (Confirm_Handle L C now s)" "transient (Cancel_Handle L C now s reason)"
  unfolding Confirm_Handle_def Cancel_Handle_def Let_def
  by (auto intro!: transience simp: passing_ParseOrderID Confirm_def Cancel_def split: Status.splits)

lemma transient_sagas [transience]: "transient (Saga_Load L u)" "transient (Saga_Save L i)"
  unfolding Saga_Load_def Saga_Save_def
  by (auto intro!: transience passing_sql simp: upsert_saga_def)

section \<open>The clients\<close>

lemma transient_client_do [transience]: "transient (client_do send C method path b)"
  by (auto simp: transient_def client_do_def split: prod.split http_result.split)

lemma transient_inventory [transience]:
  "transient (Client_Reserve send C oid ls)" "transient (Client_transition send C oid action)"
  unfolding Client_Reserve_def Client_transition_def
  by (auto intro!: transience simp: reserve_outcome_def transition_outcome_def)

lemma transient_payment [transience]: "transient (Payment_Authorize send C stopped req)"
proof -
  have once: "\<not> is_permanent e" if "Payment_authorizeOnce send C raw w = (Inl (e, b), w')" for e b w w' raw
    using that by (auto simp: Payment_authorizeOnce_def capture_outcome_def split: prod.splits http_result.splits option.splits if_splits)
  have "transient (authorize_loop n stopped (Payment_authorizeOnce send C raw) k)" for n k raw
    by (induction n arbitrary: k) (auto simp: transient_def passing_def fail_def split: prod.splits sum.splits dest!: once)
  then show ?thesis by (simp add: Payment_Authorize_def)
qed

lemma transient_stub [transience]: "transient (Stub_Authorize L outcome req)"
  unfolding Stub_Authorize_def by (auto intro!: transience)

end
