(* ===== verification/Saga_Many.thy ===== *)
theory Saga_Many
  imports Saga_Samples Worker_Loops Order_Errors
begin

text \<open>
  Many orders at once: handling the placement of one order leaves every other order, its
  reservation and its saga alone. The locale \<open>saga_frame\<close> says what of the ports this takes; the
  deployed services give it. So the sagas of all orders of a topic stay consistent together, and
  the orchestrator's loop settles each of them.
\<close>

section \<open>Reservations of other orders\<close>

lemma placed_others:
  assumes "placed u d d'" and "v \<noteq> u"
  shows "status_of d' v = status_of d v"
proof -
  obtain r lns ws where p: "placing r lns lns ws d" "rr_order r = u" "d' = view ws d"
    using assms(1) by (auto simp: placed_def)
  then obtain sw where ws: "ws = sw @ WReservation r # map (WLine \<circ> line_row (rr_id r)) lns"
    and b: "all_booked StatusHeld lns sw d" by (auto simp: placing_def)
  have "t_reservations d' = t_reservations d @ [r]"
    using booked_tables [OF b] by (simp add: p(3) ws view_append view_lines map_map [symmetric] del: map_map)
  with assms(2) p(2) show ?thesis by (simp add: status_of_def find_append split: option.split)
qed

lemma settled_others:
  assumes "settled_by u k d d'" and ok: "ledger_ok d" and "v \<noteq> u"
  shows "status_of d' v = status_of d v"
proof -
  let ?f = "\<lambda>i q. if rr_id q = i then q\<lparr>rr_status := ReservationStatus_string k\<rparr> else q"
  obtain r ws where p: "settling k r ws d" "rr_order r = u" "d' = view ws d"
    using assms(1) by (auto simp: settled_by_def)
  then obtain sw where ws: "ws = sw @ [WStatus (rr_id r) (ReservationStatus_string k)]"
    and b: "all_booked k (lines_read d (rr_id r)) sw d" and r: "r \<in> set (t_reservations d)" by (auto simp: settling_def)
  have d': "t_reservations d' = map (?f (rr_id r)) (t_reservations d)"
    using booked_tables [OF b] by (simp add: p(3) ws view_append)
  have find_map: "find (\<lambda>q. rr_order q = v) (map (?f i) xs) = map_option (?f i) (find (\<lambda>q. rr_order q = v) xs)" for i xs
    by (induction xs) auto
  have same: "?f (rr_id r) q = q" if "find (\<lambda>q. rr_order q = v) (t_reservations d) = Some q" for q
  proof -
    have q: "q \<in> set (t_reservations d)" "rr_order q = v" using that by (auto simp: find_Some_iff)
    then have "rr_id q \<noteq> rr_id r"
      using ok r assms(3) p(2) by (auto simp: ledger_ok_def distinct_map inj_on_def)
    then show ?thesis by simp
  qed
  show ?thesis unfolding status_of_def d' find_map
    using same by (cases "find (\<lambda>q. rr_order q = v) (t_reservations d)") auto
qed

section \<open>The frame of a saga\<close>

text \<open>\<open>near\<close> relates the states between which only what concerns the order of \<open>event\<close> has changed.\<close>

locale saga_frame =
  fixes P :: "'w ports" and event :: OrderPlacedV1 and inv :: "'w \<Rightarrow> bool" and near :: "'w \<Rightarrow> 'w \<Rightarrow> bool"
  assumes near_refl: "near w w" and near_trans: "near w w1 \<Longrightarrow> near w1 w' \<Longrightarrow> near w w'"
    and reserve: "po_Reserve P (op_OrderID event)
        (map (\<lambda>it. \<lparr>rl_SKU = wl_SKU it, rl_Quantity = wl_Quantity it\<rparr>) (op_Items event)) w = (r, w') \<Longrightarrow> inv w \<Longrightarrow>
      inv w' \<and> near w w'"
    and settle: "po_Release P (op_OrderID event) w = (r, w') \<or> po_Commit P (op_OrderID event) w = (r, w') \<Longrightarrow> inv w \<Longrightarrow>
      inv w' \<and> near w w'"
    and authorize: "po_Authorize P req w = (r', w') \<Longrightarrow> pr_OrderID req = op_OrderID event \<Longrightarrow> inv w \<Longrightarrow>
      inv w' \<and> near w w'"
    and decide: "po_Confirm P (op_OrderID event) w = (r, w') \<or> po_Cancel P (op_OrderID event) reason w = (r, w') \<Longrightarrow> inv w \<Longrightarrow>
      inv w' \<and> near w w'"
    and load: "po_Load P (op_OrderID event) w = (r'', w') \<Longrightarrow> inv w \<Longrightarrow>
      inv w' \<and> near w w' \<and> (\<forall>i. r'' = Inr (Some i) \<longrightarrow> in_OrderID i = op_OrderID event)"
    and save: "po_Save P i w = (r, w') \<Longrightarrow> inv w \<Longrightarrow> in_OrderID i = op_OrderID event \<Longrightarrow> (\<And>s. in_State i \<noteq> StateOther s) \<Longrightarrow>
      inv w' \<and> near w w'"
begin

text \<open>\<open>m\<close> stays within the frame, and its result has the property \<open>Q\<close>.\<close>

definition within :: "('w, order_sentinel, 'a) prog \<Rightarrow> ('a \<Rightarrow> bool) \<Rightarrow> bool" where
  "within m Q \<longleftrightarrow> (\<forall>w r w'. m w = (r, w') \<longrightarrow> inv w \<longrightarrow> inv w' \<and> near w w' \<and> (\<forall>a. r = Inr a \<longrightarrow> Q a))"

lemma within_from:
  "within m Q \<Longrightarrow> m w1 = (r, w') \<Longrightarrow> inv w1 \<Longrightarrow> near w w1 \<Longrightarrow> inv w' \<and> near w w' \<and> (\<forall>a. r = Inr a \<longrightarrow> Q a)"
  unfolding within_def using near_trans by blast

lemma within_ok: "Q a \<Longrightarrow> within (ok a) Q"
  using near_refl by (simp add: within_def ok_def)

lemma within_wrap: "within m Q \<Longrightarrow> within (map_err h m) Q"
  unfolding within_def map_err_def by (fastforce split: prod.splits sum.splits)

lemma within_and_then: "within m Q \<Longrightarrow> (\<And>a. Q a \<Longrightarrow> within (f a) Q') \<Longrightarrow> within (and_then m f) Q'"
  unfolding within_def and_then_def by (fastforce split: prod.splits sum.splits intro: near_trans)

lemma within_if: "(b \<Longrightarrow> within m Q) \<Longrightarrow> (\<not> b \<Longrightarrow> within n Q) \<Longrightarrow> within (if b then m else n) Q"
  by simp

lemma within_case:
  "(x = None \<Longrightarrow> within m Q) \<Longrightarrow> (\<And>a. x = Some a \<Longrightarrow> within (f a) Q) \<Longrightarrow> within (case x of None \<Rightarrow> m | Some a \<Rightarrow> f a) Q"
  by (cases x) simp_all

lemmas within_rules = within_ok within_wrap within_and_then within_if within_case

text \<open>An instance of this order.\<close>

definition mine :: "Instance \<Rightarrow> bool" where
  "mine i \<longleftrightarrow> in_OrderID i = op_OrderID event"

lemma within_save: "mine i \<Longrightarrow> (\<And>s. in_State i \<noteq> StateOther s) \<Longrightarrow> within (po_Save P i) (\<lambda>_. True)"
  unfolding within_def mine_def using save by blast

lemma within_calls:
  "within (po_Release P (op_OrderID event)) (\<lambda>_. True)" "within (po_Commit P (op_OrderID event)) (\<lambda>_. True)"
  "within (po_Confirm P (op_OrderID event)) (\<lambda>_. True)" "within (po_Cancel P (op_OrderID event) reason) (\<lambda>_. True)"
  "pr_OrderID req = op_OrderID event \<Longrightarrow> within (po_Authorize P req) (\<lambda>_. True)"
  unfolding within_def using settle decide authorize by blast+

lemma within_cancel: "mine i \<Longrightarrow> within (saga_cancel P i reason) (\<lambda>_. True)"
  unfolding saga_cancel_def using within_calls(4) [of reason]
  by (auto simp: mine_def intro!: within_and_then [where Q = "\<lambda>_. True"] within_wrap within_save)

lemma within_start: "within (saga_start P (op_OrderID event)) mine"
  unfolding saga_start_def
proof (rule within_and_then [OF within_wrap])
  show "within (po_Load P (op_OrderID event)) (\<lambda>found. \<forall>i. found = Some i \<longrightarrow> mine i)"
    unfolding within_def mine_def using load by blast
qed (auto simp: mine_def NewInstance_def intro!: within_case within_ok within_and_then [where Q = "\<lambda>_. True"] within_wrap within_save)

lemma within_reserve: "mine i \<Longrightarrow> within (step_reserve P event i) (\<lambda>x. \<forall>j. x = Some j \<longrightarrow> mine j)"
proof -
  assume i: "mine i"
  let ?lines = "map (\<lambda>it. \<lparr>rl_SKU = wl_SKU it, rl_Quantity = wl_Quantity it\<rparr>) (op_Items event)"
  let ?Q = "\<lambda>x. \<forall>j. x = Some j \<longrightarrow> mine j" and ?j = "i\<lparr>in_State := StateReserved, in_ReservationHeld := True\<rparr>"
  have c: "within (and_then (saga_cancel P i ''inventory reservation rejected'') (\<lambda>_. ok None)) ?Q"
    by (rule within_and_then [OF within_cancel [OF i] within_ok]) simp
  have s: "within (and_then (wrap_err ''save saga'' (po_Save P ?j)) (\<lambda>_. ok (Some ?j))) ?Q"
    using i by (intro within_and_then [OF within_wrap [OF within_save]] within_ok) (auto simp: mine_def)
  show ?thesis unfolding within_def
  proof (intro allI impI)
    fix w r w' assume run: "step_reserve P event i w = (r, w')" and w: "inv w"
    obtain r1 w1 where res: "po_Reserve P (op_OrderID event) ?lines w = (r1, w1)" by fastforce
    from reserve [OF res w] have 1: "inv w1" "near w w1" by simp_all
    show "inv w' \<and> near w w' \<and> (\<forall>a. r = Inr a \<longrightarrow> ?Q a)"
    proof (cases "in_State i = StateStarted")
      case False
      then show ?thesis using run w i near_refl by (auto simp: step_reserve_def ok_def)
    next
      case True
      show ?thesis
      proof (cases r1)
        case (Inl e)
        then consider "and_then (saga_cancel P i ''inventory reservation rejected'') (\<lambda>_. ok None) w1 = (r, w')"
          | "w' = w1" "\<exists>err. r = Inl err"
          using run res True by (auto simp: step_reserve_def split: if_splits)
        then show ?thesis
        proof cases
          case 1
          from within_from [OF c this \<open>inv w1\<close> \<open>near w w1\<close>] show ?thesis .
        qed (use 1 in auto)
      next
        case (Inr u)
        then have "and_then (wrap_err ''save saga'' (po_Save P ?j)) (\<lambda>_. ok (Some ?j)) w1 = (r, w')"
          using run res True by (simp add: step_reserve_def Let_def)
        from within_from [OF s this 1] show ?thesis .
      qed
    qed
  qed
qed

lemma within_pay: "mine i \<Longrightarrow> within (step_pay P event i) (\<lambda>x. \<forall>j. x = Some j \<longrightarrow> mine j)"
  unfolding step_pay_def Let_def
  by (auto simp: mine_def intro!: within_if within_ok within_and_then [where Q = "\<lambda>_. True"] within_wrap within_calls
      within_save within_cancel)

lemma within_commit: "mine i \<Longrightarrow> within (step_commit P event i) (\<lambda>_. True)"
  unfolding step_commit_def
  by (auto simp: mine_def intro!: within_if within_ok within_and_then [where Q = "\<lambda>_. True"] within_wrap within_calls within_save)

lemma handle_within: "within (Saga_Handle P event) (\<lambda>_. True)"
  unfolding Saga_Handle_def
  by (auto intro!: within_and_then [OF within_start] within_if within_ok within_and_then [OF within_reserve]
      within_and_then [OF within_pay] within_case within_commit)

end

section \<open>The deployed services\<close>

text \<open>What a saga sees of an order, by the order's identifier.\<close>

definition order_views :: "saga_world \<Rightarrow> string \<Rightarrow> Status \<times> ReservationStatus option \<times> Instance option" where
  "order_views w u =
     (order_status (w_db (sw_order w)) u, status_of (w_db (sw_inv w)) u, saga_record (w_db (sw_order w)) u)"

definition only_touches :: "string \<Rightarrow> saga_world \<Rightarrow> saga_world \<Rightarrow> bool" where
  "only_touches oid w w' \<longleftrightarrow>
     (\<forall>u. u \<noteq> oid \<longrightarrow> order_views w' u = order_views w u) \<and> prefix (w_sent (sw_order w)) (w_sent (sw_order w'))"

definition frame_inv :: "golib \<Rightarrow> OrderPlacedV1 \<Rightarrow> saga_world \<Rightarrow> bool" where
  "frame_inv L event w \<longleftrightarrow>
     services_inv L event w \<and> (\<forall>i. saga_saved event w = Some i \<longrightarrow> in_OrderID i = op_OrderID event)"

lemma status_others:
  assumes L: "uuid_laws L" and u: "canonical L u" and spec: "confirm_spec L st u r d d'" and "v \<noteq> u"
  shows "order_status d' v = order_status d v"
proof -
  obtain oid where "ParseOrderID L u = Inr oid" "OrderID_String L oid = u" using canonical_facts(5) [OF L u] by blast
  with spec assms(4) have "stream_types d' v = stream_types d v" by (auto simp: confirm_spec_def terminal_step_def)
  then show ?thesis by (simp add: order_status_def)
qed

lemma commands_send:
  "sent_grows (Confirm_Handle L C now s)" "sent_grows (Cancel_Handle L C now s reason)"
  unfolding Confirm_Handle_def Cancel_Handle_def Order_Save_def Order_Load_def Let_def Save_event_def Save_message_def
  by (auto intro!: sending split: prod.splits sum.splits if_splits)

lemma tables_send: "sent_grows (Saga_Load L u)" "sent_grows (Saga_Save L i)"
  unfolding Saga_Load_def Saga_Save_def by (auto intro!: sending split: option.splits)

lemma on_order_sends: "sent_grows m \<Longrightarrow> on_order m w = (r, w') \<Longrightarrow> prefix (w_sent (sw_order w)) (w_sent (sw_order w'))"
  by (auto simp: on_order_def sent_grows_def split: prod.splits) (metis snd_conv)

lemma Save_others:
  assumes L: "uuid_laws L" and u: "canonical L (in_OrderID i)" and "v \<noteq> in_OrderID i" and run: "Saga_Save L i w = (r, w')"
  shows "saga_record (w_db w') v = saga_record (w_db w) v"
proof -
  have "upsert_saga L i d = Inr ((), d') \<Longrightarrow> saga_record d' v = saga_record d v" for d d'
    using canonical_facts(1) [OF L u] assms(3)
    by (auto simp: upsert_saga_def with_uuid_def pg_reject_def saga_record_def update_conv' split: if_splits)
  then have "preserves (\<lambda>d. saga_record d v = saga_record (w_db w) v) (Saga_Save L i)"
    unfolding Saga_Save_def by (auto intro!: preserving)
  then show ?thesis by (rule preservesD [of _ "Saga_Save L i", OF _ _ run]) simp
qed

lemma inventory_touches:
  "sw_order w' = sw_order w \<Longrightarrow> (\<And>v. v \<noteq> oid \<Longrightarrow> status_of (w_db (sw_inv w')) v = status_of (w_db (sw_inv w)) v) \<Longrightarrow>
   only_touches oid w w'"
  by (simp add: only_touches_def order_views_def)

lemma order_touches:
  assumes run: "on_order m w = (r, w')" and send: "sent_grows m"
    and same: "\<And>d' v. m (sw_order w) = (r, d') \<Longrightarrow> v \<noteq> oid \<Longrightarrow>
        order_status (w_db d') v = order_status (w_db (sw_order w)) v
        \<and> saga_record (w_db d') v = saga_record (w_db (sw_order w)) v"
  shows "only_touches oid w w'"
proof -
  obtain d' where d: "m (sw_order w) = (r, d')" "w' = w\<lparr>sw_order := d'\<rparr>"
    using run by (auto simp: on_order_def split: prod.splits)
  with same [OF d(1)] on_order_sends [OF send run] show ?thesis by (simp add: only_touches_def order_views_def)
qed

lemma settle_frame:
  assumes L: "uuid_laws L" and S: "open_server S" and oid: "canonical L (op_OrderID event)"
    and k: "k = StatusReleased \<or> k = StatusCommitted" and inv: "services_inv L event w"
    and run: "Client_transition (http_call (serve L S)) C (op_OrderID event) (action_of k) w = (r, w')"
  shows "only_touches (op_OrderID event) w w'"
proof -
  have led: "ledger_ok (w_db (sw_inv w))" "w_env (sw_inv w) = []" using inv by (simp_all add: services_inv_def)
  note c = settle_call [OF L S oid k led run]
  show ?thesis
    by (rule inventory_touches) (use c settled_others [OF _ led(1)] in auto)
qed

lemma command_frame:
  assumes L: "uuid_laws L" and oid: "canonical L (op_OrderID event)"
    and spec: "\<And>w r w'. store_inv L (w_db w) \<Longrightarrow> m w = (r, w')
       \<Longrightarrow> store_inv L (w_db w') \<and> confirm_spec L st (op_OrderID event) r (w_db w) (w_db w')"
    and sagas: "\<And>S. preserves (\<lambda>d. t_sagas d = S) m" and send: "sent_grows m"
    and run: "on_order m w = (r, w')" and inv: "services_inv L event w"
  shows "only_touches (op_OrderID event) w w'"
proof (rule order_touches [OF run send])
  fix d' v assume m: "m (sw_order w) = (r, d')" and v: "v \<noteq> op_OrderID event"
  have store: "store_inv L (w_db (sw_order w))" using inv by (simp add: services_inv_def)
  have "t_sagas (w_db d') = t_sagas (w_db (sw_order w))" using preservesD [OF sagas _ m] by simp
  moreover have "confirm_spec L st (op_OrderID event) r (w_db (sw_order w)) (w_db d')" using spec [OF store m] by simp
  ultimately show "order_status (w_db d') v = order_status (w_db (sw_order w)) v
      \<and> saga_record (w_db d') v = saga_record (w_db (sw_order w)) v"
    using status_others [OF L oid _ v] by (simp add: saga_record_def)
qed

lemma deployed_frame:
  assumes D: "deployment_ok L S event approves pay"
  shows "saga_frame (orchestrator_ports L C now (serve L S) pay) event (frame_inv L event) (only_touches (op_OrderID event))"
proof -
  have L: "uuid_laws L" and S: "open_server S" and oid: "canonical L (op_OrderID event)"
    and pay: "gateway_ok (op_OrderID event) approves pay"
    using D by (simp_all add: deployment_ok_def)
  note V = deployed_services [OF L S oid pay, of C now]
  let ?P = "orchestrator_ports L C now (serve L S) pay"
  have keep: "frame_inv L event w'" if "services_inv L event w'" "saga_saved event w' = saga_saved event w" "frame_inv L event w" for w w'
    using that by (simp add: frame_inv_def)
  show ?thesis
  proof (unfold_locales, goal_cases)
    case (1 w)
    show ?case by (simp add: only_touches_def)
  next
    case (2 w w1 w')
    then show ?case by (auto simp: only_touches_def)
  next
    case (3 w r w')
    have inv: "services_inv L event w" using 3(2) by (simp add: frame_inv_def)
    have led: "ledger_ok (w_db (sw_inv w))" "w_env (sw_inv w) = []"
      and lines: "status_of (w_db (sw_inv w)) (op_OrderID event) \<noteq> None \<Longrightarrow> reservable (event_lines event)"
      using inv by (simp_all add: services_inv_def)
    have run: "Client_Reserve (http_call (serve L S)) C (op_OrderID event) (event_lines event) w = (r, w')"
      using 3(1) by (simp add: orchestrator_ports_def)
    have "only_touches (op_OrderID event) w w'"
      by (rule inventory_touches) (use reserve_call [OF L S oid led lines run] placed_others in auto)
    with keep [OF _ _ 3(2)] reserve_law [OF L S oid inv run] show ?case by blast
  next
    case (4 w r w')
    have inv: "services_inv L event w" using 4(2) by (simp add: frame_inv_def)
    obtain k where k: "k = StatusReleased \<or> k = StatusCommitted"
      and run: "Client_transition (http_call (serve L S)) C (op_OrderID event) (action_of k) w = (r, w')"
      using 4(1) that [of StatusReleased] that [of StatusCommitted]
      by (auto simp: orchestrator_ports_def Client_Release_def Client_Commit_def action_of_def)
    from keep [OF _ _ 4(2)] settle_frame [OF L S oid k inv run] settle_law [OF L S oid k inv run] show ?case by blast
  next
    case (5 req w r' w')
    have inv: "services_inv L event w" using 5(3) by (simp add: frame_inv_def)
    have run: "pay req w = (r', w')" using 5(1) by (simp add: orchestrator_ports_def)
    have same: "w_db (sw_order w') = w_db (sw_order w)" "w_sent (sw_order w') = w_sent (sw_order w)" "sw_inv w' = sw_inv w"
      using pay run unfolding gateway_ok_def by blast+
    then have "only_touches (op_OrderID event) w w'" by (simp add: only_touches_def order_views_def)
    with keep [OF _ _ 5(3)] saga_services.authorize [OF V 5(1,2) inv] show ?case by blast
  next
    case (6 w r w' reason)
    have inv: "services_inv L event w" using 6(2) by (simp add: frame_inv_def)
    from 6(1) show ?case
    proof
      assume c: "po_Confirm ?P (op_OrderID event) w = (r, w')"
      then have run: "on_order (Confirm_Handle L C now (op_OrderID event)) w = (r, w')"
        by (simp add: orchestrator_ports_def orderController_Confirm_def)
      have "only_touches (op_OrderID event) w w'"
        by (rule command_frame [OF L oid Confirm_Handle_spec [OF L] commands_keep_sagas(1) commands_send(1) run inv])
      with keep [OF _ _ 6(2)] saga_services.confirm [OF V c inv] show ?thesis by blast
    next
      assume c: "po_Cancel ?P (op_OrderID event) reason w = (r, w')"
      then have run: "on_order (Cancel_Handle L C now (op_OrderID event) reason) w = (r, w')"
        by (simp add: orchestrator_ports_def orderController_Cancel_def)
      have "only_touches (op_OrderID event) w w'"
        by (rule command_frame [OF L oid Cancel_Handle_spec [OF L] commands_keep_sagas(2) commands_send(2) run inv])
      with keep [OF _ _ 6(2)] saga_services.cancel [OF V c inv] show ?thesis by blast
    qed
  next
    case (7 w r w')
    have inv: "services_inv L event w" using 7(2) by (simp add: frame_inv_def)
    have run: "on_order (Saga_Load L (op_OrderID event)) w = (r, w')" using 7(1) by (simp add: orchestrator_ports_def)
    have "only_touches (op_OrderID event) w w'"
      by (rule order_touches [OF run tables_send(1)]) (use Saga_Load_result [OF L oid] in auto)
    with keep [OF _ _ 7(2)] saga_services.load [OF V 7(1) inv] 7(2) show ?case by (auto simp: frame_inv_def)
  next
    case (8 i w r w')
    have inv: "services_inv L event w" using 8(2) by (simp add: frame_inv_def)
    have run: "on_order (Saga_Save L i) w = (r, w')" using 8(1) by (simp add: orchestrator_ports_def)
    have i: "canonical L (in_OrderID i)" using oid 8(3) by simp
    have "only_touches (op_OrderID event) w w'"
    proof (rule order_touches [OF run tables_send(2)])
      fix d' v assume m: "Saga_Save L i (sw_order w) = (r, d')" and v: "v \<noteq> op_OrderID event"
      from Save_others [OF L i _ m] Saga_Save_result [OF L oid 8(3,4) m] v 8(3)
      show "order_status (w_db d') v = order_status (w_db (sw_order w)) v
          \<and> saga_record (w_db d') v = saga_record (w_db (sw_order w)) v"
        by (simp add: order_status_def stream_types_def rows_of_def)
    qed
    with saga_services.save [OF V 8(1) inv 8(3,4)] 8(2,3) show ?case by (auto simp: frame_inv_def)
  qed
qed

section \<open>All sagas together\<close>

text \<open>The orders of a topic: each placement has an identifier of its own and a verdict of the gateway.\<close>

definition orders_ok :: "golib \<Rightarrow> inv_server \<Rightarrow> OrderPlacedV1 set \<Rightarrow> (string \<Rightarrow> bool)
    \<Rightarrow> (PaymentRequest \<Rightarrow> (saga_world, order_sentinel, PaymentResult) prog) \<Rightarrow> bool" where
  "orders_ok L S E approves pay \<longleftrightarrow> inj_on op_OrderID E \<and> (\<forall>req. transient (pay req))
     \<and> (\<forall>e \<in> E. deployment_ok L S e (approves (op_OrderID e)) pay)"

definition all_fine :: "golib \<Rightarrow> OrderPlacedV1 set \<Rightarrow> (string \<Rightarrow> bool) \<Rightarrow> saga_world \<Rightarrow> bool" where
  "all_fine L E approves w \<longleftrightarrow> (\<forall>e \<in> E. saga_fine L e (approves (op_OrderID e)) w)"

definition saga_done :: "OrderPlacedV1 \<Rightarrow> saga_world \<Rightarrow> bool" where
  "saga_done e w \<longleftrightarrow> (\<exists>j. saga_saved e w = Some j \<and> Terminal j)"

lemma fine_views:
  assumes "order_views w' (op_OrderID e) = order_views w (op_OrderID e)" and "saga_fine L e a w"
    and "services_inv L e' w'"
  shows "saga_fine L e a w' \<and> (saga_done e w' = saga_done e w)"
  using assms by (simp add: saga_fine_def saga_done_def services_inv_def saga_views order_views_def)

lemma handle_all_fine:
  assumes O: "orders_ok L S E approves pay" and e: "e \<in> E" and fine: "all_fine L E approves w"
    and run: "Saga_Handle (orchestrator_ports L C now (serve L S) pay) e w = (r, w')"
  shows "all_fine L E approves w' \<and> (\<forall>e' \<in> E. saga_done e' w \<longrightarrow> saga_done e' w')
    \<and> (r = Inr () \<longrightarrow> saga_done e w') \<and> prefix (w_sent (sw_order w)) (w_sent (sw_order w'))"
proof -
  have D: "deployment_ok L S e (approves (op_OrderID e)) pay" using O e by (simp add: orders_ok_def)
  then have D': "uuid_laws L" "open_server S" "canonical L (op_OrderID e)" "gateway_ok (op_OrderID e) (approves (op_OrderID e)) pay"
    by (simp_all add: deployment_ok_def)
  have f: "saga_fine L e (approves (op_OrderID e)) w" using fine e by (simp add: all_fine_def)
  then have inv: "services_inv L e w" "frame_inv L e w" by (simp_all add: saga_fine_def frame_inv_def)
  note F = deployed_frame [OF D, of C now]
  from saga_frame.handle_within [OF F] run inv(2) have 1: "frame_inv L e w'" "only_touches (op_OrderID e) w w'"
    unfolding saga_frame.within_def [OF F] by blast+
  note 2 = handle_fine [OF D f run]
  have "saga_fine L e' (approves (op_OrderID e')) w' \<and> (saga_done e' w \<longrightarrow> saga_done e' w')" if e': "e' \<in> E" for e'
  proof (cases "e' = e")
    case True
    have "saga_done e w'" if "saga_done e w"
    proof -
      from that obtain j where j: "saga_saved e w = Some j" "Terminal j" by (auto simp: saga_done_def)
      from saga_services.ended_stays [OF deployed_services [OF D'] j inv(1) run] j show ?thesis
        by (simp add: saga_done_def)
    qed
    with True 2 show ?thesis by simp
  next
    case False
    then have "op_OrderID e' \<noteq> op_OrderID e" using O e e' by (auto simp: orders_ok_def inj_on_def)
    then have "order_views w' (op_OrderID e') = order_views w (op_OrderID e')" using 1(2) by (simp add: only_touches_def)
    from fine_views [OF this, of L "approves (op_OrderID e')" e] fine e' 1(1) show ?thesis
      by (simp add: all_fine_def frame_inv_def)
  qed
  with 1 2 show ?thesis by (simp add: all_fine_def only_touches_def saga_done_def)
qed

end
