(* ===== verification/Saga_Topic.thy ===== *)
theory Saga_Topic
  imports Saga_Many
begin

text \<open>
  The orchestrator's worker on a topic with the placements of any number of orders: an instance
  of \<open>consumer\<close>, whatever fails and however often the worker starts over.
\<close>

section \<open>The orchestrator's loop\<close>

lemma transient_handle:
  assumes pay: "\<And>req. transient (pay req)"
  shows "transient (Saga_Handle (orchestrator_ports L C now server pay) e)"
proof -
  let ?P = "orchestrator_ports L C now server pay"
  have on: "transient (on_order m)" if "transient m" for m :: "'a order_act"
    using that by (auto simp: transient_def on_order_def split: prod.split) (metis fst_conv)
  have ports [transience]: "transient (po_Reserve ?P i ls)" "transient (po_Release ?P i)" "transient (po_Commit ?P i)"
    "transient (po_Authorize ?P req)" "transient (po_Confirm ?P i)" "transient (po_Cancel ?P i reason)"
    "transient (po_Load ?P i)" "transient (po_Save ?P inst)" for i ls req reason inst
    by (auto simp: orchestrator_ports_def orderController_Confirm_def orderController_Cancel_def Client_Release_def
        Client_Commit_def intro!: transience on pay)
  have cancel: "transient (saga_cancel ?P i reason)" for i reason
    unfolding saga_cancel_def by (auto intro!: transience)
  have "transient (step_reserve ?P e i)" for i
  proof -
    have a: "transient (and_then (saga_cancel ?P i ''inventory reservation rejected'') (\<lambda>_. ok None))"
      by (auto intro!: transience cancel)
    have b: "transient (and_then (wrap_err ''save saga'' (po_Save ?P j)) (\<lambda>_. ok (Some j)))" for j
      by (auto intro!: transience)
    show ?thesis using a b ports(1) unfolding transient_def passing_def step_reserve_def
      by (auto simp: ok_def Let_def split: prod.split sum.split) (metis fst_conv)+
  qed
  then show ?thesis unfolding Saga_Handle_def saga_start_def step_pay_def step_commit_def Let_def
    by (auto intro!: transience cancel split: option.split)
qed

abbreviation deployed_ports ::
  "golib \<Rightarrow> (headers \<Rightarrow> ctx) \<Rightarrow> inv_server \<Rightarrow> (PaymentRequest \<Rightarrow> (saga_world, order_sentinel, PaymentResult) prog)
   \<Rightarrow> time \<Rightarrow> delivery \<Rightarrow> saga_world ports" where
  "deployed_ports L ctx_of S pay now d \<equiv>
     orchestrator_ports L (ctx_of (msg_Headers (dl_message d))) now (serve L S) pay"

text \<open>The messages that place an order of \<open>E\<close>, place none, or cannot be read.\<close>

definition placements :: "OrderPlacedV1 set \<Rightarrow> delivery set" where
  "placements E = {d. event_type d = TypeOrderPlaced \<longrightarrow> (\<forall>e. UnmarshalOrderPlaced (payload d) = Inr e \<longrightarrow> e \<in> E)}"

definition unreadable :: "delivery \<Rightarrow> bool" where
  "unreadable d \<longleftrightarrow> event_type d = TypeOrderPlaced \<and> (\<exists>err. UnmarshalOrderPlaced (payload d) = Inl err)"

definition saga_over :: "OrderPlacedV1 set \<Rightarrow> delivery \<Rightarrow> saga_world \<Rightarrow> bool" where
  "saga_over E d w \<longleftrightarrow> (event_type d = TypeOrderPlaced \<longrightarrow>
     (\<exists>e \<in> E. UnmarshalOrderPlaced (payload d) = Inr e \<and> saga_done e w))"

definition dealt_with :: "string \<Rightarrow> OrderPlacedV1 set \<Rightarrow> delivery \<Rightarrow> saga_world \<Rightarrow> bool" where
  "dealt_with dlq E d w \<longleftrightarrow> (if unreadable d then dead_lettered dlq d (sw_order w) else saga_over E d w)"

lemma on_order_same: "sw_inv w' = sw_inv w \<Longrightarrow> w_db (sw_order w') = w_db (sw_order w) \<Longrightarrow>
    all_fine L E approves w' = all_fine L E approves w \<and> saga_over E d w' = saga_over E d w"
  by (simp add: all_fine_def saga_fine_def saga_over_def saga_done_def services_inv_def saga_views)

lemma broker_keeps:
  assumes "on_order (broker_call ms) w = (r, w')" and "all_fine L E approves w"
  shows "all_fine L E approves w' \<and> (\<forall>d. dealt_with dlq E d w \<longrightarrow> dealt_with dlq E d w')"
proof -
  have "sw_inv w' = sw_inv w" "w_db (sw_order w') = w_db (sw_order w)"
    using assms(1) by (auto simp: on_order_def broker_call_def next_fault_db split: prod.splits fault.splits)
  note same = on_order_same [OF this]
  have "dead_lettered dlq d (sw_order w) \<Longrightarrow> dead_lettered dlq d (sw_order w')" for d
    using on_order_sends [OF sent_grows_broker_call assms(1)] set_mono_prefix by (auto simp: dead_lettered_def)
  with same assms(2) show ?thesis by (simp add: dealt_with_def)
qed

lemma permanent_unreadable:
  assumes "\<And>req. transient (pay req)" and "is_permanent err"
    and "(if event_type d = TypeOrderPlaced then handlePlaced (deployed_ports L ctx_of S pay now d) d else ok ()) w = (Inl err, w')"
  shows "unreadable d"
proof (cases "UnmarshalOrderPlaced (payload d)")
  case (Inr e)
  have "transient (wrap_err ''run saga'' (Saga_Handle (deployed_ports L ctx_of S pay now d) e))"
    by (intro transience transient_handle assms(1)) simp
  from transientD [OF this, of w err w'] assms(2,3) Inr show ?thesis
    by (auto simp: handlePlaced_def ok_def split: if_splits)
qed (use assms(3) in \<open>auto simp: unreadable_def ok_def split: if_splits\<close>)

lemma placed_turn:
  assumes O: "orders_ok L S E approves pay" and d: "d \<in> placements E" and fine: "all_fine L E approves w"
    and run: "(if event_type d = TypeOrderPlaced then handlePlaced (deployed_ports L ctx_of S pay now d) d else ok ()) w = (r, w')"
  shows "all_fine L E approves w' \<and> (\<forall>d'. dealt_with dlq E d' w \<longrightarrow> dealt_with dlq E d' w')
    \<and> (r = Inr () \<longrightarrow> dealt_with dlq E d w')"
proof (cases "event_type d = TypeOrderPlaced")
  case False
  with run fine show ?thesis by (auto simp: ok_def dealt_with_def unreadable_def saga_over_def)
next
  case True
  show ?thesis
  proof (cases "UnmarshalOrderPlaced (payload d)")
    case (Inl err)
    with run True fine show ?thesis by (auto simp: handlePlaced_def fail_def unreadable_def)
  next
    case (Inr e)
    then have e: "e \<in> E" using d True by (simp add: placements_def)
    obtain r0 where h: "Saga_Handle (deployed_ports L ctx_of S pay now d) e w = (r0, w')"
      and r: "r = Inr () \<Longrightarrow> r0 = Inr ()"
      using run True Inr by (auto simp: handlePlaced_def map_err_def split: prod.splits sum.splits)
    note 1 = handle_all_fine [OF O e fine h]
    have keep: "dealt_with dlq E d' w'" if "dealt_with dlq E d' w" for d'
    proof -
      have "dead_lettered dlq d' (sw_order w) \<Longrightarrow> dead_lettered dlq d' (sw_order w')"
        using 1 set_mono_prefix by (fastforce simp: dead_lettered_def)
      moreover have "saga_over E d' w \<Longrightarrow> saga_over E d' w'" using 1 by (auto simp: saga_over_def)
      ultimately show ?thesis using that by (simp add: dealt_with_def split: if_splits)
    qed
    have "dealt_with dlq E d w'" if "r = Inr ()"
      using 1 r [OF that] Inr e by (auto simp: dealt_with_def unreadable_def saga_over_def)
    then show ?thesis using 1 keep by blast
  qed
qed

lemma orchestrator_consumer:
  assumes O: "orders_ok L S E approves pay"
  shows "consumer (on_order CommitMessages)
    (\<lambda>now d. if event_type d = TypeOrderPlaced then handlePlaced (deployed_ports L ctx_of S pay now d) d else ok ())
    (\<lambda>d err. on_order (DeadLetter_Publish dlq et d err)) (all_fine L E approves) (dealt_with dlq E) (placements E)"
proof (unfold_locales, goal_cases)
  case (1 now d w r w')
  from placed_turn [where ctx_of = ctx_of and now = now, OF O 1(2,3,1)] show ?case by blast
next
  case (2 now d w0 err w r w')
  then have run: "on_order (broker_call [dlq_message dlq d (et err)]) w = (r, w')" by (simp add: DeadLetter_Publish_def)
  have "dead_lettered dlq d (sw_order w')" if "r = Inr ()"
    using 2(4) that dead_letter_sent by (fastforce simp: on_order_def split: prod.splits)
  moreover have "unreadable d"
    using permanent_unreadable [where pay = pay and ctx_of = ctx_of and now = now, OF _ 2(2,1)] O by (simp add: orders_ok_def)
  ultimately show ?case using broker_keeps [OF run 2(5)] by (auto simp: dealt_with_def)
next
  case (3 w r w')
  then have "on_order (broker_call []) w = (r, w')" by (simp add: CommitMessages_def)
  from broker_keeps [OF this 3(2)] show ?case by blast
qed

section \<open>Every order of the topic is decided\<close>

abbreviation deployed_worker ::
  "golib \<Rightarrow> (headers \<Rightarrow> ctx) \<Rightarrow> inv_server \<Rightarrow> (PaymentRequest \<Rightarrow> (saga_world, order_sentinel, PaymentResult) prog)
   \<Rightarrow> string \<Rightarrow> (oerr \<Rightarrow> string) \<Rightarrow> time \<Rightarrow> bool \<Rightarrow> delivery \<Rightarrow> saga_world \<Rightarrow> order_sentinel turn_end \<times> saga_world" where
  "deployed_worker L ctx_of S pay dlq et \<equiv>
     orchestrator_worker (deployed_ports L ctx_of S pay) (\<lambda>d err. on_order (DeadLetter_Publish dlq et d err))
       (on_order CommitMessages)"

text \<open>C19. A topic carries the placements of any number of pending orders, among other messages and
  unreadable ones. Whatever the databases, the network and the brokers do, however often the
  orchestrator stops and starts over, every order below the committed offset is decided by its own
  verdict: confirmed, paid and its stock committed, or cancelled without stock. Only what cannot
  be read goes to the dead-letter topic.\<close>

theorem orders_of_topic_decided:
  assumes O: "orders_ok L S E approves pay" and ready: "\<forall>e \<in> E. saga_ready L e w" and log: "set log \<subseteq> placements E"
    and run: "worker_sessions (deployed_worker L ctx_of S pay dlq et) log ss (0, w) = (c, w')"
    and i: "i < c" and placed: "event_type (log ! i) = TypeOrderPlaced"
  shows "case UnmarshalOrderPlaced (payload (log ! i)) of
      Inl err \<Rightarrow> dead_lettered dlq (log ! i) (sw_order w')
    | Inr e \<Rightarrow> saga_settled (approves (op_OrderID e)) (saga_reservation e w') (saga_order_status e w')"
proof -
  note C = orchestrator_consumer [OF O, of ctx_of dlq et]
  have "all_fine L E approves w" using ready saga_ready_fine by (simp add: all_fine_def)
  then have "consumer.settled_below (all_fine L E approves) (dealt_with dlq E) (placements E) log 0 w"
    using log by (simp add: consumer.settled_below_def [OF C])
  from consumer.sessions_settle [OF C _ this, of id ss c w'] run
  have below: "consumer.settled_below (all_fine L E approves) (dealt_with dlq E) (placements E) log c w'"
    by (simp add: consumer.turn_def [OF C, abs_def] orchestrator_worker_def [abs_def])
  then have d: "dealt_with dlq E (log ! i) w'" and fine: "all_fine L E approves w'"
    using i by (simp_all add: consumer.settled_below_def [OF C])
  show ?thesis
  proof (cases "UnmarshalOrderPlaced (payload (log ! i))")
    case (Inl err)
    with d placed show ?thesis by (simp add: dealt_with_def unreadable_def)
  next
    case (Inr e)
    with d placed obtain j where "e \<in> E" "saga_saved e w' = Some j" "Terminal j"
      by (auto simp: dealt_with_def unreadable_def saga_over_def saga_done_def)
    with fine terminal_settled [of L e _ w' j] Inr show ?thesis by (simp add: all_fine_def)
  qed
qed

section \<open>Witness\<close>

definition sample_delivery :: delivery where
  "sample_delivery = \<lparr>dl_message = \<lparr>msg_Topic = ''orders.events'', msg_Key = [], msg_Value = Marshal_OrderPlaced sample_event,
     msg_Headers = [(HeaderEventType, TypeOrderPlaced)]\<rparr>, dl_offset = 0\<rparr>"

lemma sample_delivery_reads:
  "event_type sample_delivery = TypeOrderPlaced" "payload sample_delivery = Marshal_OrderPlaced sample_event"
  by (simp_all add: sample_delivery_def HeaderEventType_def)

lemma sample_orders: "orders_ok std_lib sample_server {sample_event} (\<lambda>_. True) sample_pay"
proof -
  have "transient (sample_pay req)" for req
    using transient_stub [of std_lib "''approve''" req]
    unfolding sample_pay_def transient_def on_order_def by (auto simp: case_prod_beta)
  then show ?thesis using sample_deployment by (simp add: orders_ok_def)
qed

interpretation std_orchestrator: consumer "on_order CommitMessages"
  "\<lambda>now d. if event_type d = TypeOrderPlaced
     then handlePlaced (deployed_ports std_lib (\<lambda>_. sample_ctx) sample_server sample_pay now d) d else ok ()"
  "\<lambda>d err. on_order (DeadLetter_Publish ''dlq'' (\<lambda>_. ''bad'') d err)" id
  "all_fine std_lib {sample_event} (\<lambda>_. True)" "dealt_with ''dlq'' {sample_event}" "placements {sample_event}"
  by (rule orchestrator_consumer [OF sample_orders])

theorem orders_of_topic_decided_witness:
  "\<exists>w w'. worker_sessions (deployed_worker std_lib (\<lambda>_. sample_ctx) sample_server sample_pay ''dlq'' (\<lambda>_. ''bad''))
      [sample_delivery] [([Fetch 0 False], 1)] (0, sample_sagas w) = (1, w')
    \<and> saga_settled True (saga_reservation sample_event w') (saga_order_status sample_event w')"
proof -
  obtain w agg where w: "store_inv std_lib (w_db w)" "w_faults w = []" "Order_Load std_lib (OrderID 1) w = (Inr agg, w)"
    "o_status agg = StatusPending" "fresh_event std_lib (w_db w) (w_uuids w)" "t_sagas (w_db w) = []"
    using sample_placed by blast
  obtain w1 where saga: "Saga_Handle (orchestrator_ports std_lib sample_ctx 0 (serve std_lib sample_server) sample_pay)
      sample_event (sample_sagas w) = (Inr (), w1)" using rejected_run [OF w] by blast
  let ?worker = "deployed_worker std_lib (\<lambda>_. sample_ctx) sample_server sample_pay ''dlq'' (\<lambda>_. ''bad'')"
  have "\<exists>t w'. ?worker 0 False sample_delivery (sample_sagas w) = (t, w') \<and> (\<forall>e. t \<noteq> Abandoned e)"
    using saga sample_delivery_reads
    by (cases "on_order CommitMessages w1 :: (oerr + unit) \<times> saga_world"; cases "fst (on_order CommitMessages w1 :: (oerr + unit) \<times> saga_world)")
      (auto simp: orchestrator_worker_def worker_turn_def handle_or_route_def handlePlaced_def map_err_def)
  then obtain t w' where t: "?worker 0 False sample_delivery (sample_sagas w) = (t, w')" "\<And>e. t \<noteq> Abandoned e" by blast
  then have run: "worker_sessions ?worker [sample_delivery] [([Fetch 0 False], 1)] (0, sample_sagas w) = (1, w')"
    by (cases t) auto
  have "set [sample_delivery] \<subseteq> placements {sample_event}"
    using sample_delivery_reads by (simp add: placements_def)
  from orders_of_topic_decided [OF sample_orders _ this run, of 0] sample_ready [OF w(1,3,4,6)] sample_delivery_reads
  have "saga_settled True (saga_reservation sample_event w') (saga_order_status sample_event w')" by simp
  with run show ?thesis by blast
qed

end
