(* ===== verification/Order_Http.thy ===== *)
theory Order_Http
  imports Order_Commands Http
begin

text \<open>
  services/order/internal/presentation/http: the REST adapter of the order service
  (handlers.go, dto.go, apierrors.go, router.go).
\<close>

section \<open>Bodies\<close>

record placeOrderRequest =
  pq_CustomerID :: string
  pq_Items :: "PlaceOrderLine list"
  pq_ShipTo :: ShipTo

definition dec_item :: "PlaceOrderLine dec" where
  "dec_item j a =
     (if known_keys [''sku'', ''quantity'', ''unitPriceMinor'', ''currency''] j then
        dec_struct (\<lambda>kvs l.
          Option.bind (dec_field ''sku'' dec_string kvs (pl_SKU l)) (\<lambda>s.
          Option.bind (dec_field ''quantity'' dec_int32 kvs (pl_Quantity l)) (\<lambda>q.
          Option.bind (dec_field ''unitPriceMinor'' dec_int64 kvs (pl_UnitPriceMinor l)) (\<lambda>u.
          Option.bind (dec_field ''currency'' dec_string kvs (pl_Currency l)) (\<lambda>c.
            Some \<lparr>pl_SKU = s, pl_Quantity = q, pl_UnitPriceMinor = u, pl_Currency = c\<rparr>))))) j a
      else None)"

definition dec_ship :: "ShipTo dec" where
  "dec_ship j a =
     (if known_keys [''line1'', ''line2'', ''city'', ''region'', ''postalCode'', ''country''] j then
        dec_struct (\<lambda>kvs s.
          Option.bind (dec_field ''line1'' dec_string kvs (sh_Line1 s)) (\<lambda>l1.
          Option.bind (dec_field ''line2'' dec_string kvs (sh_Line2 s)) (\<lambda>l2.
          Option.bind (dec_field ''city'' dec_string kvs (sh_City s)) (\<lambda>ci.
          Option.bind (dec_field ''region'' dec_string kvs (sh_Region s)) (\<lambda>re.
          Option.bind (dec_field ''postalCode'' dec_string kvs (sh_PostalCode s)) (\<lambda>po.
          Option.bind (dec_field ''country'' dec_string kvs (sh_Country s)) (\<lambda>co.
            Some \<lparr>sh_Line1 = l1, sh_Line2 = l2, sh_City = ci, sh_Region = re, sh_PostalCode = po,
                  sh_Country = co\<rparr>))))))) j a
      else None)"

definition zero_item :: PlaceOrderLine where
  "zero_item = \<lparr>pl_SKU = [], pl_Quantity = 0, pl_UnitPriceMinor = 0, pl_Currency = []\<rparr>"

definition zero_request :: placeOrderRequest where
  "zero_request = \<lparr>pq_CustomerID = [], pq_Items = [],
     pq_ShipTo = \<lparr>sh_Line1 = [], sh_Line2 = [], sh_City = [], sh_Region = [], sh_PostalCode = [], sh_Country = []\<rparr>\<rparr>"

definition dec_placeOrder :: "placeOrderRequest dec" where
  "dec_placeOrder j a =
     (if known_keys [''customerId'', ''items'', ''shipTo''] j then
        dec_struct (\<lambda>kvs r.
          Option.bind (dec_field ''customerId'' dec_string kvs (pq_CustomerID r)) (\<lambda>c.
          Option.bind (dec_field ''items'' (dec_list dec_item zero_item) kvs (pq_Items r)) (\<lambda>its.
          Option.bind (dec_field ''shipTo'' dec_ship kvs (pq_ShipTo r)) (\<lambda>sh.
            Some \<lparr>pq_CustomerID = c, pq_Items = its, pq_ShipTo = sh\<rparr>)))) j a
      else None)"

section \<open>Errors\<close>

definition classify_order :: "(oerr \<Rightarrow> string) \<Rightarrow> oerr \<Rightarrow> nat \<times> string \<times> string" where
  "classify_order error_text err =
     (if errors_Is err ErrValidation \<or> errors_Is err ErrInvalidIdentifier
      then (400, ''VALIDATION_ERROR'', error_text err)
      else if errors_Is err ErrNotFound then (404, ''NOT_FOUND'', ''order not found'')
      else if errors_Is err ErrConcurrency then (409, ''CONFLICT'', ''the resource was modified concurrently'')
      else (500, ''INTERNAL'', error_text err))"

text \<open>The validationError type answers errors.Is for ErrValidation.\<close>

definition wrapValidation :: "string \<Rightarrow> oerr" where
  "wrapValidation msg = Detailf ErrValidation msg"

section \<open>Handlers\<close>

definition place_command :: "rctx \<Rightarrow> string \<Rightarrow> placeOrderRequest \<Rightarrow> PlaceOrderCommand" where
  "place_command cx idempotencyKey req =
     \<lparr>pc_CustomerID = (case cx_principal cx of Some p \<Rightarrow> p | None \<Rightarrow> pq_CustomerID req),
      pc_IdempotencyKey = idempotencyKey, pc_Lines = pq_Items req, pc_Ship = pq_ShipTo req\<rparr>"

definition http_PlaceOrder ::
  "golib \<Rightarrow> (oerr \<Rightarrow> string) \<Rightarrow> ctx \<Rightarrow> time \<Rightarrow> order_db world handler" where
  "http_PlaceOrder L error_text C now = (\<lambda>cx rq w.
     (let key = Header_Get (rq_Headers rq) ''Idempotency-Key''; refuse = writeError (classify_order error_text) cx in
      if key = [] then (Some (refuse (wrapValidation ''Idempotency-Key header is required'')), w)
      else
        (case json_Unmarshal dec_placeOrder zero_request (rq_Body rq) of
           None \<Rightarrow> (Some (refuse (wrapValidation ''malformed request body'')), w)
         | Some req \<Rightarrow>
             (case PlaceOrder_Handle L C now (place_command cx key req) w of
                (Inl err, w') \<Rightarrow> (Some (refuse err), w')
              | (Inr res, w') \<Rightarrow>
                  (Some (writeJSON 202 (JObj [(''orderId'', JStr (rs_OrderID res)),
                                              (''status'', JStr (rs_Status res))])), w')))))"

definition http_GetOrder :: "golib \<Rightarrow> (oerr \<Rightarrow> string) \<Rightarrow> order_db world handler" where
  "http_GetOrder L error_text = (\<lambda>cx rq w.
     (case GetOrder_Handle L (PathValue cx ''id'') w of
        (Inl err, w') \<Rightarrow> (Some (writeError (classify_order error_text) cx err), w')
      | (Inr v, w') \<Rightarrow>
          (Some (writeJSON 200
             (JObj [(''orderId'', JStr (vw_OrderID v)), (''customerId'', JStr (vw_CustomerID v)),
                    (''status'', JStr (vw_Status v)), (''totalMinor'', enc_int64 (vw_TotalMinor v)),
                    (''currency'', JStr (vw_Currency v)), (''version'', enc_int64 (vw_Version v))])), w')))"

section \<open>Router\<close>

definition order_routes ::
  "golib \<Rightarrow> (oerr \<Rightarrow> string) \<Rightarrow> ctx \<Rightarrow> time \<Rightarrow> jwt \<Rightarrow> AuthConfig \<Rightarrow> (order_db world \<Rightarrow> bool \<times> order_db world)
   \<Rightarrow> order_db world route list" where
  "order_routes L error_text C now verify cfg ping =
     (let auth = authMiddleware verify cfg in
      [\<lparr>ro_Method = ''POST'', ro_Pattern = ''POST /v1/orders'', ro_Path = [Lit ''v1'', Lit ''orders''],
        ro_Handler = auth (http_PlaceOrder L error_text C now)\<rparr>,
       \<lparr>ro_Method = ''GET'', ro_Pattern = ''GET /v1/orders/{id}'', ro_Path = [Lit ''v1'', Lit ''orders'', Wild ''id''],
        ro_Handler = auth (http_GetOrder L error_text)\<rparr>]
      @ health_routes ping)"

definition Order_Router ::
  "golib \<Rightarrow> (oerr \<Rightarrow> string) \<Rightarrow> ctx \<Rightarrow> time \<Rightarrow> jwt \<Rightarrow> AuthConfig \<Rightarrow> string list
   \<Rightarrow> (order_db world \<Rightarrow> string \<times> order_db world) \<Rightarrow> (order_db world \<Rightarrow> bool \<times> order_db world)
   \<Rightarrow> order_db world handler" where
  "Order_Router L error_text C now verify cfg corsOrigins fresh ping =
     (let rs = order_routes L error_text C now verify cfg ping in
      chain (ServeMux rs)
        [corsMiddleware corsOrigins, correlationMiddleware fresh, recoveryMiddleware,
         loggingMiddleware (\<lambda>_ _ _ w. w), metricsMiddleware (\<lambda>_ _ _ w. w) (mux_pattern rs)])"

end
