(* ===== verification/Fulfillment_Http.thy ===== *)
theory Fulfillment_Http
  imports Fulfillment_Service Http
begin

text \<open>
  The shipment HTTP API: services/fulfillment/internal/presentation/http (dto, error mapping,
  handlers and router). The middlewares are the code of the other services; the envelope differs
  in one tag (the correlation id is written even when empty), which cannot show behind the
  correlation middleware: \<open>envelopes_agree\<close>.
\<close>

section \<open>Bodies\<close>

record dispatchRequest =
  dr_Carrier :: string
  dr_TrackingCode :: string

definition dec_dispatchRequest :: "dispatchRequest dec" where
  "dec_dispatchRequest = dec_struct (\<lambda>kvs r.
     Option.bind (dec_field ''carrier'' dec_string kvs (dr_Carrier r)) (\<lambda>c.
     Option.bind (dec_field ''trackingCode'' dec_string kvs (dr_TrackingCode r)) (\<lambda>t.
       Some \<lparr>dr_Carrier = c, dr_TrackingCode = t\<rparr>)))"

definition toShipmentResponse :: "golib \<Rightarrow> Shipment \<Rightarrow> json" where
  "toShipmentResponse L s =
     JObj [(''shipmentId'', JStr (uuid_String L (sm_ID s))), (''orderId'', JStr (uuid_String L (sm_OrderID s))),
           (''status'', JStr (ShipmentStatus_string (sm_Status s))), (''carrier'', JStr (sm_Carrier s)),
           (''trackingCode'', JStr (sm_TrackingCode s)), (''failureReason'', JStr (sm_FailureReason s)),
           (''version'', enc_int64 (sm_Version s))]"

definition error_envelope_ship :: "string \<Rightarrow> string \<Rightarrow> rctx \<Rightarrow> json" where
  "error_envelope_ship code message cx =
     JObj [(''error'', JObj [(''code'', JStr code), (''message'', JStr message),
       (''correlationId'', JStr (case cx_correlation cx of None \<Rightarrow> [] | Some c \<Rightarrow> c))])]"

lemma envelopes_agree:
  "cx_correlation cx = Some c \<Longrightarrow> c \<noteq> [] \<Longrightarrow> error_envelope_ship code message cx = error_envelope code message cx"
  by (simp add: error_envelope_ship_def error_envelope_def)

section \<open>Errors\<close>

definition classify_ship :: "(ferr \<Rightarrow> string) \<Rightarrow> ferr \<Rightarrow> nat \<times> string \<times> string" where
  "classify_ship error_text err =
     (if errors_Is err ErrValidation_ship \<or> errors_Is err ErrInvalidIdentifier_ship
      then (400, ''VALIDATION_ERROR'', error_text err)
      else if errors_Is err ErrShipmentNotFound then (404, ''NOT_FOUND'', error_text err)
      else if errors_Is err ErrShipmentExists then (409, ''CONFLICT'', error_text err)
      else if errors_Is err ErrConcurrency_ship
      then (409, ''CONFLICT'', ''the shipment was modified concurrently, please retry'')
      else if errors_Is err ErrInvalidTransition_ship then (409, ''INVALID_STATE'', error_text err)
      else (500, ''INTERNAL'', error_text err))"

section \<open>Handlers\<close>

definition parseOrderID_ship :: "golib \<Rightarrow> rctx \<Rightarrow> ferr + uuid" where
  "parseOrderID_ship L cx =
     (case uuid_Parse L (PathValue cx ''orderId'') of
        None \<Rightarrow> Inl (Detailf ErrInvalidIdentifier_ship ''orderId must be a uuid'')
      | Some i \<Rightarrow> Inr i)"

definition respond_ship ::
  "golib \<Rightarrow> (ferr \<Rightarrow> string) \<Rightarrow> rctx \<Rightarrow> Shipment ship_act \<Rightarrow> ship_world \<Rightarrow> response option \<times> ship_world" where
  "respond_ship L error_text cx act w =
     (case act w of
        (Inl err, w') \<Rightarrow> (Some (writeError (classify_ship error_text) cx err), w')
      | (Inr s, w') \<Rightarrow> (Some (writeJSON 200 (toShipmentResponse L s)), w'))"

definition http_GetShipment :: "golib \<Rightarrow> (ferr \<Rightarrow> string) \<Rightarrow> ship_world handler" where
  "http_GetShipment L error_text = (\<lambda>cx rq.
     respond_ship L error_text cx (and_then (of_result (parseOrderID_ship L cx)) Service_Get))"

definition http_Dispatch :: "golib \<Rightarrow> (ferr \<Rightarrow> string) \<Rightarrow> ctx \<Rightarrow> string \<Rightarrow> time \<Rightarrow> ship_world handler" where
  "http_Dispatch L error_text C topic now = (\<lambda>cx rq.
     respond_ship L error_text cx
       (and_then (of_result (parseOrderID_ship L cx)) (\<lambda>orderID.
          case json_Unmarshal dec_dispatchRequest \<lparr>dr_Carrier = [], dr_TrackingCode = []\<rparr> (rq_Body rq) of
            None \<Rightarrow> fail (Detailf ErrValidation_ship ''malformed body'')
          | Some body \<Rightarrow> Service_Dispatch L C topic now orderID (dr_Carrier body) (dr_TrackingCode body))))"

definition http_Deliver :: "golib \<Rightarrow> (ferr \<Rightarrow> string) \<Rightarrow> ctx \<Rightarrow> string \<Rightarrow> time \<Rightarrow> ship_world handler" where
  "http_Deliver L error_text C topic now = (\<lambda>cx rq.
     respond_ship L error_text cx
       (and_then (of_result (parseOrderID_ship L cx)) (Service_Deliver L C topic now)))"

section \<open>Router\<close>

definition ship_routes ::
  "golib \<Rightarrow> (ferr \<Rightarrow> string) \<Rightarrow> ctx \<Rightarrow> string \<Rightarrow> time \<Rightarrow> jwt \<Rightarrow> AuthConfig \<Rightarrow> (ship_world \<Rightarrow> bool \<times> ship_world)
   \<Rightarrow> ship_world route list" where
  "ship_routes L error_text C topic now verify cfg ping =
     (let auth = authMiddleware verify cfg; r = [Lit ''v1'', Lit ''shipments'', Wild ''orderId''] in
      [\<lparr>ro_Method = ''GET'', ro_Pattern = ''GET /v1/shipments/{orderId}'', ro_Path = r,
        ro_Handler = auth (http_GetShipment L error_text)\<rparr>,
       \<lparr>ro_Method = ''POST'', ro_Pattern = ''POST /v1/shipments/{orderId}/dispatch'', ro_Path = r @ [Lit ''dispatch''],
        ro_Handler = auth (http_Dispatch L error_text C topic now)\<rparr>,
       \<lparr>ro_Method = ''POST'', ro_Pattern = ''POST /v1/shipments/{orderId}/deliver'', ro_Path = r @ [Lit ''deliver''],
        ro_Handler = auth (http_Deliver L error_text C topic now)\<rparr>]
      @ health_routes ping)"

definition Fulfillment_Router ::
  "golib \<Rightarrow> (ferr \<Rightarrow> string) \<Rightarrow> ctx \<Rightarrow> string \<Rightarrow> time \<Rightarrow> jwt \<Rightarrow> AuthConfig \<Rightarrow> string list
   \<Rightarrow> (ship_world \<Rightarrow> string \<times> ship_world) \<Rightarrow> (ship_world \<Rightarrow> bool \<times> ship_world) \<Rightarrow> ship_world handler" where
  "Fulfillment_Router L error_text C topic now verify cfg corsOrigins fresh ping =
     (let rs = ship_routes L error_text C topic now verify cfg ping in
      chain (ServeMux rs)
        [corsMiddleware corsOrigins, correlationMiddleware fresh, recoveryMiddleware,
         loggingMiddleware (\<lambda>_ _ _ w. w), metricsMiddleware (\<lambda>_ _ _ w. w) (mux_pattern rs)])"

end
