(* ===== verification/Startup.thy ===== *)
theory Startup
  imports Serving Saga_Topic Order_Http Fulfillment_Http
begin

text \<open>
  The eight long-running programs, as their main.go puts them together: \<open>run\<close> of the three APIs, the
  outbox relay and the four consumers, with the settings each part is given. What is outside the
  repository is a parameter: the environment, the requests, the contents of the topics, the
  network.
\<close>

section \<open>The APIs\<close>

text \<open>The parts of a router that main.go does not choose.\<close>

record ('w, 'e) api_env =
  ap_text :: "'e \<Rightarrow> string"
  ap_verify :: jwt
  ap_fresh :: "'w \<Rightarrow> string \<times> 'w"
  ap_ping :: "'w \<Rightarrow> bool \<times> 'w"

definition order_api_run ::
  "golib \<Rightarrow> numlib \<Rightarrow> environ \<Rightarrow> (order_db world, oerr) api_env \<Rightarrow> 's serve_event list \<Rightarrow> (order_db world, 's) service" where
  "order_api_run L N E A es =
     attempt (of_result (Load_order N E)) (\<lambda>cfg.
     holding (acquire Signals) (\<lambda>_.
     holding (telemetry_Setup (cf_ServiceName cfg) (cf_Environment cfg) (cf_Telemetry cfg)) (\<lambda>_.
     holding (NewPool (cf_Database cfg)) (\<lambda>_.
       working (Serve (\<lambda>C now. Order_Router L (ap_text A) C now (ap_verify A) (cf_Auth cfg) (cf_CORSAllowedOrigins cfg)
         (ap_fresh A) (ap_ping A)) es)))))"

definition inventory_api_run ::
  "golib \<Rightarrow> numlib \<Rightarrow> environ \<Rightarrow> (inv_world, ierr) api_env \<Rightarrow> 's serve_event list \<Rightarrow> (inv_world, 's) service" where
  "inventory_api_run L N E A es =
     attempt (of_result (Load_inventory N E)) (\<lambda>cfg.
     holding (acquire Signals) (\<lambda>_.
     holding (telemetry_Setup (ci_ServiceName cfg) (ci_Environment cfg) (ci_Telemetry cfg)) (\<lambda>_.
     holding (NewPool (ci_Database cfg)) (\<lambda>_.
       working (Serve (\<lambda>_ _. Inventory_Router L (ap_text A) (ap_verify A) (ci_Auth cfg) (ci_CORSAllowedOrigins cfg)
         (ap_fresh A) (ap_ping A)) es)))))"

definition fulfillment_api_run ::
  "golib \<Rightarrow> numlib \<Rightarrow> environ \<Rightarrow> (ship_world, ferr) api_env \<Rightarrow> 's serve_event list \<Rightarrow> (ship_world, 's) service" where
  "fulfillment_api_run L N E A es =
     attempt (of_result (Load_fulfillment N E)) (\<lambda>cfg.
     holding (acquire Signals) (\<lambda>_.
     holding (telemetry_Setup (cs_ServiceName cfg) (cs_Environment cfg) (cs_Telemetry cfg)) (\<lambda>_.
     holding (NewPool (cs_Database cfg)) (\<lambda>_.
     holding (acquire (TopicWriter (cs_Brokers cfg) (cs_EventsTopic cfg))) (\<lambda>_.
       working (Serve (\<lambda>C now. Fulfillment_Router L (ap_text A) C (cs_EventsTopic cfg) now (ap_verify A) (cs_Auth cfg)
         (cs_CORSAllowedOrigins cfg) (ap_fresh A) (ap_ping A)) es))))))"

section \<open>The outbox relay\<close>

definition relay_run :: "numlib \<Rightarrow> environ \<Rightarrow> relay_round list \<Rightarrow> (order_db world, 's) service" where
  "relay_run N E rounds =
     attempt (of_result (Load_order N E)) (\<lambda>cfg.
     holding (acquire Signals) (\<lambda>_.
     holding (acquire (MetricsServer (cf_MetricsAddr cfg))) (\<lambda>_.
     holding (NewPool (cf_Database cfg)) (\<lambda>_.
     holding (acquire (EventWriter (cf_Brokers cfg))) (\<lambda>_.
       working (relay_loop (sint (rc_BatchSize (cf_Relay cfg))) rounds))))))"

section \<open>The consumers\<close>

text \<open>
  A consumer starts at the offset of its group and leaves the highest one it asked to commit. \<open>K\<close>
  is what the brokers hold for a list of topics.
\<close>

definition group_Run ::
  "(time \<Rightarrow> bool \<Rightarrow> delivery \<Rightarrow> 'w \<Rightarrow> 's turn_end \<times> 'w) \<Rightarrow> delivery list \<Rightarrow> poll list \<Rightarrow> nat \<times> 'w \<Rightarrow> 's run_end \<times> nat \<times> 'w" where
  "group_Run turn msgs ps = (\<lambda>(c, w). worker_Run turn msgs ps c w)"

definition projector_run ::
  "golib \<Rightarrow> numlib \<Rightarrow> environ \<Rightarrow> (oerr \<Rightarrow> string) \<Rightarrow> (string list \<Rightarrow> string list \<Rightarrow> delivery list) \<Rightarrow> poll list
   \<Rightarrow> (nat \<times> order_db world, order_sentinel) service" where
  "projector_run L N E et K ps =
     attempt (of_result (Load_order N E)) (\<lambda>cfg.
     holding (acquire Signals) (\<lambda>_.
     holding (acquire (MetricsServer (cf_MetricsAddr cfg))) (\<lambda>_.
     holding (telemetry_Setup (cf_ServiceName cfg @ ''-projector'') (cf_Environment cfg) (cf_Telemetry cfg)) (\<lambda>_.
     holding (NewPool (cf_Database cfg)) (\<lambda>_.
     holding (acquire (TopicWriter (cf_Brokers cfg) (cf_DeadLetterTopic cfg))) (\<lambda>_.
     holding (acquire (GroupReader (cf_Brokers cfg) (pt_Topics (cf_Projector cfg)) (pt_GroupID (cf_Projector cfg)))) (\<lambda>_.
       working (group_Run (projector_worker L (cf_DeadLetterTopic cfg) et) (K (cf_Brokers cfg) (pt_Topics (cf_Projector cfg))) ps))))))))"

definition notification_run ::
  "golib \<Rightarrow> numlib \<Rightarrow> environ \<Rightarrow> (nerr \<Rightarrow> string) \<Rightarrow> (string list \<Rightarrow> string list \<Rightarrow> delivery list) \<Rightarrow> poll list
   \<Rightarrow> (nat \<times> notif_state world, unit) service" where
  "notification_run L N E et K ps =
     attempt (of_result (Load_notification N E)) (\<lambda>cfg.
     holding (acquire Signals) (\<lambda>_.
     holding (telemetry_Setup (cn_ServiceName cfg) (cn_Environment cfg) (cn_Telemetry cfg)) (\<lambda>_.
     holding (acquire (MetricsServer (cn_MetricsAddr cfg))) (\<lambda>_.
     holding (NewPool (cn_Database cfg)) (\<lambda>_.
     holding (acquire (TopicWriter (cn_Brokers cfg) (cn_DeadLetterTopic cfg))) (\<lambda>_.
     holding (acquire (GroupReader (cn_Brokers cfg) (cn_Topics cfg) (cn_GroupID cfg))) (\<lambda>_.
       working (group_Run (notification_worker L LogSender_Send (cn_DeadLetterTopic cfg) et) (K (cn_Brokers cfg) (cn_Topics cfg)) ps))))))))"

definition fulfillment_consumer_run ::
  "golib \<Rightarrow> numlib \<Rightarrow> environ \<Rightarrow> (headers \<Rightarrow> ctx) \<Rightarrow> (ferr \<Rightarrow> string) \<Rightarrow> (string list \<Rightarrow> string list \<Rightarrow> delivery list)
   \<Rightarrow> poll list \<Rightarrow> (nat \<times> ship_world, fulfillment_sentinel) service" where
  "fulfillment_consumer_run L N E ctx_of et K ps =
     attempt (of_result (Load_fulfillment N E)) (\<lambda>cfg.
     let con = cs_Consumer cfg in
     holding (acquire Signals) (\<lambda>_.
     holding (acquire (MetricsServer (cs_MetricsAddr cfg))) (\<lambda>_.
     holding (telemetry_Setup (cs_ServiceName cfg @ ''-consumer'') (cs_Environment cfg) (cs_Telemetry cfg)) (\<lambda>_.
     holding (NewPool (cs_Database cfg)) (\<lambda>_.
     holding (acquire (TopicWriter (cs_Brokers cfg) (cs_EventsTopic cfg))) (\<lambda>_.
     holding (acquire (TopicWriter (cs_Brokers cfg) (cc_DeadLetterTopic con))) (\<lambda>_.
     holding (acquire (GroupReader (cs_Brokers cfg) (cc_Topics con) (cc_GroupID con))) (\<lambda>_.
       working (group_Run (fulfillment_worker L ctx_of (cs_EventsTopic cfg) (cc_DeadLetterTopic con) et)
         (K (cs_Brokers cfg) (cc_Topics con)) ps)))))))))"

text \<open>
  The orchestrator chooses its payment gateway by the settings. The services behind the two base
  URLs are parameters, as is when the context ends between two attempts at a payment.
\<close>

definition payment_gateway ::
  "golib \<Rightarrow> (string \<Rightarrow> saga_world transport) \<Rightarrow> ctx \<Rightarrow> (nat \<Rightarrow> bool) \<Rightarrow> SagaConfig
   \<Rightarrow> PaymentRequest \<Rightarrow> (saga_world, order_sentinel, PaymentResult) prog" where
  "payment_gateway L payments C stopped cfg =
     (if sg_PaymentBaseURL cfg \<noteq> [] then Payment_Authorize (payments (sg_PaymentBaseURL cfg)) C stopped
      else (\<lambda>req. on_order (Stub_Authorize L (sg_PaymentOutcome cfg) req)))"

definition orchestrator_run ::
  "golib \<Rightarrow> numlib \<Rightarrow> environ \<Rightarrow> (string \<Rightarrow> inv_world handler) \<Rightarrow> (string \<Rightarrow> saga_world transport) \<Rightarrow> (nat \<Rightarrow> bool)
   \<Rightarrow> (headers \<Rightarrow> ctx) \<Rightarrow> (oerr \<Rightarrow> string) \<Rightarrow> (string list \<Rightarrow> string list \<Rightarrow> delivery list) \<Rightarrow> poll list
   \<Rightarrow> (nat \<times> saga_world, order_sentinel) service" where
  "orchestrator_run L N E inventories payments stopped ctx_of et K ps =
     attempt (of_result (Load_order N E)) (\<lambda>cfg.
     let sg = cf_Saga cfg;
         ports = (\<lambda>now d. let C = ctx_of (msg_Headers (dl_message d)) in
            orchestrator_ports L C now (inventories (sg_InventoryBaseURL sg)) (payment_gateway L payments C stopped sg)) in
     holding (acquire Signals) (\<lambda>_.
     holding (acquire (MetricsServer (cf_MetricsAddr cfg))) (\<lambda>_.
     holding (telemetry_Setup (cf_ServiceName cfg @ ''-orchestrator'') (cf_Environment cfg) (cf_Telemetry cfg)) (\<lambda>_.
     holding (NewPool (cf_Database cfg)) (\<lambda>_.
     holding (acquire (TopicWriter (cf_Brokers cfg) (cf_DeadLetterTopic cfg))) (\<lambda>_.
     holding (acquire (GroupReader (cf_Brokers cfg) (sg_Topics sg) (sg_GroupID sg))) (\<lambda>_.
       working (group_Run
         (orchestrator_worker ports (\<lambda>d err. on_order (DeadLetter_Publish (cf_DeadLetterTopic cfg) et d err)) (on_order CommitMessages))
         (K (cf_Brokers cfg) (sg_Topics sg)) ps))))))))"

section \<open>Nothing stays open\<close>

lemma services_tidy:
  "tidy (order_api_run L N E A1 es)" "tidy (inventory_api_run L N E A2 es)" "tidy (fulfillment_api_run L N E A3 es)"
  "tidy (relay_run N E rounds)" "tidy (projector_run L N E et1 K ps)" "tidy (notification_run L N E et2 K ps)"
  "tidy (fulfillment_consumer_run L N E ctx_of et3 K ps)"
  "tidy (orchestrator_run L N E inventories payments ends ctx_of et4 K ps)"
  unfolding order_api_run_def inventory_api_run_def fulfillment_api_run_def relay_run_def projector_run_def
    notification_run_def fulfillment_consumer_run_def orchestrator_run_def Let_def
  by (intro tidy_attempt tidying; simp)+

section \<open>Why they end\<close>

lemma Serve_nil_asked: "nil_means (list_ex interrupts es) (working (Serve h es))"
  by (rule nil_working) (rule Serve_nil)

lemma group_nil_asked:
  assumes "\<And>now. \<exists>commit handle dead_letter wrap. turn now = worker_turn commit handle dead_letter wrap"
  shows "nil_means (list_ex stops ps) (working (group_Run turn msgs ps))"
proof (rule nil_working)
  fix w w' assume "group_Run turn msgs ps w = (Returned None, w')"
  then have "worker_Run turn msgs ps (fst w) (snd w) = (Returned None, fst w', snd w')"
    by (cases w) (simp add: group_Run_def)
  moreover have "stopped" if "turn now stopped d w = (CommitStopped, w')" for now stopped d w w'
    using assms [of now] that turn_stopped by metis
  ultimately show "list_ex stops ps" using nil_means_stopped by (metis list_ex_iff)
qed

lemma workers_turn:
  "\<exists>commit handle dead_letter wrap. projector_worker L dlq et1 now = worker_turn commit handle dead_letter wrap"
  "\<exists>commit handle dead_letter wrap. notification_worker L send dlq et2 now = worker_turn commit handle dead_letter wrap"
  "\<exists>commit handle dead_letter wrap. fulfillment_worker L ctx_of topic dlq et3 now = worker_turn commit handle dead_letter wrap"
  "\<exists>commit handle dead_letter wrap. orchestrator_worker P dl com now = worker_turn commit handle dead_letter wrap"
  unfolding projector_worker_def notification_worker_def fulfillment_worker_def orchestrator_worker_def by blast+

lemma relay_nil_asked:
  "nil_means (list_ex round_stops rounds) (working (relay_loop n rounds))"
  by (rule nil_working) (use relay_loop_end in blast)

lemmas services_nil = nil_attempt nil_deferring Serve_nil_asked relay_nil_asked group_nil_asked workers_turn

text \<open>C40. Whatever fails while they are set up and while they work, each of the eight programs, when it
  ends, has closed what it opened in the reverse order, and exits with status 0 only when it was
  told to stop. The one thing left behind is the OTLP exporter of a Setup that failed after
  creating it.\<close>

theorem services_end_well:
  "ends_well (list_ex interrupts es) (order_api_run L N E A1 es)
   \<and> ends_well (list_ex interrupts es) (inventory_api_run L N E A2 es)
   \<and> ends_well (list_ex interrupts es) (fulfillment_api_run L N E A3 es)
   \<and> ends_well (list_ex round_stops rounds) (relay_run N E rounds)
   \<and> ends_well (list_ex stops ps) (projector_run L N E et1 K ps)
   \<and> ends_well (list_ex stops ps) (notification_run L N E et2 K ps)
   \<and> ends_well (list_ex stops ps) (fulfillment_consumer_run L N E ctx_of et3 K ps)
   \<and> ends_well (list_ex stops ps) (orchestrator_run L N E inventories payments ends ctx_of et4 K ps)"
  by (intro conjI ends_wellI services_tidy)
    (unfold order_api_run_def inventory_api_run_def fulfillment_api_run_def relay_run_def projector_run_def
      notification_run_def fulfillment_consumer_run_def orchestrator_run_def Let_def, (intro services_nil)+)

section \<open>A dropped exporter\<close>

text \<open>The exporter that Setup leaves behind: the process has ended, and nothing closed it.\<close>

lemma exporter_dropped:
  assumes "tc_OTLPEndpoint cfg = e" and "e \<noteq> []" and "pr_calls p = False # True # fs"
  shows "\<exists>err p'. telemetry_Setup service environment cfg p = (Inl (Wrapf ''build resource'' err), p')
    \<and> pr_trace p' = pr_trace p @ [Opened (Exporter e)]"
  using assms
  by (simp add: telemetry_Setup_def Let_def and_then_def map_err_def library_call_def happens_def)

end
