(* ===== verification/Saga_Calm.thy ===== *)
theory Saga_Calm
  imports Saga_Safety
begin

text \<open>
  Where the services answer, the saga comes to its end. The locale \<open>calm_services\<close> extends
  \<open>saga_services\<close> by what the four services do while nothing fails: \<open>idle\<close> are the states in which
  a call is carried out and answered, \<open>enough\<close> says whether the stock covers the order. The index
  of \<open>idle\<close> tells whether the payment has been asked for. In such a state one delivery of the event
  decides the order.
\<close>

locale calm_services = saga_services P event approves inv status resv saved
  for P :: "'w ports" and event approves inv status resv saved +
  fixes idle :: "bool \<Rightarrow> 'w \<Rightarrow> bool" and enough :: bool
  assumes idle_inv: "idle b w \<Longrightarrow> inv w"
    and idle_paid: "idle False w \<Longrightarrow> idle True w"
    and load_answers: "idle b w \<Longrightarrow> \<exists>x w'. po_Load P (op_OrderID event) w = (Inr x, w') \<and> idle b w'"
    and save_answers: "idle b w \<Longrightarrow> in_OrderID i = op_OrderID event \<Longrightarrow> (\<And>s. in_State i \<noteq> StateOther s) \<Longrightarrow>
      pg_text (in_PaymentRef i) \<Longrightarrow> pg_text (in_Reason i) \<Longrightarrow> \<exists>w'. po_Save P i w = (Inr (), w') \<and> idle b w'"
    and reserve_answers: "idle b w \<Longrightarrow> resv w = None \<Longrightarrow> \<exists>r w'. po_Reserve P (op_OrderID event)
        (map (\<lambda>it. \<lparr>rl_SKU = wl_SKU it, rl_Quantity = wl_Quantity it\<rparr>) (op_Items event)) w = (r, w') \<and> idle b w'
      \<and> (if enough then r = Inr () else \<exists>e. r = Inl e \<and> errors_Is e ErrReservationRejected)"
    and authorize_answers: "idle False w \<Longrightarrow> \<exists>res w'. po_Authorize P req w = (Inr res, w') \<and> idle True w'
      \<and> pg_text (py_Reference res) \<and> pg_text (py_Decline res)"
    and release_answers: "idle b w \<Longrightarrow> resv w = Some StatusHeld \<Longrightarrow>
      \<exists>w'. po_Release P (op_OrderID event) w = (Inr (), w') \<and> idle b w' \<and> resv w' = Some StatusReleased"
    and commit_answers: "idle b w \<Longrightarrow> resv w = Some StatusHeld \<Longrightarrow>
      \<exists>w'. po_Commit P (op_OrderID event) w = (Inr (), w') \<and> idle b w' \<and> resv w' = Some StatusCommitted"
    and confirm_answers: "idle b w \<Longrightarrow> status w = StatusPending \<Longrightarrow>
      \<exists>w'. po_Confirm P (op_OrderID event) w = (Inr (), w') \<and> idle b w'"
    and cancel_answers: "idle b w \<Longrightarrow> status w = StatusPending \<Longrightarrow> pg_text reason \<Longrightarrow>
      \<exists>w'. po_Cancel P (op_OrderID event) reason w = (Inr (), w') \<and> idle b w'"
begin

text \<open>From an idle state of kind \<open>b\<close> where \<open>A\<close> holds, \<open>m\<close> answers in one of kind \<open>c\<close>.\<close>

definition goes :: "bool \<Rightarrow> ('w \<Rightarrow> bool) \<Rightarrow> ('w, order_sentinel, 'a) prog \<Rightarrow> bool \<Rightarrow> ('a \<Rightarrow> 'w \<Rightarrow> bool) \<Rightarrow> bool" where
  "goes b A m c B \<longleftrightarrow> (\<forall>w. idle b w \<longrightarrow> A w \<longrightarrow> (\<exists>a w'. m w = (Inr a, w') \<and> idle c w' \<and> B a w'))"

lemma goesD: "goes b A m c B \<Longrightarrow> idle b w \<Longrightarrow> A w \<Longrightarrow> \<exists>a w'. m w = (Inr a, w') \<and> idle c w' \<and> B a w'"
  unfolding goes_def by blast

lemma goes_ok: "(\<And>w. A w \<Longrightarrow> B a w) \<Longrightarrow> goes b A (ok a) b B"
  by (simp add: goes_def ok_def)

lemma goes_wrap: "goes b A m c B \<Longrightarrow> goes b A (map_err h m) c B"
  unfolding goes_def map_err_def by fastforce

lemma goes_and_then: "goes b A m c B \<Longrightarrow> (\<And>a. goes c (B a) (f a) d D) \<Longrightarrow> goes b A (and_then m f) d D"
  unfolding goes_def and_then_def by (fastforce split: prod.splits sum.splits)

lemma goes_pre: "goes b A' m c B \<Longrightarrow> (\<And>w. A w \<Longrightarrow> A' w) \<Longrightarrow> goes b A m c B"
  unfolding goes_def by blast

lemma goes_post: "goes b A m c B' \<Longrightarrow> (\<And>a w. B' a w \<Longrightarrow> B a w) \<Longrightarrow> goes b A m c B"
  unfolding goes_def by blast

lemma goes_paid: "goes True A m True B \<Longrightarrow> goes False A m True B"
  unfolding goes_def using idle_paid by blast

text \<open>Where the services stand: the order, its reservation, the record of the saga.\<close>

definition stand :: "Status \<Rightarrow> ReservationStatus option \<Rightarrow> Instance option \<Rightarrow> 'w \<Rightarrow> bool" where
  "stand st rv i w \<longleftrightarrow> status w = st \<and> resv w = rv \<and> saved w = i"

lemma save_goes:
  assumes "in_OrderID i = op_OrderID event" "\<And>s. in_State i \<noteq> StateOther s" "pg_text (in_PaymentRef i)" "pg_text (in_Reason i)"
  shows "goes b (stand st rv j) (po_Save P i) b (\<lambda>_. stand st rv (Some i))"
  unfolding goes_def
proof (intro allI impI)
  fix w assume w: "idle b w" and s: "stand st rv j w"
  from save_answers [OF w assms] obtain w' where run: "po_Save P i w = (Inr (), w')" "idle b w'" by blast
  from save [OF run(1) idle_inv [OF w] assms(1,2)] s run
  show "\<exists>a w'. po_Save P i w = (Inr a, w') \<and> idle b w' \<and> stand st rv (Some i) w'" by (simp add: stand_def)
qed

lemma settle_goes:
  "goes b (stand st (Some StatusHeld) i) (po_Release P (op_OrderID event)) b (\<lambda>_. stand st (Some StatusReleased) i)"
  "goes b (stand st (Some StatusHeld) i) (po_Commit P (op_OrderID event)) b (\<lambda>_. stand st (Some StatusCommitted) i)"
  unfolding goes_def stand_def
  using release_answers release commit_answers commit idle_inv by (metis (no_types, lifting))+

lemma decide_goes:
  "goes b (stand StatusPending rv i) (po_Confirm P (op_OrderID event)) b (\<lambda>_. stand StatusConfirmed rv i)"
  "pg_text reason \<Longrightarrow>
   goes b (stand StatusPending rv i) (po_Cancel P (op_OrderID event) reason) b (\<lambda>_. stand StatusCancelled rv i)"
  unfolding goes_def stand_def
  using confirm_answers confirm cancel_answers cancel idle_inv by (metis (no_types, lifting))+

lemma authorize_goes:
  "pr_OrderID req = op_OrderID event \<Longrightarrow> goes False (stand st rv i) (po_Authorize P req) True
     (\<lambda>res w. stand st rv i w \<and> py_Approved res = approves \<and> pg_text (py_Reference res) \<and> pg_text (py_Decline res))"
  unfolding goes_def stand_def
  using authorize_answers authorize idle_inv by (metis (no_types, lifting))

lemma start_goes:
  "goes b (stand st rv None) (saga_start P (op_OrderID event)) b
     (\<lambda>i w. i = NewInstance (op_OrderID event) \<and> stand st rv (Some i) w)"
  unfolding saga_start_def
proof (rule goes_and_then [OF goes_wrap])
  show "goes b (stand st rv None) (po_Load P (op_OrderID event)) b (\<lambda>x w. x = None \<and> stand st rv None w)"
    unfolding goes_def stand_def using load_answers load idle_inv by (metis (no_types, lifting))
  fix found :: "Instance option"
  have "goes b (\<lambda>w. found = None \<and> stand st rv None w)
     (and_then (wrap_err ''save saga'' (po_Save P (NewInstance (op_OrderID event)))) (\<lambda>_. ok (NewInstance (op_OrderID event)))) b
     (\<lambda>i w. i = NewInstance (op_OrderID event) \<and> stand st rv (Some i) w)"
    by (rule goes_pre [OF goes_and_then [OF goes_wrap [OF save_goes] goes_ok]]) (auto simp: NewInstance_def)
  then show "goes b (\<lambda>w. found = None \<and> stand st rv None w)
     (case found of Some inst \<Rightarrow> ok inst
      | None \<Rightarrow> and_then (wrap_err ''save saga'' (po_Save P (NewInstance (op_OrderID event)))) (\<lambda>_. ok (NewInstance (op_OrderID event)))) b
     (\<lambda>i w. i = NewInstance (op_OrderID event) \<and> stand st rv (Some i) w)"
    by (cases found) (simp_all add: goes_def)
qed

lemma cancel_goes:
  assumes "in_OrderID i = op_OrderID event" "pg_text (in_PaymentRef i)" "pg_text reason"
  shows "goes b (stand StatusPending rv j) (saga_cancel P i reason) b
    (\<lambda>_. stand StatusCancelled rv (Some (i\<lparr>in_State := StateCancelled, in_Reason := reason\<rparr>)))"
  unfolding saga_cancel_def assms(1)
  by (rule goes_and_then [OF goes_wrap [OF decide_goes(2) [OF assms(3)]] goes_wrap [OF save_goes]]) (use assms in simp_all)

text \<open>How the saga ends.\<close>

definition outcome :: "Status \<Rightarrow> ReservationStatus option \<Rightarrow> 'w \<Rightarrow> bool" where
  "outcome st rv w \<longleftrightarrow> (\<exists>i. Terminal i \<and> stand st rv (Some i) w)"

lemma outcomeI: "stand st rv (Some i) w \<Longrightarrow> Terminal i \<Longrightarrow> outcome st rv w"
  unfolding outcome_def by blast

lemma terminal_states [simp]: "Terminal (i\<lparr>in_State := StateCancelled, in_Reason := r\<rparr>)"
  "Terminal (i\<lparr>in_State := StateCompleted, in_ReservationHeld := h\<rparr>)"
  by (simp_all add: Terminal_def)

lemma reserve_goes:
  assumes i: "i = NewInstance (op_OrderID event)"
  shows "goes b (stand StatusPending None (Some i)) (step_reserve P event i) b
    (\<lambda>x w. case x of None \<Rightarrow> \<not> enough \<and> outcome StatusCancelled None w
       | Some j \<Rightarrow> enough \<and> j = i\<lparr>in_State := StateReserved, in_ReservationHeld := True\<rparr>
                \<and> stand StatusPending (Some StatusHeld) (Some j) w)"
  unfolding goes_def
proof (intro allI impI)
  let ?lines = "map (\<lambda>it. \<lparr>rl_SKU = wl_SKU it, rl_Quantity = wl_Quantity it\<rparr>) (op_Items event)"
  let ?j = "i\<lparr>in_State := StateReserved, in_ReservationHeld := True\<rparr>" and ?Q = "\<lambda>x w. case x of
      None \<Rightarrow> \<not> enough \<and> outcome StatusCancelled None w
    | Some j \<Rightarrow> enough \<and> j = i\<lparr>in_State := StateReserved, in_ReservationHeld := True\<rparr>
        \<and> stand StatusPending (Some StatusHeld) (Some j) w"
  fix w assume w: "idle b w" and s: "stand StatusPending None (Some i) w"
  have st: "in_State i = StateStarted" "in_OrderID i = op_OrderID event" "pg_text (in_PaymentRef i)" "pg_text (in_Reason i)"
    by (simp_all add: i NewInstance_def)
  have "resv w = None" using s by (simp add: stand_def)
  from reserve_answers [OF w this] obtain r w1 where run: "po_Reserve P (op_OrderID event) ?lines w = (r, w1)" "idle b w1"
    and r: "if enough then r = Inr () else \<exists>e. r = Inl e \<and> errors_Is e ErrReservationRejected" by blast
  note law = reserve [OF run(1) idle_inv [OF w]]
  show "\<exists>a w'. step_reserve P event i w = (Inr a, w') \<and> idle b w' \<and> ?Q a w'"
  proof (cases enough)
    case True
    then have "stand StatusPending (Some StatusHeld) (Some i) w1" using law s r by (auto simp: stand_def)
    moreover have "goes b (stand StatusPending (Some StatusHeld) (Some i))
        (and_then (wrap_err ''save saga'' (po_Save P ?j)) (\<lambda>_. ok (Some ?j))) b ?Q"
      by (rule goes_and_then [OF goes_wrap [OF save_goes] goes_ok]) (use st True in simp_all)
    ultimately show ?thesis using goesD [OF _ run(2)] run(1) r True st(1)
      by (fastforce simp: step_reserve_def Let_def)
  next
    case False
    then obtain e where e: "r = Inl e" "errors_Is e ErrReservationRejected" using r by auto
    then have "stand StatusPending None (Some i) w1" using law s by (auto simp: stand_def)
    moreover have "goes b (stand StatusPending None (Some i))
        (and_then (saga_cancel P i ''inventory reservation rejected'') (\<lambda>_. ok None)) b ?Q"
      by (rule goes_and_then [OF cancel_goes goes_ok]) (use st False in \<open>auto intro: outcomeI\<close>)
    ultimately show ?thesis using goesD [OF _ run(2)] run(1) e st(1)
      by (fastforce simp: step_reserve_def)
  qed
qed

lemma pay_goes:
  assumes i: "in_State i = StateReserved" "in_OrderID i = op_OrderID event" "pg_text (in_PaymentRef i)" "pg_text (in_Reason i)"
  shows "goes False (stand StatusPending (Some StatusHeld) (Some i)) (step_pay P event i) True
    (\<lambda>x w. case x of None \<Rightarrow> \<not> approves \<and> outcome StatusCancelled (Some StatusReleased) w
       | Some j \<Rightarrow> approves \<and> in_State j = StatePaid \<and> in_OrderID j = op_OrderID event
           \<and> pg_text (in_PaymentRef j) \<and> pg_text (in_Reason j) \<and> stand StatusPending (Some StatusHeld) (Some j) w)"
    (is "goes _ ?A _ _ ?Q")
proof -
  have declined: "goes True (\<lambda>w. ?A w \<and> pg_text (py_Decline res) \<and> \<not> approves)
     (and_then (wrap_err ''release after decline'' (po_Release P (op_OrderID event))) (\<lambda>_.
      and_then (saga_cancel P (i\<lparr>in_ReservationHeld := False\<rparr>) (decline_reason res)) (\<lambda>_. ok None))) True ?Q" for res
  proof (cases "pg_text (py_Decline res) \<and> \<not> approves")
    case True
    then have d: "pg_text (decline_reason res)" by (simp add: decline_reason_def)
    show ?thesis
      by (rule goes_pre [OF goes_and_then [OF goes_wrap [OF settle_goes(1)] goes_and_then [OF cancel_goes goes_ok]]])
        (use i d True in \<open>auto intro: outcomeI\<close>)
  qed (auto simp: goes_def)
  have approved: "goes True (\<lambda>w. ?A w \<and> pg_text (py_Reference res) \<and> approves)
     (and_then (wrap_err ''save saga'' (po_Save P (i\<lparr>in_State := StatePaid, in_PaymentRef := py_Reference res\<rparr>)))
        (\<lambda>_. ok (Some (i\<lparr>in_State := StatePaid, in_PaymentRef := py_Reference res\<rparr>)))) True ?Q" for res
  proof (cases "pg_text (py_Reference res) \<and> approves")
    case True
    show ?thesis
      by (rule goes_pre [OF goes_and_then [OF goes_wrap [OF save_goes] goes_ok]]) (use i True in auto)
  qed (auto simp: goes_def)
  let ?pay = "wrap_err ''authorize payment'' (po_Authorize P
      \<lparr>pr_OrderID = op_OrderID event, pr_AmountMinor = op_TotalMinor event, pr_Currency = op_Currency event\<rparr>)"
  show ?thesis
    unfolding step_pay_def i(1) Let_def
    by (simp, rule goes_and_then [OF goes_wrap [OF authorize_goes]])
      (auto intro: goes_pre [OF declined] goes_pre [OF approved])
qed

lemma commit_goes:
  assumes i: "in_State i = StatePaid" "in_OrderID i = op_OrderID event" "pg_text (in_PaymentRef i)" "pg_text (in_Reason i)"
  shows "goes b (stand StatusPending (Some StatusHeld) (Some i)) (step_commit P event i) b
    (\<lambda>_. outcome StatusConfirmed (Some StatusCommitted))"
  unfolding step_commit_def
  by (simp add: i(1), rule goes_and_then [OF goes_wrap [OF settle_goes(2)]],
      rule goes_and_then [OF goes_wrap [OF decide_goes(1)]], rule goes_post [OF goes_wrap [OF save_goes]])
    (use i in \<open>auto intro: outcomeI\<close>)

text \<open>One delivery decides the order.\<close>

lemma handle_goes:
  "goes False (stand StatusPending None None) (Saga_Handle P event) True
    (\<lambda>_. outcome (if enough \<and> approves then StatusConfirmed else StatusCancelled)
        (if enough then Some (if approves then StatusCommitted else StatusReleased) else None))" (is "goes _ _ _ _ (\<lambda>_. ?end)")
  unfolding Saga_Handle_def
proof (rule goes_and_then [OF start_goes])
  fix i :: Instance
  let ?j = "i\<lparr>in_State := StateReserved, in_ReservationHeld := True\<rparr>"
  have paid: "goes True (\<lambda>w. case x of None \<Rightarrow> \<not> approves \<and> outcome StatusCancelled (Some StatusReleased) w
       | Some j \<Rightarrow> approves \<and> in_State j = StatePaid \<and> in_OrderID j = op_OrderID event
           \<and> pg_text (in_PaymentRef j) \<and> pg_text (in_Reason j) \<and> stand StatusPending (Some StatusHeld) (Some j) w)
     (case x of None \<Rightarrow> ok () | Some j \<Rightarrow> step_commit P event j) True (\<lambda>_. ?end)" if enough for x
    using that commit_goes unfolding goes_def by (cases x) (auto simp: ok_def)
  have rest: "goes False (\<lambda>w. case x of None \<Rightarrow> \<not> enough \<and> outcome StatusCancelled None w
       | Some j \<Rightarrow> enough \<and> j = ?j \<and> stand StatusPending (Some StatusHeld) (Some j) w)
     (case x of None \<Rightarrow> ok () | Some j \<Rightarrow> and_then (step_pay P event j) (\<lambda>r. case r of None \<Rightarrow> ok () | Some j \<Rightarrow> step_commit P event j))
     True (\<lambda>_. ?end)" if i: "i = NewInstance (op_OrderID event)" for x
  proof (cases x)
    case None
    then show ?thesis by (auto simp: goes_def ok_def intro: idle_paid)
  next
    case (Some j)
    show ?thesis
    proof (cases "enough \<and> j = ?j")
      case True
      have "goes False (stand StatusPending (Some StatusHeld) (Some j))
         (and_then (step_pay P event j) (\<lambda>r. case r of None \<Rightarrow> ok () | Some j \<Rightarrow> step_commit P event j)) True (\<lambda>_. ?end)"
        by (rule goes_and_then [OF pay_goes paid]) (use True i in \<open>simp_all add: NewInstance_def\<close>)
      then show ?thesis using Some by (auto elim: goes_pre)
    qed (auto simp: goes_def Some)
  qed
  have "goes False (stand StatusPending None (Some i))
     (and_then (step_reserve P event i) (\<lambda>r. case r of None \<Rightarrow> ok () | Some inst \<Rightarrow>
        and_then (step_pay P event inst) (\<lambda>r. case r of None \<Rightarrow> ok () | Some inst \<Rightarrow> step_commit P event inst))) True (\<lambda>_. ?end)"
    if i: "i = NewInstance (op_OrderID event)"
    by (rule goes_and_then [OF reserve_goes [OF i] rest [OF i]])
  then show "goes False (\<lambda>w. i = NewInstance (op_OrderID event) \<and> stand StatusPending None (Some i) w)
     (if Terminal i then ok ()
      else and_then (step_reserve P event i) (\<lambda>r. case r of None \<Rightarrow> ok () | Some inst \<Rightarrow>
        and_then (step_pay P event inst) (\<lambda>r. case r of None \<Rightarrow> ok () | Some inst \<Rightarrow> step_commit P event inst)))
     True (\<lambda>_. ?end)"
    by (auto simp: goes_def Terminal_def NewInstance_def)
qed

end

end
