(* ===== verification/Inventory_Calm.thy ===== *)
theory Inventory_Calm
  imports Inventory_Quiet
begin

text \<open>
  The store's transactions in a run without faults and without other transactions: a reservation
  is refused by the domain or placed, and a HELD reservation is released or committed. The
  bounds on the stock levels keep every booking within int64.
\<close>

section \<open>Transactions that run to their end\<close>

definition calm_inv :: "inv_world \<Rightarrow> bool" where
  "calm_inv w \<longleftrightarrow> w_faults w = [] \<and> w_env w = []"

lemma tx_stmt_calm:
  "calm_inv w \<Longrightarrow> tx_stmt f (w, ws) =
    (case f (view ws (w_db w)) of Inl e \<Rightarrow> (Inl e, (w, ws)) | Inr (a, ws') \<Rightarrow> (Inr a, (w, ws @ ws')))"
  by (simp add: tx_stmt_def calm_inv_def env_step_def)

text \<open>On the committed state \<open>d\<close>, a program answers, and leaves the world as it was.\<close>

definition runs :: "inv_db \<Rightarrow> (iwrite list \<Rightarrow> bool) \<Rightarrow> 'a inv_tx \<Rightarrow> ('a \<Rightarrow> iwrite list \<Rightarrow> bool) \<Rightarrow> bool" where
  "runs d P m Q \<longleftrightarrow> (\<forall>w ws. calm_inv w \<longrightarrow> w_db w = d \<longrightarrow> P ws
     \<longrightarrow> (\<exists>a ws'. m (w, ws) = (Inr a, (w, ws')) \<and> Q a ws'))"

lemma runsD:
  "runs d P m Q \<Longrightarrow> calm_inv w \<Longrightarrow> w_db w = d \<Longrightarrow> P ws \<Longrightarrow> \<exists>a ws'. m (w, ws) = (Inr a, (w, ws')) \<and> Q a ws'"
  unfolding runs_def by blast

lemma runsI:
  "(\<And>w ws. calm_inv w \<Longrightarrow> w_db w = d \<Longrightarrow> P ws \<Longrightarrow> \<exists>a ws'. m (w, ws) = (Inr a, (w, ws')) \<and> Q a ws') \<Longrightarrow> runs d P m Q"
  unfolding runs_def by blast

named_theorems running \<open>rules for programs that answer\<close>

lemma runs_ok [running]: "(\<And>ws. P ws \<Longrightarrow> Q a ws) \<Longrightarrow> runs d P (ok a) Q"
  by (simp add: runs_def ok_def)

lemma runs_of_result [running]: "(\<And>ws. P ws \<Longrightarrow> \<exists>a. r = Inr a \<and> Q a ws) \<Longrightarrow> runs d P (of_result r) Q"
  by (auto simp: runs_def of_result_def)

lemma runs_map_err [running]: "runs d P m Q \<Longrightarrow> runs d P (map_err h m) Q"
proof (rule runsI)
  fix w ws assume "runs d P m Q" "calm_inv w" "w_db w = d" "P ws"
  from runsD [OF this] show "\<exists>a ws'. map_err h m (w, ws) = (Inr a, (w, ws')) \<and> Q a ws'"
    by (auto simp: map_err_def)
qed

lemma runs_and_then [running]:
  assumes m: "runs d P m Q" and f: "\<And>a. runs d (Q a) (f a) S"
  shows "runs d P (and_then m f) S"
proof (rule runsI)
  fix w ws assume w: "calm_inv w" "w_db w = d" "P ws"
  obtain a ws1 where 1: "m (w, ws) = (Inr a, (w, ws1))" "Q a ws1" using runsD [OF m w] by blast
  from runsD [OF f w(1,2) 1(2)] 1(1) show "\<exists>a ws'. and_then m f (w, ws) = (Inr a, (w, ws')) \<and> S a ws'"
    by (simp add: and_then_def)
qed

lemma runs_stmt:
  assumes "\<And>ws. P ws \<Longrightarrow> \<exists>a ws'. f (view ws d) = Inr (a, ws') \<and> Q a (ws @ ws')"
  shows "runs d P (tx_stmt f) Q"
proof (rule runsI)
  fix w ws assume w: "calm_inv w" "w_db w = d" "P ws"
  obtain a ws' where "f (view ws d) = Inr (a, ws')" "Q a (ws @ ws')" using assms [OF w(3)] by blast
  then show "\<exists>a ws'. tx_stmt f (w, ws) = (Inr a, (w, ws')) \<and> Q a ws'"
    using tx_stmt_calm [OF w(1), of f ws] w(2) by simp
qed

lemma runs_pre: "runs d P' m Q \<Longrightarrow> (\<And>ws. P ws \<Longrightarrow> P' ws) \<Longrightarrow> runs d P m Q"
  unfolding runs_def by blast

lemma runs_post: "runs d P m Q' \<Longrightarrow> (\<And>a ws. Q' a ws \<Longrightarrow> Q a ws) \<Longrightarrow> runs d P m Q"
  unfolding runs_def by blast

section \<open>One booking\<close>

text \<open>The line can be booked: the domain agrees and the row takes the new levels.\<close>

definition bookable :: "ReservationStatus \<Rightarrow> inv_db \<Rightarrow> ReserveLine_inv \<Rightarrow> StockRow \<Rightarrow> StockItem \<Rightarrow> bool" where
  "bookable k d ln row item \<longleftrightarrow>
     stock_of d (irl_SKU ln) = Some row \<and> pg_text (irl_SKU ln)
     \<and> NewSKU_inv (irl_SKU ln) = Inr (SKU_inv (irl_SKU ln))
     \<and> stock_op k (item_of (SKU_inv (irl_SKU ln)) row) (int64_of_int32 (irl_Quantity ln)) = Inr item
     \<and> 0 \<le> sint (si_available item) \<and> 0 \<le> sint (si_reserved item) \<and> sint (sr_version row) \<noteq> 2 ^ 63 - 1"

text \<open>Levels and versions below a bound.\<close>

definition roomy :: "int \<Rightarrow> inv_db \<Rightarrow> bool" where
  "roomy n d \<longleftrightarrow> (\<forall>sku row. stock_of d sku = Some row \<longrightarrow>
     sint (sr_available row) < n \<and> sint (sr_reserved row) < n \<and> sint (sr_version row) < n)"

lemma unbooked_stock:
  assumes "all_booked k dn ws d" and "sku \<notin> irl_SKU ` set dn" and "stock_of d sku = Some row"
  shows "stock_of (view ws d) sku = Some row"
proof -
  obtain row' where r: "stock_of (view ws d) sku = Some row'"
    using booked_stocked [OF assms(1), of sku] assms(3) by auto
  from assms(1) r show ?thesis by (cases rule: booked_stock) (use assms r in auto)
qed

lemma book_calm:
  assumes b: "all_booked k dn ws d" and new: "irl_SKU ln \<notin> irl_SKU ` set dn" and ok: "ledger_ok d"
    and k: "real_status k" and bk: "bookable k d ln row item"
  shows "\<exists>ws'. update_stock (irl_SKU ln) (si_available item) (si_reserved item) (sr_version row) (view ws d) = Inr (1, ws')
    \<and> all_booked k (dn @ [ln]) (ws @ ws') d"
proof -
  have row: "stock_of (view ws d) (irl_SKU ln) = Some row"
    using unbooked_stock [OF b new] bk by (simp add: bookable_def)
  have op: "stock_op k (item_of (SKU_inv (irl_SKU ln)) row) (int64_of_int32 (irl_Quantity ln)) = Inr item"
    using bk by (simp add: bookable_def)
  have v: "si_version item = sr_version row"
    using stock_op_sku [OF op k] by (simp add: item_of_def RehydrateStockItem_def)
  obtain ws' where u: "update_stock (irl_SKU ln) (si_available item) (si_reserved item) (sr_version row) (view ws d) = Inr (1, ws')"
    using row bk by (auto simp: update_stock_def bookable_def pg_param_def)
  have "row_ok d (irl_SKU ln) row" using ledger_row [OF ok] bk by (simp add: bookable_def)
  then have "taken k (SKU_inv (irl_SKU ln)) ln item d"
    using op bk by (auto simp: taken_def was_read_def row_ok_def bookable_def newer_same)
  from book_step [OF b this k u [folded v]] u show ?thesis by auto
qed

section \<open>Reserving\<close>

text \<open>The stock covers every line.\<close>

definition stocked :: "inv_db \<Rightarrow> ReserveLine_inv list \<Rightarrow> bool" where
  "stocked d lns \<longleftrightarrow> (\<forall>ln \<in> set lns. \<exists>row. stock_of d (irl_SKU ln) = Some row
     \<and> sint (irl_Quantity ln) \<le> sint (sr_available row))"

text \<open>A line as the use case hands it over, with a SKU Postgres takes.\<close>

definition clean_line :: "ReserveLine_inv \<Rightarrow> bool" where
  "clean_line ln \<longleftrightarrow> NewSKU_inv (irl_SKU ln) = Inr (SKU_inv (irl_SKU ln)) \<and> pg_text (irl_SKU ln)
     \<and> (\<exists>q. NewQuantity_inv (irl_Quantity ln) = Inr q)"

lemma clean_quantity: "clean_line ln \<Longrightarrow> 0 < sint (irl_Quantity ln) \<and> sint (irl_Quantity ln) \<le> 100000"
  by (auto simp: clean_line_def NewQuantity_inv_def split: if_splits)

text \<open>A domain error the client of the API reads as a rejection.\<close>

definition rejection :: "ierr \<Rightarrow> bool" where
  "rejection e \<longleftrightarrow> errors_Is e ErrSKUNotFound \<or> errors_Is e ErrInsufficientStock"

lemma line_bookable:
  assumes c: "clean_line ln" and r: "roomy (2 ^ 62) d" and ok: "ledger_ok d"
    and s: "stock_of d (irl_SKU ln) = Some row" "sint (irl_Quantity ln) \<le> sint (sr_available row)"
  shows "bookable StatusHeld d ln row
    \<lparr>si_sku = SKU_inv (irl_SKU ln), si_available = sr_available row - int64_of_int32 (irl_Quantity ln),
     si_reserved = sr_reserved row + int64_of_int32 (irl_Quantity ln), si_version = sr_version row\<rparr>"
proof -
  have "row_ok d (irl_SKU ln) row" by (rule ledger_row [OF ok s(1)])
  then have p: "0 \<le> sint (sr_available row)" "0 \<le> sint (sr_reserved row)" by (simp_all add: row_ok_def)
  have b: "sint (sr_available row) < 2 ^ 62" "sint (sr_reserved row) < 2 ^ 62" "sint (sr_version row) < 2 ^ 62"
    using r s(1) by (auto simp: roomy_def)
  note q = clean_quantity [OF c]
  have "sint (sr_available row - int64_of_int32 (irl_Quantity ln)) = sint (sr_available row) - sint (irl_Quantity ln)"
    "sint (sr_reserved row + int64_of_int32 (irl_Quantity ln)) = sint (sr_reserved row) + sint (irl_Quantity ln)"
    using p b q s(2) by (subst sint_sub64 sint_add64; simp)+
  then show ?thesis
    using c s p b q
    by (simp add: bookable_def clean_line_def stock_op_def item_of_def RehydrateStockItem_def Stock_Reserve_def)
qed

text \<open>Loading: the items of all lines, or a rejection.\<close>

lemma load_line_calm:
  assumes w: "calm_inv w" and c: "clean_line ln"
  shows "load_and_reserve ln (w, []) =
    (case stock_of (w_db w) (irl_SKU ln) of
       None \<Rightarrow> (Inl (Detailf ErrSKUNotFound ''sku''), (w, []))
     | Some r \<Rightarrow> (Stock_Reserve (item_of (SKU_inv (irl_SKU ln)) r) (int64_of_int32 (irl_Quantity ln)), (w, [])))"
  using c unfolding clean_line_def
  by (auto simp: load_and_reserve_def loadStockItem_def and_then_def of_result_def map_err_def tx_stmt_calm [OF w]
      select_stock_def pg_param_def fail_def item_of_def split: option.split)

lemma load_items_calm:
  assumes w: "calm_inv w" and r: "roomy (2 ^ 62) (w_db w)" and ok: "ledger_ok (w_db w)"
  shows "list_all clean_line lns \<Longrightarrow> stocked (w_db w) lns \<Longrightarrow>
      \<exists>items. load_items lns (w, []) = (Inr items, (w, []))
        \<and> list_all2 (\<lambda>ln item. \<exists>row. bookable StatusHeld (w_db w) ln row item) lns items"
    and "list_all clean_line lns \<Longrightarrow> \<not> stocked (w_db w) lns \<Longrightarrow>
      \<exists>e. load_items lns (w, []) = (Inl e, (w, [])) \<and> rejection e"
proof (induction lns)
  case Nil
  { case 1 then show ?case by (auto simp: ok_def) }
  { case 2 then show ?case by (simp add: stocked_def) }
next
  case (Cons ln lns)
  { case 1
    then obtain row where s: "stock_of (w_db w) (irl_SKU ln) = Some row" "sint (irl_Quantity ln) \<le> sint (sr_available row)"
      and c: "clean_line ln" and rest: "list_all clean_line lns" "stocked (w_db w) lns"
      by (auto simp: stocked_def)
    note b = line_bookable [OF c r ok s]
    then have "load_and_reserve ln (w, []) = (Inr \<lparr>si_sku = SKU_inv (irl_SKU ln),
        si_available = sr_available row - int64_of_int32 (irl_Quantity ln),
        si_reserved = sr_reserved row + int64_of_int32 (irl_Quantity ln), si_version = sr_version row\<rparr>, (w, []))"
      unfolding load_line_calm [OF w c] by (simp add: s(1) bookable_def stock_op_def)
    then show ?case using Cons.IH(1) [OF rest] b by (auto simp: and_then_def ok_def) }
  { case 2
    then have c: "clean_line ln" and rest: "list_all clean_line lns" by simp_all
    show ?case
    proof (cases "\<exists>row. stock_of (w_db w) (irl_SKU ln) = Some row \<and> sint (irl_Quantity ln) \<le> sint (sr_available row)")
      case True
      then obtain row where s: "stock_of (w_db w) (irl_SKU ln) = Some row" "sint (irl_Quantity ln) \<le> sint (sr_available row)"
        by blast
      then have "\<not> stocked (w_db w) lns" using 2 by (auto simp: stocked_def)
      from Cons.IH(2) [OF rest this] line_bookable [OF c r ok s] show ?thesis
        unfolding load_items.simps and_then_def load_line_calm [OF w c]
        by (auto simp: s(1) bookable_def stock_op_def)
    next
      case False
      then show ?thesis
        using clean_quantity [OF c] unfolding load_items.simps and_then_def load_line_calm [OF w c]
        by (auto simp: rejection_def Stock_Reserve_def item_of_def RehydrateStockItem_def split: option.split)
    qed }
qed

lemma update_items_calm:
  assumes ok: "ledger_ok d"
  shows "list_all2 (\<lambda>ln item. \<exists>row. bookable StatusHeld d ln row item) lns items \<Longrightarrow> distinct (map irl_SKU (dn @ lns)) \<Longrightarrow>
    runs d (\<lambda>ws. all_booked StatusHeld dn ws d) (update_items items) (\<lambda>b ws. b \<and> all_booked StatusHeld (dn @ lns) ws d)"
proof (induction lns items arbitrary: dn rule: list_all2_induct)
  case Nil
  then show ?case by (auto intro!: runs_ok)
next
  case (Cons ln lns item items)
  obtain row where b: "bookable StatusHeld d ln row item" using Cons.hyps(1) by blast
  then have k: "isku_value (si_sku item) = irl_SKU ln" "si_version item = sr_version row"
    using stock_op_sku [of StatusHeld "item_of (SKU_inv (irl_SKU ln)) row" _ item]
    by (auto simp: bookable_def item_of_def RehydrateStockItem_def real_status_def)
  have new: "irl_SKU ln \<notin> irl_SKU ` set dn" using Cons.prems by auto
  have 1: "runs d (\<lambda>ws. all_booked StatusHeld dn ws d)
     (wrap_err ''update stock'' (tx_stmt (update_stock (isku_value (si_sku item)) (si_available item) (si_reserved item) (si_version item))))
     (\<lambda>n ws. n = 1 \<and> all_booked StatusHeld (dn @ [ln]) ws d)"
    unfolding k by (rule runs_map_err, rule runs_stmt) (use book_calm [OF _ new ok _ b] in \<open>auto simp: real_status_def\<close>)
  have 2: "runs d (\<lambda>ws. n = 1 \<and> all_booked StatusHeld (dn @ [ln]) ws d) (if n = 0 then ok False else update_items items)
     (\<lambda>b ws. b \<and> all_booked StatusHeld (dn @ ln # lns) ws d)" for n :: nat
    using Cons.IH [of "dn @ [ln]"] Cons.prems by (cases "n = 1") (auto simp: runs_def)
  show ?case unfolding update_items.simps by (rule runs_and_then [OF 1 2])
qed

lemma insert_lines_calm:
  assumes L: "uuid_laws L" and i: "rr_id r = uuid_String L v" and ok: "ledger_ok d"
  shows "list_all clean_line rest \<Longrightarrow> distinct (map irl_SKU (dn @ rest)) \<Longrightarrow>
    runs d (\<lambda>ws. placing r lns dn ws d) (insert_lines L (rr_id r) rest) (\<lambda>_ ws. placing r lns (dn @ rest) ws d)"
  unfolding insert_lines_def
proof (induction rest arbitrary: dn)
  case Nil
  then show ?case by (auto intro!: runs_ok)
next
  case (Cons ln rest)
  have "runs d (\<lambda>ws. placing r lns dn ws d) (wrap_err ''insert reservation line''
      (tx_stmt (insert_line L (rr_id r) (irl_SKU ln) (irl_Quantity ln)))) (\<lambda>_ ws. placing r lns (dn @ [ln]) ws d)"
  proof (rule runs_map_err, rule runs_stmt)
    fix ws assume p: "placing r lns dn ws d"
    then obtain sw where ws: "ws = sw @ WReservation r # map (WLine \<circ> line_row (rr_id r)) dn"
      and b: "all_booked StatusHeld lns sw d" by (auto simp: placing_def)
    have "t_lines (view ws d) = t_lines d @ map (line_row (rr_id r)) dn"
      using view_lines [of "map (line_row (rr_id r)) dn" "apply_write (WReservation r) (view sw d)"] booked_tables [OF b]
      by (simp add: ws view_append)
    moreover have "lr_reservation l \<noteq> rr_id r" if "l \<in> set (t_lines d)" for l
      using line_owner [OF ok that] p by (auto simp: placing_def)
    ultimately have free: "\<not> list_ex (\<lambda>l. lr_reservation l = rr_id r \<and> lr_sku l = irl_SKU ln) (t_lines (view ws d))"
      using Cons.prems by (auto simp: list_ex_iff line_row_def) (metis imageI)
    have q: "0 < sint (irl_Quantity ln)" using Cons.prems clean_quantity by simp
    then have "insert_line L (rr_id r) (irl_SKU ln) (irl_Quantity ln) (view ws d)
        = Inr ((), [WLine (line_row (rr_id r) ln)])"
      using free Cons.prems uuid_laws.pg_uuid_string [OF L]
      by (simp add: insert_line_def i pg_param_def line_row_def clean_line_def)
    moreover have "placing r lns (dn @ [ln]) (ws @ [WLine (line_row (rr_id r) ln)]) d"
      using p q by (auto simp: placing_def)
    ultimately show "\<exists>a ws'. insert_line L (rr_id r) (irl_SKU ln) (irl_Quantity ln) (view ws d) = Inr (a, ws')
        \<and> placing r lns (dn @ [ln]) (ws @ ws') d" by blast
  qed
  then show ?case using Cons.IH [of "dn @ [ln]"] Cons.prems by (auto intro!: runs_and_then)
qed

text \<open>The identifier the next reservation gets.\<close>

definition next_id :: "golib \<Rightarrow> inv_world \<Rightarrow> string" where
  "next_id L w = uuid_String L (uuid_New L (w_uuids w))"

definition held_row :: "string \<Rightarrow> string \<Rightarrow> ReservationRow" where
  "held_row i u = \<lparr>rr_id = i, rr_order = u, rr_status = ''HELD''\<rparr>"

lemma insert_reservation_calm:
  assumes L: "uuid_laws L" and u: "pg_uuid L u = Some u" and i: "i = uuid_String L v"
    and fresh: "\<forall>r \<in> set (t_reservations d). rr_id r \<noteq> i \<and> rr_order r \<noteq> u"
  shows "runs d (\<lambda>ws. all_booked StatusHeld lns ws d) (tx_stmt (insert_reservation L i u ''HELD''))
    (\<lambda>_. \<lambda>ws. placing (held_row i u) lns [] ws d)"
proof (rule runs_stmt)
  fix ws assume b: "all_booked StatusHeld lns ws d"
  have "insert_reservation L i u ''HELD'' (view ws d) = Inr ((), [WReservation (held_row i u)])"
    using fresh u uuid_laws.pg_uuid_string [OF L] booked_tables(1) [OF b]
    by (auto simp: insert_reservation_def i held_row_def list_ex_iff)
  moreover have "placing (held_row i u) lns [] (ws @ [WReservation (held_row i u)]) d"
    using b fresh by (auto simp: placing_def held_row_def)
  ultimately show "\<exists>a ws'. insert_reservation L i u ''HELD'' (view ws d) = Inr (a, ws')
      \<and> placing (held_row i u) lns [] (ws @ ws') d" by blast
qed

lemma reserve_body_calm:
  assumes L: "uuid_laws L" and u: "pg_uuid L u = Some u" and w: "calm_inv w" and ok: "ledger_ok (w_db w)"
    and r: "roomy (2 ^ 62) (w_db w)" and none: "status_of (w_db w) u = None"
    and fresh: "\<forall>q \<in> set (t_reservations (w_db w)). rr_id q \<noteq> next_id L w"
    and c: "list_all clean_line lns" and dist: "distinct (map irl_SKU lns)"
  shows "stocked (w_db w) lns \<Longrightarrow> \<exists>res ws. reserve_body L u lns (w, []) = (Inr (Write res), (w\<lparr>w_uuids := w_uuids w + 1\<rparr>, ws))
      \<and> placing (held_row (next_id L w) u) lns lns ws (w_db w)"
    and "\<not> stocked (w_db w) lns \<Longrightarrow> \<exists>e. reserve_body L u lns (w, []) = (Inl e, (w, [])) \<and> rejection e"
proof -
  let ?i = "next_id L w" and ?d = "w_db w" and ?w = "w\<lparr>w_uuids := w_uuids w + 1\<rparr>"
  have no: "find (\<lambda>r. rr_order r = u) (t_reservations ?d) = None" using none by (simp add: status_of_def)
  then have find: "findReservationByOrder tx_stmt tx_stmt L u (w, []) = (Inr None, (w, []))"
    using u by (simp add: findReservationByOrder_def and_then_def map_err_def tx_stmt_calm [OF w] select_reservation_def ok_def)
  have free: "\<forall>q \<in> set (t_reservations ?d). rr_id q \<noteq> ?i \<and> rr_order q \<noteq> u"
    using no fresh by (auto simp: find_None_iff)
  note load = load_items_calm [OF w r ok c]
  show "\<exists>e. reserve_body L u lns (w, []) = (Inl e, (w, [])) \<and> rejection e" if n: "\<not> stocked ?d lns"
    using load(2) [OF n] find by (auto simp: reserve_body_def and_then_def)
  assume s: "stocked ?d lns"
  obtain items where it: "load_items lns (w, []) = (Inr items, (w, []))"
    "list_all2 (\<lambda>ln item. \<exists>row. bookable StatusHeld ?d ln row item) lns items" using load(1) [OF s] by blast
  obtain ws1 where up: "update_items items (w, []) = (Inr True, (w, ws1))" and b: "all_booked StatusHeld lns ws1 ?d"
    using runsD [OF update_items_calm [OF ok it(2), of "[]"] w refl, of "[]"] dist by auto
  have w': "calm_inv ?w" "w_db ?w = ?d" using w by (simp_all add: calm_inv_def)
  obtain ws2 where ins: "tx_stmt (insert_reservation L ?i u ''HELD'') (?w, ws1) = (Inr (), (?w, ws2))"
    and p: "placing (held_row ?i u) lns [] ws2 ?d"
    using runsD [OF insert_reservation_calm [OF L u _ free] w' b] unfolding next_id_def by auto
  have "runs ?d (\<lambda>ws. placing (held_row ?i u) lns [] ws ?d) (insert_lines L (rr_id (held_row ?i u)) lns)
      (\<lambda>_ ws. placing (held_row ?i u) lns ([] @ lns) ws ?d)"
    by (rule insert_lines_calm [OF L _ ok c]) (use dist in \<open>simp_all add: held_row_def next_id_def\<close>)
  from runsD [OF this w' p] obtain ws3 where il: "insert_lines L ?i lns (?w, ws2) = (Inr (), (?w, ws3))"
    and q: "placing (held_row ?i u) lns lns ws3 ?d" by (auto simp: held_row_def)
  show "\<exists>res ws. reserve_body L u lns (w, []) = (Inr (Write res), (?w, ws)) \<and> placing (held_row ?i u) lns lns ws ?d"
    using find it(1) up ins il q
    by (simp add: reserve_body_def and_then_def tx_new_uuid_def Let_def ok_def next_id_def)
qed


text \<open>Reserving, as a whole.\<close>

lemma begin_calm: "calm_inv w \<Longrightarrow> tx_begin w = (Inr (), w)"
  by (simp add: tx_begin_def calm_inv_def)

lemma commit_calm: "calm_inv w \<Longrightarrow> tx_commit ws w = (Inr (), w\<lparr>w_db := view ws (w_db w)\<rparr>)"
  by (simp add: tx_commit_def calm_inv_def env_step_def)

lemma retry_answers: "once w = (Inr (Some a), w') \<Longrightarrow> retry_occ (Suc n) once w = (Inr a, w')"
  "once w = (Inl e, w') \<Longrightarrow> retry_occ (Suc n) once w = (Inl e, w')"
  by (simp_all add: and_then_def ok_def)

lemma five_retries: "maxOCCRetries = Suc 4" by (simp add: maxOCCRetries_def)

lemma Reserve_calm:
  assumes L: "uuid_laws L" and u: "pg_uuid L u = Some u" and w: "calm_inv w" and ok: "ledger_ok (w_db w)"
    and r: "roomy (2 ^ 62) (w_db w)" and none: "status_of (w_db w) u = None"
    and fresh: "\<forall>q \<in> set (t_reservations (w_db w)). rr_id q \<noteq> next_id L w"
    and c: "list_all clean_line lns" and dist: "distinct (map irl_SKU lns)"
  shows "stocked (w_db w) lns \<Longrightarrow> \<exists>res ws. Inventory_Reserve L u lns w
        = (Inr res, w\<lparr>w_uuids := w_uuids w + 1, w_db := view ws (w_db w)\<rparr>)
      \<and> placing (held_row (next_id L w) u) (sort_key irl_SKU lns) (sort_key irl_SKU lns) ws (w_db w)"
    and "\<not> stocked (w_db w) lns \<Longrightarrow> \<exists>e. Inventory_Reserve L u lns w = (Inl e, w) \<and> rejection e"
proof -
  let ?lns = "sort_key irl_SKU lns" and ?d = "w_db w"
  have lns: "list_all clean_line ?lns" "distinct (map irl_SKU ?lns)" "stocked ?d ?lns = stocked ?d lns"
    using c dist by (simp_all add: list_all_iff stocked_def distinct_map)
  note b = reserve_body_calm [OF L u w ok r none fresh lns(1,2), unfolded lns(3)]
  show "\<exists>e. Inventory_Reserve L u lns w = (Inl e, w) \<and> rejection e" if n: "\<not> stocked ?d lns"
  proof -
    obtain e where "reserve_body L u ?lns (w, []) = (Inl e, (w, []))" and e: "rejection e" using b(2) [OF n] by blast
    then have "reserveOnce L u ?lns w = (Inl e, w)"
      by (simp add: reserveOnce_def and_then_def begin_calm [OF w])
    from retry_answers(2) [where n = 4 and once = "reserveOnce L u ?lns", OF this] e show ?thesis
      unfolding Inventory_Reserve_def five_retries by blast
  qed
  assume s: "stocked ?d lns"
  obtain res ws where run: "reserve_body L u ?lns (w, []) = (Inr (Write res), (w\<lparr>w_uuids := w_uuids w + 1\<rparr>, ws))"
    and p: "placing (held_row (next_id L w) u) ?lns ?lns ws ?d" using b(1) [OF s] by blast
  have "calm_inv (w\<lparr>w_uuids := w_uuids w + 1\<rparr>)" using w by (simp add: calm_inv_def)
  from run commit_calm [OF this] have "reserveOnce L u ?lns w
      = (Inr (Some res), w\<lparr>w_uuids := w_uuids w + 1, w_db := view ws ?d\<rparr>)"
    by (simp add: reserveOnce_def and_then_def begin_calm [OF w] ok_def)
  from retry_answers(1) [where n = 4 and once = "reserveOnce L u ?lns", OF this] p show "\<exists>res ws. Inventory_Reserve L u lns w
      = (Inr res, w\<lparr>w_uuids := w_uuids w + 1, w_db := view ws ?d\<rparr>)
    \<and> placing (held_row (next_id L w) u) ?lns ?lns ws ?d"
    unfolding Inventory_Reserve_def five_retries by blast
qed

section \<open>Releasing and committing\<close>

abbreviation final_status :: "ReservationStatus \<Rightarrow> bool" where
  "final_status k \<equiv> k = StatusReleased \<or> k = StatusCommitted"

lemma held_qty_nonneg: "ledger_ok d \<Longrightarrow> 0 \<le> held_qty d sku"
  unfolding held_qty_def by (rule sum_list_nonneg) (force simp: ledger_ok_def line_ok_def)

text \<open>What a HELD reservation asks for is there.\<close>

lemma held_line_reserved:
  assumes ok: "ledger_ok d" and r: "r \<in> set (t_reservations d)" "rr_status r = ''HELD''"
    and ln: "ln \<in> set (lines_read d (rr_id r))"
  shows "\<exists>row. stock_of d (irl_SKU ln) = Some row \<and> sint (irl_Quantity ln) \<le> sint (sr_reserved row)"
proof -
  let ?i = "rr_id r" and ?sku = "irl_SKU ln"
  from ln obtain l where l: "l \<in> set (t_lines d)" "lr_reservation l = ?i" "lr_sku l = ?sku"
    by (auto simp: lines_read_def lines_of_def)
  then obtain row where row: "stock_of d ?sku = Some row" using ok by (force simp: ledger_ok_def line_ok_def)
  have held: "is_held d ?i" using r by (auto simp: is_held_def)
  have pos: "\<forall>l \<in> set (t_lines d). 0 < sint (lr_quantity l)" using ok by (simp add: ledger_ok_def line_ok_def)
  have "held_qty d ?sku
      = sum_list (map (sint \<circ> lr_quantity) (filter (\<lambda>l. lr_sku l = ?sku \<and> lr_reservation l = ?i) (t_lines d)))
      + sum_list (map (sint \<circ> lr_quantity) (filter (\<lambda>l. lr_sku l = ?sku \<and> is_held d (lr_reservation l) \<and> lr_reservation l \<noteq> ?i) (t_lines d)))"
    unfolding held_qty_def by (rule sum_filter_split) (use held in auto)
  moreover have "0 \<le> sum_list (map (sint \<circ> lr_quantity) (filter (\<lambda>l. lr_sku l = ?sku \<and> is_held d (lr_reservation l) \<and> lr_reservation l \<noteq> ?i) (t_lines d)))"
    by (rule sum_list_nonneg) (use pos in force)
  moreover have "line_qty (lines_read d ?i) ?sku = sint (irl_Quantity ln)"
    by (rule line_qty_at [OF lines_read_distinct [OF ok] ln])
  ultimately have "sint (irl_Quantity ln) \<le> held_qty d ?sku" by (simp add: line_qty_read)
  then show ?thesis using row ledger_row [OF ok row] by (simp add: row_ok_def)
qed

lemma line_settled:
  assumes c: "clean_line ln" and r: "roomy (2 ^ 62) d" and ok: "ledger_ok d" and k: "final_status k"
    and s: "stock_of d (irl_SKU ln) = Some row" "sint (irl_Quantity ln) \<le> sint (sr_reserved row)"
  shows "\<exists>item. bookable k d ln row item"
proof -
  have "row_ok d (irl_SKU ln) row" by (rule ledger_row [OF ok s(1)])
  then have p: "0 \<le> sint (sr_available row)" "0 \<le> sint (sr_reserved row)" by (simp_all add: row_ok_def)
  have b: "sint (sr_available row) < 2 ^ 62" "sint (sr_reserved row) < 2 ^ 62" "sint (sr_version row) < 2 ^ 62"
    using r s(1) by (auto simp: roomy_def)
  note q = clean_quantity [OF c]
  have "sint (sr_available row + int64_of_int32 (irl_Quantity ln)) = sint (sr_available row) + sint (irl_Quantity ln)"
    "sint (sr_reserved row - int64_of_int32 (irl_Quantity ln)) = sint (sr_reserved row) - sint (irl_Quantity ln)"
    using p b q s(2) by (subst sint_sub64 sint_add64; simp)+
  then show ?thesis
    using c s p b q k
    by (auto simp: bookable_def clean_line_def stock_op_def item_of_def RehydrateStockItem_def move_stock_def
        Stock_Release_def Stock_Commit_def)
qed

lemma settle_line_calm:
  assumes b: "bookable k d ln row item" and new: "irl_SKU ln \<notin> irl_SKU ` set dn" and ok: "ledger_ok d"
    and k: "final_status k"
  shows "runs d (\<lambda>ws. all_booked k dn ws d) (transition_line k ln) (\<lambda>b ws. b \<and> all_booked k (dn @ [ln]) ws d)"
proof (rule runsI)
  fix w ws assume w: "calm_inv w" "w_db w = d" and a: "all_booked k dn ws d"
  have row: "stock_of (view ws d) (irl_SKU ln) = Some row"
    using unbooked_stock [OF a new] b by (simp add: bookable_def)
  have rk: "real_status k" using k by (auto simp: real_status_def)
  obtain ws' where up: "update_stock (irl_SKU ln) (si_available item) (si_reserved item) (sr_version row) (view ws d) = Inr (1, ws')"
    and fin: "all_booked k (dn @ [ln]) (ws @ ws') d" using book_calm [OF a new ok rk b] by blast
  have mv: "move_stock k (RehydrateStockItem (SKU_inv (irl_SKU ln)) (sr_available row) (sr_reserved row) (sr_version row))
      (int64_of_int32 (irl_Quantity ln)) = Inr item"
    using b k by (auto simp: bookable_def stock_op_def item_of_def)
  show "\<exists>a ws'. transition_line k ln (w, ws) = (Inr a, (w, ws')) \<and> a \<and> all_booked k (dn @ [ln]) ws' d"
    using b row mv up fin w(2)
    by (simp add: transition_line_def loadStockItem_def and_then_def of_result_def map_err_def tx_stmt_calm [OF w(1)]
        select_stock_def pg_param_def bookable_def ok_def exI [of _ True])
qed

lemma settle_lines_calm:
  assumes ok: "ledger_ok d" and k: "final_status k"
  shows "\<forall>ln \<in> set lns. \<exists>row item. bookable k d ln row item \<Longrightarrow> distinct (map irl_SKU (dn @ lns)) \<Longrightarrow>
    runs d (\<lambda>ws. all_booked k dn ws d) (transition_lines k lns) (\<lambda>b ws. b \<and> all_booked k (dn @ lns) ws d)"
proof (induction lns arbitrary: dn)
  case Nil
  then show ?case by (auto intro!: runs_ok)
next
  case (Cons ln lns)
  obtain row item where b: "bookable k d ln row item" using Cons.prems(1) by auto
  have new: "irl_SKU ln \<notin> irl_SKU ` set dn" using Cons.prems(2) by auto
  have "runs d (\<lambda>ws. b \<and> all_booked k (dn @ [ln]) ws d) (if b then transition_lines k lns else ok False)
     (\<lambda>b ws. b \<and> all_booked k (dn @ ln # lns) ws d)" for b
    using Cons.IH [of "dn @ [ln]"] Cons.prems by (cases b) (auto simp: runs_def)
  then show ?case unfolding transition_lines.simps
    by (rule runs_and_then [OF settle_line_calm [OF b new ok k]])
qed


text \<open>A HELD reservation whose transition will come to its end.\<close>

definition settleable :: "golib \<Rightarrow> ReservationRow \<Rightarrow> inv_db \<Rightarrow> bool" where
  "settleable L r d \<longleftrightarrow> ledger_ok d \<and> roomy (2 ^ 62) d \<and> r \<in> set (t_reservations d) \<and> rr_status r = ''HELD''
     \<and> list_all clean_line (lines_read d (rr_id r))
     \<and> (\<exists>i u. rr_id r = uuid_String L i \<and> rr_order r = uuid_String L u)"

lemma irl_again: "\<lparr>irl_SKU = irl_SKU ln, irl_Quantity = irl_Quantity ln\<rparr> = ln" for ln :: ReserveLine_inv
  by simp

lemma clean_domain_lines: "list_all clean_line lns \<Longrightarrow> \<exists>ls. domain_lines lns = Inr ls"
  by (induction lns) (auto simp: clean_line_def)

lemma transition_body_calm:
  assumes L: "uuid_laws L" and w: "calm_inv w" and s: "settleable L r (w_db w)" and k: "final_status k"
  shows "\<exists>res ws. transition_body L (rr_order r) k (w, []) = (Inr (Write res), (w, ws)) \<and> settling k r ws (w_db w)"
proof -
  let ?d = "w_db w"
  have ok: "ledger_ok ?d" and ro: "roomy (2 ^ 62) ?d" and r: "r \<in> set (t_reservations ?d)" "rr_status r = ''HELD''"
    and c: "list_all clean_line (lines_read ?d (rr_id r))"
    using s by (simp_all add: settleable_def)
  obtain i u where id: "rr_id r = uuid_String L i" "rr_order r = uuid_String L u" using s by (auto simp: settleable_def)
  have sel: "select_reservation L (rr_order r) ?d = Inr (Some r, [])"
    using uuid_laws.pg_uuid_string [OF L, of u] find_unique [OF _ r(1), of rr_order] ok id(2)
    by (simp add: select_reservation_def ledger_ok_def)
  obtain ls where ls: "domain_lines (lines_read ?d (rr_id r)) = Inr ls" using clean_domain_lines [OF c] by blast
  obtain res where reh: "rehydrateReservation L (rr_id r) (rr_order r) (rr_status r) (lines_read ?d (rr_id r)) = Inr res"
    and held: "rs_status res = StatusHeld"
    using ls by (simp add: rehydrateReservation_def ParseReservationID_def ParseOrderID_inv_def id
        uuid_laws.string_trim [OF L] uuid_laws.parse_string [OF L] RehydrateReservation_def r(2) ReservationStatus_of_def)
  obtain res' where mv: "move_reservation k res = Inr (True, res')"
    using held k by (auto simp: move_reservation_def Reservation_Release_def Reservation_Commit_def)
  have "\<forall>ln \<in> set (lines_read ?d (rr_id r)). \<exists>row item. bookable k ?d ln row item"
    using line_settled [OF _ ro ok k] held_line_reserved [OF ok r] c by (metis list_all_iff)
  from runsD [OF settle_lines_calm [OF ok k this, of "[]"] w refl, of "[]"] lines_read_distinct [OF ok]
  obtain ws where run: "transition_lines k (lines_read ?d (rr_id r)) (w, []) = (Inr True, (w, ws))"
    and b: "all_booked k (lines_read ?d (rr_id r)) ws ?d" by auto
  have "settling k r (ws @ [WStatus (rr_id r) (ReservationStatus_string k)]) ?d"
    using b r k by (auto simp: settling_def)
  then show ?thesis
    using sel reh mv run
    by (simp add: transition_body_def and_then_def map_err_def tx_stmt_calm [OF w] loadLines_def select_lines_def
        lines_read_def lines_of_def of_result_def update_reservation_def ok_def)
qed

lemma transition_calm:
  assumes L: "uuid_laws L" and w: "calm_inv w" and s: "settleable L r (w_db w)" and k: "final_status k"
  shows "\<exists>res ws. Inventory_transition L (rr_order r) k w = (Inr res, w\<lparr>w_db := view ws (w_db w)\<rparr>) \<and> settling k r ws (w_db w)"
proof -
  obtain res ws where run: "transition_body L (rr_order r) k (w, []) = (Inr (Write res), (w, ws))"
    and p: "settling k r ws (w_db w)" using transition_body_calm [OF assms] by blast
  from run commit_calm [OF w] have "transitionOnce L (rr_order r) k w = (Inr (Some res), w\<lparr>w_db := view ws (w_db w)\<rparr>)"
    by (simp add: transitionOnce_def and_then_def begin_calm [OF w] ok_def)
  from retry_answers(1) [where n = 4 and once = "transitionOnce L (rr_order r) k", OF this] p show ?thesis
    unfolding Inventory_transition_def five_retries by blast
qed

text \<open>A reservation that was just placed is settleable.\<close>

lemma placed_settleable:
  assumes p: "placing (held_row (uuid_String L i) (uuid_String L u)) (sort_key irl_SKU lns) (sort_key irl_SKU lns) ws d"
    and ok: "ledger_ok d" and r: "roomy (2 ^ 61) d" and c: "list_all clean_line lns"
  shows "settleable L (held_row (uuid_String L i) (uuid_String L u)) (view ws d)"
proof -
  let ?r = "held_row (uuid_String L i) (uuid_String L u)" and ?lns = "sort_key irl_SKU lns" and ?d = "view ws d"
  obtain sw where ws: "ws = sw @ WReservation ?r # map (WLine \<circ> line_row (rr_id ?r)) ?lns"
    and b: "all_booked StatusHeld ?lns sw d" using p by (auto simp: placing_def)
  have lines: "t_lines ?d = t_lines d @ map (line_row (rr_id ?r)) ?lns"
    "\<And>sku. stock_of ?d sku = stock_of (view sw d) sku"
    using view_lines [of "map (line_row (rr_id ?r)) ?lns" "apply_write (WReservation ?r) (view sw d)"] booked_tables [OF b]
    by (simp_all add: ws view_append stock_of_def)
  have new: "rr_id ?r \<notin> rr_id ` set (t_reservations d)" using p by (auto simp: placing_def)
  have "lines_of d (rr_id ?r) = []"
    unfolding lines_of_def filter_empty_conv using line_owner [OF ok] new by metis
  then have "set (lines_read ?d (rr_id ?r)) \<subseteq> set lns"
    by (auto simp: lines_read_def lines_of_def lines line_row_def irl_again)
  then have "list_all clean_line (lines_read ?d (rr_id ?r))" using c by (auto simp: list_all_iff)
  moreover have "roomy (2 ^ 62) ?d"
    unfolding roomy_def
  proof (intro allI impI)
    fix sku row assume "stock_of ?d sku = Some row"
    then have "stock_of (view sw d) sku = Some row" using lines by simp
    from b this show "sint (sr_available row) < 2 ^ 62 \<and> sint (sr_reserved row) < 2 ^ 62 \<and> sint (sr_version row) < 2 ^ 62"
    proof (cases rule: booked_stock)
      case untouched
      then show ?thesis using r by (fastforce simp: roomy_def)
    next
      case (moved ln old)
      have "clean_line ln" using moved c by (simp add: list_all_iff)
      note q = clean_quantity [OF this]
      have "sint (sr_available old) < 2 ^ 61" "sint (sr_reserved old) < 2 ^ 61" "sint (sr_version old) < 2 ^ 61"
        using r moved by (auto simp: roomy_def)
      then show ?thesis using moved q by (simp add: books_def)
    qed
  qed
  ultimately show ?thesis
    using placing_ledger [OF p ok] by (auto simp: settleable_def held_row_def)
qed

end
