(* ===== verification/Saga_Ends.thy ===== *)
theory Saga_Ends
  imports Saga_Samples Saga_Calm Inventory_Calm
begin

text \<open>
  The deployed services while nothing fails: they keep the contract \<open>calm_services\<close>, so one delivery
  of order.placed ends the saga, and what it decides is what the stock and the payment service say.
\<close>

section \<open>The inventory service\<close>

definition quiet_server :: "inv_server \<Rightarrow> bool" where
  "quiet_server S \<longleftrightarrow> open_server S \<and> (\<forall>w. snd (is_fresh S w) = w)"

lemma client_do_calm:
  assumes S: "quiet_server S" and rq: "rq = client_request C ''POST'' path b"
    and route: "find_route (inv_routes L (is_text S) (is_verify S) (is_auth S) (is_ping S)) rq = Some (ro, vs)"
    and h: "ro_Handler ro = authMiddleware (is_verify S) (is_auth S) h"
    and act: "\<forall>cx. cx_path cx = vs \<longrightarrow> h cx rq = respond_inv (is_text S) cx f act"
    and net: "sw_net w = []" and run: "act (sw_inv w) = (res, i)"
  shows "\<exists>cx. client_do (http_call (serve L S)) C ''POST'' path b w
    = (Inr (rp_Status (inv_answer S cx f res), read_envelope (rp_Body (inv_answer S cx f res))), w\<lparr>sw_inv := i\<rparr>)"
proof -
  have S': "open_server S" "\<And>w. snd (is_fresh S w) = w" using S by (simp_all add: quiet_server_def)
  have m: "rq_Method rq \<noteq> ''OPTIONS''" by (simp add: rq client_request_def)
  have some: "rp \<noteq> None" if "cx_path cx = vs" "h cx rq w1 = (rp, w2)" for cx w1 rp w2
    using that act by (auto simp: respond_answer split: prod.splits)
  obtain cx w1 rp w2 where k: "cx_path cx = vs" "h cx rq w1 = (Some rp, w2)" "w1 = sw_inv w"
    "\<exists>reply. serve L S empty_rctx rq (sw_inv w) = (reply, w2) \<and> replies reply rp"
    by (rule serve_route [where w = "sw_inv w", OF S'(1) m route h some]) (auto simp: S'(2))
  then have "w2 = i" "rp = inv_answer S cx f res" using act run by (simp_all add: respond_answer)
  with k(4) show ?thesis
    by (auto simp: client_do_def http_call_calm [OF net] rq [symmetric] replies_def)
qed

text \<open>Nothing fails and nobody interferes; a reservation can be placed, or the HELD one settled.\<close>

definition inv_idle :: "golib \<Rightarrow> string \<Rightarrow> ReserveLine_inv list \<Rightarrow> bool \<Rightarrow> inv_world \<Rightarrow> bool" where
  "inv_idle L u lns enough i \<longleftrightarrow> calm_inv i
     \<and> (status_of (w_db i) u = None \<longrightarrow> roomy (2 ^ 61) (w_db i) \<and> stocked (w_db i) lns = enough
          \<and> (\<forall>q \<in> set (t_reservations (w_db i)). rr_id q \<noteq> next_id L i))
     \<and> (status_of (w_db i) u = Some StatusHeld \<longrightarrow> (\<exists>r. rr_order r = u \<and> settleable L r (w_db i)))"

lemma roomy_mono: "roomy m d \<Longrightarrow> m \<le> n \<Longrightarrow> roomy n d"
  unfolding roomy_def by fastforce

lemma reserve_refused:
  "rejection err \<Longrightarrow> \<exists>m. reserve_outcome (rp_Status (inv_answer S cx f (Inl err)), read_envelope (rp_Body (inv_answer S cx f (Inl err))))
    = Inl (Detailf ErrReservationRejected m)"
  unfolding reserve_outcome_def prod.case envelope_of_answer [THEN conjunct1] envelope_of_answer [THEN conjunct2]
  by (auto simp: classify_inv_def rejection_def)

lemma Client_Reserve_calm:
  assumes L: "uuid_laws L" and S: "quiet_server S" and oid: "canonical L oid" and net: "sw_net w = []"
    and ok: "ledger_ok (w_db (sw_inv w))" and idle: "inv_idle L oid lns enough (sw_inv w)"
    and none: "status_of (w_db (sw_inv w)) oid = None"
    and lns: "ls \<noteq> []" "validate_lines [] (map input_line ls) = Inr lns" "list_all clean_line lns" "distinct (map irl_SKU lns)"
  shows "\<exists>r i. Client_Reserve (http_call (serve L S)) C oid ls w = (r, w\<lparr>sw_inv := i\<rparr>) \<and> inv_idle L oid lns enough i
    \<and> (if enough then r = Inr () else \<exists>e. r = Inl e \<and> errors_Is e ErrReservationRejected)"
proof -
  let ?i = "sw_inv w" and ?use = "ReserveStock_Handle L \<lparr>rsc_OrderID = oid, rsc_Lines = map input_line ls\<rparr>"
  let ?rq = "client_request C ''POST'' ''/v1/reservations'' (Some (enc_reserve_request oid ls))"
  let ?f = "\<lambda>res. writeJSON (if rt_Idempotent res then 200 else 201) (reservationResponse res)"
  note oid_facts = canonical_facts [OF L oid]
  obtain v where v: "oid = uuid_String L v" using oid by (auto simp: canonical_def)
  obtain ro where ro: "find_route (inv_routes L (is_text S) (is_verify S) (is_auth S) (is_ping S)) ?rq = Some (ro, [])"
    "ro_Handler ro = authMiddleware (is_verify S) (is_auth S) (http_Reserve L (is_text S))"
    using reserve_route by blast
  have act: "\<forall>cx. cx_path cx = [] \<longrightarrow> http_Reserve L (is_text S) cx ?rq = respond_inv (is_text S) cx ?f ?use"
    by (intro allI impI ext) (simp add: http_Reserve_def decodeJSON_inv_def client_request_def reserve_roundtrip
      respond_inv_def and_then_def of_result_def)
  obtain o' where o': "ParseOrderID_inv L oid = Inr o'" "OrderID_String_inv L o' = oid" using oid_facts(4) by blast
  have use: "?use = Inventory_Reserve L oid lns"
    using o' lns(1,2) by (intro ext) (simp add: ReserveStock_Handle_def and_then_def of_result_def)
  have c: "calm_inv ?i" and room: "roomy (2 ^ 61) (w_db ?i)" and st: "stocked (w_db ?i) lns = enough"
    and fresh: "\<forall>q \<in> set (t_reservations (w_db ?i)). rr_id q \<noteq> next_id L ?i"
    using idle none by (simp_all add: inv_idle_def)
  have room': "roomy (2 ^ 62) (w_db ?i)" by (rule roomy_mono [OF room]) simp
  note R = Reserve_calm [OF L oid_facts(1) c ok room' none fresh lns(3,4)]
  show ?thesis
  proof (cases enough)
    case True
    then obtain res ws where run: "Inventory_Reserve L oid lns ?i = (Inr res, ?i\<lparr>w_uuids := w_uuids ?i + 1, w_db := view ws (w_db ?i)\<rparr>)"
      and p: "placing (held_row (next_id L ?i) oid) (sort_key irl_SKU lns) (sort_key irl_SKU lns) ws (w_db ?i)"
      using R(1) st by auto
    let ?i' = "?i\<lparr>w_uuids := w_uuids ?i + 1, w_db := view ws (w_db ?i)\<rparr>"
    have settle: "settleable L (held_row (next_id L ?i) oid) (view ws (w_db ?i))"
      using placed_settleable [OF p [unfolded next_id_def v] ok room lns(3)] by (simp add: next_id_def v)
    have order: "rr_order (held_row (next_id L ?i) oid) = oid" by (simp add: held_row_def)
    with p have "placed oid (w_db ?i) (view ws (w_db ?i))" unfolding placed_def by blast
    then have "status_of (view ws (w_db ?i)) oid = Some StatusHeld" using placed_status ok by blast
    moreover have "\<exists>r. rr_order r = oid \<and> settleable L r (view ws (w_db ?i))" using settle order by blast
    ultimately have "inv_idle L oid lns enough ?i'" using c by (simp add: inv_idle_def calm_inv_def)
    moreover have "Client_Reserve (http_call (serve L S)) C oid ls w = (Inr (), w\<lparr>sw_inv := ?i'\<rparr>)"
      using client_do_calm [OF S refl ro act net, of "Inr res" ?i'] run use
      by (auto simp: Client_Reserve_def and_then_def of_result_def reserve_accepted)
    ultimately show ?thesis using True by auto
  next
    case False
    then obtain err where run: "Inventory_Reserve L oid lns ?i = (Inl err, ?i)" and rej: "rejection err"
      using R(2) st by auto
    obtain cx where do: "client_do (http_call (serve L S)) C ''POST'' ''/v1/reservations'' (Some (enc_reserve_request oid ls)) w
        = (Inr (rp_Status (inv_answer S cx ?f (Inl err)), read_envelope (rp_Body (inv_answer S cx ?f (Inl err)))), w\<lparr>sw_inv := ?i\<rparr>)"
      using client_do_calm [OF S refl ro act net, of "Inl err" ?i] run use by auto
    obtain m where "reserve_outcome (rp_Status (inv_answer S cx ?f (Inl err)), read_envelope (rp_Body (inv_answer S cx ?f (Inl err))))
        = Inl (Detailf ErrReservationRejected m)" using reserve_refused [OF rej] by blast
    with do have "Client_Reserve (http_call (serve L S)) C oid ls w = (Inl (Detailf ErrReservationRejected m), w\<lparr>sw_inv := ?i\<rparr>)"
      by (simp add: Client_Reserve_def and_then_def of_result_def)
    moreover have "errors_Is (Detailf ErrReservationRejected m) ErrReservationRejected" by simp
    ultimately show ?thesis unfolding if_not_P [OF False] using idle by blast
  qed
qed

lemma Client_settle_calm:
  assumes L: "uuid_laws L" and S: "quiet_server S" and oid: "canonical L oid" and net: "sw_net w = []"
    and k: "final_status k" and idle: "inv_idle L oid lns enough (sw_inv w)"
    and held: "status_of (w_db (sw_inv w)) oid = Some StatusHeld"
  shows "\<exists>i. Client_transition (http_call (serve L S)) C oid (action_of k) w = (Inr (), w\<lparr>sw_inv := i\<rparr>)
    \<and> inv_idle L oid lns enough i \<and> status_of (w_db i) oid = Some k"
proof -
  let ?i = "sw_inv w" and ?path = "''/v1/reservations/'' @ oid @ ''/'' @ action_of k"
  let ?rq = "client_request C ''POST'' ?path None" and ?f = "\<lambda>res. writeJSON 200 (reservationResponse res)"
  note oid_facts = canonical_facts [OF L oid]
  obtain ro where ro: "find_route (inv_routes L (is_text S) (is_verify S) (is_auth S) (is_ping S)) ?rq = Some (ro, [(''orderId'', oid)])"
    "ro_Handler ro = authMiddleware (is_verify S) (is_auth S) (settle_handler L S k)"
    using transition_route [OF oid_facts(2,3) k] unfolding settle_handler_def by blast
  have "and_then (of_result (ParseOrderID_inv L oid)) (\<lambda>i. Inventory_transition L (OrderID_String_inv L i) k)
      = Inventory_transition L oid k"
    using oid_facts(4) by (auto simp: and_then_def of_result_def)
  then have act: "\<forall>cx. cx_path cx = [(''orderId'', oid)] \<longrightarrow>
      settle_handler L S k cx ?rq = respond_inv (is_text S) cx ?f (Inventory_transition L oid k)"
    using k by (auto simp: settle_handler_def http_Release_def http_Commit_def ReleaseReservation_Handle_def
        CommitReservation_Handle_def Inventory_Release_def Inventory_Commit_def PathValue_def)
  have c: "calm_inv ?i" using idle by (simp add: inv_idle_def)
  obtain r where r: "rr_order r = oid" "settleable L r (w_db ?i)" using idle held by (auto simp: inv_idle_def)
  obtain res ws where run: "Inventory_transition L oid k ?i = (Inr res, ?i\<lparr>w_db := view ws (w_db ?i)\<rparr>)"
    and p: "settling k r ws (w_db ?i)" using transition_calm [OF L c r(2) k] r(1) by auto
  let ?i' = "?i\<lparr>w_db := view ws (w_db ?i)\<rparr>"
  have "ledger_ok (w_db ?i)" using r(2) by (simp add: settleable_def)
  then have st: "status_of (w_db ?i') oid = Some k"
    using settled_by_status [of oid k "w_db ?i" "view ws (w_db ?i)"] p r(1) by (auto simp: settled_by_def)
  then have "inv_idle L oid lns enough ?i'" using c k by (auto simp: inv_idle_def calm_inv_def)
  moreover have "Client_transition (http_call (serve L S)) C oid (action_of k) w = (Inr (), w\<lparr>sw_inv := ?i'\<rparr>)"
    using client_do_calm [OF S refl ro act net run]
    by (auto simp: Client_transition_def and_then_def of_result_def transition_outcome_def inv_answer_def writeJSON_def)
  ultimately show ?thesis using st by blast
qed


section \<open>The order service\<close>

text \<open>Nothing fails; a pending order can be decided, after another identifier if the payment is to come.\<close>

definition order_idle :: "golib \<Rightarrow> string \<Rightarrow> bool \<Rightarrow> order_db world \<Rightarrow> bool" where
  "order_idle L u paid d \<longleftrightarrow> w_faults d = []
     \<and> (order_status (w_db d) u = StatusPending \<longrightarrow>
          (\<exists>oid agg. OrderID_String L oid = u \<and> Order_Load L oid d = (Inr agg, d) \<and> o_status agg = StatusPending)
          \<and> fresh_event L (w_db d) (w_uuids d) \<and> (paid \<or> fresh_event L (w_db d) (w_uuids d + 1)))"

lemma order_idle_sagas:
  assumes L: "uuid_laws L" and inv: "store_inv L (w_db d)" and idle: "order_idle L u paid d"
  shows "order_idle L u paid (d\<lparr>w_db := (w_db d)\<lparr>t_sagas := S\<rparr>\<rparr>)"
proof -
  have "order_status ((w_db d)\<lparr>t_sagas := S\<rparr>) u = order_status (w_db d) u"
    by (simp add: order_status_def stream_types_def rows_of_def)
  then show ?thesis
    using idle sagas_apart(2) [OF L inv, where S = S] unfolding order_idle_def
    by (auto simp: fresh_event_def)
qed

lemma order_idle_uuids:
  assumes L: "uuid_laws L" and inv: "store_inv L (w_db d)" and idle: "order_idle L u False d" and n: "n \<le> 1"
  shows "order_idle L u True (d\<lparr>w_uuids := w_uuids d + n\<rparr>)"
proof -
  have calm: "w_faults d = []" using idle by (simp add: order_idle_def)
  have "Order_Load L oid (d\<lparr>w_uuids := w_uuids d + n\<rparr>) = (Inr agg, d\<lparr>w_uuids := w_uuids d + n\<rparr>)"
    if "Order_Load L oid d = (Inr agg, d)" for oid agg
    using that Load_calm [OF L inv calm, of oid] Load_calm [OF L, of "d\<lparr>w_uuids := w_uuids d + n\<rparr>" oid] inv calm by simp
  moreover have "n = 0 \<or> n = 1" using n by auto
  ultimately show ?thesis using idle by (auto simp: order_idle_def)
qed

lemma order_idle_decided:
  assumes L: "uuid_laws L" and d: "decided L oid st w w'" and st: "st = StatusConfirmed \<or> st = StatusCancelled"
  shows "order_idle L (OrderID_String L oid) paid w'"
proof -
  obtain agg where "w_faults w' = []" "store_inv L (w_db w')" "Order_Load L oid w' = (Inr agg, w')" "o_status agg = st"
    using d by (auto simp: decided_def)
  moreover from this have "order_status (w_db w') (OrderID_String L oid) = st"
    using Load_status [OF L, of w' oid agg w'] st by (intro order_status_types) auto
  ultimately show ?thesis using st by (auto simp: order_idle_def)
qed

section \<open>The contract\<close>

definition gateway_answers :: "(PaymentRequest \<Rightarrow> (saga_world, order_sentinel, PaymentResult) prog) \<Rightarrow> bool" where
  "gateway_answers pay \<longleftrightarrow> (\<forall>req w. \<exists>res n. n \<le> 1 \<and> pg_text (py_Reference res) \<and> pg_text (py_Decline res)
     \<and> pay req w = (Inr res, w\<lparr>sw_order := (sw_order w)\<lparr>w_uuids := w_uuids (sw_order w) + n\<rparr>\<rparr>))"

definition saga_idle :: "golib \<Rightarrow> OrderPlacedV1 \<Rightarrow> ReserveLine_inv list \<Rightarrow> bool \<Rightarrow> bool \<Rightarrow> saga_world \<Rightarrow> bool" where
  "saga_idle L event lns enough paid w \<longleftrightarrow> services_inv L event w \<and> sw_net w = []
     \<and> order_idle L (op_OrderID event) paid (sw_order w) \<and> inv_idle L (op_OrderID event) lns enough (sw_inv w)"

text \<open>The lines inventory makes of an event's items.\<close>

definition event_clean :: "OrderPlacedV1 \<Rightarrow> ReserveLine_inv list \<Rightarrow> bool" where
  "event_clean event lns \<longleftrightarrow> event_lines event \<noteq> []
     \<and> validate_lines [] (map input_line (event_lines event)) = Inr lns \<and> list_all (pg_text \<circ> irl_SKU) lns"

lemma validated_lines:
  "validate_lines seen ls = Inr lns \<Longrightarrow> list_all (pg_text \<circ> irl_SKU) lns \<Longrightarrow>
   list_all clean_line lns \<and> distinct (map irl_SKU lns) \<and> set (map irl_SKU lns) \<inter> set seen = {}"
proof (induction ls arbitrary: seen lns)
  case (Cons l ls)
  then obtain sku q rest where s: "NewSKU_inv (rli_SKU l) = Inr sku" and q: "NewQuantity_inv (rli_Quantity l) = Inr q"
    and new: "isku_value sku \<notin> set seen" and r: "validate_lines (isku_value sku # seen) ls = Inr rest"
    and lns: "lns = \<lparr>irl_SKU = isku_value sku, irl_Quantity = iqty_value q\<rparr> # rest"
    by (auto split: sum.splits if_splits)
  have "NewSKU_inv (isku_value sku) = Inr (SKU_inv (isku_value sku))"
    using s by (auto simp: NewSKU_inv_def Let_def split: if_splits)
  moreover have "\<exists>q'. NewQuantity_inv (iqty_value q) = Inr q'"
    using q by (auto simp: NewQuantity_inv_def split: if_splits)
  ultimately show ?case using Cons.IH [OF r] Cons.prems(2) new by (auto simp: lns clean_line_def)
qed simp

text \<open>One deployment, in which everybody answers.\<close>

definition answering :: "golib \<Rightarrow> ctx \<Rightarrow> time \<Rightarrow> inv_server \<Rightarrow> OrderPlacedV1 \<Rightarrow> ReserveLine_inv list \<Rightarrow> bool
    \<Rightarrow> (PaymentRequest \<Rightarrow> (saga_world, order_sentinel, PaymentResult) prog) \<Rightarrow> bool" where
  "answering L C now S event lns approves pay \<longleftrightarrow>
     uuid_laws L \<and> quiet_server S \<and> canonical L (op_OrderID event) \<and> gateway_ok (op_OrderID event) approves pay
     \<and> gateway_answers pay \<and> event_clean event lns \<and> instant_ok now
     \<and> pg_text (ctx_traceID C) \<and> pg_json (enc_headers (InjectToMap C json_content))"

lemma command_answers:
  assumes A: "answering L C now S event lns approves pay" and idle: "saga_idle L event lns enough b w"
    and pend: "saga_order_status event w = StatusPending" and reason: "pg_text reason"
  shows "\<exists>d. Confirm_Handle L C now (op_OrderID event) (sw_order w) = (Inr (), d) \<and> order_idle L (op_OrderID event) b d"
    and "\<exists>d. Cancel_Handle L C now (op_OrderID event) reason (sw_order w) = (Inr (), d) \<and> order_idle L (op_OrderID event) b d"
proof -
  have L: "uuid_laws L" and a: "instant_ok now" "pg_text (ctx_traceID C)" "pg_json (enc_headers (InjectToMap C json_content))"
    using A by (simp_all add: answering_def)
  have inv: "store_inv L (w_db (sw_order w))" and calm: "w_faults (sw_order w) = []"
    using idle by (simp_all add: saga_idle_def services_inv_def order_idle_def)
  obtain oid agg where o: "OrderID_String L oid = op_OrderID event" "Order_Load L oid (sw_order w) = (Inr agg, sw_order w)"
    "o_status agg = StatusPending" "fresh_event L (w_db (sw_order w)) (w_uuids (sw_order w))"
    using idle pend by (auto simp: saga_idle_def order_idle_def saga_order_status_def)
  note c = commands_calm [OF L inv calm o(2,3) a(1) reason a(2,3) o(4), unfolded o(1)]
  show "\<exists>d. Confirm_Handle L C now (op_OrderID event) (sw_order w) = (Inr (), d) \<and> order_idle L (op_OrderID event) b d"
    using c(1) order_idle_decided [OF L, of oid StatusConfirmed] o(1) by auto
  show "\<exists>d. Cancel_Handle L C now (op_OrderID event) reason (sw_order w) = (Inr (), d) \<and> order_idle L (op_OrderID event) b d"
    using c(2) order_idle_decided [OF L, of oid StatusCancelled] o(1) by auto
qed


text \<open>What an idle state takes to stay idle.\<close>

lemma saga_idle_order:
  "saga_idle L event lns enough b w \<Longrightarrow> services_inv L event (w\<lparr>sw_order := d\<rparr>) \<Longrightarrow> order_idle L (op_OrderID event) c d \<Longrightarrow>
   saga_idle L event lns enough c (w\<lparr>sw_order := d\<rparr>)"
  by (simp add: saga_idle_def)

lemma saga_idle_inv:
  "saga_idle L event lns enough b w \<Longrightarrow> services_inv L event (w\<lparr>sw_inv := i\<rparr>) \<Longrightarrow> inv_idle L (op_OrderID event) lns enough i \<Longrightarrow>
   saga_idle L event lns enough b (w\<lparr>sw_inv := i\<rparr>)"
  by (simp add: saga_idle_def)

lemma deployed_calm:
  assumes A: "answering L C now S event lns approves pay"
  shows "calm_services (orchestrator_ports L C now (serve L S) pay) event approves (services_inv L event)
    (saga_order_status event) (saga_reservation event) (saga_saved event) (saga_idle L event lns enough) enough"
proof -
  have L: "uuid_laws L" and Q: "quiet_server S" and oid: "canonical L (op_OrderID event)" and pay: "gateway_ok (op_OrderID event) approves pay"
    and ans: "gateway_answers pay" and lines: "event_clean event lns"
    using A by (simp_all add: answering_def)
  have S: "open_server S" using Q by (simp add: quiet_server_def)
  note D = deployed_services [OF L S oid pay, of C now]
  let ?P = "orchestrator_ports L C now (serve L S) pay" and ?idle = "saga_idle L event lns enough"
  have clean: "event_lines event \<noteq> []" "validate_lines [] (map input_line (event_lines event)) = Inr lns"
    "list_all clean_line lns" "distinct (map irl_SKU lns)"
    using lines validated_lines [of "[]" _ lns] by (auto simp: event_clean_def)
  have inv: "services_inv L event w" "sw_net w = []" "ledger_ok (w_db (sw_inv w))" "store_inv L (w_db (sw_order w))"
    "w_faults (sw_order w) = []" "order_idle L (op_OrderID event) b (sw_order w)" "inv_idle L (op_OrderID event) lns enough (sw_inv w)"
    if "?idle b w" for b w
    using that by (simp_all add: saga_idle_def services_inv_def order_idle_def)
  have settle: "\<exists>w'. Client_transition (http_call (serve L S)) C (op_OrderID event) (action_of k) w = (Inr (), w')
      \<and> ?idle b w' \<and> saga_reservation event w' = Some k"
    if i: "?idle b w" and held: "saga_reservation event w = Some StatusHeld" and k: "final_status k" for b w k
  proof -
    obtain i where c: "Client_transition (http_call (serve L S)) C (op_OrderID event) (action_of k) w = (Inr (), w\<lparr>sw_inv := i\<rparr>)"
      "inv_idle L (op_OrderID event) lns enough i" "status_of (w_db i) (op_OrderID event) = Some k"
      using Client_settle_calm [OF L Q oid inv(2) [OF i] k inv(7) [OF i]] held by (auto simp: saga_reservation_def)
    have "services_inv L event (w\<lparr>sw_inv := i\<rparr>)" using settle_law [OF L S oid k inv(1) [OF i] c(1)] by blast
    from saga_idle_inv [OF i this c(2)] c show ?thesis by (auto simp: saga_reservation_def)
  qed
  show ?thesis
  proof (intro calm_services.intro D calm_services_axioms.intro, goal_cases)
    case (1 b w)
    then show ?case by (simp add: saga_idle_def)
  next
    case (2 w)
    then show ?case by (auto simp: saga_idle_def order_idle_def)
  next
    case (3 b w)
    have "po_Load ?P (op_OrderID event) w = (Inr (saga_record (w_db (sw_order w)) (op_OrderID event)), w)"
      using Saga_Load_calm [OF L oid inv(5) [OF 3]] by (simp add: orchestrator_ports_def on_order_def)
    with 3 show ?case by blast
  next
    case (4 b w i)
    have can: "canonical L (in_OrderID i)" using oid 4(2) by simp
    obtain T where "Saga_Save L i (sw_order w) = (Inr (), (sw_order w)\<lparr>w_db := (w_db (sw_order w))\<lparr>t_sagas := T\<rparr>\<rparr>)" (is "_ = (_, ?d)")
      using Saga_Save_calm [OF L can inv(5) [OF 4(1)] 4(3-5)] by blast
    then have run: "po_Save ?P i w = (Inr (), w\<lparr>sw_order := ?d\<rparr>)" by (simp add: orchestrator_ports_def on_order_def)
    have "services_inv L event (w\<lparr>sw_order := ?d\<rparr>)" using saga_services.save [OF D run inv(1) [OF 4(1)] 4(2,3)] by blast
    from saga_idle_order [OF 4(1) this order_idle_sagas [OF L inv(4,6) [OF 4(1)]]] run show ?case by blast
  next
    case (5 b w)
    obtain r i where c: "Client_Reserve (http_call (serve L S)) C (op_OrderID event) (event_lines event) w = (r, w\<lparr>sw_inv := i\<rparr>)"
      "inv_idle L (op_OrderID event) lns enough i"
      "if enough then r = Inr () else \<exists>e. r = Inl e \<and> errors_Is e ErrReservationRejected"
      using Client_Reserve_calm [OF L Q oid inv(2,3,7) [OF 5(1)] _ clean] 5(2) unfolding saga_reservation_def by blast
    have "services_inv L event (w\<lparr>sw_inv := i\<rparr>)" using reserve_law [OF L S oid inv(1) [OF 5(1)] c(1)] by blast
    from saga_idle_inv [OF 5(1) this c(2)] c show ?case by (auto simp: orchestrator_ports_def)
  next
    case (6 w req)
    obtain res n where p: "n \<le> 1" "pg_text (py_Reference res)" "pg_text (py_Decline res)"
      "pay req w = (Inr res, w\<lparr>sw_order := (sw_order w)\<lparr>w_uuids := w_uuids (sw_order w) + n\<rparr>\<rparr>)" (is "_ = (_, w\<lparr>sw_order := ?d\<rparr>)")
      using ans unfolding gateway_answers_def by blast
    have run: "po_Authorize ?P req w = (Inr res, w\<lparr>sw_order := ?d\<rparr>)" using p(4) by (simp add: orchestrator_ports_def)
    have "services_inv L event (w\<lparr>sw_order := ?d\<rparr>)" using inv(1) [OF 6] by (simp add: services_inv_def)
    from saga_idle_order [OF 6 this order_idle_uuids [OF L inv(4,6) [OF 6] p(1)]] p(2,3) run show ?case by blast
  next
    case (7 b w)
    then show ?case using settle [of b w StatusReleased] by (simp add: orchestrator_ports_def Client_Release_def action_of_def)
  next
    case (8 b w)
    then show ?case using settle [of b w StatusCommitted] by (simp add: orchestrator_ports_def Client_Commit_def action_of_def)
  next
    case (9 b w)
    have t: "pg_text []" by simp
    obtain d where d: "Confirm_Handle L C now (op_OrderID event) (sw_order w) = (Inr (), d)" "order_idle L (op_OrderID event) b d"
      using command_answers(1) [OF A 9 t] by blast
    have run: "po_Confirm ?P (op_OrderID event) w = (Inr (), w\<lparr>sw_order := d\<rparr>)"
      using d(1) by (simp add: orchestrator_ports_def orderController_Confirm_def on_order_def)
    have "services_inv L event (w\<lparr>sw_order := d\<rparr>)" using saga_services.confirm [OF D run inv(1) [OF 9(1)]] by blast
    from saga_idle_order [OF 9(1) this d(2)] run show ?case by blast
  next
    case (10 b w reason)
    obtain d where d: "Cancel_Handle L C now (op_OrderID event) reason (sw_order w) = (Inr (), d)" "order_idle L (op_OrderID event) b d"
      using command_answers(2) [OF A 10] by blast
    have run: "po_Cancel ?P (op_OrderID event) reason w = (Inr (), w\<lparr>sw_order := d\<rparr>)"
      using d(1) by (simp add: orchestrator_ports_def orderController_Cancel_def on_order_def)
    have "services_inv L event (w\<lparr>sw_order := d\<rparr>)" using saga_services.cancel [OF D run inv(1) [OF 10(1)]] by blast
    from saga_idle_order [OF 10(1) this d(2)] run show ?case by blast
  qed
qed


section \<open>One delivery decides the order\<close>

text \<open>C37. While nothing fails, the saga comes to its end within a single delivery of order.placed:
  the handler answers nil, the order is confirmed and its stock committed when the stock covers
  its lines and the payment service approves; it is cancelled and its stock released when the
  payment is declined, and cancelled without a reservation when the stock does not suffice.\<close>

theorem calm_saga_decides:
  assumes "answering L C now S event lns approves pay" and "saga_ready L event w"
    and "sw_net w = []" and "w_faults (sw_order w) = []" and "calm_inv (sw_inv w)"
    and "OrderID_String L oid = op_OrderID event"
    and "Order_Load L oid (sw_order w) = (Inr agg, sw_order w)" and "o_status agg = StatusPending"
    and "fresh_event L (w_db (sw_order w)) (w_uuids (sw_order w))"
    and "fresh_event L (w_db (sw_order w)) (w_uuids (sw_order w) + 1)"
    and "\<forall>q \<in> set (t_reservations (w_db (sw_inv w))). rr_id q \<noteq> next_id L (sw_inv w)"
    and "roomy (2 ^ 61) (w_db (sw_inv w))"
  shows "\<exists>w'. Saga_Handle (orchestrator_ports L C now (serve L S) pay) event w = (Inr (), w')
    \<and> (saga_order_status event w', saga_reservation event w') =
        (if stocked (w_db (sw_inv w)) lns
         then if approves then (StatusConfirmed, Some StatusCommitted) else (StatusCancelled, Some StatusReleased)
         else (StatusCancelled, None))"
proof -
  let ?e = "stocked (w_db (sw_inv w)) lns"
  have idle: "saga_idle L event lns ?e False w"
    using assms(2-) by (auto simp: saga_idle_def saga_ready_def order_idle_def inv_idle_def saga_reservation_def)
  note calm = deployed_calm [OF assms(1), of ?e]
  have "saga_order_status event w = StatusPending \<and> saga_reservation event w = None \<and> saga_saved event w = None"
    using assms(2) by (simp add: saga_ready_def)
  then show ?thesis
    using calm_services.handle_goes [OF calm] idle
    unfolding calm_services.goes_def [OF calm] calm_services.stand_def [OF calm] calm_services.outcome_def [OF calm]
    by fastforce
qed

text \<open>The sample order, with its stock on the shelf.\<close>

definition stocked_inventory :: inv_world where
  "stocked_inventory = bare_inventory\<lparr>w_db := \<lparr>t_stock = [(''SKU-1'', \<lparr>sr_available = 5, sr_reserved = 0, sr_version = 1\<rparr>)],
     t_reservations = [], t_lines = []\<rparr>\<rparr>"

definition sample_clean :: "ReserveLine_inv list" where
  "sample_clean = [\<lparr>irl_SKU = ''SKU-1'', irl_Quantity = 2\<rparr>]"

lemma sample_answering: "answering std_lib sample_ctx 0 sample_server sample_event sample_clean True sample_pay"
proof -
  have "\<not> stub_declines ''approve''" by (simp add: stub_declines_def text_simps) (code_simp)?
  then have "gateway_answers sample_pay"
    using uuid_laws.string_text [OF std.uuid_laws_axioms]
    by (auto simp: gateway_answers_def sample_pay_def Stub_Authorize_def on_order_def act_simps new_uuid_def
        intro!: exI [of _ "1::nat"])
  moreover have "event_clean sample_event sample_clean"
    unfolding event_clean_def sample_lines by (simp add: sample_clean_def sample_event_def)
  ultimately show ?thesis
    using sample_deployment instant_zero
    by (simp add: answering_def deployment_ok_def quiet_server_def sample_server_def sample_ctx_def InjectToMap_def
        json_content_def enc_headers_def HeaderContentType_def)
qed

interpretation std_calm: calm_services
  "orchestrator_ports std_lib sample_ctx 0 (serve std_lib sample_server) sample_pay" sample_event True
  "services_inv std_lib sample_event" "saga_order_status sample_event" "saga_reservation sample_event"
  "saga_saved sample_event" "saga_idle std_lib sample_event sample_clean True" True
  by (rule deployed_calm [OF sample_answering])

theorem calm_saga_decides_witness:
  "\<exists>w w'. Saga_Handle (orchestrator_ports std_lib sample_ctx 0 (serve std_lib sample_server) sample_pay) sample_event w
      = (Inr (), w')
    \<and> saga_order_status sample_event w' = StatusConfirmed \<and> saga_reservation sample_event w' = Some StatusCommitted"
proof -
  obtain w agg where w: "store_inv std_lib (w_db w)" "w_faults w = []" "Order_Load std_lib (OrderID 1) w = (Inr agg, w)"
    "o_status agg = StatusPending" "fresh_event std_lib (w_db w) (w_uuids w)"
    "fresh_event std_lib (w_db w) (w_uuids w + 1)" "t_sagas (w_db w) = []"
    using sample_placed by blast
  let ?w = "(sample_sagas w)\<lparr>sw_inv := stocked_inventory\<rparr>"
  have oid: "OrderID_String std_lib (OrderID 1) = op_OrderID sample_event"
    by (simp add: sample_event_def sample_wire_def OrderID_String_def)
  have "stocked (w_db (sw_inv ?w)) sample_clean"
    by (simp add: stocked_def stocked_inventory_def sample_clean_def stock_of_def)
  moreover have ledger: "ledger_ok (w_db stocked_inventory)" "w_env stocked_inventory = []"
    "status_of (w_db stocked_inventory) u = None" for u
    by (auto simp: stocked_inventory_def bare_inventory_def ledger_ok_def stock_of_def status_of_def Inventory_Ledger.row_ok_def held_qty_def)
  have "saga_ready std_lib sample_event ?w"
    using sample_ready [OF w(1,3,4,7)] ledger
    by (simp add: saga_ready_def services_inv_def saga_views known_def)
  moreover have "calm_inv (sw_inv ?w)" "roomy (2 ^ 61) (w_db (sw_inv ?w))" "t_reservations (w_db (sw_inv ?w)) = []"
    by (auto simp: calm_inv_def stocked_inventory_def bare_inventory_def roomy_def stock_of_def)
  moreover have "sw_net ?w = []" "sw_order ?w = w" by (simp_all add: sample_sagas_def)
  ultimately show ?thesis
    using calm_saga_decides [OF sample_answering, of ?w "OrderID 1" agg] w oid by auto
qed

end
