(* ===== verification/Order_Relay.thy ===== *)
theory Order_Relay
  imports Order_Calm
begin

text \<open>
  The outbox relay (relay\_store.go, producer.go, worker/relay): nothing is marked published that
  the broker has not accepted, whatever fails and whichever rows other relays hold; and in a run
  without faults the relay publishes the whole backlog, in the order it was written.
\<close>

definition relay_inv :: "order_db world \<Rightarrow> bool" where
  "relay_inv w = (\<forall>r \<in> set (t_outbox (w_db w)). ob_Published r \<longrightarrow>
     (\<exists>rec. scan_row r = Inr rec \<and> record_message rec \<in> set (w_sent w)))"

lemma scan_row_flag [simp]: "scan_row (r\<lparr>ob_Published := b\<rparr>) = scan_row r"
  by (simp add: scan_row_def split: option.split)

lemma scan_row_fields: "scan_row r = Inr rec \<Longrightarrow> or_ID rec = ob_ID r \<and> or_EventID rec = ob_EventID r"
  by (auto simp: scan_row_def split: option.splits)

lemma scan_rows_set: "scan_rows rs = Inr recs \<Longrightarrow> rec \<in> set recs \<Longrightarrow> \<exists>r \<in> set rs. scan_row r = Inr rec"
  by (induction rs arbitrary: recs) (auto split: sum.splits)

text \<open>Outbox ids are unique, so marking by id marks exactly the rows that were selected.\<close>

definition outbox_ids :: "order_db \<Rightarrow> bool" where
  "outbox_ids d = distinct (map ob_ID (t_outbox d))"

lemma db_stmt_sent: "db_stmt f w = (r, w') \<Longrightarrow> w_sent w' = w_sent w"
  by (auto simp: db_stmt_def next_fault_sent split: fault.splits sum.splits prod.splits)

lemma Publisher_Inr:
  "Publisher_Publish recs w = (Inr x, w') \<Longrightarrow>
   w_db w' = w_db w \<and> w_sent w' = w_sent w @ map record_message recs"
  by (auto simp: Publisher_Publish_def run_Inr dest!: WriteMessages_Inr split: if_splits)

abbreviation drain_body :: "int64 list \<Rightarrow> int \<Rightarrow> nat order_act" where
  "drain_body locked n \<equiv>
     and_then (wrap_err ''select outbox'' (db_stmt (select_outbox locked n))) (\<lambda>rows.
     and_then (of_result (scan_rows rows)) (\<lambda>records.
     and_then (wrap_err ''iterate outbox'' db_ping) (\<lambda>_.
       if records = [] then ok 0
       else
         and_then (Publisher_Publish records) (\<lambda>_.
         and_then (wrap_err ''mark published'' (db_stmt (mark_published (map or_ID records)))) (\<lambda>_.
           ok (length records))))))"

definition batch :: "int64 list \<Rightarrow> int \<Rightarrow> order_db \<Rightarrow> OutboxRow list" where
  "batch locked n d =
     take (nat n) (sort_key (\<lambda>r. sint (ob_ID r))
       (filter (\<lambda>r. \<not> ob_Published r \<and> ob_ID r \<notin> set locked) (t_outbox d)))"

lemma drain_body_Inr:
  assumes "drain_body locked n w = (Inr k, w')"
  shows "\<exists>records. scan_rows (batch locked n (w_db w)) = Inr records \<and> k = length records
    \<and> mark_published (map or_ID records) (w_db w) = Inr ((), w_db w')
    \<and> w_sent w' = w_sent w @ map record_message records"
proof -
  from assms obtain rows w1 recs w2 where
    sel: "db_stmt (select_outbox locked n) w = (Inr rows, w1)" and sc: "scan_rows rows = Inr recs"
    and pg: "(db_ping :: unit order_act) w1 = (Inr (), w2)"
    and rest: "(if recs = [] then ok 0 else and_then (Publisher_Publish recs) (\<lambda>_.
         and_then (wrap_err ''mark published'' (db_stmt (mark_published (map or_ID recs)))) (\<lambda>_.
           ok (length recs)))) w2 = (Inr k, w')"
    unfolding and_then_Inr map_err_Inr simple_Inr by auto
  have rows: "rows = batch locked n (w_db w)" and same: "w_db w2 = w_db w" "w_sent w2 = w_sent w"
    using db_stmt_Inr [OF sel] db_stmt_sent [OF sel] db_stmt_Inr [OF pg [unfolded db_ping_def]]
      db_stmt_sent [OF pg [unfolded db_ping_def]]
    by (auto simp: select_outbox_def batch_def split: if_splits)
  show ?thesis
  proof (cases "recs = []")
    case True
    then show ?thesis using rest sc rows same by (auto simp: ok_def mark_published_def)
  next
    case False
    with rest obtain w3 where "Publisher_Publish recs w2 = (Inr (), w3)"
      and mk: "db_stmt (mark_published (map or_ID recs)) w3 = (Inr (), w')" and "k = length recs"
      by (auto simp: run_Inr)
    with Publisher_Inr [OF this(1)] db_stmt_Inr [OF mk] db_stmt_sent [OF mk] sc rows same
    show ?thesis by auto
  qed
qed

lemma DrainBatch_body: "DrainBatch locked n Publisher_Publish =
    db_tx (\<lambda>k. if k = 0 then id else Wrapf ''commit tx'') (drain_body locked n)"
  by (simp add: DrainBatch_def)

lemma DrainBatch_sent: "sent_grows (DrainBatch locked n Publisher_Publish)"
  unfolding DrainBatch_def Publisher_Publish_def by (auto intro!: sending)

lemma mark_published_ids:
  assumes "mark_published ids d = Inr (x, d')"
  shows "map ob_ID (t_outbox d') = map ob_ID (t_outbox d)"
proof -
  have "t_outbox d' = map (\<lambda>r. if ob_ID r \<in> set ids then r\<lparr>ob_Published := True\<rparr> else r) (t_outbox d)"
    using assms by (auto simp: mark_published_def)
  then show ?thesis by simp
qed

lemma relay_inv_marked:
  assumes inv: "relay_inv w" and ids: "outbox_ids (w_db w)"
    and sc: "scan_rows (batch locked n (w_db w)) = Inr records"
    and mk: "mark_published (map or_ID records) (w_db w) = Inr ((), d')"
    and sent: "set (map record_message records) \<subseteq> set s'" "set (w_sent w) \<subseteq> set s'"
    and r: "r \<in> set (t_outbox d')" "ob_Published r"
  shows "\<exists>rec. scan_row r = Inr rec \<and> record_message rec \<in> set s'"
proof -
  from mk r(1) obtain r0 where r0: "r0 \<in> set (t_outbox (w_db w))"
    and r': "r = (if ob_ID r0 \<in> or_ID ` set records then r0\<lparr>ob_Published := True\<rparr> else r0)"
    by (auto simp: mark_published_def)
  show ?thesis
  proof (cases "ob_ID r0 \<in> or_ID ` set records")
    case True
    then obtain rec where rec: "rec \<in> set records" "or_ID rec = ob_ID r0" by auto
    from scan_rows_set [OF sc rec(1)] obtain q where q: "q \<in> set (batch locked n (w_db w))"
      and sq: "scan_row q = Inr rec" by blast
    have "q \<in> set (t_outbox (w_db w))" using q by (auto simp: batch_def dest: in_set_takeD)
    moreover have "ob_ID q = ob_ID r0" using scan_row_fields [OF sq] rec by simp
    ultimately have "q = r0"
      using ids r0 by (auto simp: outbox_ids_def distinct_map dest: inj_onD)
    with sq True r' rec sent(1) show ?thesis by auto
  next
    case False
    with r' r(2) have "r = r0" "ob_Published r0" by auto
    with inv r0 sent(2) show ?thesis unfolding relay_inv_def by blast
  qed
qed

text \<open>C6. At-least-once delivery: whatever statement or broker call fails, and whichever rows other
  relays hold locked, a relay cycle never unsends a message, and every row that is marked
  published has had its message accepted by the broker; a row whose message was not accepted
  stays unpublished for the next cycle.\<close>

theorem relay_at_least_once:
  assumes inv: "relay_inv w" and ids: "outbox_ids (w_db w)"
    and run: "relay_cycle locked n w = (again, w')"
  shows "relay_inv w' \<and> outbox_ids (w_db w') \<and> prefix (w_sent w) (w_sent w')"
proof -
  obtain r where t: "DrainBatch locked n Publisher_Publish w = (r, w')"
    using relay_cycle_db [OF run] by (metis prod.collapse)
  have pre: "prefix (w_sent w) (w_sent w')"
    using DrainBatch_sent t unfolding sent_grows_def by (metis snd_conv)
  then have sub: "set (w_sent w) \<subseteq> set (w_sent w')" by (rule set_mono_prefix)
  have drained: "relay_inv w' \<and> outbox_ids (w_db w')"
    if b: "drain_body locked n w1 = (Inr k, w2)" and d: "w_db w1 = w_db w" "w_sent w1 = w_sent w"
      "w_db w' = w_db w2" "w_sent w' = w_sent w2" for w1 k w2
  proof -
    from drain_body_Inr [OF b] d obtain records where sc: "scan_rows (batch locked n (w_db w)) = Inr records"
      and mk: "mark_published (map or_ID records) (w_db w) = Inr ((), w_db w')"
      and s: "w_sent w' = w_sent w @ map record_message records" by auto
    have "relay_inv w'"
      unfolding relay_inv_def using relay_inv_marked [OF inv ids sc mk, of "w_sent w'"] s by auto
    moreover have "outbox_ids (w_db w')"
    proof -
      have "map ob_ID (t_outbox (w_db w')) = map ob_ID (t_outbox (w_db w))"
        by (rule mark_published_ids [OF mk])
      with ids show ?thesis by (simp add: outbox_ids_def)
    qed
    ultimately show ?thesis ..
  qed
  from t [unfolded DrainBatch_body] have "relay_inv w' \<and> outbox_ids (w_db w')"
  proof (cases rule: db_tx_atomic)
    case (rolled_back e)
    then show ?thesis using inv ids sub by (auto simp: relay_inv_def)
  next
    case (committed k w1 w2)
    then show ?thesis using drained [of w1 k w2] by simp
  next
    case (reply_lost k w1 w2)
    then show ?thesis using drained [of w1 k w2] by simp
  qed
  with pre show ?thesis by blast
qed

section \<open>Progress\<close>

text \<open>What is left to publish, by the ids of the rows.\<close>

definition backlog :: "order_db \<Rightarrow> OutboxRow list" where
  "backlog d = sort_key (\<lambda>r. sint (ob_ID r)) (filter (\<lambda>r. \<not> ob_Published r) (t_outbox d))"

definition row_message :: "OutboxRow \<Rightarrow> message" where
  "row_message r = (case scan_row r of Inr rec \<Rightarrow> record_message rec
     | Inl _ \<Rightarrow> \<lparr>msg_Topic = [], msg_Key = [], msg_Value = None, msg_Headers = []\<rparr>)"

definition scannable :: "order_db \<Rightarrow> bool" where
  "scannable d = list_all (\<lambda>r. dec_headers (ob_Headers r) \<noteq> None) (t_outbox d)"

lemma scannable_row: "scannable d \<Longrightarrow> r \<in> set (t_outbox d) \<Longrightarrow> \<exists>rec. scan_row r = Inr rec"
  by (auto simp: scannable_def list_all_iff scan_row_def)

lemma scan_rows_all:
  "(\<And>r. r \<in> set rs \<Longrightarrow> \<exists>rec. scan_row r = Inr rec) \<Longrightarrow>
   \<exists>recs. scan_rows rs = Inr recs \<and> map or_ID recs = map ob_ID rs
     \<and> map record_message recs = map row_message rs"
proof (induction rs)
  case Nil
  then show ?case by simp
next
  case (Cons r rs)
  then obtain rec recs where "scan_row r = Inr rec" "scan_rows rs = Inr recs"
    "map or_ID recs = map ob_ID rs" "map record_message recs = map row_message rs"
    by (metis list.set_intros)
  then show ?case using scan_row_fields [of r rec] by (simp add: row_message_def)
qed

lemma insort_key_map: "(\<And>r. f (g r) = f r) \<Longrightarrow> insort_key f (g x) (map g xs) = map g (insort_key f x xs)"
  by (induction xs) simp_all

lemma sort_key_map: "(\<And>r. f (g r) = f r) \<Longrightarrow> sort_key f (map g xs) = map g (sort_key f xs)"
  by (induction xs) (simp_all add: insort_key_map)

text \<open>Marking the first rows of the backlog leaves the others.\<close>

lemma filter_mark:
  assumes "distinct (map key rs)" and "\<And>r. \<not> P (mark r)"
  shows "filter P (map (\<lambda>r. if key r \<in> key ` set (take n (filter P rs)) then mark r else r) rs)
    = drop n (filter P rs)"
  using assms(1)
proof (induction rs arbitrary: n)
  case Nil
  then show ?case by simp
next
  case (Cons r rs)
  have "key r \<notin> key ` set rs" using Cons.prems by simp
  then have neq: "\<And>q. q \<in> set rs \<Longrightarrow> key q \<noteq> key r" by (metis imageI)
  show ?case
  proof (cases "P r")
    case False
    have "key r \<notin> key ` set (take n (filter P rs))"
      using neq by (fastforce dest: in_set_takeD)
    with False Cons show ?thesis by simp
  next
    case True
    show ?thesis
    proof (cases n)
      case 0
      with True show ?thesis using Cons by simp
    next
      case (Suc m)
      have "map (\<lambda>q. if key q = key r \<or> key q \<in> key ` set (take m (filter P rs)) then mark q else q) rs
          = map (\<lambda>q. if key q \<in> key ` set (take m (filter P rs)) then mark q else q) rs"
        using neq by (intro map_cong) auto
      then have "filter P (map (\<lambda>q. if key q = key r \<or> key q \<in> key ` set (take m (filter P rs)) then mark q else q) rs)
          = drop m (filter P rs)"
        using Cons.IH [of m] Cons.prems by (simp del: map_eq_conv)
      with True Suc assms(2) show ?thesis by simp
    qed
  qed
qed

lemma relay_cycle_calm:
  assumes calm: "w_faults w = []" and ids: "outbox_ids (w_db w)" and sc: "scannable (w_db w)" and n: "0 < n"
  shows "\<exists>again w'. relay_cycle [] n w = (again, w') \<and> w_faults w' = [] \<and> outbox_ids (w_db w')
    \<and> scannable (w_db w') \<and> backlog (w_db w') = drop (nat n) (backlog (w_db w))
    \<and> w_sent w' = w_sent w @ map row_message (take (nat n) (backlog (w_db w)))"
proof -
  let ?b = "take (nat n) (backlog (w_db w))"
  have "\<exists>rec. scan_row r = Inr rec" if "r \<in> set ?b" for r
    using scannable_row [OF sc] that by (auto simp: backlog_def dest: in_set_takeD)
  from scan_rows_all [OF this] obtain recs where recs: "scan_rows ?b = Inr recs"
    "map or_ID recs = map ob_ID ?b" "map record_message recs = map row_message ?b" by blast
  define d' where "d' = (w_db w)\<lparr>t_outbox := map (\<lambda>r. if ob_ID r \<in> set (map or_ID recs)
      then r\<lparr>ob_Published := True\<rparr> else r) (t_outbox (w_db w))\<rparr>"
  have mk: "mark_published (map or_ID recs) (w_db w) = Inr ((), d')"
    by (simp add: mark_published_def d'_def)
  have sel: "select_outbox [] n (w_db w) = Inr (?b, w_db w)"
    using n by (simp add: select_outbox_def backlog_def)
  define w' where "w' = (if recs = [] then w
      else w\<lparr>w_sent := w_sent w @ map record_message recs, w_db := d'\<rparr>)"
  have "drain_body [] n w = (Inr (length recs), w')"
    using calm recs(1) sel mk
    by (simp add: and_then_def map_err_def of_result_def db_ping_def db_stmt_calm ok_def w'_def
        Publisher_Publish_def WriteMessages_calm)
  then have "DrainBatch [] n Publisher_Publish w = (Inr (length recs), w')"
    using calm unfolding DrainBatch_body by (simp add: pgx_tx_def w'_def)
  then have run: "relay_cycle [] n w = (int (length recs) = n, w')"
    by (simp add: relay_cycle_def)
  have "outbox_ids d'" using mark_published_ids [OF mk] ids by (simp add: outbox_ids_def)
  moreover have "scannable d'" using sc unfolding scannable_def d'_def by (auto simp: list_all_iff)
  moreover have "backlog d' = drop (nat n) (backlog (w_db w))"
  proof -
    let ?rs = "sort_key (\<lambda>r. sint (ob_ID r)) (t_outbox (w_db w))"
      and ?g = "\<lambda>r. if ob_ID r \<in> set (map or_ID recs) then r\<lparr>ob_Published := True\<rparr> else r"
    have b: "backlog (w_db w) = filter (\<lambda>r. \<not> ob_Published r) ?rs" by (simp add: backlog_def filter_sort)
    have "backlog d' = filter (\<lambda>r. \<not> ob_Published r) (map ?g ?rs)"
      by (simp add: backlog_def d'_def filter_sort [symmetric] sort_key_map)
    moreover have "distinct (map ob_ID ?rs)"
      using ids by (simp add: outbox_ids_def distinct_map)
    ultimately show ?thesis
      using filter_mark [of ob_ID ?rs "\<lambda>r. \<not> ob_Published r" "\<lambda>r. r\<lparr>ob_Published := True\<rparr>" "nat n"] recs(2) b by simp
  qed
  moreover have "recs = [] \<longleftrightarrow> ?b = []" using recs(2) by (metis list.map_disc_iff)
  ultimately show ?thesis
    using run calm ids sc recs(3) n by (auto simp: w'_def)
qed

text \<open>C7. The relay drains: without faults, after enough cycles nothing is left unpublished, and the
  broker has received exactly the backlog, once each and in the order of the outbox ids.\<close>

theorem relay_drains:
  assumes "w_faults w = []" and "outbox_ids (w_db w)" and "scannable (w_db w)" and "0 < n"
    and "length (backlog (w_db w)) \<le> cycles * nat n"
  shows "backlog (w_db (relay_Run n (replicate cycles []) w)) = []
    \<and> w_sent (relay_Run n (replicate cycles []) w) = w_sent w @ map row_message (backlog (w_db w))"
  using assms
proof (induction cycles arbitrary: w)
  case 0
  then show ?case by simp
next
  case (Suc k)
  from relay_cycle_calm [OF Suc.prems(1-4)] obtain again w' where
    c: "relay_cycle [] n w = (again, w')" "w_faults w' = []" "outbox_ids (w_db w')" "scannable (w_db w')"
      "backlog (w_db w') = drop (nat n) (backlog (w_db w))"
      "w_sent w' = w_sent w @ map row_message (take (nat n) (backlog (w_db w)))" by blast
  have "length (backlog (w_db w')) \<le> k * nat n" using c(5) Suc.prems(5) by simp
  from Suc.IH [OF c(2-4) Suc.prems(4) this] c show ?case
    by (simp add: map_append [symmetric])
qed

definition relay_sample :: "order_db world" where
  "relay_sample = \<lparr>w_db = empty_order_db\<lparr>t_outbox :=
      [\<lparr>ob_ID = 1, ob_EventID = ''e1'', ob_AggregateID = ''a'', ob_Topic = ''orders.events'',
        ob_Type = ''order.placed.v1'', ob_Payload = JNull, ob_Headers = JObj [], ob_TraceID = [],
        ob_Published = False\<rparr>,
       \<lparr>ob_ID = 2, ob_EventID = ''e2'', ob_AggregateID = ''a'', ob_Topic = ''orders.events'',
        ob_Type = ''order.confirmed.v1'', ob_Payload = JNull, ob_Headers = JObj [], ob_TraceID = [],
        ob_Published = False\<rparr>]\<rparr>,
     w_uuids = 0, w_faults = [], w_sent = []\<rparr>"

theorem relay_drains_witness:
  "backlog (w_db (relay_Run 1 (replicate 2 []) relay_sample)) = []
    \<and> map msg_Headers (w_sent (relay_Run 1 (replicate 2 []) relay_sample))
      = [[(''event-type'', ''order.placed.v1''), (''event-id'', ''e1'')],
         [(''event-type'', ''order.confirmed.v1''), (''event-id'', ''e2'')]]"
  using relay_drains [of relay_sample 1 2]
  by (simp add: relay_sample_def outbox_ids_def scannable_def backlog_def empty_order_db_def
      row_message_def scan_row_def record_message_def HeaderEventType_def HeaderEventID_def)

theorem relay_at_least_once_witness:
  "\<exists>again w'. relay_cycle [2] 5 (relay_sample\<lparr>w_faults := [Fine, Fine, Fine, Fine, Failed]\<rparr>) = (again, w')
     \<and> relay_inv w' \<and> w_sent w' \<noteq> [] \<and> map ob_Published (t_outbox (w_db w')) = [False, False]"
proof -
  let ?w = "relay_sample\<lparr>w_faults := [Fine, Fine, Fine, Fine, Failed]\<rparr>"
  obtain again w' where run: "relay_cycle [2] 5 ?w = (again, w')" by fastforce
  have "relay_inv w'"
    using relay_at_least_once [OF _ _ run]
    by (simp add: relay_sample_def relay_inv_def outbox_ids_def empty_order_db_def)
  moreover have "w_sent w' \<noteq> [] \<and> map ob_Published (t_outbox (w_db w')) = [False, False]"
    using run
    by (auto simp: relay_cycle_def relay_sample_def empty_order_db_def DrainBatch_def pgx_tx_def next_fault_def
        and_then_def map_err_def of_result_def db_ping_def db_stmt_def select_outbox_def scan_row_def
        Publisher_Publish_def broker_call_def)
  ultimately show ?thesis using run by (intro exI [of _ again] exI [of _ w']) simp
qed

end
