(* ===== verification/Http_Guards.thy ===== *)
theory Http_Guards
  imports Order_Http Inventory_App Fulfillment_Http
begin

text \<open>
  The guard in front of the three APIs. The locale \<open>protected_api\<close> is what a router's table of
  routes has to satisfy, each route being behind the authentication or leaving the state alone;
  what follows from it is proved once and holds of the tables of the order, inventory and
  fulfillment services.
\<close>

section \<open>A protected table of routes\<close>

text \<open>A database probe that only looks.\<close>

definition probe :: "('w \<Rightarrow> bool) \<Rightarrow> 'w \<Rightarrow> bool \<times> 'w" where
  "probe up w = (up w, w)"

lemma health_alone: "ro \<in> set (health_routes (probe up)) \<Longrightarrow> snd (ro_Handler ro cx rq w) = w"
  by (auto simp: health_routes_def health_Live_def health_Ready_def probe_def split: bool.split)

locale protected_api =
  fixes rs :: "'w route list" and verify :: jwt and cfg :: AuthConfig
  assumes routes: "ro \<in> set rs \<Longrightarrow>
    (\<exists>h. ro_Handler ro = authMiddleware verify cfg h) \<or> (\<forall>cx rq w. snd (ro_Handler ro cx rq w) = w)"
begin

lemma mux_refuses:
  assumes on: "au_Enabled cfg" and no: "\<nexists>s. accepted verify cfg rq s"
  shows "snd (ServeMux rs cx rq w) = w"
proof (cases "find_route rs rq")
  case None
  then show ?thesis by (simp add: ServeMux_def)
next
  case (Some x)
  obtain ro vs where x: "x = (ro, vs)" by fastforce
  then have "ro \<in> set rs" using Some by (auto simp: find_route_def find_Some_iff split: option.splits)
  from routes [OF this] show ?thesis
  proof
    assume "\<exists>h. ro_Handler ro = authMiddleware verify cfg h"
    then obtain h where h: "ro_Handler ro = authMiddleware verify cfg h" by blast
    let ?cx = "cx\<lparr>cx_path := vs, cx_pattern := ro_Pattern ro\<rparr>"
    have "authMiddleware verify cfg h ?cx rq w = (Some (unauthorized ?cx), w)"
      using authMiddleware_guard [OF on, of verify rq h ?cx w] no by blast
    then show ?thesis using Some x h by (simp add: ServeMux_def)
  qed (use Some x in \<open>simp add: ServeMux_def\<close>)
qed

text \<open>Behind the middlewares only the generator of correlation ids may move.\<close>

lemma api_refuses:
  assumes "au_Enabled cfg" and "\<nexists>s. accepted verify cfg rq s"
  shows "snd (chain (ServeMux rs) [corsMiddleware origins, correlationMiddleware fresh, recoveryMiddleware,
      loggingMiddleware (\<lambda>_ _ _ w. w), metricsMiddleware (\<lambda>_ _ _ w. w) p] cx rq w) \<in> {w, snd (fresh w)}"
proof -
  note keep = mux_refuses [OF assms]
  have inner: "snd (recoveryMiddleware (loggingMiddleware (\<lambda>_ _ _ w. w) (metricsMiddleware (\<lambda>_ _ _ w. w) p (ServeMux rs))) cx rq w) = w"
    for cx w
    using keep [of cx w] by (cases "ServeMux rs cx rq w"; cases "fst (ServeMux rs cx rq w)")
      (simp_all add: recoveryMiddleware_def loggingMiddleware_def metricsMiddleware_def Let_def)
  have "snd (correlationMiddleware fresh (recoveryMiddleware (loggingMiddleware (\<lambda>_ _ _ w. w)
      (metricsMiddleware (\<lambda>_ _ _ w. w) p (ServeMux rs)))) cx rq w) \<in> {w, snd (fresh w)}" for cx w
    using inner by (auto simp: correlationMiddleware_def Let_def split: prod.splits option.splits if_splits)
      (metis snd_conv)+
  then show ?thesis
    by (auto simp: chain_def corsMiddleware_def Let_def split: prod.splits option.splits) (metis insertE singletonD snd_conv)+
qed

end

section \<open>The three tables\<close>

interpretation order_api: protected_api "order_routes L error_text C now verify cfg (probe up)" verify cfg
  by unfold_locales (auto simp: order_routes_def Let_def health_alone)

interpretation inventory_api: protected_api "inv_routes L error_text verify cfg (probe up)" verify cfg
  by unfold_locales (auto simp: inv_routes_def Let_def health_alone)

interpretation fulfillment_api: protected_api "ship_routes L error_text C topic now verify cfg (probe up)" verify cfg
  by unfold_locales (auto simp: ship_routes_def Let_def health_alone)

text \<open>C26. With authentication enabled, a request whose bearer token the verifier does not accept (under the
  configured secret, issuer, audience and HS256, with a subject) changes nothing in any of the
  three services, whatever its method, path, headers and body; at most a correlation id is drawn.\<close>

theorem unauthenticated_changes_nothing:
  assumes "au_Enabled cfg" and "\<nexists>s. accepted verify cfg rq s"
  shows "snd (Order_Router L e1 C now verify cfg origins f1 (probe up1) cx rq w1) \<in> {w1, snd (f1 w1)}
    \<and> snd (Inventory_Router L e2 verify cfg origins f2 (probe up2) cx rq w2) \<in> {w2, snd (f2 w2)}
    \<and> snd (Fulfillment_Router L e3 C topic now verify cfg origins f3 (probe up3) cx rq w3) \<in> {w3, snd (f3 w3)}"
  unfolding Order_Router_def Inventory_Router_def Fulfillment_Router_def Let_def
  by (intro conjI order_api.api_refuses inventory_api.api_refuses fulfillment_api.api_refuses assms)

section \<open>Who an order is for\<close>

lemma order_route:
  assumes "rq_Method rq = ''POST''" and "rq_Path rq = ''/v1/orders''"
  shows "\<exists>ro. find_route (order_routes L et C now verify cfg ping) rq = Some (ro, [])
    \<and> ro_Handler ro = authMiddleware verify cfg (http_PlaceOrder L et C now)"
  using assms by (simp add: find_route_def order_routes_def Let_def method_ok_def path_of_def)

text \<open>C27. With authentication enabled, POST /v1/orders places the order for the subject of the token: the
  customer id of the body is not looked at, so nobody orders in another customer's name.\<close>

theorem order_placed_for_subject:
  assumes on: "au_Enabled cfg" and acc: "accepted verify cfg rq subject"
    and rq: "rq_Method rq = ''POST''" "rq_Path rq = ''/v1/orders''"
    and key: "Header_Get (rq_Headers rq) ''Idempotency-Key'' = k" "k \<noteq> []"
    and body: "json_Unmarshal dec_placeOrder zero_request (rq_Body rq) = Some req"
  shows "snd (Order_Router L et C now verify cfg origins fresh ping empty_rctx rq w) =
    snd (PlaceOrder_Handle L C now
          \<lparr>pc_CustomerID = subject, pc_IdempotencyKey = k, pc_Lines = pq_Items req, pc_Ship = pq_ShipTo req\<rparr>
          (if Header_Get (rq_Headers rq) ''X-Correlation-Id'' = [] then snd (fresh w) else w))"
proof -
  obtain ro where ro: "find_route (order_routes L et C now verify cfg ping) rq = Some (ro, [])"
    "ro_Handler ro = authMiddleware verify cfg (http_PlaceOrder L et C now)" using order_route [OF rq] by blast
  let ?cmd = "\<lparr>pc_CustomerID = subject, pc_IdempotencyKey = k, pc_Lines = pq_Items req, pc_Ship = pq_ShipTo req\<rparr>"
  have same: "s = subject" if "accepted verify cfg rq s" for s using that acc by (simp add: accepted_def)
  have mux: "\<exists>rp. ServeMux (order_routes L et C now verify cfg ping) cx rq w = (Some rp, snd (PlaceOrder_Handle L C now ?cmd w))" for cx w
  proof -
    let ?cx = "cx\<lparr>cx_path := [], cx_pattern := ro_Pattern ro\<rparr>"
    have "authMiddleware verify cfg (http_PlaceOrder L et C now) ?cx rq w
        = http_PlaceOrder L et C now (?cx\<lparr>cx_principal := Some subject\<rparr>) rq w"
      using authMiddleware_guard [OF on, of verify rq "http_PlaceOrder L et C now" ?cx w] acc same by blast
    then show ?thesis
      using ro key body
      by (auto simp: ServeMux_def http_PlaceOrder_def Let_def place_command_def split: prod.split sum.split)
  qed
  obtain i w1 where i: "(if Header_Get (rq_Headers rq) ''X-Correlation-Id'' = [] then fresh w
      else (Header_Get (rq_Headers rq) ''X-Correlation-Id'', w)) = (i, w1)" by fastforce
  then have "w1 = (if Header_Get (rq_Headers rq) ''X-Correlation-Id'' = [] then snd (fresh w) else w)"
    by (auto split: if_splits)
  then show ?thesis
    using mux [of "empty_rctx\<lparr>cx_correlation := Some i\<rparr>" w1] i rq(1)
    by (auto simp: Order_Router_def Let_def chain_def corsMiddleware_def correlationMiddleware_def recoveryMiddleware_def
        loggingMiddleware_def metricsMiddleware_def)
qed

section \<open>Preflight requests\<close>

text \<open>Every OPTIONS request is answered 204 with an empty body before routing, authentication and
  correlation, also when no origin is allowed, for any path.\<close>

lemma options_always_answered:
  "Order_Router L et C now verify cfg [] fresh ping cx (rq\<lparr>rq_Method := ''OPTIONS''\<rparr>) w
    = (Some \<lparr>rp_Status = 204, rp_Headers = [], rp_Body = None\<rparr>, w)"
  by (simp add: Order_Router_def Let_def chain_def corsMiddleware_def cors_allowed_def)

section \<open>Witnesses\<close>

definition strict_auth :: AuthConfig where
  "strict_auth = \<lparr>au_Enabled = True, au_JWTSecret = ''secret'', au_JWTIssuer = ''issuer'', au_JWTAudience = ''audience''\<rparr>"

definition bare_request :: request where
  "bare_request = \<lparr>rq_Method = ''POST'', rq_Path = ''/v1/orders'', rq_Headers = [], rq_Body = None\<rparr>"

definition empty_table :: "order_db world" where
  "empty_table = \<lparr>w_db = empty_order_db, w_uuids = 0, w_faults = [], w_sent = []\<rparr>"

text \<open>The order API with these settings, and a verifier that knows one token.\<close>

definition one_token :: jwt where
  "one_token o1 raw = (if raw = ''token'' then Some ''customer-1'' else None)"

definition strict_api :: "order_db world handler" where
  "strict_api = Order_Router std_lib (\<lambda>_. ''error'') \<lparr>ctx_propagated = [], ctx_traceID = []\<rparr> 0 one_token strict_auth []
     (\<lambda>w. (''id'', w)) (probe (\<lambda>_. True))"

theorem unauthenticated_changes_nothing_witness:
  "snd (strict_api empty_rctx bare_request empty_table) = empty_table"
proof -
  have "\<nexists>s. accepted one_token strict_auth bare_request s"
    by (simp add: accepted_def bearerToken_def bare_request_def Let_def)
  from unauthenticated_changes_nothing [OF _ this, where ?f1.0 = "\<lambda>w. (''id'', w)" and ?up1.0 = "\<lambda>_. True", THEN conjunct1]
  show ?thesis by (simp add: strict_auth_def strict_api_def)
qed

theorem order_placed_for_subject_witness:
  "\<exists>cmd. pc_CustomerID cmd = ''customer-1'' \<and>
     snd (strict_api empty_rctx
      \<lparr>rq_Method = ''POST'', rq_Path = ''/v1/orders'',
       rq_Headers = [(''Authorization'', ''Bearer token''), (''Idempotency-Key'', ''key-1'')], rq_Body = Some (JObj [])\<rparr> empty_table)
    = snd (PlaceOrder_Handle std_lib \<lparr>ctx_propagated = [], ctx_traceID = []\<rparr> 0 cmd empty_table)"
proof -
  let ?rq = "\<lparr>rq_Method = ''POST'', rq_Path = ''/v1/orders'',
       rq_Headers = [(''Authorization'', ''Bearer token''), (''Idempotency-Key'', ''key-1'')], rq_Body = Some (JObj [])\<rparr>"
  have acc: "accepted one_token strict_auth ?rq ''customer-1''"
    by (simp add: accepted_def bearerToken_def Let_def one_token_def)
  obtain req where req: "json_Unmarshal dec_placeOrder zero_request (Some (JObj [])) = Some req"
    by (simp add: json_Unmarshal_def dec_placeOrder_def field_simps_json)
  have on: "au_Enabled strict_auth" by (simp add: strict_auth_def)
  let ?cmd = "\<lparr>pc_CustomerID = ''customer-1'', pc_IdempotencyKey = ''key-1'', pc_Lines = pq_Items req, pc_Ship = pq_ShipTo req\<rparr>"
  have "snd (strict_api empty_rctx ?rq empty_table) = snd (PlaceOrder_Handle std_lib \<lparr>ctx_propagated = [], ctx_traceID = []\<rparr> 0 ?cmd empty_table)"
    unfolding strict_api_def
    using order_placed_for_subject [OF on acc, of "''key-1''" req std_lib "\<lambda>_. ''error''" "\<lparr>ctx_propagated = [], ctx_traceID = []\<rparr>"
        0 "[]" "\<lambda>w. (''id'', w)" "probe (\<lambda>_. True)" empty_table] req by simp
  then show ?thesis by (intro exI [of _ ?cmd]) simp
qed

end
