(* ===== verification/Saga_Guards.thy ===== *)
theory Saga_Guards
  imports Saga_Ends Http_Guards
begin

text \<open>
  The orchestrator against an inventory service that asks for authentication: the client of
  infra/inventory sends no bearer token, and reads the refusal as a refusal of the stock.
\<close>

lemma Header_Set_other: "k \<noteq> k' \<Longrightarrow> Header_Get (Header_Set k v hs) k' = Header_Get hs k'"
  by (induction hs) (auto simp: Header_Set_def)

lemma no_token:
  assumes "\<forall>(k, v) \<in> set (ctx_propagated C). k \<noteq> ''Authorization''"
  shows "bearerToken (client_request C m path b) = []"
proof -
  have "Header_Get (fold (\<lambda>(k, v). Header_Set k v) ps hs) ''Authorization'' = Header_Get hs ''Authorization''"
    if "\<forall>(k, v) \<in> set ps. k \<noteq> ''Authorization''" for ps hs
    using that by (induction ps arbitrary: hs) (auto simp: Header_Set_other)
  with assms have "Header_Get (rq_Headers (client_request C m path b)) ''Authorization'' = []"
    by (auto simp: client_request_def split: option.split)
  then show ?thesis by (simp add: bearerToken_def Let_def)
qed

text \<open>The answer is 401 whatever the stock, which the client takes for a rejected reservation.\<close>

lemma guarded_reserve:
  assumes "au_Enabled (is_auth S)" and "\<forall>(k, v) \<in> set (ctx_propagated C). k \<noteq> ''Authorization''"
    and "sw_net w = []"
  shows "\<exists>m. Client_Reserve (http_call (serve L S)) C oid ls w =
    (Inl (Detailf ErrReservationRejected m),
     if Header_Get (rq_Headers (client_request C ''POST'' ''/v1/reservations'' (Some (enc_reserve_request oid ls)))) ''X-Correlation-Id'' = []
     then w\<lparr>sw_inv := snd (is_fresh S (sw_inv w))\<rparr> else w)"
proof -
  let ?rq = "client_request C ''POST'' ''/v1/reservations'' (Some (enc_reserve_request oid ls))"
  obtain ro where ro: "find_route (inv_routes L (is_text S) (is_verify S) (is_auth S) (is_ping S)) ?rq = Some (ro, [])"
    "ro_Handler ro = authMiddleware (is_verify S) (is_auth S) (http_Reserve L (is_text S))"
    using reserve_route by blast
  have mux: "ServeMux (inv_routes L (is_text S) (is_verify S) (is_auth S) (is_ping S)) cx ?rq i
      = (Some (unauthorized (cx\<lparr>cx_path := [], cx_pattern := ro_Pattern ro\<rparr>)), i)" for cx i
    using ro assms(1) no_token [OF assms(2)] by (simp add: ServeMux_def authMiddleware_def)
  obtain c i where ci: "(if Header_Get (rq_Headers ?rq) ''X-Correlation-Id'' = [] then is_fresh S (sw_inv w)
      else (Header_Get (rq_Headers ?rq) ''X-Correlation-Id'', sw_inv w)) = (c, i)" by fastforce
  have i: "i = (if Header_Get (rq_Headers ?rq) ''X-Correlation-Id'' = [] then snd (is_fresh S (sw_inv w)) else sw_inv w)"
    using ci by (auto split: if_splits)
  have m: "rq_Method ?rq \<noteq> ''OPTIONS''" by (simp add: client_request_def)
  have "\<exists>hs b. serve L S empty_rctx ?rq (sw_inv w) = (Some \<lparr>rp_Status = 401, rp_Headers = hs, rp_Body = b\<rparr>, i)"
    using mux [of "empty_rctx\<lparr>cx_correlation := Some c\<rparr>" i] ci m
    by (simp add: serve_def Inventory_Router_def Let_def chain_def corsMiddleware_def correlationMiddleware_def
        recoveryMiddleware_def loggingMiddleware_def metricsMiddleware_def unauthorized_def writeJSON_def)
  then show ?thesis
    using assms(3) i
    by (cases w) (auto simp: Client_Reserve_def client_do_def http_call_calm and_then_def of_result_def reserve_outcome_def)
qed

text \<open>C31. With authentication enabled on the inventory service a placed order is cancelled, whatever the
  stock and whatever payment service there is: the client sends no token, the answer is 401, the
  client takes any such 4xx for a rejected reservation, and the saga cancels on a rejection. While
  nothing fails, one delivery of order.placed answers nil, leaves the order cancelled, and the tables
  of the inventory service as they were.\<close>

theorem guarded_inventory_rejects:
  assumes L: "uuid_laws L" and auth: "au_Enabled (is_auth S)"
    and C: "\<forall>(k, v) \<in> set (ctx_propagated C). k \<noteq> ''Authorization''"
    and ids: "\<forall>i. w_db (snd (is_fresh S i)) = w_db i"
    and net: "sw_net w = []" and calm: "w_faults (sw_order w) = []"
    and inv: "store_inv L (w_db (sw_order w))" and new: "saga_saved event w = None"
    and oid: "OrderID_String L oid = op_OrderID event"
    and load: "Order_Load L oid (sw_order w) = (Inr agg, sw_order w)" and pend: "o_status agg = StatusPending"
    and fresh: "fresh_event L (w_db (sw_order w)) (w_uuids (sw_order w))"
    and ctx: "instant_ok now" "pg_text (ctx_traceID C)" "pg_json (enc_headers (InjectToMap C json_content))"
  shows "\<exists>w'. Saga_Handle (orchestrator_ports L C now (serve L S) pay) event w = (Inr (), w')
    \<and> saga_order_status event w' = StatusCancelled \<and> w_db (sw_inv w') = w_db (sw_inv w)"
proof (rule rejected_ends [OF L oid inv calm load pend fresh new ctx])
  fix d
  show "\<exists>m i. Client_Reserve (http_call (serve L S)) C (op_OrderID event) (event_lines event) (w\<lparr>sw_order := d\<rparr>)
      = (Inl (Detailf ErrReservationRejected m), w\<lparr>sw_order := d, sw_inv := i\<rparr>) \<and> w_db i = w_db (sw_inv w)"
    using guarded_reserve [OF auth C, of "w\<lparr>sw_order := d\<rparr>" L "op_OrderID event" "event_lines event"] net ids
    by (cases w) (auto split: if_splits)
qed

theorem guarded_inventory_rejects_witness:
  "\<exists>w w'. Saga_Handle (orchestrator_ports std_lib sample_ctx 0 (serve std_lib (sample_server\<lparr>is_auth := strict_auth\<rparr>)) sample_pay)
      sample_event w = (Inr (), w')
    \<and> stocked (w_db (sw_inv w)) sample_clean \<and> saga_order_status sample_event w' = StatusCancelled"
proof -
  obtain w agg where w: "store_inv std_lib (w_db w)" "w_faults w = []" "Order_Load std_lib (OrderID 1) w = (Inr agg, w)"
    "o_status agg = StatusPending" "fresh_event std_lib (w_db w) (w_uuids w)" "t_sagas (w_db w) = []"
    using sample_placed by blast
  let ?w = "(sample_sagas w)\<lparr>sw_inv := stocked_inventory\<rparr>" and ?S = "sample_server\<lparr>is_auth := strict_auth\<rparr>"
  have "stocked (w_db (sw_inv ?w)) sample_clean"
    by (simp add: stocked_def stocked_inventory_def sample_clean_def stock_of_def)
  moreover have "\<exists>w'. Saga_Handle (orchestrator_ports std_lib sample_ctx 0 (serve std_lib ?S) sample_pay) sample_event ?w
      = (Inr (), w') \<and> saga_order_status sample_event w' = StatusCancelled \<and> w_db (sw_inv w') = w_db (sw_inv ?w)"
    by (rule guarded_inventory_rejects [OF std.uuid_laws_axioms _ _ _ _ _ _ _ _ _ w(4) _ instant_zero sample_context,
          where oid = "OrderID 1"])
      (use w in \<open>simp_all add: strict_auth_def sample_server_def sample_sagas_def saga_saved_def saga_record_def
        sample_event_def sample_wire_def OrderID_String_def\<close>, simp add: sample_ctx_def)
  ultimately show ?thesis by blast
qed

end
