(* ===== verification/Fulfillment_Spec.thy ===== *)
theory Fulfillment_Spec
  imports Fulfillment_Calm
begin

text \<open>
  What the fulfillment service promises of one shipment, as a machine over three phases, and that
  any sequence of calls of the service, undisturbed, implements it: answers, errors, events and
  the row.
\<close>

section \<open>The specification\<close>

text \<open>A shipment on its way has a carrier and a tracking code, which it keeps.\<close>

datatype phase = Packed | OnTheWay string string | Arrived string string

text \<open>The call is carried out, has no place in this phase, lacks its carrier, or carries a text that cannot be stored.\<close>

datatype answer = Accepted | WrongPhase | NoCarrier | Unstorable

text \<open>One call: the answer, the next phase, the types of the events it sends.\<close>

fun phase_step :: "ship_call \<Rightarrow> phase \<Rightarrow> answer \<times> phase \<times> string list" where
  "phase_step (CallCreate now i) ph = (Accepted, ph, if ph = Packed then [TypeShipmentCreated_ship] else [])"
| "phase_step (CallDispatch now i carrier code) Packed =
     (if carrier = [] then (NoCarrier, Packed, [])
      else if \<not> pg_text carrier \<or> \<not> pg_text code then (Unstorable, Packed, [])
      else (Accepted, OnTheWay carrier code, [TypeShipmentDispatched_ship]))"
| "phase_step (CallDispatch now i carrier code) (OnTheWay a b) = (Accepted, OnTheWay a b, [])"
| "phase_step (CallDispatch now i carrier code) (Arrived a b) = (WrongPhase, Arrived a b, [])"
| "phase_step (CallShip now i) Packed = (WrongPhase, Packed, [])"
| "phase_step (CallShip now i) (OnTheWay a b) = (Accepted, Arrived a b, [TypeShipmentDelivered_ship])"
| "phase_step (CallShip now i) (Arrived a b) = (Accepted, Arrived a b, [])"
| "phase_step (CallGet i) ph = (Accepted, ph, [])"

fun phase_run :: "ship_call list \<Rightarrow> phase \<Rightarrow> (answer \<times> phase) list \<times> phase \<times> string list" where
  "phase_run [] ph = ([], ph, [])"
| "phase_run (c # cs) ph =
     (let (a, ph1, tys) = phase_step c ph; (as, ph2, tys') = phase_run cs ph1 in ((a, ph1) # as, ph2, tys @ tys'))"

section \<open>The service\<close>

fun run_calls :: "golib \<Rightarrow> ctx \<Rightarrow> string \<Rightarrow> ship_call list \<Rightarrow> ship_world \<Rightarrow> (ferr + Shipment) list \<times> ship_world" where
  "run_calls L C topic [] w = ([], w)"
| "run_calls L C topic (c # cs) w =
     (let (r, w1) = run_ship L C topic c w; (rs, w2) = run_calls L C topic cs w1 in (r # rs, w2))"

fun order_of :: "ship_call \<Rightarrow> uuid" where
  "order_of (CallCreate now i) = i"
| "order_of (CallDispatch now i carrier code) = i"
| "order_of (CallShip now i) = i"
| "order_of (CallGet i) = i"

definition phase_of :: "Shipment \<Rightarrow> phase" where
  "phase_of s = (if sm_Status s = StatusDispatched then OnTheWay (sm_Carrier s) (sm_TrackingCode s)
     else if sm_Status s = StatusDelivered then Arrived (sm_Carrier s) (sm_TrackingCode s) else Packed)"

text \<open>What a caller of the service sees of an answer of the specification.\<close>

fun answers :: "ferr + Shipment \<Rightarrow> answer \<times> phase \<Rightarrow> bool" where
  "answers r (Accepted, ph) = (\<exists>s. r = Inr s \<and> phase_of s = ph)"
| "answers r (WrongPhase, ph) = (\<exists>e. r = Inl e \<and> errors_Is e ErrInvalidTransition_ship)"
| "answers r (NoCarrier, ph) = (\<exists>e. r = Inl e \<and> errors_Is e ErrValidation_ship)"
| "answers r (Unstorable, ph) = (\<exists>e. r = Inl e \<and> (\<forall>s. \<not> errors_Is e s))"

definition announces :: "golib \<Rightarrow> ctx \<Rightarrow> string \<Rightarrow> uuid \<Rightarrow> message \<Rightarrow> string \<Rightarrow> bool" where
  "announces L C topic i m ty \<longleftrightarrow>
     (\<exists>p. m = event_message C topic \<lparr>ev_Type = ty, ev_Key = uuid_String L i, ev_Payload = p\<rparr>)"

text \<open>The state between two calls: the shipment's row, in a table that is in order.\<close>

definition on_record :: "uuid \<Rightarrow> Shipment \<Rightarrow> ship_world \<Rightarrow> bool" where
  "on_record i s w \<longleftrightarrow> undisturbed w \<and> ship_ok (w_db w) \<and> shipment_for (w_db w) i = Some s \<and> shipment_texts s"

lemma on_record_fits: "on_record i s w \<Longrightarrow> row_fits s \<and> sm_OrderID s = i"
  using shipment_for_in by (auto simp: on_record_def ship_ok_def)

lemma call_refused:
  assumes "on_record i s w" and "phase_step c (phase_of s) = (a, phase_of s, [])"
    and "run_ship L C topic c w = (r, w)" and "answers r (a, phase_of s)"
  shows "\<exists>r w' s' ms. run_ship L C topic c w = (r, w') \<and> on_record i s' w'
    \<and> (case phase_step c (phase_of s) of (a, ph, tys) \<Rightarrow> answers r (a, ph) \<and> phase_of s' = ph
         \<and> w_sent w' = w_sent w @ ms \<and> list_all2 (announces L C topic i) ms tys)"
  using assms by (intro exI [of _ r] exI [of _ w] exI [of _ s] exI [of _ "[]"]) simp

lemma call_idle:
  assumes "on_record i s w" and "phase_step c (phase_of s) = (Accepted, phase_of s, [])"
    and "run_ship L C topic c w = (Inr s, w)"
  shows "\<exists>r w' s' ms. run_ship L C topic c w = (r, w') \<and> on_record i s' w'
    \<and> (case phase_step c (phase_of s) of (a, ph, tys) \<Rightarrow> answers r (a, ph) \<and> phase_of s' = ph
         \<and> w_sent w' = w_sent w @ ms \<and> list_all2 (announces L C topic i) ms tys)"
  by (rule call_refused [OF assms]) simp

lemma dispatch_step:
  assumes w: "on_record i s w"
  shows "\<exists>r w' s' ms. run_ship L C topic (CallDispatch now i carrier code) w = (r, w') \<and> on_record i s' w'
    \<and> (case phase_step (CallDispatch now i carrier code) (phase_of s) of (a, ph, tys) \<Rightarrow> answers r (a, ph)
         \<and> phase_of s' = ph \<and> w_sent w' = w_sent w @ ms \<and> list_all2 (announces L C topic i) ms tys)"
proof -
  note f = on_record_fits [OF w]
  have u: "undisturbed w" "ship_ok (w_db w)" "shipment_for (w_db w) i = Some s" "shipment_texts s"
    using w by (simp_all add: on_record_def)
  let ?s = "s\<lparr>sm_Status := StatusDispatched, sm_Carrier := carrier, sm_TrackingCode := code, sm_UpdatedAt := now\<rparr>"
  consider (packed) "sm_Status s = StatusCreated" "carrier \<noteq> []" "pg_text carrier" "pg_text code"
    | (odd) "sm_Status s = StatusCreated" "carrier \<noteq> []" "\<not> pg_text carrier \<or> \<not> pg_text code"
    | (empty) "sm_Status s = StatusCreated" "carrier = []"
    | (moved) "sm_Status s = StatusDispatched \<or> sm_Status s = StatusDelivered"
    using f by (auto simp: row_fits_def)
  then show ?thesis
  proof cases
    case packed
    obtain d' where d: "Service_Dispatch L C topic now i carrier code w =
      (Inr ?s, w\<lparr>w_db := d', w_sent := w_sent w @ [dispatched_message L C topic ?s]\<rparr>)" "ship_ok d'"
      "shipment_for d' i = Some (updated_row ?s s)" using Dispatch_undisturbed [OF u(1-3) packed] by blast
    let ?w = "w\<lparr>w_db := d', w_sent := w_sent w @ [dispatched_message L C topic ?s]\<rparr>"
    have "on_record i (updated_row ?s s) ?w"
      using u(1,4) d(2,3) packed by (simp add: on_record_def undisturbed_def updated_row_def shipment_texts_def)
    moreover have "announces L C topic i (dispatched_message L C topic ?s) TypeShipmentDispatched_ship"
      using f by (auto simp: announces_def dispatched_message_def)
    ultimately show ?thesis using d(1) packed
      by (intro exI [of _ "Inr ?s"] exI [of _ ?w] exI [of _ "updated_row ?s s"] exI [of _ "[dispatched_message L C topic ?s]"])
        (simp add: phase_of_def updated_row_def)
  next
    case odd
    have "\<not> shipment_texts ?s" using odd by (auto simp: shipment_texts_def)
    then have "Shipment_Update ?s w = (Inl (Wrapf ''update shipment'' (Foreign ''22021'')), w)"
      using u(1) by (simp add: Shipment_Update_def and_then_def map_err_def ship_stmt_alone update_shipment_def Let_def)
    then have "Service_Dispatch L C topic now i carrier code w = (Inl (Wrapf ''update shipment'' (Foreign ''22021'')), w)"
      using u odd by (simp add: Service_Dispatch_def and_then_def GetByOrderID_alone of_result_def Shipment_Dispatch_def)
    then show ?thesis using odd by (intro call_refused [OF w, of _ Unstorable]) (auto simp: phase_of_def)
  next
    case empty
    then have "Service_Dispatch L C topic now i carrier code w = (Inl (Detailf ErrValidation_ship ''carrier is required''), w)"
      using u by (simp add: Service_Dispatch_def and_then_def GetByOrderID_alone of_result_def Shipment_Dispatch_def)
    then show ?thesis using empty by (intro call_refused [OF w, of _ NoCarrier]) (auto simp: phase_of_def)
  next
    case moved
    then consider (sent) "sm_Status s = StatusDispatched" | (over) "sm_Status s = StatusDelivered" by blast
    then show ?thesis
    proof cases
      case sent
      then have "Service_Dispatch L C topic now i carrier code w = (Inr s, w)"
        using u by (simp add: Service_Dispatch_def and_then_def GetByOrderID_alone of_result_def Shipment_Dispatch_def ok_def)
      then show ?thesis using sent by (intro call_idle [OF w]) (simp_all add: phase_of_def)
    next
      case over
      then have "Service_Dispatch L C topic now i carrier code w = (Inl (Detailf ErrInvalidTransition_ship ''cannot dispatch''), w)"
        using u by (simp add: Service_Dispatch_def and_then_def GetByOrderID_alone of_result_def Shipment_Dispatch_def)
      then show ?thesis using over by (intro call_refused [OF w, of _ WrongPhase]) (auto simp: phase_of_def)
    qed
  qed
qed

lemma deliver_step:
  assumes w: "on_record i s w"
  shows "\<exists>r w' s' ms. run_ship L C topic (CallShip now i) w = (r, w') \<and> on_record i s' w'
    \<and> (case phase_step (CallShip now i) (phase_of s) of (a, ph, tys) \<Rightarrow> answers r (a, ph)
         \<and> phase_of s' = ph \<and> w_sent w' = w_sent w @ ms \<and> list_all2 (announces L C topic i) ms tys)"
proof -
  note f = on_record_fits [OF w]
  have u: "undisturbed w" "ship_ok (w_db w)" "shipment_for (w_db w) i = Some s" "shipment_texts s"
    using w by (simp_all add: on_record_def)
  consider (packed) "sm_Status s = StatusCreated" | (sent) "sm_Status s = StatusDispatched"
    | (over) "sm_Status s = StatusDelivered" using f by (auto simp: row_fits_def)
  then show ?thesis
  proof cases
    case packed
    then have "Service_Deliver L C topic now i w = (Inl (Detailf ErrInvalidTransition_ship ''cannot deliver''), w)"
      using u by (simp add: Service_Deliver_def and_then_def GetByOrderID_alone of_result_def Shipment_Deliver_def)
    then show ?thesis using packed by (intro call_refused [OF w, of _ WrongPhase]) (auto simp: phase_of_def)
  next
    case sent
    let ?s = "s\<lparr>sm_Status := StatusDelivered, sm_UpdatedAt := now\<rparr>"
    obtain d' where d: "Service_Deliver L C topic now i w =
      (Inr ?s, w\<lparr>w_db := d', w_sent := w_sent w @ [delivered_message L C topic ?s]\<rparr>)" "ship_ok d'"
      "shipment_for d' i = Some (updated_row ?s s)" using Deliver_undisturbed [OF u(1-3) sent u(4)] by blast
    let ?w = "w\<lparr>w_db := d', w_sent := w_sent w @ [delivered_message L C topic ?s]\<rparr>"
    have "on_record i (updated_row ?s s) ?w"
      using u(1,4) d(2,3) by (simp add: on_record_def undisturbed_def updated_row_def shipment_texts_def)
    moreover have "announces L C topic i (delivered_message L C topic ?s) TypeShipmentDelivered_ship"
      using f by (auto simp: announces_def delivered_message_def)
    ultimately show ?thesis using d(1) sent
      by (intro exI [of _ "Inr ?s"] exI [of _ ?w] exI [of _ "updated_row ?s s"] exI [of _ "[delivered_message L C topic ?s]"])
        (simp add: phase_of_def updated_row_def)
  next
    case over
    then have "Service_Deliver L C topic now i w = (Inr s, w)"
      using u by (simp add: Service_Deliver_def and_then_def GetByOrderID_alone of_result_def Shipment_Deliver_def ok_def)
    then show ?thesis using over by (intro call_idle [OF w]) (simp_all add: phase_of_def)
  qed
qed

lemma call_step:
  assumes w: "on_record i s w" and c: "order_of c = i"
  shows "\<exists>r w' s' ms. run_ship L C topic c w = (r, w') \<and> on_record i s' w'
    \<and> (case phase_step c (phase_of s) of (a, ph, tys) \<Rightarrow> answers r (a, ph)
         \<and> phase_of s' = ph \<and> w_sent w' = w_sent w @ ms \<and> list_all2 (announces L C topic i) ms tys)"
proof (cases c)
  case (CallDispatch now j carrier code)
  then show ?thesis using dispatch_step [OF w] c by simp
next
  case (CallShip now j)
  then show ?thesis using deliver_step [OF w] c by simp
next
  case (CallGet j)
  have "run_ship L C topic c w = (Inr s, w)"
    using w c CallGet by (simp add: Service_Get_def GetByOrderID_alone on_record_def)
  then show ?thesis using CallGet by (intro call_idle [OF w]) auto
next
  case (CallCreate now j)
  note f = on_record_fits [OF w]
  have u: "undisturbed w" "shipment_for (w_db w) i = Some s" using w by (simp_all add: on_record_def)
  have created: "phase_of s = Packed \<longleftrightarrow> sm_Status s = StatusCreated" using f by (auto simp: phase_of_def row_fits_def)
  show ?thesis
  proof (cases "sm_Status s = StatusCreated")
    case True
    let ?w = "w\<lparr>w_sent := w_sent w @ [created_message L C topic s]\<rparr>"
    have "announces L C topic i (created_message L C topic s) TypeShipmentCreated_ship"
      using f by (auto simp: announces_def created_message_def)
    moreover have "on_record i s ?w" using w by (simp add: on_record_def undisturbed_def)
    ultimately show ?thesis
      using CreateForOrder_again [OF u, of L C topic now] CallCreate c True created
      by (intro exI [of _ "Inr s"] exI [of _ ?w] exI [of _ s] exI [of _ "[created_message L C topic s]"]) simp
  next
    case False
    then have "run_ship L C topic c w = (Inr s, w)" using CreateForOrder_again [OF u] CallCreate c by simp
    then show ?thesis using CallCreate False created by (intro call_idle [OF w]) auto
  qed
qed

lemma calls_refine:
  assumes "on_record i s w" and "\<forall>c \<in> set cs. order_of c = i"
  shows "\<exists>rs w' s' ms. run_calls L C topic cs w = (rs, w') \<and> on_record i s' w'
    \<and> (case phase_run cs (phase_of s) of (as, ph, tys) \<Rightarrow> list_all2 answers rs as \<and> phase_of s' = ph
         \<and> w_sent w' = w_sent w @ ms \<and> list_all2 (announces L C topic i) ms tys)"
  using assms
proof (induction cs arbitrary: s w)
  case (Cons c cs)
  obtain a ph tys where p: "phase_step c (phase_of s) = (a, ph, tys)" by (metis surj_pair)
  obtain r w1 s1 ms where 1: "run_ship L C topic c w = (r, w1)" "on_record i s1 w1" "answers r (a, ph)"
    "phase_of s1 = ph" "w_sent w1 = w_sent w @ ms" "list_all2 (announces L C topic i) ms tys"
    using call_step [OF Cons.prems(1), of c L C topic] Cons.prems(2) p by auto
  obtain as ph2 tys2 where q: "phase_run cs (phase_of s1) = (as, ph2, tys2)" by (metis surj_pair)
  obtain rs w2 s2 ms2 where 2: "run_calls L C topic cs w1 = (rs, w2)" "on_record i s2 w2" "list_all2 answers rs as"
    "phase_of s2 = ph2" "w_sent w2 = w_sent w1 @ ms2" "list_all2 (announces L C topic i) ms2 tys2"
    using Cons.IH [OF 1(2)] Cons.prems(2) q by auto
  show ?case using p q 1 2
    by (intro exI [of _ "r # rs"] exI [of _ w2] exI [of _ s2] exI [of _ "ms @ ms2"]) (auto intro: list_all2_appendI)
qed (auto intro!: exI)

text \<open>C29. The service implements the lifecycle of a shipment: undisturbed, any sequence of calls about
  one order, creations, dispatches, deliveries and reads, gets the answers of \<open>phase_run\<close> one by
  one. A dispatch without a carrier is a validation error, with a text that Postgres does not take
  an error of the store; a dispatch after the delivery and a delivery before the dispatch are
  invalid transitions; none of these changes anything. Everything else succeeds and answers with
  the phase reached, and what is stored in the end, carrier and tracking code included, and the
  events that were sent, in order, are what the specification says.\<close>

theorem shipment_calls_refine:
  assumes "undisturbed w" and "ship_ok (w_db w)" and "shipment_for (w_db w) i = Some s" and "shipment_texts s"
    and "\<forall>c \<in> set cs. order_of c = i"
  shows "\<exists>rs w' s' ms. run_calls L C topic cs w = (rs, w') \<and> shipment_for (w_db w') i = Some s'
    \<and> (case phase_run cs (phase_of s) of (as, ph, tys) \<Rightarrow> list_all2 answers rs as \<and> phase_of s' = ph
         \<and> w_sent w' = w_sent w @ ms \<and> list_all2 (announces L C topic i) ms tys)"
proof -
  have "on_record i s w" using assms by (simp add: on_record_def)
  from calls_refine [OF this assms(5), of L C topic] obtain rs w' s' ms where
    "run_calls L C topic cs w = (rs, w')" "on_record i s' w'"
    "case phase_run cs (phase_of s) of (as, ph, tys) \<Rightarrow> list_all2 answers rs as \<and> phase_of s' = ph
       \<and> w_sent w' = w_sent w @ ms \<and> list_all2 (announces L C topic i) ms tys" by (elim exE conjE) (rule that)
  then show ?thesis by (intro exI [of _ rs] exI [of _ w'] exI [of _ s'] exI [of _ ms]) (simp add: on_record_def)
qed

theorem shipment_calls_refine_witness:
  "\<exists>r1 r2 r3 r4 w' s ms. run_calls std_lib quiet_ctx ''fulfillment.events''
      [CallDispatch 1 5 [] ''1Z999'', CallDispatch 2 5 ''UPS'' ''1Z999'', CallShip 3 5, CallDispatch 4 5 ''DHL'' ''X''] one_shipment
      = ([r1, r2, r3, r4], w')
    \<and> answers r1 (NoCarrier, Packed) \<and> answers r3 (Accepted, Arrived ''UPS'' ''1Z999'')
    \<and> answers r4 (WrongPhase, Arrived ''UPS'' ''1Z999'') \<and> shipment_for (w_db w') 5 = Some s
    \<and> phase_of s = Arrived ''UPS'' ''1Z999''
    \<and> w_sent w' = ms \<and> list_all2 (announces std_lib quiet_ctx ''fulfillment.events'' 5) ms
        [TypeShipmentDispatched_ship, TypeShipmentDelivered_ship]"
proof -
  let ?cs = "[CallDispatch 1 5 [] ''1Z999'', CallDispatch 2 5 ''UPS'' ''1Z999'', CallShip 3 5, CallDispatch 4 5 ''DHL'' ''X'']"
  have "phase_run ?cs (phase_of (new_shipment 9 5 0)) =
     ([(NoCarrier, Packed), (Accepted, OnTheWay ''UPS'' ''1Z999''), (Accepted, Arrived ''UPS'' ''1Z999''),
       (WrongPhase, Arrived ''UPS'' ''1Z999'')], Arrived ''UPS'' ''1Z999'', [TypeShipmentDispatched_ship, TypeShipmentDelivered_ship])"
    by (simp add: phase_of_def new_shipment_def)
  moreover have "shipment_texts (new_shipment 9 5 0)" by (simp add: shipment_texts_def new_shipment_def)
  moreover have "w_sent one_shipment = []" by (simp add: one_shipment_def bare_shipments_def)
  ultimately show ?thesis
    using shipment_calls_refine [OF one_shipment_facts(1-3), of ?cs std_lib quiet_ctx "''fulfillment.events''"]
    by (simp add: list_all2_Cons2) blast
qed

end
