(* ===== verification/Migrations.thy ===== *)
theory Migrations
  imports Effects "HOL-Library.AList" "HOL-Library.Multiset"
begin

text \<open>
  services/*/cmd/migrate/main.go, the same program in each of the four Go services: it groups
  the embedded scripts by the version their names start with, and applies the missing ones in
  order (\<open>up\<close>) or takes back the newest applied one (\<open>down\<close>), each with its row of
  schema_migrations in one transaction. What a script does to the rest of the database is a
  parameter, as are the embedded files. The theory shows that the schema is at every moment the
  result of a prefix of the scripts, whatever fails, that one undisturbed run completes what
  earlier runs left, and that taking everything back gives the first schema again.
\<close>

section \<open>Scripts\<close>

record migration =
  mi_version :: string
  mi_name :: string
  mi_up :: string
  mi_down :: string

type_synonym merr = "unit err"

text \<open>strings.HasSuffix, and the part of strings.Cut before the separator.\<close>

definition HasSuffix :: "string \<Rightarrow> string \<Rightarrow> bool" where
  "HasSuffix s t = suffix t s"

definition Cut_before :: "string \<Rightarrow> char \<Rightarrow> string" where
  "Cut_before s c = takeWhile (\<lambda>x. x \<noteq> c) s"

text \<open>
  An entry of the embedded directory is a name and the content ReadFile gives for it (\<open>None\<close>
  when it fails). \<open>byVersion\<close> is the map of the loop as a list of its pairs.
\<close>

definition add_file :: "string \<Rightarrow> string \<Rightarrow> migration \<Rightarrow> migration" where
  "add_file name content m =
     (if HasSuffix name ''.up.sql'' then m\<lparr>mi_up := content\<rparr>
      else if HasSuffix name ''.down.sql'' then m\<lparr>mi_down := content\<rparr>
      else m)"

fun read_entries ::
  "(string \<times> string option) list \<Rightarrow> (string \<times> migration) list \<Rightarrow> merr + (string \<times> migration) list" where
  "read_entries [] byVersion = Inr byVersion"
| "read_entries ((name, content) # es) byVersion =
     (if \<not> HasSuffix name ''.sql'' then read_entries es byVersion
      else
        let version = Cut_before name (CHR ''_'') in
        (case content of
           None \<Rightarrow> Inl (Wrapf ''read'' (Foreign ''fs.ReadFile''))
         | Some c \<Rightarrow>
             let m = (case map_of byVersion version of
                        None \<Rightarrow> \<lparr>mi_version = version, mi_name = name, mi_up = [], mi_down = []\<rparr>
                      | Some m \<Rightarrow> m)
             in read_entries es (AList.update version (add_file name c m) byVersion)))"

text \<open>
  Ranging over a Go map gives its pairs in any order: \<open>iter\<close> is that order. Strings are compared
  byte by byte.
\<close>

definition loadMigrations ::
  "((string \<times> migration) list \<Rightarrow> (string \<times> migration) list) \<Rightarrow> (string \<times> string option) list option
   \<Rightarrow> merr + migration list"
where
  "loadMigrations iter dir =
     (case dir of
        None \<Rightarrow> Inl (Wrapf ''read migrations dir'' (Foreign ''fs.ReadDir''))
      | Some entries \<Rightarrow>
          map_sum id (\<lambda>byVersion. sort_key mi_version (map snd (iter byVersion)))
            (read_entries entries []))"

section \<open>The database\<close>

text \<open>
  \<open>mg_versions\<close> are the rows of schema_migrations, in the order of their insertion, and
  \<open>mg_table\<close> says whether the table exists; \<open>mg_schema\<close> is the rest of the database.
\<close>

record 'd mig_db =
  mg_table :: bool
  mg_versions :: "string list"
  mg_schema :: 'd

type_synonym ('d, 'a) mig_act = "('d mig_db, unit, 'a) act"
type_synonym 'd script = "string \<Rightarrow> 'd \<Rightarrow> 'd option"

definition ensure_table :: "'d mig_db \<Rightarrow> merr + unit \<times> 'd mig_db" where
  "ensure_table d = Inr ((), if mg_table d then d else d\<lparr>mg_table := True, mg_versions := []\<rparr>)"

definition select_versions :: "'d mig_db \<Rightarrow> merr + string list \<times> 'd mig_db" where
  "select_versions d = (if mg_table d then Inr (mg_versions d, d) else Inl (Foreign ''42P01''))"

definition insert_version :: "string \<Rightarrow> 'd mig_db \<Rightarrow> merr + unit \<times> 'd mig_db" where
  "insert_version v d =
     (if \<not> mg_table d then Inl (Foreign ''42P01'')
      else if \<not> pg_text v then Inl (Foreign ''22021'')
      else if v \<in> set (mg_versions d) then Inl (Foreign ''23505'')
      else Inr ((), d\<lparr>mg_versions := mg_versions d @ [v]\<rparr>))"

definition delete_version :: "string \<Rightarrow> 'd mig_db \<Rightarrow> merr + unit \<times> 'd mig_db" where
  "delete_version v d =
     (if \<not> mg_table d then Inl (Foreign ''42P01'')
      else if \<not> pg_text v then Inl (Foreign ''22021'')
      else Inr ((), d\<lparr>mg_versions := filter (\<lambda>x. x \<noteq> v) (mg_versions d)\<rparr>))"

definition run_script :: "'d script \<Rightarrow> string \<Rightarrow> 'd mig_db \<Rightarrow> merr + unit \<times> 'd mig_db" where
  "run_script exec sql d =
     (case exec sql (mg_schema d) of
        None \<Rightarrow> Inl (Foreign ''pgconn'')
      | Some s \<Rightarrow> Inr ((), d\<lparr>mg_schema := s\<rparr>))"

section \<open>main.go\<close>

definition applyInTx ::
  "'d script \<Rightarrow> string \<Rightarrow> ('d, unit) mig_act \<Rightarrow> ('d, unit) mig_act" where
  "applyInTx exec sqlText record_row =
     pgx_tx id (\<lambda>_. id)
       (and_then (if TrimSpace sqlText \<noteq> [] then db_stmt (run_script exec sqlText) else ok ()) (\<lambda>_.
          record_row))"

definition appliedVersions :: "('d, string list) mig_act" where
  "appliedVersions =
     and_then (wrap_err ''read applied'' (db_stmt select_versions)) (\<lambda>versions.
     and_then db_ping (\<lambda>_. ok versions))"

definition up_one :: "'d script \<Rightarrow> string list \<Rightarrow> migration \<Rightarrow> ('d, unit) mig_act" where
  "up_one exec applied m =
     (if mi_version m \<in> set applied then ok ()
      else wrap_err ''apply up'' (applyInTx exec (mi_up m) (db_stmt (insert_version (mi_version m)))))"

definition migrateUp :: "'d script \<Rightarrow> migration list \<Rightarrow> ('d, unit) mig_act" where
  "migrateUp exec migrations =
     and_then appliedVersions (\<lambda>applied. for_each (up_one exec applied) migrations)"

text \<open>The loop of migrateDown, over the migrations from the last to the first.\<close>

fun down_loop :: "'d script \<Rightarrow> string list \<Rightarrow> migration list \<Rightarrow> ('d, unit) mig_act" where
  "down_loop exec applied [] = ok ()"
| "down_loop exec applied (m # ms) =
     (if mi_version m \<notin> set applied then down_loop exec applied ms
      else wrap_err ''apply down''
             (applyInTx exec (mi_down m) (db_stmt (delete_version (mi_version m)))))"

definition migrateDown :: "'d script \<Rightarrow> migration list \<Rightarrow> ('d, unit) mig_act" where
  "migrateDown exec migrations =
     and_then appliedVersions (\<lambda>applied. down_loop exec applied (rev migrations))"

definition migrate_run ::
  "'d script \<Rightarrow> ((string \<times> migration) list \<Rightarrow> (string \<times> migration) list)
   \<Rightarrow> (string \<times> string option) list option \<Rightarrow> string \<Rightarrow> string \<Rightarrow> ('d, unit) mig_act"
where
  "migrate_run exec iter dir dsn direction =
     (if dsn = [] then fail (Foreign ''DATABASE_URL is required'')
      else
        and_then (wrap_err ''connect'' db_ping) (\<lambda>_.
        and_then (wrap_err ''ensure schema_migrations'' (db_stmt ensure_table)) (\<lambda>_.
        and_then (of_result (loadMigrations iter dir)) (\<lambda>migrations.
          if direction = ''up'' then migrateUp exec migrations
          else if direction = ''down'' then migrateDown exec migrations
          else fail (Foreign ''unknown direction'')))))"

text \<open>main: the process exits with status 1 when run fails; \<open>args\<close> is os.Args.\<close>

definition migrate_main ::
  "'d script \<Rightarrow> ((string \<times> migration) list \<Rightarrow> (string \<times> migration) list)
   \<Rightarrow> (string \<times> string option) list option \<Rightarrow> string \<Rightarrow> string list \<Rightarrow> 'd mig_db world \<Rightarrow> int \<times> 'd mig_db world"
where
  "migrate_main exec iter dir dsn args w =
     (let direction = (if length args > 1 then args ! 1 else ''up'') in
      (case migrate_run exec iter dir dsn direction w of
         (Inl err, w') \<Rightarrow> (1, w')
       | (Inr _, w') \<Rightarrow> (0, w')))"

section \<open>Loading\<close>

definition keyed :: "(string \<times> migration) list \<Rightarrow> bool" where
  "keyed ms = (distinct (map fst ms) \<and> (\<forall>p \<in> set ms. mi_version (snd p) = fst p))"

lemma add_file_version [simp]: "mi_version (add_file n c m) = mi_version m"
  by (simp add: add_file_def)

lemma set_update_subset: "set (AList.update v m ms) \<subseteq> insert (v, m) (set ms)"
  by (induction ms) auto

lemma keyed_update: "keyed ms \<Longrightarrow> mi_version m = v \<Longrightarrow> keyed (AList.update v m ms)"
  unfolding keyed_def using set_update_subset [of v m ms] by (auto simp: distinct_update)

lemma keyed_map_of: "keyed ms \<Longrightarrow> map_of ms v = Some m \<Longrightarrow> mi_version m = v"
  by (auto simp: keyed_def dest: map_of_SomeD)

lemma read_entries_keyed: "read_entries es ms = Inr out \<Longrightarrow> keyed ms \<Longrightarrow> keyed out"
proof (induction es ms rule: read_entries.induct)
  case (2 name content es byVersion)
  let ?v = "Cut_before name (CHR ''_'')"
  show ?case
  proof (cases "HasSuffix name ''.sql''")
    case True
    with "2.prems"(1) obtain c where c: "content = Some c"
      by (auto simp: Let_def split: option.splits)
    define m where "m = (case map_of byVersion ?v of
        None \<Rightarrow> \<lparr>mi_version = ?v, mi_name = name, mi_up = [], mi_down = []\<rparr> | Some m \<Rightarrow> m)"
    have "mi_version m = ?v"
      using keyed_map_of [OF "2.prems"(2), of ?v] by (auto simp: m_def split: option.splits)
    then have "keyed (AList.update ?v (add_file name c m) byVersion)"
      by (intro keyed_update "2.prems"(2)) simp
    then show ?thesis
      using "2.IH"(2) [OF _ refl c] "2.prems"(1) True by (simp add: c Let_def m_def)
  next
    case False
    then show ?thesis using 2 by simp
  qed
qed simp

lemma keyed_versions: "keyed ms \<Longrightarrow> map mi_version (map snd ms) = map fst ms"
  by (simp add: keyed_def)

definition any_order :: "('a list \<Rightarrow> 'a list) \<Rightarrow> bool" where
  "any_order iter \<longleftrightarrow> (\<forall>xs. mset (iter xs) = mset xs)"

lemma loaded_distinct:
  assumes "loadMigrations iter dir = Inr ms" and "any_order iter"
  shows "distinct (map mi_version ms)" and "sorted (map mi_version ms)"
proof -
  obtain es out where "read_entries es [] = Inr out" and ms: "ms = sort_key mi_version (map snd (iter out))"
    using assms(1) by (auto simp: loadMigrations_def split: option.splits)
  then have k: "keyed out" using read_entries_keyed by (fastforce simp: keyed_def)
  have "mset (map snd (iter out)) = mset (map snd out)"
    using assms(2) by (simp add: any_order_def)
  then have "mset (map mi_version ms) = mset (map mi_version (map snd out))"
    unfolding ms by (metis mset_map mset_sort)
  then show "distinct (map mi_version ms)"
    using k by (metis mset_eq_imp_distinct_iff keyed_versions keyed_def)
  show "sorted (map mi_version ms)" by (simp add: ms)
qed

lemma load_any_order:
  assumes "any_order iter"
  shows "loadMigrations iter dir = loadMigrations id dir"
proof (cases "\<exists>es out. dir = Some es \<and> read_entries es [] = Inr out")
  case True
  then obtain es out where d: "dir = Some es" and r: "read_entries es [] = Inr out" by blast
  have k: "keyed out" using read_entries_keyed [OF r] by (simp add: keyed_def)
  have m: "mset (map snd (iter out)) = mset (map snd out)"
    using assms by (simp add: any_order_def)
  have "distinct (map mi_version (map snd out))"
    using k keyed_versions [OF k] by (metis keyed_def)
  then have "inj_on mi_version (set (map snd (iter out)))"
    unfolding distinct_map using mset_eq_setD [OF m] by simp
  then have "sort_key mi_version (map snd (iter out)) = sort_key mi_version (map snd out)"
    using m by (intro sort_key_inj_key_eq) simp_all
  then show ?thesis by (simp add: loadMigrations_def d r)
next
  case False
  then show ?thesis by (cases dir; cases "read_entries (the dir) []") (auto simp: loadMigrations_def)
qed

section \<open>What a transaction leaves\<close>

definition script :: "'d script \<Rightarrow> string \<Rightarrow> 'd \<Rightarrow> 'd option" where
  "script exec sql s = (if TrimSpace sql \<noteq> [] then exec sql s else Some s)"

lemma run_body:
  assumes "and_then (if TrimSpace sql \<noteq> [] then db_stmt (run_script exec sql) else ok ()) (\<lambda>_. db_stmt f) w = (Inr (), w')"
  shows "\<exists>s. script exec sql (mg_schema (w_db w)) = Some s \<and> f ((w_db w)\<lparr>mg_schema := s\<rparr>) = Inr ((), w_db w')"
proof (cases "TrimSpace sql = []")
  case True
  then show ?thesis using assms by (auto simp: and_then_Inr simple_Inr script_def dest!: db_stmt_Inr)
next
  case False
  then show ?thesis using assms
    by (auto simp: and_then_Inr script_def run_script_def dest!: db_stmt_Inr split: option.splits)
qed

text \<open>A script and its row are booked together or not at all.\<close>

lemma applyInTx_atomic:
  assumes "applyInTx exec sql (db_stmt f) w = (r, w')"
  shows "(w_db w' = w_db w \<and> r \<noteq> Inr ()) \<or>
    (\<exists>s. script exec sql (mg_schema (w_db w)) = Some s \<and> f ((w_db w)\<lparr>mg_schema := s\<rparr>) = Inr ((), w_db w'))"
  using assms unfolding applyInTx_def
proof (cases rule: db_tx_atomic)
  case (committed a w1 w2)
  with run_body [of sql exec f w1 w2] show ?thesis by simp
next
  case (rolled_back e)
  then show ?thesis by simp
next
  case (reply_lost a w1 w2)
  with run_body [of sql exec f w1 w2] show ?thesis by simp
qed

lemma applyInTx_calm:
  assumes "w_faults w = []" and "script exec sql (mg_schema (w_db w)) = Some s"
    and "f ((w_db w)\<lparr>mg_schema := s\<rparr>) = Inr ((), d)"
  shows "applyInTx exec sql (db_stmt f) w = (Inr (), w\<lparr>w_db := d\<rparr>)"
  using assms by (auto simp: applyInTx_def act_simps script_def run_script_def split: if_splits)

section \<open>The schema is a prefix of the scripts\<close>

fun up_all :: "'d script \<Rightarrow> migration list \<Rightarrow> 'd \<Rightarrow> 'd option" where
  "up_all exec [] s = Some s"
| "up_all exec (m # ms) s =
     (case script exec (mi_up m) s of None \<Rightarrow> None | Some s' \<Rightarrow> up_all exec ms s')"

lemma up_all_append: "up_all exec (ms @ ns) s = (case up_all exec ms s of None \<Rightarrow> None | Some s' \<Rightarrow> up_all exec ns s')"
  by (induction ms arbitrary: s) (auto split: option.split)

text \<open>The first \<open>k\<close> migrations, and no other, are applied to the schema \<open>s0\<close>.\<close>

definition at_step :: "'d script \<Rightarrow> migration list \<Rightarrow> 'd \<Rightarrow> nat \<Rightarrow> 'd mig_db \<Rightarrow> bool" where
  "at_step exec ms s0 k d \<longleftrightarrow> mg_table d \<and> k \<le> length ms
     \<and> mg_versions d = map mi_version (take k ms) \<and> up_all exec (take k ms) s0 = Some (mg_schema d)"

definition migrated :: "'d script \<Rightarrow> migration list \<Rightarrow> 'd \<Rightarrow> 'd mig_db \<Rightarrow> bool" where
  "migrated exec ms s0 d \<longleftrightarrow> (\<not> mg_table d \<and> mg_schema d = s0) \<or> (\<exists>k. at_step exec ms s0 k d)"

text \<open>Each down script takes back what its up script did, on the schema where it is run.\<close>

definition reversible :: "'d script \<Rightarrow> migration list \<Rightarrow> 'd \<Rightarrow> bool" where
  "reversible exec ms s0 \<longleftrightarrow> (\<forall>k < length ms. \<forall>s. up_all exec (take (Suc k) ms) s0 = Some s \<longrightarrow>
     script exec (mi_down (ms ! k)) s = up_all exec (take k ms) s0)"

lemma distinct_take_nth: "distinct xs \<Longrightarrow> k < length xs \<Longrightarrow> xs ! k \<notin> set (take k xs)"
  by (auto simp: in_set_conv_nth nth_eq_iff_index_eq)

lemma nth_version_notin:
  assumes "distinct (map mi_version ms)" and "k < length ms"
  shows "\<forall>m \<in> set (take k ms). mi_version m \<noteq> mi_version (ms ! k)"
  using assms by (metis (no_types, lifting) distinct_take_nth image_eqI length_map list.set_map nth_map take_map)

lemma at_step_up:
  assumes "at_step exec ms s0 k d" and "k < length ms"
    and "script exec (mi_up (ms ! k)) (mg_schema d) = Some s"
    and "insert_version (mi_version (ms ! k)) (d\<lparr>mg_schema := s\<rparr>) = Inr ((), d')"
  shows "at_step exec ms s0 (Suc k) d'"
  using assms
  by (auto simp: at_step_def insert_version_def take_Suc_conv_app_nth up_all_append split: if_splits)

lemma at_step_down:
  assumes "at_step exec ms s0 (Suc k) d" and "distinct (map mi_version ms)" and "reversible exec ms s0"
    and "script exec (mi_down (ms ! k)) (mg_schema d) = Some s"
    and "delete_version (mi_version (ms ! k)) (d\<lparr>mg_schema := s\<rparr>) = Inr ((), d')"
  shows "at_step exec ms s0 k d'"
proof -
  have k: "k < length ms" using assms(1) by (simp add: at_step_def)
  have "filter (\<lambda>x. x \<noteq> mi_version (ms ! k)) (map mi_version (take (Suc k) ms)) = map mi_version (take k ms)"
    using nth_version_notin [OF assms(2) k] k
    by (auto simp: take_Suc_conv_app_nth filter_id_conv)
  moreover have "script exec (mi_down (ms ! k)) (mg_schema d) = up_all exec (take k ms) s0"
    using assms(1,3) k unfolding reversible_def at_step_def by blast
  ultimately show ?thesis
    using assms(1,4,5) k by (auto simp: at_step_def delete_version_def split: if_splits)
qed

lemma for_each_up_suffix:
  assumes "for_each (up_one exec applied) (drop j ms) w = (r, w')" and "at_step exec ms s0 j (w_db w)"
    and "\<forall>m \<in> set (drop j ms). mi_version m \<notin> set applied"
  shows "\<exists>k \<ge> j. at_step exec ms s0 k (w_db w') \<and> (r = Inr () \<longrightarrow> k = length ms)"
  using assms
proof (induction "length ms - j" arbitrary: j w)
  case 0
  then have "j = length ms" by (simp add: at_step_def)
  with 0 show ?case by (auto simp: ok_def)
next
  case (Suc n)
  then have j: "j < length ms" by simp
  then have d: "drop j ms = ms ! j # drop (Suc j) ms" by (simp add: Cons_nth_drop_Suc)
  obtain r1 w1 where one: "applyInTx exec (mi_up (ms ! j)) (db_stmt (insert_version (mi_version (ms ! j)))) w = (r1, w1)"
    by fastforce
  from applyInTx_atomic [OF one] show ?case
  proof (elim disjE exE conjE)
    assume "w_db w1 = w_db w" "r1 \<noteq> Inr ()"
    then show ?thesis
      using Suc.prems one unfolding d
      by (auto simp: up_one_def and_then_def map_err_def split: sum.splits)
  next
    fix s assume up: "script exec (mi_up (ms ! j)) (mg_schema (w_db w)) = Some s"
      "insert_version (mi_version (ms ! j)) (w_db w\<lparr>mg_schema := s\<rparr>) = Inr ((), w_db w1)"
    note next_step = at_step_up [OF Suc.prems(2) j up]
    show ?thesis
    proof (cases r1)
      case (Inl e)
      then show ?thesis
        using Suc.prems one next_step unfolding d
        by (auto simp: up_one_def and_then_def map_err_def intro!: exI [of _ "Suc j"])
    next
      case (Inr u)
      have rest: "for_each (up_one exec applied) (drop (Suc j) ms) w1 = (r, w')"
        using Suc.prems one Inr unfolding d by (auto simp: up_one_def and_then_def map_err_def)
      have "\<exists>k \<ge> Suc j. at_step exec ms s0 k (w_db w') \<and> (r = Inr () \<longrightarrow> k = length ms)"
        by (rule Suc.hyps(1) [OF _ rest next_step]) (use Suc.hyps(2) Suc.prems(3) d in auto)
      then show ?thesis using Suc_leD by blast
    qed
  qed
qed

lemma for_each_up_skip:
  "\<forall>m \<in> set ms. mi_version m \<in> set applied \<Longrightarrow>
   for_each (up_one exec applied) (ms @ ns) = for_each (up_one exec applied) ns"
  by (induction ms) (auto simp: up_one_def and_then_def ok_def)

lemma appliedVersions_reads:
  "appliedVersions w = (r, w1) \<Longrightarrow> w_db w1 = w_db w \<and> (\<forall>vs. r = Inr vs \<longrightarrow> vs = mg_versions (w_db w))"
  by (auto simp: appliedVersions_def act_simps select_versions_def next_fault_db
      split: sum.splits prod.splits fault.splits if_splits dest!: next_fault_db)

lemma unapplied_suffix:
  assumes "distinct (map mi_version ms)"
  shows "\<forall>m \<in> set (drop k ms). mi_version m \<notin> set (map mi_version (take k ms))"
proof -
  have "distinct (map mi_version (take k ms) @ map mi_version (drop k ms))"
    using assms by (simp flip: map_append)
  then show ?thesis by auto
qed

lemma migrateUp_step:
  assumes "migrateUp exec ms w = (r, w')" and "at_step exec ms s0 k (w_db w)" and "distinct (map mi_version ms)"
  shows "\<exists>k' \<ge> k. at_step exec ms s0 k' (w_db w') \<and> (r = Inr () \<longrightarrow> k' = length ms)"
proof -
  obtain ra w1 where a: "appliedVersions w = (ra, w1)" by fastforce
  note rd = appliedVersions_reads [OF a]
  show ?thesis
  proof (cases ra)
    case (Inl e)
    then show ?thesis using assms(1,2) a rd by (auto simp: migrateUp_def and_then_def)
  next
    case (Inr vs)
    have vs: "vs = map mi_version (take k ms)" using rd Inr assms(2) by (simp add: at_step_def)
    have "for_each (up_one exec vs) (take k ms @ drop k ms) w1 = (r, w')"
      using assms(1) a Inr by (simp add: migrateUp_def and_then_def)
    then have "for_each (up_one exec vs) (drop k ms) w1 = (r, w')"
      by (subst (asm) for_each_up_skip) (auto simp: vs)
    then show ?thesis
      by (rule for_each_up_suffix) (use assms rd unapplied_suffix vs in auto)
  qed
qed

lemma down_loop_skip:
  "\<forall>m \<in> set ms. mi_version m \<notin> set applied \<Longrightarrow> down_loop exec applied (ms @ ns) = down_loop exec applied ns"
  by (induction ms) auto

lemma migrateDown_step:
  assumes "migrateDown exec ms w = (r, w')" and "at_step exec ms s0 k (w_db w)"
    and "distinct (map mi_version ms)" and "reversible exec ms s0"
  shows "\<exists>k'. at_step exec ms s0 k' (w_db w')"
proof -
  obtain ra w1 where a: "appliedVersions w = (ra, w1)" by fastforce
  note rd = appliedVersions_reads [OF a]
  show ?thesis
  proof (cases ra)
    case (Inl e)
    then show ?thesis using assms(1,2) a rd by (auto simp: migrateDown_def and_then_def)
  next
    case (Inr vs)
    have vs: "vs = map mi_version (take k ms)" using rd Inr assms(2) by (simp add: at_step_def)
    have "down_loop exec vs (rev (drop k ms) @ rev (take k ms)) w1 = (r, w')"
      using assms(1) a Inr by (simp add: migrateDown_def and_then_def flip: rev_append)
    then have run: "down_loop exec vs (rev (take k ms)) w1 = (r, w')"
      by (subst (asm) down_loop_skip) (use unapplied_suffix [OF assms(3)] vs in auto)
    show ?thesis
    proof (cases k)
      case 0
      then show ?thesis using run assms(2) rd by (auto simp: ok_def)
    next
      case (Suc j)
      then have j: "j < length ms" using assms(2) by (simp add: at_step_def)
      obtain r1 w2 where one: "applyInTx exec (mi_down (ms ! j)) (db_stmt (delete_version (mi_version (ms ! j)))) w1 = (r1, w2)"
        by fastforce
      have w': "w_db w' = w_db w2"
        using run one j by (simp add: Suc take_Suc_conv_app_nth vs map_err_def split: sum.splits)
      from applyInTx_atomic [OF one] show ?thesis
        using at_step_down [OF assms(2) [unfolded Suc] assms(3,4)] assms(2) rd w' by auto
    qed
  qed
qed

section \<open>Any sequence of runs\<close>

lemma appliedVersions_no_table: "\<not> mg_table (w_db w) \<Longrightarrow> appliedVersions w = (r, w1) \<Longrightarrow> \<exists>e. r = Inl e"
  by (auto simp: appliedVersions_def act_simps select_versions_def next_fault_db
      split: sum.splits prod.splits fault.splits if_splits dest!: next_fault_db)

lemma preserves_migrateUp [preserving]:
  assumes "distinct (map mi_version ms)"
  shows "preserves (migrated exec ms s0) (migrateUp exec ms)"
  unfolding preserves_def
proof (intro allI impI)
  fix w :: "'a mig_db world" assume m: "migrated exec ms s0 (w_db w)"
  obtain r w' where u: "migrateUp exec ms w = (r, w')" by fastforce
  obtain ra w1 where a: "appliedVersions w = (ra, w1)" by fastforce
  show "migrated exec ms s0 (w_db (snd (migrateUp exec ms w)))"
  proof (cases "mg_table (w_db w)")
    case True
    then show ?thesis using migrateUp_step [OF u _ assms] m u by (auto simp: migrated_def)
  next
    case False
    then have "w_db w' = w_db w"
      using u a appliedVersions_no_table [OF False a] appliedVersions_reads [OF a]
      by (auto simp: migrateUp_def and_then_def)
    then show ?thesis using m u by simp
  qed
qed

lemma preserves_migrateDown [preserving]:
  assumes "distinct (map mi_version ms)" and "reversible exec ms s0"
  shows "preserves (migrated exec ms s0) (migrateDown exec ms)"
  unfolding preserves_def
proof (intro allI impI)
  fix w :: "'a mig_db world" assume m: "migrated exec ms s0 (w_db w)"
  obtain r w' where u: "migrateDown exec ms w = (r, w')" by fastforce
  obtain ra w1 where a: "appliedVersions w = (ra, w1)" by fastforce
  show "migrated exec ms s0 (w_db (snd (migrateDown exec ms w)))"
  proof (cases "mg_table (w_db w)")
    case True
    then show ?thesis using migrateDown_step [OF u _ assms] m u by (auto simp: migrated_def)
  next
    case False
    then have "w_db w' = w_db w"
      using u a appliedVersions_no_table [OF False a] appliedVersions_reads [OF a]
      by (auto simp: migrateDown_def and_then_def)
    then show ?thesis using m u by simp
  qed
qed

lemma ensured: "migrated exec ms s0 d \<Longrightarrow> ensure_table d = Inr (u, d') \<Longrightarrow> \<exists>k. at_step exec ms s0 k d'"
  by (auto simp: migrated_def ensure_table_def at_step_def split: if_splits)

lemma preserves_ensure [preserving]: "preserves (migrated exec ms s0) (db_stmt ensure_table)"
  by (rule preserves_db_stmt) (use ensured migrated_def in metis)

lemma and_then_of_Inr: "and_then (of_result (Inr a)) f = f a"
  by (simp add: and_then_def of_result_def fun_eq_iff)

lemma preserves_migrate_run [preserving]:
  assumes "any_order iter" and "loadMigrations id dir = Inr ms" and "reversible exec ms s0"
  shows "preserves (migrated exec ms s0) (migrate_run exec iter dir dsn direction)"
proof -
  have "distinct (map mi_version ms)"
    using loaded_distinct(1) [OF assms(2)] by (simp add: any_order_def)
  then show ?thesis
    unfolding migrate_run_def load_any_order [OF assms(1)] assms(2) and_then_of_Inr
    using assms(3) by (auto intro!: preserving)
qed

text \<open>A launch of the program is the iteration order of its map, DATABASE_URL and os.Args.\<close>

type_synonym launch = "((string \<times> migration) list \<Rightarrow> (string \<times> migration) list) \<times> string \<times> string list"

definition launch_main ::
  "'d script \<Rightarrow> (string \<times> string option) list option \<Rightarrow> launch \<Rightarrow> 'd mig_db world \<Rightarrow> 'd mig_db world"
where
  "launch_main exec dir l w = (case l of (iter, dsn, args) \<Rightarrow> snd (migrate_main exec iter dir dsn args w))"

lemma migrated_launches:
  assumes "loadMigrations id dir = Inr ms" and "reversible exec ms s0"
    and "\<forall>l \<in> set ls. any_order (fst l)" and "migrated exec ms s0 (w_db w)"
  shows "migrated exec ms s0 (w_db (fold (launch_main exec dir) ls w))"
  using assms(3,4)
proof (induction ls arbitrary: w)
  case (Cons l ls)
  obtain iter dsn args where l: "l = (iter, dsn, args)" by (cases l)
  have "preserves (migrated exec ms s0) (migrate_run exec iter dir dsn direction)" for direction
    using preserves_migrate_run [OF _ assms(1,2)] Cons.prems(1) l by simp
  then have "migrated exec ms s0 (w_db (launch_main exec dir l w))"
    using Cons.prems(2)
    by (auto simp: launch_main_def l migrate_main_def Let_def preserves_def split: sum.splits prod.splits)
      (metis snd_conv)+
  then show ?case using Cons.IH Cons.prems(1) by simp
qed simp

section \<open>Undisturbed runs\<close>

definition scripts_run :: "'d script \<Rightarrow> migration list \<Rightarrow> 'd \<Rightarrow> 'd \<Rightarrow> bool" where
  "scripts_run exec ms s0 s1 \<longleftrightarrow> up_all exec ms s0 = Some s1 \<and> (\<forall>m \<in> set ms. pg_text (mi_version m))"

lemma up_all_take: "up_all exec ms s0 = Some s1 \<Longrightarrow> \<exists>s. up_all exec (take k ms) s0 = Some s"
  by (metis append_take_drop_id not_None_eq option.simps(4) up_all_append)

lemma one_up_calm:
  assumes "w_faults w = []" and "at_step exec ms s0 k (w_db w)" and "k < length ms"
    and "distinct (map mi_version ms)" and "scripts_run exec ms s0 s1"
  shows "\<exists>d. applyInTx exec (mi_up (ms ! k)) (db_stmt (insert_version (mi_version (ms ! k)))) w = (Inr (), w\<lparr>w_db := d\<rparr>)
    \<and> at_step exec ms s0 (Suc k) d"
proof -
  obtain s where "up_all exec (take (Suc k) ms) s0 = Some s"
    using up_all_take [of exec ms s0 s1 "Suc k"] assms(5) by (auto simp: scripts_run_def)
  then have s: "script exec (mi_up (ms ! k)) (mg_schema (w_db w)) = Some s"
    using assms(2,3) by (simp add: at_step_def take_Suc_conv_app_nth up_all_append split: option.splits)
  have i: "insert_version (mi_version (ms ! k)) (w_db w\<lparr>mg_schema := s\<rparr>)
      = Inr ((), w_db w\<lparr>mg_schema := s, mg_versions := mg_versions (w_db w) @ [mi_version (ms ! k)]\<rparr>)"
    using assms nth_version_notin [OF assms(4,3)]
    by (auto simp: insert_version_def at_step_def scripts_run_def)
  show ?thesis
    using applyInTx_calm [where f = "insert_version (mi_version (ms ! k))", OF assms(1) s i] at_step_up [OF assms(2,3) s i] by blast
qed

lemma for_each_up_calm:
  assumes "w_faults w = []" and "at_step exec ms s0 j (w_db w)"
    and "distinct (map mi_version ms)" and "scripts_run exec ms s0 s1"
    and "\<forall>m \<in> set (drop j ms). mi_version m \<notin> set applied"
  shows "\<exists>d. for_each (up_one exec applied) (drop j ms) w = (Inr (), w\<lparr>w_db := d\<rparr>)
    \<and> at_step exec ms s0 (length ms) d"
  using assms(1,2,5)
proof (induction "length ms - j" arbitrary: j w)
  case 0
  then have "j = length ms" by (simp add: at_step_def)
  with 0 show ?case by (auto simp: ok_def intro!: exI [of _ "w_db w"])
next
  case (Suc n)
  then have j: "j < length ms" by simp
  then have d: "drop j ms = ms ! j # drop (Suc j) ms" by (simp add: Cons_nth_drop_Suc)
  obtain e where one: "applyInTx exec (mi_up (ms ! j)) (db_stmt (insert_version (mi_version (ms ! j)))) w = (Inr (), w\<lparr>w_db := e\<rparr>)"
    and e: "at_step exec ms s0 (Suc j) e"
    using one_up_calm [OF Suc.prems(1,2) j assms(3,4)] by blast
  have "\<exists>d. for_each (up_one exec applied) (drop (Suc j) ms) (w\<lparr>w_db := e\<rparr>) = (Inr (), w\<lparr>w_db := e\<rparr>\<lparr>w_db := d\<rparr>)
    \<and> at_step exec ms s0 (length ms) d"
    by (rule Suc.hyps(1)) (use Suc.hyps(2) Suc.prems e d in auto)
  then show ?case
    using one Suc.prems(3) unfolding d by (auto simp: up_one_def and_then_def map_err_def)
qed

lemma appliedVersions_calm:
  "w_faults w = [] \<Longrightarrow> mg_table (w_db w) \<Longrightarrow> appliedVersions w = (Inr (mg_versions (w_db w)), w)"
  by (simp add: appliedVersions_def act_simps select_versions_def)

lemma migrateUp_calm:
  assumes "w_faults w = []" and "at_step exec ms s0 k (w_db w)"
    and "distinct (map mi_version ms)" and "scripts_run exec ms s0 s1"
  shows "\<exists>d. migrateUp exec ms w = (Inr (), w\<lparr>w_db := d\<rparr>) \<and> at_step exec ms s0 (length ms) d"
proof -
  let ?vs = "map mi_version (take k ms)"
  have a: "appliedVersions w = (Inr ?vs, w)"
    using assms(1,2) by (simp add: appliedVersions_calm at_step_def)
  have "for_each (up_one exec ?vs) ms = for_each (up_one exec ?vs) (drop k ms)"
    using for_each_up_skip [of "take k ms" ?vs exec "drop k ms"] by simp
  then show ?thesis
    using for_each_up_calm [OF assms(1-4), of ?vs] unapplied_suffix [OF assms(3), of k]
    by (simp add: migrateUp_def and_then_def a)
qed

lemma migrateDown_calm:
  assumes "w_faults w = []" and "at_step exec ms s0 k (w_db w)"
    and "distinct (map mi_version ms)" and "reversible exec ms s0" and "\<forall>m \<in> set ms. pg_text (mi_version m)"
  shows "\<exists>d. migrateDown exec ms w = (Inr (), w\<lparr>w_db := d\<rparr>) \<and> at_step exec ms s0 (k - 1) d"
proof -
  define vs where "vs = map mi_version (take k ms)"
  have a: "appliedVersions w = (Inr vs, w)"
    using assms(1,2) by (simp add: appliedVersions_calm at_step_def vs_def)
  have l: "down_loop exec vs (rev ms) = down_loop exec vs (rev (take k ms))"
    using down_loop_skip [of "rev (drop k ms)" vs exec "rev (take k ms)"] unapplied_suffix [OF assms(3), of k]
    by (simp add: vs_def flip: rev_append)
  show ?thesis
  proof (cases k)
    case 0
    then show ?thesis
      using assms(2) l by (auto simp: migrateDown_def and_then_def a ok_def intro!: exI [of _ "w_db w"])
  next
    case (Suc j)
    then have j: "j < length ms" using assms(2) by (simp add: at_step_def)
    obtain s where s: "up_all exec (take j ms) s0 = Some s"
      using assms(2) Suc j by (auto simp: at_step_def take_Suc_conv_app_nth up_all_append split: option.splits)
    then have d: "script exec (mi_down (ms ! j)) (mg_schema (w_db w)) = Some s"
      using assms(2,4) Suc j unfolding reversible_def at_step_def by metis
    have v: "delete_version (mi_version (ms ! j)) (w_db w\<lparr>mg_schema := s\<rparr>)
      = Inr ((), w_db w\<lparr>mg_schema := s, mg_versions := filter (\<lambda>x. x \<noteq> mi_version (ms ! j)) (mg_versions (w_db w))\<rparr>)"
      using assms(2,5) j by (simp add: delete_version_def at_step_def)
    have "mi_version (ms ! j) \<in> set vs" "rev (take k ms) = ms ! j # rev (take j ms)"
      using j by (simp_all add: vs_def Suc take_Suc_conv_app_nth)
    then show ?thesis
      using applyInTx_calm [where f = "delete_version (mi_version (ms ! j))", OF assms(1) d v] at_step_down [OF assms(2) [unfolded Suc] assms(3,4) d v] Suc
      by (auto simp: migrateDown_def and_then_def a l map_err_def)
  qed
qed

text \<open>A whole calm run of the program, in either direction.\<close>

lemma migrate_main_calm:
  assumes "w_faults w = []" and "migrated exec ms s0 (w_db w)" and "any_order iter"
    and "loadMigrations id dir = Inr ms" and "reversible exec ms s0" and "dsn \<noteq> []"
    and "scripts_run exec ms s0 s1"
  shows "\<exists>d. migrate_main exec iter dir dsn [prog, ''up''] w = (0, w\<lparr>w_db := d\<rparr>) \<and> at_step exec ms s0 (length ms) d"
    and "at_step exec ms s0 k (w_db w) \<Longrightarrow>
      \<exists>d. migrate_main exec iter dir dsn [prog, ''down''] w = (0, w\<lparr>w_db := d\<rparr>) \<and> at_step exec ms s0 (k - 1) d"
proof -
  have dist: "distinct (map mi_version ms)"
    using loaded_distinct(1) [OF assms(4)] by (simp add: any_order_def)
  let ?e = "if mg_table (w_db w) then w_db w else w_db w\<lparr>mg_table := True, mg_versions := []\<rparr>"
  have run: "migrate_run exec iter dir dsn direction w =
      (if direction = ''up'' then migrateUp exec ms (w\<lparr>w_db := ?e\<rparr>)
       else if direction = ''down'' then migrateDown exec ms (w\<lparr>w_db := ?e\<rparr>)
       else (Inl (Foreign ''unknown direction''), w\<lparr>w_db := ?e\<rparr>))" for direction
    using assms(1,3,4,6) by (simp add: migrate_run_def load_any_order and_then_of_Inr act_simps ensure_table_def)
  obtain j where j: "at_step exec ms s0 j ?e"
    using ensured [OF assms(2), of "()" ?e] by (auto simp: ensure_table_def)
  have f: "w_faults (w\<lparr>w_db := ?e\<rparr>) = []" using assms(1) by simp
  show "\<exists>d. migrate_main exec iter dir dsn [prog, ''up''] w = (0, w\<lparr>w_db := d\<rparr>) \<and> at_step exec ms s0 (length ms) d"
    using migrateUp_calm [OF f _ dist assms(7), of j] j by (auto simp: migrate_main_def run)
  assume k: "at_step exec ms s0 k (w_db w)"
  then have "?e = w_db w" by (simp add: at_step_def)
  then show "\<exists>d. migrate_main exec iter dir dsn [prog, ''down''] w = (0, w\<lparr>w_db := d\<rparr>) \<and> at_step exec ms s0 (k - 1) d"
    using migrateDown_calm [OF f _ dist assms(5), of k] k assms(7)
    by (auto simp: migrate_main_def run scripts_run_def)
qed

section \<open>Properties\<close>

text \<open>C32. The list of migrations a run works with does not depend on the order in which Go
  iterates over the map the scripts were collected in.\<close>

theorem loading_order_irrelevant:
  assumes "any_order iter1" and "any_order iter2"
  shows "loadMigrations iter1 dir = loadMigrations iter2 dir"
  using load_any_order [OF assms(1), of dir] load_any_order [OF assms(2), of dir] by simp

text \<open>C33. After any sequence of runs up and down, each stopped by any failure at any statement
  or by a lost reply to a commit, the schema is the result of the first scripts in the order of
  their versions and schema_migrations lists exactly these; an undisturbed run \<open>up\<close> then
  succeeds and applies precisely the scripts that are missing.\<close>

theorem migrations_complete:
  assumes load: "loadMigrations id dir = Inr ms" and rev: "reversible exec ms s0"
    and up: "scripts_run exec ms s0 s1" and fresh: "\<not> mg_table (w_db w0)" "mg_schema (w_db w0) = s0"
    and orders: "\<forall>l \<in> set launches. any_order (fst l)" "any_order iter"
    and w: "w = fold (launch_main exec dir) launches w0" and calm: "w_faults w = []" and dsn: "dsn \<noteq> []"
  shows "\<exists>d. migrate_main exec iter dir dsn [prog, ''up''] w = (0, w\<lparr>w_db := d\<rparr>)
    \<and> migrated exec ms s0 (w_db w) \<and> mg_schema d = s1 \<and> mg_versions d = map mi_version ms"
proof -
  have m: "migrated exec ms s0 (w_db w)"
    unfolding w by (rule migrated_launches [OF load rev orders(1)]) (simp add: migrated_def fresh)
  show ?thesis
    using migrate_main_calm(1) [OF calm m orders(2) load rev dsn up] m up
    by (auto simp: at_step_def scripts_run_def)
qed

lemma downs_calm:
  assumes "loadMigrations id dir = Inr ms" and "reversible exec ms s0" and "scripts_run exec ms s0 s1"
    and "any_order iter" and "dsn \<noteq> []" and "w_faults w = []" and "at_step exec ms s0 k (w_db w)"
  shows "\<exists>d. fold (launch_main exec dir) (replicate k (iter, dsn, [prog, ''down''])) w = w\<lparr>w_db := d\<rparr>
    \<and> at_step exec ms s0 0 d"
  using assms(6,7)
proof (induction k arbitrary: w)
  case 0
  then show ?case by (auto intro!: exI [of _ "w_db w"])
next
  case (Suc k)
  have "migrated exec ms s0 (w_db w)" using Suc.prems(2) by (auto simp: migrated_def)
  then obtain e where e: "migrate_main exec iter dir dsn [prog, ''down''] w = (0, w\<lparr>w_db := e\<rparr>)"
    and k: "at_step exec ms s0 k e"
    using migrate_main_calm(2) [OF Suc.prems(1) _ assms(4,1,2,5,3) Suc.prems(2)] by auto
  show ?case
    using Suc.IH [of "w\<lparr>w_db := e\<rparr>"] Suc.prems(1) e k by (simp add: launch_main_def)
qed

text \<open>C34. Taking the migrations back one by one restores the schema of before the first run:
  one run \<open>up\<close> and as many runs \<open>down\<close> as there are migrations, whatever runs went before.\<close>

theorem migrations_taken_back:
  assumes "loadMigrations id dir = Inr ms" and "reversible exec ms s0" and "scripts_run exec ms s0 s1"
    and "any_order iter" and "dsn \<noteq> []" and "w_faults w = []" and "migrated exec ms s0 (w_db w)"
  shows "\<exists>d. fold (launch_main exec dir)
      ((iter, dsn, [prog, ''up'']) # replicate (length ms) (iter, dsn, [prog, ''down''])) w = w\<lparr>w_db := d\<rparr>
    \<and> mg_schema d = s0 \<and> mg_versions d = []"
proof -
  obtain e where e: "migrate_main exec iter dir dsn [prog, ''up''] w = (0, w\<lparr>w_db := e\<rparr>)"
    and n: "at_step exec ms s0 (length ms) e"
    using migrate_main_calm(1) [OF assms(6,7,4,1,2,5,3)] by blast
  then show ?thesis
    using downs_calm [OF assms(1-5), of "w\<lparr>w_db := e\<rparr>" "length ms" prog] assms(6)
    by (auto simp: launch_main_def at_step_def)
qed

section \<open>A concrete instance\<close>

text \<open>Two scripts over a schema that is a set of table names.\<close>

definition sample_exec :: "string set script" where
  "sample_exec sql s =
     (if sql = ''+a'' then Some (insert ''a'' s) else if sql = ''-a'' then Some (s - {''a''})
      else if sql = ''+b'' then Some (insert ''b'' s) else if sql = ''-b'' then Some (s - {''b''}) else None)"

definition sample_dir :: "(string \<times> string option) list option" where
  "sample_dir = Some
     [(''0001_init.down.sql'', Some ''-a''), (''0001_init.up.sql'', Some ''+a''),
      (''0002_more.down.sql'', Some ''-b''), (''0002_more.up.sql'', Some ''+b''), (''README'', None)]"

definition sample_migrations :: "migration list" where
  "sample_migrations =
     [\<lparr>mi_version = ''0001'', mi_name = ''0001_init.down.sql'', mi_up = ''+a'', mi_down = ''-a''\<rparr>,
      \<lparr>mi_version = ''0002'', mi_name = ''0002_more.down.sql'', mi_up = ''+b'', mi_down = ''-b''\<rparr>]"

lemma sample_loads: "loadMigrations id sample_dir = Inr sample_migrations"
  by (simp add: loadMigrations_def sample_dir_def sample_migrations_def HasSuffix_def Cut_before_def
      add_file_def suffix_def Let_def)

text \<open>A first run that applied the first script but lost the reply to its commit.\<close>

definition sample_start :: "string set mig_db world" where
  "sample_start = \<lparr>w_db = \<lparr>mg_table = False, mg_versions = [], mg_schema = {}\<rparr>, w_uuids = 0,
     w_faults = replicate 7 Fine @ [ReplyLost], w_sent = []\<rparr>"

definition sample_up :: launch where
  "sample_up = (id, ''postgres://db'', [''migrate'', ''up''])"

lemma sample_trim:
  "TrimSpace ''+a'' = ''+a''" "TrimSpace ''-a'' = ''-a''" "TrimSpace ''+b'' = ''+b''" "TrimSpace ''-b'' = ''-b''"
  by (simp_all add: TrimSpace_plain_ends plain_char_def)

lemma sample_scripts:
  "reversible sample_exec sample_migrations {}" "scripts_run sample_exec sample_migrations {} {''a'', ''b''}"
  by (auto simp: reversible_def scripts_run_def sample_migrations_def script_def sample_exec_def sample_trim
      less_Suc_eq numeral_2_eq_2)

lemma sample_interrupted:
  "launch_main sample_exec sample_dir sample_up sample_start
   = sample_start\<lparr>w_db := \<lparr>mg_table = True, mg_versions = [''0001''], mg_schema = {''a''}\<rparr>, w_faults := []\<rparr>"
  unfolding launch_main_def migrate_main_def sample_up_def migrate_run_def
  by (simp add: Let_def sample_loads act_simps sample_start_def migrateUp_def appliedVersions_def next_fault_def ensure_table_def
      select_versions_def sample_migrations_def up_one_def applyInTx_def sample_trim run_script_def
      sample_exec_def insert_version_def numeral_eq_Suc)

lemma sample_facts:
  "any_order (fst sample_up)" "any_order rev" "\<not> mg_table (w_db sample_start)" "mg_schema (w_db sample_start) = {}"
  by (simp_all add: any_order_def sample_up_def sample_start_def)

theorem loading_order_irrelevant_witness:
  "loadMigrations rev sample_dir = loadMigrations id sample_dir"
  by (rule loading_order_irrelevant) (simp_all add: any_order_def)

theorem migrations_complete_witness:
  "\<exists>d. migrate_main sample_exec rev sample_dir ''postgres://db'' [''migrate'', ''up'']
         (launch_main sample_exec sample_dir sample_up sample_start)
       = (0, (launch_main sample_exec sample_dir sample_up sample_start)\<lparr>w_db := d\<rparr>)
    \<and> migrated sample_exec sample_migrations {} (w_db (launch_main sample_exec sample_dir sample_up sample_start))
    \<and> mg_schema d = {''a'', ''b''} \<and> mg_versions d = map mi_version sample_migrations"
  by (rule migrations_complete [OF sample_loads sample_scripts, of sample_start "[sample_up]"])
    (simp_all add: sample_interrupted sample_facts)

theorem migrations_taken_back_witness:
  "\<exists>d. fold (launch_main sample_exec sample_dir)
      ((rev, ''postgres://db'', [''migrate'', ''up''])
       # replicate (length sample_migrations) (rev, ''postgres://db'', [''migrate'', ''down'']))
      (sample_start\<lparr>w_faults := []\<rparr>) = sample_start\<lparr>w_faults := [], w_db := d\<rparr>
    \<and> mg_schema d = {} \<and> mg_versions d = []"
  using migrations_taken_back [OF sample_loads sample_scripts, of rev "''postgres://db''" "sample_start\<lparr>w_faults := []\<rparr>" "''migrate''"]
  by (simp add: any_order_def migrated_def sample_start_def)

end
