(* ===== verification/Config_Guards.thy ===== *)
theory Config_Guards
  imports Env_Config Http_Guards
begin

text \<open>
  What the environment decides about a running service: which values of AUTH_ENABLED really put
  the authentication in front of the three APIs, and which pool sizes come out of DB_MAX_CONNS.
\<close>

section \<open>Authentication\<close>

definition on_values :: "string set" where
  "on_values = {''1'', ''t'', ''T'', ''TRUE'', ''true'', ''True''}"

lemma auth_off: "\<not> au_Enabled cfg \<Longrightarrow> authMiddleware verify cfg = (\<lambda>next. next)"
  by (simp add: authMiddleware_def fun_eq_iff)

text \<open>The routers with the authentication switched off, and a verifier that accepts nothing.\<close>

definition no_auth :: AuthConfig where
  "no_auth = \<lparr>au_Enabled = False, au_JWTSecret = [], au_JWTIssuer = [], au_JWTAudience = []\<rparr>"

definition never :: jwt where
  "never options token = None"

lemma routers_open:
  assumes "\<not> au_Enabled cfg"
  shows "Order_Router L et C now verify cfg = Order_Router L et C now never no_auth"
    "Inventory_Router L et1 verify cfg = Inventory_Router L et1 never no_auth"
    "Fulfillment_Router L et2 C topic now verify cfg = Fulfillment_Router L et2 C topic now never no_auth"
proof -
  have "\<not> au_Enabled no_auth" by (simp add: no_auth_def)
  note off = auth_off [OF assms, of verify] auth_off [OF this, of never]
  show "Order_Router L et C now verify cfg = Order_Router L et C now never no_auth"
    by (simp add: fun_eq_iff Order_Router_def order_routes_def off)
  show "Inventory_Router L et1 verify cfg = Inventory_Router L et1 never no_auth"
    by (simp add: fun_eq_iff Inventory_Router_def inv_routes_def off)
  show "Fulfillment_Router L et2 C topic now verify cfg = Fulfillment_Router L et2 C topic now never no_auth"
    by (simp add: fun_eq_iff Fulfillment_Router_def ship_routes_def off)
qed

lemma unknown_flag_off:
  "E ''AUTH_ENABLED'' = Some v \<Longrightarrow> v \<notin> on_values \<Longrightarrow> \<not> au_Enabled (load_auth E issuer audience)"
  unfolding auth_enabled_iff on_values_def by simp

text \<open>C35. A value of AUTH_ENABLED other than the six spellings of true that strconv.ParseBool knows
  ("yes", "on", "enabled") is not refused at start-up: the three services come up and their
  APIs answer as if the authentication were switched off, to callers without any token.\<close>

theorem misspelt_flag_opens_apis:
  assumes "E ''AUTH_ENABLED'' = Some v" and "v \<notin> on_values"
    and "Load_order N E = Inr cfg1" and "Load_inventory N E = Inr cfg2" and "Load_fulfillment N E = Inr cfg3"
  shows "Order_Router L e1 C now verify (cf_Auth cfg1) = Order_Router L e1 C now never no_auth
    \<and> Inventory_Router L e2 verify (ci_Auth cfg2) = Inventory_Router L e2 never no_auth
    \<and> Fulfillment_Router L e3 C topic now verify (cs_Auth cfg3) = Fulfillment_Router L e3 C topic now never no_auth"
  using unknown_flag_off [of E v, OF assms(1,2)] Load_order_valid(6) [OF assms(3)] Load_inventory_valid(4) [OF assms(4)]
    Load_fulfillment_valid(5) [OF assms(5)]
  by (simp add: routers_open)

section \<open>Pool sizes\<close>

lemma sint_int32_of_int64: "sint (int32_of_int64 n) = (sint n + 2 ^ 31) mod 2 ^ 32 - 2 ^ 31"
proof -
  have "sint (word_of_int k :: int32) = (k + 2 ^ 31) mod 2 ^ 32 - 2 ^ 31" for k
    by (simp add: sint_sbintrunc' signed_take_bit_eq_take_bit_shift take_bit_eq_mod)
  then show ?thesis unfolding int32_of_int64_def .
qed

text \<open>C36. A loaded configuration has connection bounds 0 <= MinConns <= MaxConns, but MaxConns is
  DB_MAX_CONNS reduced to 32 bits before it is validated: a value that does not fit is not
  refused but wraps.\<close>

theorem pool_bounds_wrap:
  assumes "Load_order N E = Inr cfg" and "E ''DB_MAX_CONNS'' = Some v" and "Atoi v = Some n"
  shows "0 \<le> sint (dc_MinConns (cf_Database cfg))
    \<and> sint (dc_MinConns (cf_Database cfg)) \<le> sint (dc_MaxConns (cf_Database cfg))
    \<and> sint (dc_MaxConns (cf_Database cfg)) = (sint n + 2 ^ 31) mod 2 ^ 32 - 2 ^ 31"
proof -
  have "dc_MaxConns (cf_Database cfg) = int32_of_int64 n"
    using Load_order_valid(7) [OF assms(1)] assms(2,3) by (simp add: load_database_def envInt_def)
  moreover have "database_ok (cf_Database cfg)" by (rule Load_order_valid(1) [OF assms(1)])
  ultimately show ?thesis unfolding database_ok_def using sint_int32_of_int64 [of n] by metis
qed

section \<open>Witnesses\<close>

definition sample_env :: environ where
  "sample_env = [''AUTH_ENABLED'' \<mapsto> ''yes'', ''DB_MAX_CONNS'' \<mapsto> ''4294967298'']"

definition bare_numlib :: numlib where
  "bare_numlib = \<lparr>nl_ParseFloat = (\<lambda>_. None), nl_ParseDuration = (\<lambda>_. None)\<rparr>"

lemma sample_max: "Atoi ''4294967298'' = Some 4294967298"
  by (simp add: Atoi_def Let_def unpad_def undigits_def char_digit_def)

lemmas loading = env_text_def envInt_def envBool_def envFloat_def envList_def envList_inv_def envList_ship_def
  load_database_def load_telemetry_def load_auth_def bad_database_def bad_auth_def bad_ratio_def Let_def

lemma samples_load:
  "\<exists>c. Load_order bare_numlib sample_env = Inr c" "\<exists>c. Load_inventory bare_numlib sample_env = Inr c"
  "\<exists>c. Load_fulfillment bare_numlib sample_env = Inr c"
  by (simp_all add: Load_order_def Load_inventory_def Load_fulfillment_def validate_def validate_inv_def
      validate_ship_def loading sample_env_def ParseBool_def sample_max sint_int32_of_int64 int32_of_int64_def)

theorem misspelt_flag_opens_apis_witness:
  "\<exists>cfg. Load_order bare_numlib sample_env = (Inr cfg :: 's err + Config)
    \<and> Order_Router std_lib (\<lambda>_. []) \<lparr>ctx_propagated = [], ctx_traceID = []\<rparr> 0 never (cf_Auth cfg) = Order_Router std_lib (\<lambda>_. []) \<lparr>ctx_propagated = [], ctx_traceID = []\<rparr> 0 never no_auth"
proof -
  obtain c1 c2 c3 where l: "Load_order bare_numlib sample_env = (Inr c1 :: 's err + Config)"
    "Load_inventory bare_numlib sample_env = Inr c2" "Load_fulfillment bare_numlib sample_env = Inr c3"
    using samples_load by blast
  have "sample_env ''AUTH_ENABLED'' = Some ''yes''" "''yes'' \<notin> on_values"
    by (simp_all add: sample_env_def on_values_def)
  from misspelt_flag_opens_apis [OF this l, THEN conjunct1] l(1) show ?thesis by blast
qed

theorem pool_bounds_wrap_witness:
  "\<exists>cfg. Load_order bare_numlib sample_env = (Inr cfg :: 's err + Config) \<and> sint (dc_MaxConns (cf_Database cfg)) = 2"
proof -
  obtain c where l: "Load_order bare_numlib sample_env = (Inr c :: 's err + Config)" using samples_load(1) by blast
  have e: "sample_env ''DB_MAX_CONNS'' = Some ''4294967298''" by (simp add: sample_env_def)
  have "sint (4294967298 :: int64) = 4294967298" by simp
  then have "sint (dc_MaxConns (cf_Database c)) = 2"
    using pool_bounds_wrap [OF l e sample_max] by simp
  with l show ?thesis by blast
qed

end
