(* ===== verification/Spec2Isabelle.thy ===== *)
theory Spec2Isabelle
  imports Startup Saga_Ends Order_Relay Order_Projection Saga_Guards Notification_Delivery Fulfillment_Spec Inventory_Calls Migrations Config_Guards
begin

text \<open>
  Verification of the event-driven order fulfilment services (src/services).

  THE PROGRAM. Four Go services keep a database each and talk over HTTP and Kafka. The order
  service stores an order as a stream of events: its API places, confirms, cancels and reads
  orders, a relay publishes the outbox, a projector keeps the read model, and an orchestrator
  drives the saga: reserve stock, take the payment, commit the stock, confirm the order, or
  compensate and cancel. The inventory service holds a stock ledger and the reservations of
  orders. The fulfillment service opens a shipment for each confirmed order and moves it through
  its lifecycle. The notification service turns the events into notifications.

  WHICH THEORY MODELS WHAT, in the order of the imports (paths below src/services).
  \<^item> Prelude, Digits, Wire_Time, Json: the machine integers, byte strings and errors of Go, the
    functions of strings, strconv, time and encoding/json the services use. An error is a value
    of \<open>err\<close>: a sentinel of its package, wrapped by fmt.Errorf or a detail, marked permanent for
    the dead-letter topic, or \<open>Foreign\<close>. What is not in the repository (google/uuid, the Unicode
    tables, how Postgres reads a uuid) is the record \<open>golib\<close>, with its laws in the locales
    \<open>uuid_laws\<close> and \<open>golib_laws\<close>; \<open>std_lib\<close> of Digits is an instance of them.
  \<^item> Effects: programs over a \<open>world\<close>, which is a database, the uuids handed out, a script of what
    happens to the next calls, and the log of messages the brokers accepted. A batch of messages
    is handed over one by one, so any part of a failed one may have been accepted.
  \<^item> Http: requests, responses, routing and the middlewares of order/internal/presentation/http,
    which inventory and fulfillment repeat.
  \<^item> Order_Domain, Order_Lifecycle: order/internal/domain/order. Order_Contracts:
    internal/contracts. Order_Codec, Order_Ports, Order_Store: internal/app/ports.go and
    internal/infra/postgres over the tables of its migrations. Order_Commands: internal/app/command
    and query. Order_Workers: infra/kafka, infra/tracing, infra/deadletter, app/projection and
    worker. Consumers, Projector_Loop and Worker_Loops: the loop of the four workers
    (worker/projector, worker/orchestrator and the consumers of the other two services) and the
    loop of worker/relay (\<open>relay_loop\<close>, over the cycles of Order_Workers). Order_Http: presentation/http. Order_Clients: infra/inventory and infra/payment.
  \<^item> Saga: app/saga and worker/orchestrator. Saga_World: cmd/orchestrator, the orchestrator wired
    to the router of the inventory service, to the order store and to a payment gateway.
  \<^item> Inventory_Domain, Inventory_Store, Inventory_App: the domain, the repository and the use cases
    with their REST API of the inventory service.
  \<^item> Fulfillment_Domain, Fulfillment_Service, Fulfillment_Http: the fulfillment service.
  \<^item> Notification: the notification service.
  \<^item> Migrations: cmd/migrate of all four services. Env_Config: infra/config of all four.
  \<^item> Process, Serving, Startup: cmd/*/main.go of the eight long-running programs, with
    infra/postgres/db.go, infra/telemetry and presentation/http/server.go: what run acquires and
    defers, how the server is drained, and with which settings each part is built.

  WHAT THE LEMMAS SHOW. Order_Concurrency and Order_Race: the event store under any interleaving
  of handlers and relays. Order_Runs, Order_Terminal, Order_Calm, Order_Decide: what placements,
  confirmations, cancellations and replays do, under every fault and without faults, and that an
  order whose events cannot be decoded stays so through all later steps. Order_Relay
  and Order_Projection: the outbox and the read model. Inventory_Ledger, Inventory_Booking,
  Inventory_Races and Inventory_Calls: the stock ledger balances, whatever commits in between;
  Inventory_Quiet and Inventory_Calm: what the calls do where nothing does. Saga_Safety: what the orchestrator
  promises over the contract \<open>saga_services\<close> of its four ports; Saga_Deployed: the deployed
  services keep the contract; Saga_Calm extends the contract by services that answer, Saga_Ends
  shows that the deployed ones do while nothing fails, so that one delivery ends the saga;
  Saga_Samples: a concrete deployment; Saga_Guards: a deployment whose inventory asks for
  authentication, in which each saga ends in a cancellation.
  Saga_Many: the locale \<open>saga_frame\<close>, what of the ports it takes for the saga of one order to leave all
  others alone, and that the deployed ones have it; Order_Errors: no error of theirs is permanent;
  Saga_Topic: so the orchestrator's loop, an instance of \<open>consumer\<close>, decides every order of a topic.
  Fulfillment_Races and Fulfillment_Calm: shipments with and without concurrency. Fulfillment_Spec:
  the lifecycle of a shipment as a machine over three phases, which the calls of the service refine.
  Notification_Delivery: at most one notification per event. Consumers states two contracts of a
  loop over a log: \<open>offset_log\<close>, an invariant that may depend on the offset reached, and its
  sublocale \<open>consumer\<close>, where each message is settled for itself. Projector_Loop interprets the
  first on the projector, whose rows depend on the order of the log, Worker_Loops the second on
  the notification and the fulfillment consumer: every message below a committed offset is dealt
  with, over any number of restarts. Http_Guards and Config_Guards: the
  authentication in front of the APIs (locale \<open>protected_api\<close>, interpreted on the three routers) and
  the settings that turn it on. Serving and Startup: the server's goroutine never blocks, and every
  program closes what it opened and exits with 0 only when told to stop.

  CONVENTIONS. A lemma whose name ends in \<open>_calm\<close> or \<open>_fine\<close> describes runs without faults; the
  others quantify over every script of faults. A fault is a call that fails before or after it
  took effect. Concurrency is explicit: the event store by the step relation \<open>race_step\<close>, whose steps
  are the loads and the saves of any number of handlers; the inventory tables by \<open>w_env\<close>, the
  commits of others before each statement of a READ COMMITTED transaction, which may not touch
  the rows it has locked; the shipments by \<open>w_others\<close> in the same way.

  BOUNDS. Every definition is total. The loops of the code that are bounded have its bounds
  (\<open>maxAttempts\<close> is 4 payment attempts, \<open>maxOCCRetries\<close> is 5 retries of a transaction). The loops
  that run for ever are functions of what they are fed: \<open>relay_Run\<close> takes one list of locked rows
  per cycle, and \<open>relay_loop\<close> with them when the context ends; \<open>worker_Run\<close> takes what each round of the loop meets and yields the highest offset it
  asked the broker to commit, and \<open>worker_sessions\<close> starts it again from any offset up to there, so
  that messages are redelivered. Integers have the width they have in Go:
  amounts, quantities and versions are words, and the theorems say where they wrap.

  NOT MODELLED. Logging and metrics: counters, spans and log
  lines are left out of the models of the code that writes them, but for the access log and the
  counters of the HTTP middlewares, which are parameters. The payment service is a Java program;
  its client is modelled, with the service as a parameter. Copies of a file in another service
  are modelled once: the middlewares, the probes, the dead-letter publisher, the migration
  program and the readers of single variables. ORDER BY compares byte strings, and a
  path of the inventory API is what the client concatenates: the identifiers of orders are uuids, in
  which no character is special in a URL.
\<close>

end
